(* ===== verification/Prelude.thy ===== *)
theory Prelude
  imports Complex_Main "HOL-Library.Word"
begin

text \<open>
  What every component shares: the Python exceptions as one datatype, JSON values, the
  string operations of the standard library the code uses, decimal and hexadecimal text,
  and the theorem collections the component proofs draw on.

  Conventions: a datetime is its number of microseconds since the Unix epoch in UTC
  (\<open>time\<close>), a byte string is a list of 8-bit words, a \<open>str\<close> is a list of characters with
  code points below 256.
\<close>

named_theorems frame_simps \<open>what an operation leaves unchanged\<close>
named_theorems pres_intros \<open>an operation keeps an invariant\<close>

type_synonym byte = "8 word"
type_synonym bytes = "byte list"
type_synonym time = int

abbreviation us_per_second :: int where "us_per_second \<equiv> 1000000"
abbreviation us_per_minute :: int where "us_per_minute \<equiv> 60000000"
abbreviation us_per_hour :: int where "us_per_hour \<equiv> 3600000000"
abbreviation us_per_day :: int where "us_per_day \<equiv> 86400000000"

section \<open>Exceptions\<close>

datatype py_exc =
    ValueError string
  | KeyError string
  | AttributeError
  | TypeError
  | IndexError
  | OverflowError
  | UnicodeEncodeError
  | RuntimeError string
  | ImportError string
  | IntegrityError string
  | MultipleResultsFound
  | RedisError
  | OSError
  | HTTPException int string

text \<open>\<open>Result.scalar_one_or_none()\<close> on the rows a query selects.\<close>

fun scalar_one_or_none :: "'a list \<Rightarrow> py_exc + 'a option" where
  "scalar_one_or_none [] = Inr None"
| "scalar_one_or_none [x] = Inr (Some x)"
| "scalar_one_or_none (x # y # zs) = Inl MultipleResultsFound"

lemma scalar_one_or_none_Some:
  "scalar_one_or_none xs = Inr (Some x) \<longleftrightarrow> xs = [x]"
  by (cases xs rule: scalar_one_or_none.cases) auto

lemma scalar_one_or_none_None:
  "scalar_one_or_none xs = Inr None \<longleftrightarrow> xs = []"
  by (cases xs rule: scalar_one_or_none.cases) auto

text \<open>A unique column selects at most one row.\<close>

lemma unique_key:
  "distinct (map f xs) \<Longrightarrow> filter (\<lambda>x. f x = c) xs = (case find (\<lambda>x. f x = c) xs of None \<Rightarrow> [] | Some x \<Rightarrow> [x])"
proof (induction xs)
  case (Cons a xs)
  have "f a = c \<Longrightarrow> filter (\<lambda>x. f x = c) xs = []"
    using Cons.prems by (auto simp: filter_empty_conv image_iff)
  with Cons show ?case by auto
qed simp

lemma unique_row: "distinct (map f xs) \<Longrightarrow> x \<in> set xs \<Longrightarrow> filter (\<lambda>y. f y = f x) xs = [x]"
proof (induction xs)
  case (Cons a xs)
  have none: "filter (\<lambda>y. f y = f a) xs = []"
    using Cons.prems(1) by (auto simp: filter_empty_conv image_iff)
  show ?case
  proof (cases "x = a")
    case True
    with none show ?thesis by simp
  next
    case False
    with Cons.prems have "f a \<noteq> f x" by auto
    with Cons False show ?thesis by simp
  qed
qed simp

lemma unique_find:
  assumes "distinct (map f xs)" "x \<in> set xs"
  shows "find (\<lambda>y. f y = f x) xs = Some x"
  using unique_key[OF assms(1), of "f x"] unique_row[OF assms] by (simp split: option.splits)

section \<open>JSON values\<close>

text \<open>
  What \<open>json.loads\<close> and a JSONB column give. \<open>JIso t\<close> is the string
  \<open>t.isoformat()\<close> of a datetime. An object is an association list in insertion order.
\<close>

datatype json =
    JNull
  | JBool bool
  | JInt int
  | JStr string
  | JIso time
  | JList "json list"
  | JObj "(string \<times> json) list"

text \<open>Python's truth value of such a value.\<close>

fun truthy :: "json \<Rightarrow> bool" where
  "truthy JNull = False"
| "truthy (JBool b) = b"
| "truthy (JInt i) = (i \<noteq> 0)"
| "truthy (JStr s) = (s \<noteq> [])"
| "truthy (JIso t) = True"
| "truthy (JList xs) = (xs \<noteq> [])"
| "truthy (JObj kvs) = (kvs \<noteq> [])"

text \<open>\<open>v.get(key, default)\<close>: only a dict has the method.\<close>

fun jget :: "json \<Rightarrow> string \<Rightarrow> json \<Rightarrow> py_exc + json" where
  "jget (JObj kvs) k d = Inr (case map_of kvs k of Some v \<Rightarrow> v | None \<Rightarrow> d)"
| "jget _ k d = Inl AttributeError"

text \<open>\<open>v.get(k1, {}).get(k2, default)\<close>.\<close>

definition jget2 :: "json \<Rightarrow> string \<Rightarrow> string \<Rightarrow> json \<Rightarrow> py_exc + json" where
  "jget2 v k1 k2 d = (case jget v k1 (JObj []) of Inl e \<Rightarrow> Inl e | Inr v' \<Rightarrow> jget v' k2 d)"

text \<open>Truth value of an optional string: \<open>None\<close> and the empty string are false.\<close>

fun truthy_str :: "string option \<Rightarrow> bool" where
  "truthy_str None = False"
| "truthy_str (Some s) = (s \<noteq> [])"

lemma truthy_strE: "truthy_str x \<Longrightarrow> (\<And>s. x = Some s \<Longrightarrow> s \<noteq> [] \<Longrightarrow> P) \<Longrightarrow> P"
  by (cases x) auto

text \<open>An optional string or integer as a JSON value.\<close>

fun jstr_opt :: "string option \<Rightarrow> json" where
  "jstr_opt None = JNull" | "jstr_opt (Some s) = JStr s"

fun jint_opt :: "int option \<Rightarrow> json" where
  "jint_opt None = JNull" | "jint_opt (Some i) = JInt i"

fun jiso_opt :: "time option \<Rightarrow> json" where
  "jiso_opt None = JNull" | "jiso_opt (Some t) = JIso t"

text \<open>\<open>x or y\<close> on integers.\<close>

definition int_or :: "int \<Rightarrow> int \<Rightarrow> int" where
  "int_or x y = (if x = 0 then y else x)"

lemma int_or_nonneg: "0 \<le> x \<Longrightarrow> 0 \<le> y \<Longrightarrow> 0 \<le> int_or x y"
  by (simp add: int_or_def)

section \<open>Strings\<close>

definition starts_with :: "string \<Rightarrow> string \<Rightarrow> bool" where
  "starts_with p s = (take (length p) s = p)"

definition ends_with :: "string \<Rightarrow> string \<Rightarrow> bool" where
  "ends_with p s = starts_with (rev p) (rev s)"

text \<open>\<open>sub in text\<close>.\<close>

fun contains :: "string \<Rightarrow> string \<Rightarrow> bool" where
  "contains sub [] = (sub = [])"
| "contains sub (c # cs) = (starts_with sub (c # cs) \<or> contains sub cs)"

lemma starts_with_append [simp]: "starts_with p (p @ s)"
  by (simp add: starts_with_def)

lemma contains_append: "contains sub (pre @ sub @ post)"
proof (induction pre)
  case Nil
  have "starts_with sub (sub @ post)" by simp
  then show ?case by (cases "sub @ post") auto
qed simp

text \<open>\<open>text.rstrip(c)\<close> for one character, \<open>text.strip()\<close> for whitespace.\<close>

definition rstrip_char :: "char \<Rightarrow> string \<Rightarrow> string" where
  "rstrip_char c s = rev (dropWhile (\<lambda>x. x = c) (rev s))"

definition is_space :: "char \<Rightarrow> bool" where
  "is_space c = (let n = (of_char c :: nat) in (9 \<le> n \<and> n \<le> 13) \<or> (28 \<le> n \<and> n \<le> 32) \<or> n = 133 \<or> n = 160)"

definition lstrip :: "string \<Rightarrow> string" where
  "lstrip s = dropWhile is_space s"

definition rstrip :: "string \<Rightarrow> string" where
  "rstrip s = rev (dropWhile is_space (rev s))"

definition strip :: "string \<Rightarrow> string" where
  "strip s = lstrip (rstrip s)"

text \<open>\<open>text.split(sep)\<close> for a one-character separator: always at least one part.\<close>

fun split_char :: "char \<Rightarrow> string \<Rightarrow> string list" where
  "split_char sep [] = [[]]"
| "split_char sep (c # cs) =
     (if c = sep then [] # split_char sep cs
      else (case split_char sep cs of
              [] \<Rightarrow> [[c]]
            | p # ps \<Rightarrow> (c # p) # ps))"

lemma split_char_nonempty [simp]: "split_char sep s \<noteq> []"
  by (induction s) (auto split: list.splits)

lemma split_char_no_sep: "sep \<notin> set s \<Longrightarrow> split_char sep s = [s]"
  by (induction s) auto

lemma split_char_append:
  "sep \<notin> set p \<Longrightarrow> split_char sep (p @ sep # s) = p # split_char sep s"
  by (induction p) auto

text \<open>\<open>text.split(sep, 1)\<close>: the part before the first separator, and what follows it.\<close>

definition split_once :: "char \<Rightarrow> string \<Rightarrow> string \<times> string option" where
  "split_once sep s =
     (let pre = takeWhile (\<lambda>c. c \<noteq> sep) s; rest = dropWhile (\<lambda>c. c \<noteq> sep) s
      in (pre, if rest = [] then None else Some (tl rest)))"

text \<open>\<open>text.upper()\<close> on the ASCII letters.\<close>

definition upper_char :: "char \<Rightarrow> char" where
  "upper_char c =
     (let n = (of_char c :: nat) in if 97 \<le> n \<and> n \<le> 122 then char_of (n - 32) else c)"

definition upper :: "string \<Rightarrow> string" where
  "upper s = map upper_char s"

lemma length_upper [simp]: "length (upper s) = length s"
  by (simp add: upper_def)

lemma upper_append [simp]: "upper (s @ t) = upper s @ upper t"
  by (simp add: upper_def)

lemma upper_char_idem [simp]: "upper_char (upper_char c) = upper_char c"
  by (auto simp: upper_char_def Let_def)

lemma upper_idem [simp]: "upper (upper s) = upper s"
  by (simp add: upper_def)

text \<open>Latin-1 text and its bytes; \<open>str.encode()\<close> (UTF-8) for the code points below 256.\<close>

definition latin1_decode :: "bytes \<Rightarrow> string" where
  "latin1_decode bs = map (\<lambda>b. char_of (unat b)) bs"

definition latin1_encode :: "string \<Rightarrow> bytes" where
  "latin1_encode s = map (\<lambda>c. word_of_nat (of_char c)) s"

definition utf8_char :: "char \<Rightarrow> bytes" where
  "utf8_char c =
     (let n = (of_char c :: nat)
      in if n < 128 then [word_of_nat n]
         else [word_of_nat (192 + n div 64), word_of_nat (128 + n mod 64)])"

definition encode :: "string \<Rightarrow> bytes" where
  "encode s = concat (map utf8_char s)"

definition ascii :: "string \<Rightarrow> bool" where
  "ascii s = list_all (\<lambda>c. (of_char c :: nat) < 128) s"

lemma encode_append [simp]: "encode (s @ t) = encode s @ encode t"
  by (simp add: encode_def)

lemma encode_ascii: "ascii s \<Longrightarrow> encode s = latin1_encode s"
  by (induction s) (auto simp: encode_def latin1_encode_def ascii_def utf8_char_def)

lemma unat_word_of_char [simp]: "unat (word_of_nat (of_char c) :: byte) = of_char c"
  by (simp add: unat_of_nat of_char_mod_256)

lemma latin1_roundtrip [simp]: "latin1_decode (latin1_encode s) = s"
  by (induction s) (auto simp: latin1_decode_def latin1_encode_def)

lemma latin1_decode_append [simp]: "latin1_decode (a @ b) = latin1_decode a @ latin1_decode b"
  by (simp add: latin1_decode_def)

lemma length_latin1_encode [simp]: "length (latin1_encode s) = length s"
  by (simp add: latin1_encode_def)

section \<open>Decimal text\<close>

definition digit_char :: "nat \<Rightarrow> char" where
  "digit_char n = char_of (48 + n)"

definition is_digit :: "char \<Rightarrow> bool" where
  "is_digit c = (let n = (of_char c :: nat) in 48 \<le> n \<and> n \<le> 57)"

definition digit_val :: "char \<Rightarrow> nat" where
  "digit_val c = of_char c - 48"

lemma of_char_digit_char [simp]: "n < 10 \<Longrightarrow> (of_char (digit_char n) :: nat) = 48 + n"
  by (simp add: digit_char_def)

lemma digit_val_digit_char [simp]: "n < 10 \<Longrightarrow> digit_val (digit_char n) = n"
  by (simp add: digit_val_def)

lemma is_digit_digit_char [simp]: "n < 10 \<Longrightarrow> is_digit (digit_char n)"
  by (simp add: is_digit_def)

text \<open>\<open>str(n)\<close> of a natural number, and its value read back.\<close>

fun str_of_nat :: "nat \<Rightarrow> string" where
  "str_of_nat n = (if n < 10 then [digit_char n] else str_of_nat (n div 10) @ [digit_char (n mod 10)])"

declare str_of_nat.simps [simp del]

definition dec_val :: "string \<Rightarrow> nat" where
  "dec_val s = foldl (\<lambda>acc c. 10 * acc + digit_val c) 0 s"

lemma dec_val_snoc: "dec_val (s @ [c]) = 10 * dec_val s + digit_val c"
  by (simp add: dec_val_def)

lemma dec_val_Nil [simp]: "dec_val [] = 0"
  by (simp add: dec_val_def)

lemma dec_val_str_of_nat [simp]: "dec_val (str_of_nat n) = n"
proof (induction n rule: str_of_nat.induct)
  case (1 n)
  then show ?case
    by (subst str_of_nat.simps) (auto simp: dec_val_snoc dec_val_def digit_val_digit_char)
qed

lemma str_of_nat_digits: "list_all is_digit (str_of_nat n)"
proof (induction n rule: str_of_nat.induct)
  case (1 n)
  then show ?case by (subst str_of_nat.simps) auto
qed

lemma str_of_nat_nonempty [simp]: "str_of_nat n \<noteq> []"
  by (subst str_of_nat.simps) simp

lemma str_of_nat_length: "n < 10 ^ k \<Longrightarrow> 0 < k \<Longrightarrow> length (str_of_nat n) \<le> k"
proof (induction n arbitrary: k rule: str_of_nat.induct)
  case (1 n)
  show ?case
  proof (cases "n < 10")
    case True
    with "1.prems" show ?thesis by (subst str_of_nat.simps) simp
  next
    case False
    with "1.prems" obtain k' where k: "k = Suc k'" "0 < k'"
      by (cases k; cases "k - 1") auto
    with "1.prems" have "n div 10 < 10 ^ k'" by (simp add: div_less_iff_less_mult)
    with False k "1.IH" have "length (str_of_nat (n div 10)) \<le> k'" by simp
    with False k show ?thesis by (subst str_of_nat.simps) simp
  qed
qed

definition str_of_int :: "int \<Rightarrow> string" where
  "str_of_int i = (if i < 0 then CHR ''-'' # str_of_nat (nat (- i)) else str_of_nat (nat i))"

text \<open>\<open>str(v)\<close> of a value; the argument gives that of values that are neither text nor integers.\<close>

fun json_text :: "(json \<Rightarrow> string) \<Rightarrow> json \<Rightarrow> string" where
  "json_text other (JStr s) = s"
| "json_text other (JInt i) = str_of_int i"
| "json_text other v = other v"

text \<open>\<open>s.zfill(w)\<close> and \<open>f"{i:0wd}"\<close>: zeros go after a leading sign.\<close>

definition zeros :: "nat \<Rightarrow> string" where
  "zeros n = replicate n (CHR ''0'')"

fun zfill :: "nat \<Rightarrow> string \<Rightarrow> string" where
  "zfill w [] = zeros w"
| "zfill w (c # cs) =
     (let pad = zeros (w - length (c # cs))
      in if c = CHR ''+'' \<or> c = CHR ''-'' then c # pad @ cs else pad @ c # cs)"

definition fmt0 :: "nat \<Rightarrow> int \<Rightarrow> string" where
  "fmt0 w i = zfill w (str_of_int i)"

lemma length_zfill: "length (zfill w s) = max w (length s)"
  by (cases s) (auto simp: zeros_def Let_def)

lemma dec_val_zeros [simp]: "dec_val (zeros k @ s) = dec_val s"
  by (induction k) (auto simp: zeros_def dec_val_def digit_val_def)

lemma fmt0_nonneg:
  assumes "0 \<le> i"
  shows "fmt0 w i = zeros (w - length (str_of_nat (nat i))) @ str_of_nat (nat i)"
proof -
  obtain c cs where s: "str_of_nat (nat i) = c # cs"
    by (cases "str_of_nat (nat i)") auto
  with str_of_nat_digits[of "nat i"] have "c \<noteq> CHR ''+''" "c \<noteq> CHR ''-''"
    by (auto simp: is_digit_def)
  with s assms show ?thesis by (simp add: fmt0_def str_of_int_def Let_def)
qed

lemma fmt0_digits: "0 \<le> i \<Longrightarrow> list_all is_digit (fmt0 w i)"
  using str_of_nat_digits[of "nat i"]
  by (auto simp: fmt0_nonneg zeros_def list_all_iff) (simp add: is_digit_def)

lemma dec_val_fmt0: "0 \<le> i \<Longrightarrow> int (dec_val (fmt0 w i)) = i"
  by (simp add: fmt0_nonneg)

lemma length_fmt0:
  assumes "0 \<le> i" "i < 10 ^ w" "0 < w"
  shows "length (fmt0 w i) = w"
proof -
  from assms have "nat i < 10 ^ w" by (simp add: nat_less_iff)
  with \<open>0 < w\<close> have "length (str_of_nat (nat i)) \<le> w" by (rule str_of_nat_length[rotated])
  with assms show ?thesis by (simp add: fmt0_nonneg zeros_def)
qed

text \<open>
  \<open>int(s)\<close>: surrounding whitespace, an optional sign, digits with single underscores
  between them; \<open>None\<close> is its \<open>ValueError\<close>.
\<close>

fun digits_us :: "string \<Rightarrow> string option" where
  "digits_us [] = None"
| "digits_us [c] = (if is_digit c then Some [c] else None)"
| "digits_us (c # d # cs) =
     (if \<not> is_digit c then None
      else if d = CHR ''_'' then map_option (Cons c) (digits_us cs)
      else map_option (Cons c) (digits_us (d # cs)))"

definition py_int :: "string \<Rightarrow> int option" where
  "py_int s =
     (case strip s of [] \<Rightarrow> None
      | c # cs \<Rightarrow>
        if c = CHR ''-'' then map_option (\<lambda>d. - int (dec_val d)) (digits_us cs)
        else if c = CHR ''+'' then map_option (\<lambda>d. int (dec_val d)) (digits_us cs)
        else map_option (\<lambda>d. int (dec_val d)) (digits_us (c # cs)))"

lemma digits_us_digits: "s \<noteq> [] \<Longrightarrow> list_all is_digit s \<Longrightarrow> digits_us s = Some s"
  by (induction s rule: digits_us.induct) (auto simp: is_digit_def)

lemma is_digit_not_space: "is_digit c \<Longrightarrow> \<not> is_space c"
  by (simp add: is_digit_def is_space_def Let_def)

lemma strip_noop: "list_all (\<lambda>c. \<not> is_space c) s \<Longrightarrow> strip s = s"
proof -
  assume *: "list_all (\<lambda>c. \<not> is_space c) s"
  then have "dropWhile is_space (rev s) = rev s"
    by (cases "rev s") (auto simp: list_all_iff dest: arg_cong[of _ _ set])
  moreover from * have "dropWhile is_space s = s" by (cases s) auto
  ultimately show ?thesis by (simp add: strip_def lstrip_def rstrip_def)
qed

lemma py_int_digits:
  assumes "s \<noteq> []" "list_all is_digit s"
  shows "py_int s = Some (int (dec_val s))"
proof -
  have "strip s = s"
    using assms(2) by (intro strip_noop) (auto simp: list_all_iff is_digit_not_space)
  with assms digits_us_digits[OF assms] show ?thesis
    by (cases s) (auto simp: py_int_def is_digit_def)
qed

text \<open>\<open>repr(s)\<close> of a string, as it appears in the messages of \<open>ValueError\<close>.\<close>

definition repr_char :: "char \<Rightarrow> char \<Rightarrow> string" where
  "repr_char q c =
     (let n = (of_char c :: nat); bs = char_of (92::nat); hex = (\<lambda>d. if d < 10 then digit_char d
           else char_of (87 + d))
      in if c = q \<or> c = bs then [bs, c]
         else if n = 9 then [bs, CHR ''t''] else if n = 10 then [bs, CHR ''n'']
         else if n = 13 then [bs, CHR ''r'']
         else if n < 32 \<or> (127 \<le> n \<and> n \<le> 160) \<or> n = 173
              then [bs, CHR ''x'', hex (n div 16), hex (n mod 16)]
         else [c])"

definition py_repr :: "string \<Rightarrow> string" where
  "py_repr s =
     (let sq = char_of (39::nat); dq = CHR 0x22;
          q = (if sq \<in> set s \<and> dq \<notin> set s then dq else sq)
      in q # concat (map (repr_char q) s) @ [q])"

definition int_of_str :: "string \<Rightarrow> py_exc + int" where
  "int_of_str s = (case py_int s of Some i \<Rightarrow> Inr i
     | None \<Rightarrow> Inl (ValueError (''invalid literal for int() with base 10: '' @ py_repr s)))"

text \<open>
  Whether \<open>float(s)\<close> succeeds: an optional sign, then \<open>inf\<close>, \<open>infinity\<close> or \<open>nan\<close>, or digits with
  an optional point and exponent, underscores only between digits.
\<close>

definition lower :: "string \<Rightarrow> string" where
  "lower s = map (\<lambda>c. let n = (of_char c :: nat)
     in if 65 \<le> n \<and> n \<le> 90 then char_of (n + 32) else c) s"

definition unsigned :: "string \<Rightarrow> string" where
  "unsigned s = (case s of [] \<Rightarrow> [] | c # cs \<Rightarrow> if c = CHR ''+'' \<or> c = CHR ''-'' then cs else s)"

definition py_float_ok :: "string \<Rightarrow> bool" where
  "py_float_ok s =
     (let t = lower (unsigned (strip s));
          mant = fst (split_once (CHR ''e'') t);
          expo = snd (split_once (CHR ''e'') t);
          whole = fst (split_once (CHR ''.'') mant);
          frac = snd (split_once (CHR ''.'') mant);
          ok = (\<lambda>d. digits_us d \<noteq> None)
      in t \<in> {''inf'', ''infinity'', ''nan''} \<or>
         (case frac of None \<Rightarrow> ok whole
          | Some f \<Rightarrow> (ok whole \<or> ok f) \<and> (whole = [] \<or> ok whole) \<and> (f = [] \<or> ok f)) \<and>
         (case expo of None \<Rightarrow> True | Some x \<Rightarrow> ok (unsigned x)))"

section \<open>Hexadecimal text\<close>

definition hex_digit :: "nat \<Rightarrow> char" where
  "hex_digit n = (if n < 10 then char_of (48 + n) else char_of (87 + n))"

text \<open>\<open>bs.hex()\<close>: two lower-case digits a byte.\<close>

definition hex_of_bytes :: "bytes \<Rightarrow> string" where
  "hex_of_bytes bs = concat (map (\<lambda>b. [hex_digit (unat b div 16), hex_digit (unat b mod 16)]) bs)"

lemma length_hex_of_bytes [simp]: "length (hex_of_bytes bs) = 2 * length bs"
  by (induction bs) (auto simp: hex_of_bytes_def)

definition is_hex :: "char \<Rightarrow> bool" where
  "is_hex c = (let n = (of_char c :: nat)
     in (48 \<le> n \<and> n \<le> 57) \<or> (97 \<le> n \<and> n \<le> 102) \<or> (65 \<le> n \<and> n \<le> 70))"

definition hex_val :: "char \<Rightarrow> nat" where
  "hex_val c = (let n = (of_char c :: nat)
     in if 97 \<le> n then n - 87 else if 65 \<le> n then n - 55 else n - 48)"

text \<open>\<open>int(s, 16)\<close> on a string of hexadecimal digits.\<close>

definition hex_to_nat :: "string \<Rightarrow> nat" where
  "hex_to_nat s = foldl (\<lambda>acc c. 16 * acc + hex_val c) 0 s"

text \<open>\<open>bytes.fromhex(s)\<close> on an even number of hexadecimal digits.\<close>

fun bytes_of_hex :: "string \<Rightarrow> bytes" where
  "bytes_of_hex (a # b # cs) = word_of_nat (16 * hex_val a + hex_val b) # bytes_of_hex cs"
| "bytes_of_hex _ = []"

lemma hex_val_hex_digit: "n < 16 \<Longrightarrow> hex_val (hex_digit n) = n"
  by (auto simp: hex_val_def hex_digit_def Let_def)

lemma is_hex_hex_digit: "n < 16 \<Longrightarrow> is_hex (hex_digit n)"
  by (auto simp: is_hex_def hex_digit_def Let_def)

lemma unat_byte_bound: "unat (b :: byte) < 256"
  using unsigned_less[of b] by simp

lemma bytes_of_hex_roundtrip: "bytes_of_hex (hex_of_bytes bs) = bs"
proof (induction bs)
  case Nil
  show ?case by (simp add: hex_of_bytes_def)
next
  case (Cons b bs)
  have "unat b div 16 < 16" using unat_byte_bound[of b] by simp
  then have "hex_val (hex_digit (unat b div 16)) = unat b div 16"
    "hex_val (hex_digit (unat b mod 16)) = unat b mod 16"
    by (simp_all add: hex_val_hex_digit)
  moreover have "16 * (unat b div 16) + unat b mod 16 = unat b" by simp
  ultimately show ?case using Cons
    by (simp add: hex_of_bytes_def del: mult_div_mod_eq)
qed

end
