(* ===== verification/Rate_Limit.thy ===== *)
theory Rate_Limit
  imports Prelude
begin

text \<open>
  The two request limiters: the middleware per client and path (\<open>api/app/middleware/rate_limit.py\<close>)
  with its in-process fallback, and the budget of the booth endpoints per gate
  (\<open>api/app/services/rate_limit_booth.py\<close>).

  A Redis sorted set of timestamps is the ascending list of its scores: the member is
  \<open>str(now)\<close>, so equal times are one member. A call to Redis may fail at any point:
  \<open>n\<close> is the number of Redis calls that succeed before the connection is lost.
  The interface \<open>sliding_window\<close> is the contract all three limiters meet.
\<close>

section \<open>Sorted sets\<close>

type_synonym zsets = "string \<Rightarrow> (time list \<times> time option) option"

text \<open>The live members of a key: none once its expiry has passed.\<close>

definition zmembers :: "zsets \<Rightarrow> string \<Rightarrow> time \<Rightarrow> time list" where
  "zmembers z key now =
     (case z key of None \<Rightarrow> []
      | Some (ts, None) \<Rightarrow> ts
      | Some (ts, Some e) \<Rightarrow> if e \<le> now then [] else ts)"

definition zexpiry :: "zsets \<Rightarrow> string \<Rightarrow> time \<Rightarrow> time option" where
  "zexpiry z key now =
     (case z key of Some (ts, Some e) \<Rightarrow> if e \<le> now then None else Some e | _ \<Rightarrow> None)"

text \<open>\<open>ZREMRANGEBYSCORE key 0 highest\<close>, \<open>ZADD key {str(now): now}\<close>, \<open>EXPIRE key s\<close>.\<close>

definition zremrangebyscore :: "string \<Rightarrow> time \<Rightarrow> time \<Rightarrow> zsets \<Rightarrow> zsets" where
  "zremrangebyscore key highest now z =
     (let ts = filter (\<lambda>t. \<not> (0 \<le> t \<and> t \<le> highest)) (zmembers z key now)
      in z(key := if ts = [] then None else Some (ts, zexpiry z key now)))"

definition zadd :: "string \<Rightarrow> time \<Rightarrow> zsets \<Rightarrow> zsets" where
  "zadd key now z =
     (let ts = zmembers z key now
      in z(key \<mapsto> (if now \<in> set ts then ts else insort now ts, zexpiry z key now)))"

definition expire :: "string \<Rightarrow> time \<Rightarrow> time \<Rightarrow> zsets \<Rightarrow> zsets" where
  "expire key after now z =
     (case z key of None \<Rightarrow> z | Some (ts, _) \<Rightarrow> z(key \<mapsto> (ts, Some (now + after))))"

text \<open>\<open>int(d)\<close> of a duration in seconds: truncation towards zero.\<close>

definition int_seconds :: "time \<Rightarrow> int" where
  "int_seconds d = (if 0 \<le> d then d div us_per_second else - ((- d) div us_per_second))"

definition retry_after_of :: "time \<Rightarrow> int \<Rightarrow> time \<Rightarrow> int" where
  "retry_after_of oldest win now =
     max 1 (int_seconds (oldest + win * us_per_second - now))"

section \<open>The middleware\<close>

type_synonym limits = "(string \<times> (nat \<times> int)) list"

definition DEFAULT_LIMITS :: limits where
  "DEFAULT_LIMITS =
     [(''/api/auth/login'', (5, 60)), (''/api/auth/refresh'', (10, 60)),
      (''/api/payments/'', (30, 60))]"

definition DEFAULT_FALLBACK :: "nat \<times> int" where
  "DEFAULT_FALLBACK = (100, 60)"

definition EXEMPT_PATHS :: "string list" where
  "EXEMPT_PATHS = [''/api/health'', ''/metrics'', ''/docs'', ''/openapi.json'']"

text \<open>The middleware object, with the Redis it talks to.\<close>

record limiter =
  lim_limits :: limits
  lim_fallback :: "nat \<times> int"
  mem_buckets :: "string \<Rightarrow> time list"
  redis_z :: zsets

definition init_limiter :: "limits option \<Rightarrow> (nat \<times> int) option \<Rightarrow> zsets \<Rightarrow> limiter" where
  "init_limiter limits fallback_limit z =
     \<lparr>lim_limits = (case limits of None \<Rightarrow> DEFAULT_LIMITS
                    | Some l \<Rightarrow> if l = [] then DEFAULT_LIMITS else l),
      lim_fallback = (case fallback_limit of None \<Rightarrow> DEFAULT_FALLBACK | Some f \<Rightarrow> f),
      mem_buckets = (\<lambda>_. []), redis_z = z\<rparr>"

definition check_limit_memory ::
  "string \<Rightarrow> nat \<Rightarrow> int \<Rightarrow> time \<Rightarrow> limiter \<Rightarrow> (bool \<times> int) \<times> limiter" where
  "check_limit_memory key max_requests win now m =
     (let window_start = now - win * us_per_second;
          bucket = filter (\<lambda>ts. window_start < ts) (mem_buckets m key)
      in if max_requests \<le> length bucket
         then ((False, retry_after_of (case bucket of [] \<Rightarrow> now | t # _ \<Rightarrow> t) win now),
               m\<lparr>mem_buckets := (mem_buckets m)(key := bucket)\<rparr>)
         else ((True, 0), m\<lparr>mem_buckets := (mem_buckets m)(key := bucket @ [now])\<rparr>))"

text \<open>
  The Redis calls in order: connect, ZREMRANGEBYSCORE, ZCARD, then ZRANGE, or ZADD and EXPIRE.
  The fallback reads the clock again (\<open>now'\<close>).
\<close>

definition check_limit ::
  "nat \<Rightarrow> string \<Rightarrow> nat \<Rightarrow> int \<Rightarrow> time \<Rightarrow> time \<Rightarrow> limiter \<Rightarrow> (bool \<times> int) \<times> limiter" where
  "check_limit n redis_key max_requests win now now' m =
     (let fallback = check_limit_memory redis_key max_requests win now';
          window_start = now - win * us_per_second
      in if n < 2 then fallback m
         else
           let m = m\<lparr>redis_z := zremrangebyscore redis_key window_start now (redis_z m)\<rparr>
           in if n < 3 then fallback m
              else
                let current = zmembers (redis_z m) redis_key now
                in if max_requests \<le> length current
                   then if n < 4 then fallback m
                        else ((False, case current of [] \<Rightarrow> win
                                      | oldest # _ \<Rightarrow> retry_after_of oldest win now), m)
                   else if n < 4 then fallback m
                   else
                     let m = m\<lparr>redis_z := zadd redis_key now (redis_z m)\<rparr>
                     in if n < 5 then fallback m
                        else ((True, 0),
                              m\<lparr>redis_z := expire redis_key ((win + 1) * us_per_second) now
                                 (redis_z m)\<rparr>))"

definition get_client_ip :: "string option \<Rightarrow> string option \<Rightarrow> string" where
  "get_client_ip forwarded client_host =
     (case forwarded of
        None \<Rightarrow> (case client_host of None \<Rightarrow> ''unknown'' | Some h \<Rightarrow> h)
      | Some f \<Rightarrow>
        if f = [] then (case client_host of None \<Rightarrow> ''unknown'' | Some h \<Rightarrow> h)
        else strip (hd (split_char (CHR '','') f)))"

definition match_limit :: "limits \<Rightarrow> string \<Rightarrow> string option" where
  "match_limit limits path = find (\<lambda>key. starts_with key path) (map fst limits)"

text \<open>What the middleware answers: the 429 response, or the wrapped response, whose headers
  it extends unless the path is exempt.\<close>

datatype limit_reply =
    TooManyRequests int nat int
  | Forwarded "(nat \<times> int) option"

definition is_exempt :: "string \<Rightarrow> bool" where
  "is_exempt path \<longleftrightarrow> list_ex (\<lambda>e. starts_with e path) EXEMPT_PATHS"

definition limit_for :: "limits \<Rightarrow> nat \<times> int \<Rightarrow> string option \<Rightarrow> nat \<times> int" where
  "limit_for limits fallback limit_key =
     (case limit_key of None \<Rightarrow> fallback
      | Some k \<Rightarrow> (case map_of limits k of None \<Rightarrow> fallback | Some l \<Rightarrow> l))"

definition redis_key_for :: "string \<Rightarrow> string option \<Rightarrow> string" where
  "redis_key_for client_ip limit_key =
     ''rate_limit:'' @ client_ip @ '':'' @
     (if truthy_str limit_key then the limit_key else ''default'')"

definition dispatch ::
  "nat \<Rightarrow> string \<Rightarrow> string option \<Rightarrow> string option \<Rightarrow> time \<Rightarrow> time \<Rightarrow> limiter \<Rightarrow>
   limit_reply \<times> limiter" where
  "dispatch n path forwarded client_host now now' m =
     (if is_exempt path then (Forwarded None, m)
      else
        let client_ip = get_client_ip forwarded client_host;
            limit_key = match_limit (lim_limits m) path;
            lim = limit_for (lim_limits m) (lim_fallback m) limit_key
        in case check_limit n (redis_key_for client_ip limit_key) (fst lim) (snd lim) now now' m of
             ((allowed, retry_after), m) \<Rightarrow>
               if \<not> allowed then (TooManyRequests retry_after (fst lim) (snd lim), m)
               else (Forwarded (Some lim), m))"

section \<open>The booth budget\<close>

definition BOOTH_LIMIT_MAX :: nat where "BOOTH_LIMIT_MAX = 60"
definition BOOTH_LIMIT_WINDOW :: int where "BOOTH_LIMIT_WINDOW = 60"

text \<open>\<open>Some retry_after\<close> is the 429 exception; any Redis error lets the request through.\<close>

definition enforce_booth_rate_limit ::
  "nat \<Rightarrow> string \<Rightarrow> time \<Rightarrow> zsets \<Rightarrow> int option \<times> zsets" where
  "enforce_booth_rate_limit n gid now z =
     (if gid = [] then (None, z)
      else
        let key = ''rate_limit:booth:'' @ gid;
            window_start = now - BOOTH_LIMIT_WINDOW * us_per_second
        in if n < 2 then (None, z)
           else
             let z = zremrangebyscore key window_start now z
             in if n < 3 then (None, z)
                else
                  let current = zmembers z key now
                  in if BOOTH_LIMIT_MAX \<le> length current
                     then if n < 4 then (None, z)
                          else (Some (case current of [] \<Rightarrow> max 1 BOOTH_LIMIT_WINDOW
                                 | oldest # _ \<Rightarrow> retry_after_of oldest BOOTH_LIMIT_WINDOW now), z)
                     else if n < 4 then (None, z)
                     else
                       let z = zadd key now z
                       in if n < 5 then (None, z)
                          else (None, expire key ((BOOTH_LIMIT_WINDOW + 1) * us_per_second) now z))"

section \<open>The contract\<close>

text \<open>What counts at \<open>now\<close> of a history of admissions.\<close>

definition live :: "time \<Rightarrow> time \<Rightarrow> time list \<Rightarrow> time list" where
  "live win now h = filter (\<lambda>t. now - win < t) h"

text \<open>The times at which a limiter admits a request, out of a run of requests.\<close>

fun admitted :: "(time \<Rightarrow> 's \<Rightarrow> bool \<times> 's) \<Rightarrow> time list \<Rightarrow> 's \<Rightarrow> time list" where
  "admitted check [] s = []"
| "admitted check (t # ts) s =
     (case check t s of (ok, s') \<Rightarrow>
        if ok then t # admitted check ts s' else admitted check ts s')"

text \<open>How many of them a window of length \<open>win\<close> ending at \<open>a\<close> holds.\<close>

definition in_window :: "time \<Rightarrow> time \<Rightarrow> time list \<Rightarrow> nat" where
  "in_window win a h = length (filter (\<lambda>t. a - win < t \<and> t \<le> a) h)"

text \<open>
  \<open>tracks t0 past s\<close>: after time \<open>t0\<close> the state \<open>s\<close> knows of the admissions \<open>past\<close> all that
  the window needs. The law: a request is admitted exactly when fewer than \<open>limit\<close>
  admissions are live.
\<close>

locale sliding_window =
  fixes check :: "time \<Rightarrow> 's \<Rightarrow> bool \<times> 's"
    and tracks :: "time \<Rightarrow> time list \<Rightarrow> 's \<Rightarrow> bool"
    and limit :: nat
    and win :: time
  assumes admits: "tracks t0 past s \<Longrightarrow> 0 \<le> t0 \<Longrightarrow> t0 < now \<Longrightarrow> \<forall>p \<in> set past. p \<le> t0 \<Longrightarrow>
      check now s = (ok, s') \<Longrightarrow> ok \<longleftrightarrow> length (live win now past) < limit"
    and keeps: "tracks t0 past s \<Longrightarrow> 0 \<le> t0 \<Longrightarrow> t0 < now \<Longrightarrow> \<forall>p \<in> set past. p \<le> t0 \<Longrightarrow>
      check now s = (ok, s') \<Longrightarrow> tracks now (if ok then past @ [now] else past) s'"
begin

lemma window_step:
  assumes "\<forall>a. in_window win a past \<le> limit" "length (live win now past) < limit"
    "\<forall>p \<in> set past. p < now"
  shows "in_window win a (past @ [now]) \<le> limit"
proof (cases "a - win < now \<and> now \<le> a")
  case True
  then have "filter (\<lambda>t. a - win < t \<and> t \<le> a) past = filter (\<lambda>t. a - win < t \<and> t \<le> a) (live win now past)"
    using assms(3) by (auto simp: live_def intro!: filter_cong)
  then have "in_window win a past \<le> length (live win now past)"
    by (simp add: in_window_def)
  with True assms(2) show ?thesis by (simp add: in_window_def)
next
  case False
  with assms(1) show ?thesis by (auto simp: in_window_def)
qed

lemma admitted_window:
  assumes "tracks t0 past s" "0 \<le> t0" "\<forall>p \<in> set past. p \<le> t0" "sorted_wrt (<) (t0 # ts)"
    "\<forall>a. in_window win a past \<le> limit"
  shows "in_window win a (past @ admitted check ts s) \<le> limit"
  using assms
proof (induction ts arbitrary: t0 past s)
  case Nil
  then show ?case by simp
next
  case (Cons t ts)
  obtain ok s' where c: "check t s = (ok, s')" by fastforce
  have t: "t0 < t" "sorted_wrt (<) (t # ts)" using Cons.prems(4) by auto
  note law = admits[OF Cons.prems(1,2) t(1) Cons.prems(3) c]
    keeps[OF Cons.prems(1,2) t(1) Cons.prems(3) c]
  show ?case
  proof (cases ok)
    case True
    have "\<forall>a. in_window win a (past @ [t]) \<le> limit"
      using window_step[OF Cons.prems(5)] law(1) True t(1) Cons.prems(3) by fastforce
    with Cons.IH[of t "past @ [t]" s'] law(2) True t Cons.prems(2,3) c show ?thesis
      by fastforce
  next
    case False
    with Cons.IH[of t past s'] law(2) t Cons.prems(2,3,5) c show ?thesis by fastforce
  qed
qed

lemma admitted_window_fresh:
  assumes "tracks 0 [] s" "sorted_wrt (<) (0 # ts)"
  shows "in_window win a (admitted check ts s) \<le> limit"
  using admitted_window[OF assms(1) _ _ assms(2), of a] by (simp add: in_window_def)

lemma admits_after_quiet:
  assumes "tracks t0 past s" "0 \<le> t0" "\<forall>p \<in> set past. p \<le> t0" "t0 + win \<le> now" "t0 < now"
    "0 < limit"
  shows "fst (check now s)"
proof -
  obtain ok s' where c: "check now s = (ok, s')" by fastforce
  have "live win now past = []" using assms(3,4) by (auto simp: live_def filter_empty_conv)
  with admits[OF assms(1,2,5,3) c] assms(6) c show ?thesis by simp
qed

end

section \<open>The limiters meet it\<close>

text \<open>The fallback: the bucket is the history, trimmed.\<close>

definition mem_check :: "string \<Rightarrow> nat \<Rightarrow> int \<Rightarrow> time \<Rightarrow> limiter \<Rightarrow> bool \<times> limiter" where
  "mem_check key limit win now m =
     (case check_limit_memory key limit win now m of ((ok, _), m') \<Rightarrow> (ok, m'))"

definition mem_tracks :: "string \<Rightarrow> time \<Rightarrow> time \<Rightarrow> time list \<Rightarrow> limiter \<Rightarrow> bool" where
  "mem_tracks key win t0 past m \<longleftrightarrow>
     (\<forall>now > t0. live win now (mem_buckets m key) = live win now past)"

lemma live_live: "now \<le> later \<Longrightarrow> live win later (live win now h) = live win later h"
  by (auto simp: live_def intro: filter_cong)

lemma live_Nil [simp]: "live win now [] = []"
  by (simp add: live_def)

lemma live_append [simp]: "live win now (h @ h') = live win now h @ live win now h'"
  by (simp add: live_def)

interpretation mem: sliding_window "mem_check key limit w" "mem_tracks key (w * us_per_second)"
  limit "w * us_per_second"
proof
  fix t0 past m now ok m'
  assume a: "mem_tracks key (w * us_per_second) t0 past m" "t0 < now"
    "mem_check key limit w now m = (ok, m')"
  then have l: "filter (\<lambda>ts. now - w * us_per_second < ts) (mem_buckets m key) =
      live (w * us_per_second) now past"
    by (simp add: mem_tracks_def live_def)
  from a(3) show "ok \<longleftrightarrow> length (live (w * us_per_second) now past) < limit"
    by (auto simp: mem_check_def check_limit_memory_def Let_def l split: if_splits)
  from a(3) show "mem_tracks key (w * us_per_second) now (if ok then past @ [now] else past) m'"
    by (auto simp: mem_check_def check_limit_memory_def Let_def l mem_tracks_def live_live
        split: if_splits)
qed


text \<open>
  The sorted set: ascending times, none after \<open>t0\<close>, and an expiry no earlier than the end of
  any member's window.
\<close>

definition z_tracks :: "string \<Rightarrow> time \<Rightarrow> time \<Rightarrow> time list \<Rightarrow> zsets \<Rightarrow> bool" where
  "z_tracks key win t0 past z \<longleftrightarrow>
     (case z key of
        None \<Rightarrow> \<forall>now > t0. live win now past = []
      | Some (ts, e) \<Rightarrow>
        sorted ts \<and> (\<forall>x \<in> set ts. 0 \<le> x \<and> x \<le> t0) \<and>
        (\<forall>now > t0. live win now ts = live win now past) \<and>
        (case e of None \<Rightarrow> True | Some e \<Rightarrow> \<forall>x \<in> set ts. x + win \<le> e))"

lemma z_tracks_members:
  assumes "z_tracks key win t0 past z" "t0 < now"
  shows "sorted (zmembers z key now)" "\<forall>x \<in> set (zmembers z key now). 0 \<le> x \<and> x \<le> t0"
    "live win now (zmembers z key now) = live win now past"
    "case zexpiry z key now of None \<Rightarrow> True
     | Some e \<Rightarrow> \<forall>x \<in> set (zmembers z key now). x + win \<le> e"
proof -
  have gone: "live win now ts = []" if "\<forall>x \<in> set ts. x + win \<le> e" "e \<le> now" for ts e
    using that by (force simp: live_def filter_empty_conv)
  have gone': "live win now past = []" if "z key = Some (ts, Some e)" "e \<le> now" for ts e
  proof -
    from assms(1) that(1) have "\<forall>x \<in> set ts. x + win \<le> e" "live win now ts = live win now past"
      using assms(2) by (auto simp: z_tracks_def)
    with gone[OF this(1) that(2)] show ?thesis by simp
  qed
  show "sorted (zmembers z key now)" "\<forall>x \<in> set (zmembers z key now). 0 \<le> x \<and> x \<le> t0"
    "case zexpiry z key now of None \<Rightarrow> True
     | Some e \<Rightarrow> \<forall>x \<in> set (zmembers z key now). x + win \<le> e"
    using assms(1)
    by (auto simp: z_tracks_def zmembers_def zexpiry_def split: option.splits prod.splits)
  show "live win now (zmembers z key now) = live win now past"
    using assms gone'
    by (auto simp: z_tracks_def zmembers_def split: option.splits prod.splits)
qed

lemma zmembers_zrem:
  assumes "z_tracks key win t0 past z" "t0 < now"
  shows "zmembers (zremrangebyscore key (now - win) now z) key now = live win now past"
proof -
  note m = z_tracks_members[OF assms]
  have "filter (\<lambda>t. \<not> (0 \<le> t \<and> t \<le> now - win)) (zmembers z key now) =
      live win now (zmembers z key now)"
    using m(2) by (auto simp: live_def intro!: filter_cong)
  with m(3) show ?thesis
    by (auto simp: zremrangebyscore_def zmembers_def zexpiry_def Let_def split: option.splits
        prod.splits)
qed

lemma z_tracks_zrem:
  assumes "z_tracks key win t0 past z" "t0 < now"
  shows "z_tracks key win now past (zremrangebyscore key (now - win) now z)"
proof -
  note m = z_tracks_members[OF assms]
  have f: "filter (\<lambda>t. \<not> (0 \<le> t \<and> t \<le> now - win)) (zmembers z key now) =
      live win now past"
    unfolding m(3)[symmetric] unfolding live_def by (rule filter_cong) (use m(2) in auto)
  have sub: "set (live win now past) \<subseteq> set (zmembers z key now)"
    using m(3) by (metis filter_is_subset live_def)
  have sub': "\<forall>x \<in> set (live win now past). 0 \<le> x \<and> x \<le> now"
    using sub m(2) assms(2) by fastforce
  have srt: "sorted (live win now past)"
    using m(1,3) by (metis live_def sorted_filter[of "\<lambda>x. x"] map_ident)
  have nil: "live win later past = []" if "live win now past = []" "now < later" for later
    using that by (force simp: live_def filter_empty_conv)
  show ?thesis
  proof (cases "live win now past = []")
    case True
    with nil f show ?thesis by (simp add: zremrangebyscore_def z_tracks_def)
  next
    case False
    with f sub sub' srt m(2,4) assms(2) show ?thesis
      by (auto simp: zremrangebyscore_def z_tracks_def live_live split: option.splits)
  qed
qed

lemma z_tracks_admit:
  assumes "z_tracks key win t0 past z" "t0 < now" "0 \<le> t0" "win \<le> ttl"
  shows "z_tracks key win now (past @ [now])
    (expire key ttl now (zadd key now (zremrangebyscore key (now - win) now z)))"
proof -
  let ?z = "zremrangebyscore key (now - win) now z"
  note m = zmembers_zrem[OF assms(1,2)]
  have sub: "\<forall>x \<in> set (live win now past). 0 \<le> x \<and> x \<le> t0"
    using z_tracks_members(2,3)[OF assms(1,2)] by (metis filter_is_subset live_def subsetD)
  have srt: "sorted (live win now past)"
    using z_tracks_members(1,3)[OF assms(1,2)]
    by (metis live_def sorted_filter[of "\<lambda>x. x"] map_ident)
  have notin: "now \<notin> set (live win now past)" using sub assms(2) by auto
  have ins: "insort now (live win now past) = live win now past @ [now]"
    using sub assms(2) by (intro sorted_insort_is_snoc srt) auto
  show ?thesis
    using sub srt notin ins assms(2,3,4)
    by (auto simp: expire_def zadd_def z_tracks_def m Let_def live_live sorted_append)
qed

definition redis_check :: "string \<Rightarrow> nat \<Rightarrow> int \<Rightarrow> time \<Rightarrow> limiter \<Rightarrow> bool \<times> limiter" where
  "redis_check key limit win now m =
     (case check_limit 5 key limit win now now m of ((ok, _), m') \<Rightarrow> (ok, m'))"

interpretation red: sliding_window "redis_check key limit w"
  "\<lambda>t0 past m. z_tracks key (w * us_per_second) t0 past (redis_z m)" limit "w * us_per_second"
proof
  fix t0 past m now ok m'
  assume a: "z_tracks key (w * us_per_second) t0 past (redis_z m)" "0 \<le> t0" "t0 < now"
    "redis_check key limit w now m = (ok, m')"
  note mm = zmembers_zrem[OF a(1,3)]
  from a(4) show ok: "ok \<longleftrightarrow> length (live (w * us_per_second) now past) < limit"
    by (auto simp: redis_check_def check_limit_def Let_def mm split: if_splits)
  have "w * us_per_second \<le> (w + 1) * us_per_second" by simp
  note z = z_tracks_zrem[OF a(1,3)] z_tracks_admit[OF a(1,3,2) this]
  from a(4) z show "z_tracks key (w * us_per_second) now (if ok then past @ [now] else past) (redis_z m')"
    by (auto simp: redis_check_def check_limit_def Let_def mm split: if_splits)
qed

definition booth_check :: "string \<Rightarrow> time \<Rightarrow> zsets \<Rightarrow> bool \<times> zsets" where
  "booth_check gid now z =
     (case enforce_booth_rate_limit 5 gid now z of (r, z') \<Rightarrow> (r = None, z'))"

definition booth_key :: "string \<Rightarrow> string" where
  "booth_key gid = ''rate_limit:booth:'' @ gid"

interpretation booth: sliding_window "booth_check (c # gid)"
  "\<lambda>t0 past z. z_tracks (booth_key (c # gid)) (BOOTH_LIMIT_WINDOW * us_per_second) t0 past z"
  BOOTH_LIMIT_MAX "BOOTH_LIMIT_WINDOW * us_per_second"
proof
  fix t0 past z now ok z'
  assume a: "z_tracks (booth_key (c # gid)) (BOOTH_LIMIT_WINDOW * us_per_second) t0 past z"
    "0 \<le> t0" "t0 < now" "booth_check (c # gid) now z = (ok, z')"
  note mm = zmembers_zrem[OF a(1,3), unfolded booth_key_def, simplified]
  from a(4) show ok: "ok \<longleftrightarrow> length (live (BOOTH_LIMIT_WINDOW * us_per_second) now past) < BOOTH_LIMIT_MAX"
    by (auto simp: booth_check_def enforce_booth_rate_limit_def Let_def mm split: if_splits)
  have "BOOTH_LIMIT_WINDOW * us_per_second \<le> (BOOTH_LIMIT_WINDOW + 1) * us_per_second" by simp
  note z = z_tracks_zrem[OF a(1,3)] z_tracks_admit[OF a(1,3,2) this]
  from a(4) z show "z_tracks (booth_key (c # gid)) (BOOTH_LIMIT_WINDOW * us_per_second) now
      (if ok then past @ [now] else past) z'"
    by (auto simp: booth_check_def enforce_booth_rate_limit_def Let_def mm booth_key_def
        split: if_splits)
qed


text \<open>The whole middleware, on the requests of one client to one path.\<close>

definition dispatch_check ::
  "string \<Rightarrow> string option \<Rightarrow> string option \<Rightarrow> time \<Rightarrow> limiter \<Rightarrow> bool \<times> limiter" where
  "dispatch_check path fwd host now m =
     (case dispatch 5 path fwd host now now m of
        (TooManyRequests _ _ _, m') \<Rightarrow> (False, m') | (Forwarded _, m') \<Rightarrow> (True, m'))"

definition limit_of :: "limiter \<Rightarrow> string \<Rightarrow> nat \<times> int" where
  "limit_of m path = limit_for (lim_limits m) (lim_fallback m) (match_limit (lim_limits m) path)"

definition key_of :: "limiter \<Rightarrow> string \<Rightarrow> string option \<Rightarrow> string option \<Rightarrow> string" where
  "key_of m path fwd host =
     redis_key_for (get_client_ip fwd host) (match_limit (lim_limits m) path)"

lemma check_limit_config:
  "lim_limits (snd (check_limit n k l w now now' m)) = lim_limits m"
  "lim_fallback (snd (check_limit n k l w now now' m)) = lim_fallback m"
  by (simp_all add: check_limit_def check_limit_memory_def Let_def)

lemma dispatch_check_redis:
  assumes "\<not> is_exempt path"
  shows "dispatch_check path fwd host now m =
    redis_check (key_of m path fwd host) (fst (limit_of m path)) (snd (limit_of m path)) now m"
  using assms
  by (auto simp: dispatch_check_def dispatch_def redis_check_def Let_def key_of_def limit_of_def
      split: prod.splits)

lemma redis_check_config:
  "redis_check k l w now m = (ok, m') \<Longrightarrow> lim_limits m' = lim_limits m \<and> lim_fallback m' = lim_fallback m"
  using check_limit_config[of 5 k l w now now m]
  by (auto simp: redis_check_def split: prod.splits)

interpretation disp: sliding_window "dispatch_check path fwd host"
  "\<lambda>t0 past m. \<not> is_exempt path \<and> lim_limits m = lim_limits m0 \<and> lim_fallback m = lim_fallback m0 \<and>
     z_tracks (key_of m0 path fwd host) (snd (limit_of m0 path) * us_per_second) t0 past (redis_z m)"
  "fst (limit_of m0 path)" "snd (limit_of m0 path) * us_per_second"
proof
  fix t0 past m now ok m'
  assume a: "\<not> is_exempt path \<and> lim_limits m = lim_limits m0 \<and> lim_fallback m = lim_fallback m0 \<and>
     z_tracks (key_of m0 path fwd host) (snd (limit_of m0 path) * us_per_second) t0 past (redis_z m)"
    "0 \<le> t0" "t0 < now" "\<forall>p \<in> set past. p \<le> t0" "dispatch_check path fwd host now m = (ok, m')"
  then have same: "key_of m path fwd host = key_of m0 path fwd host" "limit_of m path = limit_of m0 path"
    by (simp_all add: key_of_def limit_of_def)
  from a(1,5) have r: "redis_check (key_of m0 path fwd host) (fst (limit_of m0 path))
      (snd (limit_of m0 path)) now m = (ok, m')"
    by (simp add: dispatch_check_redis same)
  note law = red.admits[OF _ a(2-4) r] red.keeps[OF _ a(2-4) r]
  from a(1) law(1) show "ok \<longleftrightarrow>
      length (live (snd (limit_of m0 path) * us_per_second) now past) < fst (limit_of m0 path)"
    by blast
  from a(1) law(2) redis_check_config[OF r] show
    "\<not> is_exempt path \<and> lim_limits m' = lim_limits m0 \<and> lim_fallback m' = lim_fallback m0 \<and>
     z_tracks (key_of m0 path fwd host) (snd (limit_of m0 path) * us_per_second) now
       (if ok then past @ [now] else past) (redis_z m')"
    by simp
qed

text \<open>The whole middleware on the requests of all clients to all paths: those it lets through.\<close>

record web_request =
  wr_path :: string
  wr_forwarded :: "string option"
  wr_host :: "string option"
  wr_at :: time

definition counted_by :: "limiter \<Rightarrow> string \<Rightarrow> web_request \<Rightarrow> bool" where
  "counted_by m key q \<longleftrightarrow>
     \<not> is_exempt (wr_path q) \<and> key_of m (wr_path q) (wr_forwarded q) (wr_host q) = key"

fun let_through :: "web_request list \<Rightarrow> limiter \<Rightarrow> web_request list" where
  "let_through [] m = []"
| "let_through (q # qs) m =
     (case dispatch_check (wr_path q) (wr_forwarded q) (wr_host q) (wr_at q) m of
        (ok, m') \<Rightarrow> (if ok then [q] else []) @ let_through qs m')"

lemma z_tracks_later: "z_tracks key win t0 past z \<Longrightarrow> t0 \<le> t1 \<Longrightarrow> z_tracks key win t1 past z"
  by (fastforce simp: z_tracks_def split: option.splits)

lemma redis_check_other: "redis_check k l w now m = (ok, m') \<Longrightarrow> k' \<noteq> k \<Longrightarrow> redis_z m' k' = redis_z m k'"
  by (auto simp: redis_check_def check_limit_def Let_def zremrangebyscore_def zadd_def expire_def
      split: if_splits option.splits prod.splits)

lemma uncounted:
  assumes "\<not> counted_by m key q" "dispatch_check (wr_path q) (wr_forwarded q) (wr_host q) now m = (ok, m')"
  shows "redis_z m' key = redis_z m key \<and> lim_limits m' = lim_limits m \<and> lim_fallback m' = lim_fallback m"
proof (cases "is_exempt (wr_path q)")
  case True
  with assms(2) show ?thesis by (simp add: dispatch_check_def dispatch_def)
next
  case False
  from assms(2) dispatch_check_redis[OF False] have
    r: "redis_check (key_of m (wr_path q) (wr_forwarded q) (wr_host q)) (fst (limit_of m (wr_path q)))
      (snd (limit_of m (wr_path q))) now m = (ok, m')" by simp
  from assms(1) False have "key \<noteq> key_of m (wr_path q) (wr_forwarded q) (wr_host q)"
    by (auto simp: counted_by_def)
  from redis_check_other[OF r this] redis_check_config[OF r] show ?thesis by blast
qed

lemma same_config:
  assumes "lim_limits m' = lim_limits m" "lim_fallback m' = lim_fallback m"
  shows "key_of m' = key_of m" "limit_of m' = limit_of m" "counted_by m' = counted_by m"
  using assms by (auto simp: fun_eq_iff key_of_def limit_of_def counted_by_def)

lemma let_through_window:
  assumes "z_tracks key (w * us_per_second) t0 past (redis_z m)" "0 \<le> t0" "\<forall>p \<in> set past. p \<le> t0"
    "sorted_wrt (<) (t0 # map wr_at qs)" "\<forall>a. in_window (w * us_per_second) a past \<le> n"
    "\<forall>q \<in> set qs. counted_by m key q \<longrightarrow> limit_of m (wr_path q) = (n, w)"
  shows "in_window (w * us_per_second) a (past @ map wr_at (filter (counted_by m key) (let_through qs m))) \<le> n"
  using assms
proof (induction qs arbitrary: t0 past m)
  case (Cons q qs)
  let ?at = "wr_at q"
  obtain ok m' where c: "dispatch_check (wr_path q) (wr_forwarded q) (wr_host q) ?at m = (ok, m')" by fastforce
  have t: "t0 < ?at" "sorted_wrt (<) (?at # map wr_at qs)" "0 \<le> ?at" using Cons.prems(2,4) by auto
  have later: "\<forall>p \<in> set past. p \<le> ?at" using Cons.prems(3) t(1) by auto
  show ?case
  proof (cases "counted_by m key q")
    case True
    with Cons.prems(6) have lim: "limit_of m (wr_path q) = (n, w)" by simp
    from True c have r: "redis_check key n w ?at m = (ok, m')"
      using dispatch_check_redis[of "wr_path q" "wr_forwarded q" "wr_host q" ?at m] lim
      by (auto simp: counted_by_def)
    note law = red.admits[OF Cons.prems(1,2) t(1) Cons.prems(3) r] red.keeps[OF Cons.prems(1,2) t(1) Cons.prems(3) r]
    from redis_check_config[OF r] same_config have cfg: "counted_by m' = counted_by m" "limit_of m' = limit_of m"
      by blast+
    have "\<forall>a. in_window (w * us_per_second) a (if ok then past @ [?at] else past) \<le> n"
      using red.window_step[OF Cons.prems(5)] law(1) Cons.prems(3,5) t(1) by fastforce
    with Cons.IH[OF law(2) t(3) _ t(2)] Cons.prems(6) later True c show ?thesis
      by (cases ok) (simp_all add: cfg)
  next
    case False
    note same = uncounted[OF False c]
    from same Cons.prems(1) have "z_tracks key (w * us_per_second) t0 past (redis_z m')"
      by (simp add: z_tracks_def)
    from z_tracks_later[OF this] t(1) have z: "z_tracks key (w * us_per_second) ?at past (redis_z m')" by simp
    from same same_config have cfg: "counted_by m' = counted_by m" "limit_of m' = limit_of m" by blast+
    from Cons.IH[OF z t(3) later t(2) Cons.prems(5)] Cons.prems(6) False c show ?thesis
      by (cases ok) (simp_all add: cfg)
  qed
qed simp


definition example_request :: "string \<Rightarrow> string \<Rightarrow> time \<Rightarrow> web_request" where
  "example_request path host now = \<lparr>wr_path = path, wr_forwarded = None, wr_host = Some host, wr_at = now\<rparr>"


text \<open>
  A gate's booth calls: at most 60 admitted in any minute, counted by Redis; and when Redis
  fails at one of its first four calls, the request goes through.
\<close>

theorem booth_rate:
  assumes "gid \<noteq> []" "sorted_wrt (<) (0 # ts)" "z (booth_key gid) = None" "n < 4"
  shows "in_window (60 * us_per_second) a (admitted (booth_check gid) ts z) \<le> 60 \<and>
    fst (enforce_booth_rate_limit n gid now z') = None"
proof
  obtain c g where g: "gid = c # g" using assms(1) by (cases gid) auto
  have "z_tracks (booth_key (c # g)) (BOOTH_LIMIT_WINDOW * us_per_second) 0 [] z"
    using assms(3) by (simp add: z_tracks_def g)
  from booth.admitted_window_fresh[OF this assms(2), of a] g
  show "in_window (60 * us_per_second) a (admitted (booth_check gid) ts z) \<le> 60"
    by (simp add: BOOTH_LIMIT_MAX_def BOOTH_LIMIT_WINDOW_def)
  show "fst (enforce_booth_rate_limit n gid now z') = None"
    using assms(4) by (simp add: enforce_booth_rate_limit_def Let_def)
qed

theorem booth_rate_witness:
  "in_window (60 * us_per_second) 9 (admitted (booth_check ''gate-out-1'') [5, 7, 9] Map.empty) \<le> 60 \<and>
     fst (enforce_booth_rate_limit 3 ''gate-out-1'' 11 Map.empty) = None"
  using booth_rate[of "''gate-out-1''" "[5, 7, 9]" Map.empty 3 9 11 Map.empty] by simp

end
