(* ===== verification/Schema.thy ===== *)
theory Schema
  imports Prelude
begin

text \<open>
  The database rows the services read and write (\<open>api/app/models\<close>), the store that holds them
  together with the Redis keys and the ARQ queue, and the flush of a parking transaction with
  the two partial unique indexes of its table.

  Foreign keys, column widths and the columns no modelled code reads (relationships, notes,
  timestamps of the mixins) are left out. Row locks need no counterpart: an operation is one
  step of the store.
\<close>

section \<open>Rows\<close>

record ptx =
  tx_id :: int
  tx_barcode :: "string option"
  tx_card_number :: "string option"
  tx_plate_number :: "string option"
  tx_vehicle_type_id :: "int option"
  tx_gate_in_id :: "int option"
  tx_gate_out_id :: "int option"
  tx_entry_time :: time
  tx_exit_time :: "time option"
  tx_payment_method :: "string option"
  tx_fee :: "int option"
  tx_paid_amount :: "int option"
  tx_member_id :: "int option"
  tx_emoney_transaction_id :: "int option"
  tx_status :: string
  tx_shift_id :: "int option"
  tx_operator_id :: "int option"
  tx_is_lost_ticket :: bool

record emtx =
  em_id :: int
  em_parking_transaction_id :: "int option"
  em_emoney_reader_id :: "int option"
  em_card_number :: string
  em_card_type :: "string option"
  em_card_type_code :: "int option"
  em_amount_deducted :: int
  em_balance_before :: "int option"
  em_balance_after :: "int option"
  em_transaction_counter :: "int option"
  em_status :: string
  em_raw_response_hex :: "string option"
  em_settlement_payload_hex :: "string option"
  em_settlement_batch_id :: "int option"
  em_bank_response_status :: "string option"
  em_bank_response_at :: "time option"
  em_created_at :: time

record gate =
  gate_id :: int
  gate_name :: string
  gate_code :: string
  gate_direction :: string
  gate_protocol :: string
  gate_controller_host :: "string option"
  gate_controller_port :: "int option"
  gate_controller_device :: "string option"
  gate_controller_baudrate :: "int option"
  gate_relay_mode :: string
  gate_open_timeout_s :: int
  gate_hardware_config :: json

record member =
  mem_id :: int
  mem_card_number :: string
  mem_plate_number :: "string option"
  mem_vehicle_type_id :: "int option"
  mem_is_active :: bool
  mem_valid_until :: "int option"

record vehicle_type =
  vt_id :: int
  vt_code :: string
  vt_base_tariff :: int
  vt_hourly_rate :: int
  vt_max_daily_cap :: int
  vt_lost_ticket_penalty :: int
  vt_overnight_mode :: string
  vt_overnight_tariff :: int
  vt_is_progressive :: bool

record shift =
  sh_id :: int
  sh_start_time :: time
  sh_end_time :: time
  sh_is_active :: bool

text \<open>A pending e-money deduct as stored in Redis, and a job handed to ARQ.\<close>

record emoney_pending =
  pd_transaction_id :: int
  pd_gate_out_id :: int
  pd_fee :: int

datatype pending_raw = PJson emoney_pending | PGarbage

text \<open>
  \<open>job_key\<close> is the \<open>_job_id\<close> as the list of the parts the code joins with colons,
  \<open>job_queue\<close> the explicit \<open>_queue_name\<close>.
\<close>

record job =
  job_name :: string
  job_args :: "(string \<times> json) list"
  job_key :: "json list option"
  job_queue :: "string option"

text \<open>
  The store: the tables, the keys \<open>emoney:pending:<gate>\<close> with their expiry times, the queue of
  enqueued jobs, and whether Redis answers.
\<close>

record store =
  txs :: "ptx list"
  emoney_txs :: "emtx list"
  gates :: "gate list"
  members :: "member list"
  vtypes :: "vehicle_type list"
  shifts :: "shift list"
  next_tx_id :: int
  next_em_id :: int
  pending :: "string \<Rightarrow> (pending_raw \<times> time) option"
  jobs :: "job list"
  redis_up :: bool

section \<open>Gate peripherals\<close>

definition get_peripheral :: "gate \<Rightarrow> string \<Rightarrow> py_exc + json" where
  "get_peripheral g key = jget (gate_hardware_config g) key (JObj [])"

definition is_peripheral_enabled :: "gate \<Rightarrow> string \<Rightarrow> py_exc + json" where
  "is_peripheral_enabled g key =
     (case get_peripheral g key of Inl e \<Rightarrow> Inl e | Inr v \<Rightarrow> jget v ''enabled'' (JBool False))"

text \<open>One entry of \<open>cameras[]\<close>: \<open>None\<close> when the comprehension's filter drops it.\<close>

definition camera_entry :: "json \<Rightarrow> py_exc + json option" where
  "camera_entry c =
     (case jget c ''url'' JNull of Inl e \<Rightarrow> Inl e
      | Inr url \<Rightarrow>
        if \<not> truthy url then Inr None
        else case jget c ''enabled'' (JBool True) of Inl e \<Rightarrow> Inl e
        | Inr en \<Rightarrow>
          if \<not> truthy en then Inr None
          else case (jget c ''label'' JNull, jget c ''username'' JNull, jget c ''password'' JNull,
                     jget c ''auth_type'' (JStr ''none'')) of
            (Inr l, Inr u, Inr p, Inr a) \<Rightarrow>
              Inr (Some (JObj [(''url'', url), (''label'', l), (''username'', u),
                               (''password'', p), (''auth_type'', a)]))
          | _ \<Rightarrow> Inl AttributeError)"

fun camera_entries :: "json list \<Rightarrow> py_exc + json list" where
  "camera_entries [] = Inr []"
| "camera_entries (c # cs) =
     (case camera_entry c of Inl e \<Rightarrow> Inl e
      | Inr r \<Rightarrow>
        (case camera_entries cs of Inl e \<Rightarrow> Inl e
         | Inr rs \<Rightarrow> Inr (case r of None \<Rightarrow> rs | Some x \<Rightarrow> x # rs)))"

definition legacy_camera :: "json \<Rightarrow> json list" where
  "legacy_camera url =
     [JObj [(''url'', url), (''label'', JNull), (''username'', JNull), (''password'', JNull),
            (''auth_type'', JStr ''none'')]]"

definition get_cameras :: "gate \<Rightarrow> py_exc + json list" where
  "get_cameras g =
     (case jget (gate_hardware_config g) ''cameras'' (JList []) of Inl e \<Rightarrow> Inl e
      | Inr cams \<Rightarrow>
        if truthy cams then
          (case cams of JList cs \<Rightarrow> camera_entries cs | JStr s \<Rightarrow> Inl AttributeError
           | JObj kvs \<Rightarrow> Inl AttributeError | JIso t \<Rightarrow> Inl AttributeError | _ \<Rightarrow> Inl TypeError)
        else
          (case jget (gate_hardware_config g) ''camera'' (JObj []) of Inl e \<Rightarrow> Inl e
           | Inr cam \<Rightarrow>
             (case (jget cam ''enabled'' (JBool False), jget cam ''url'' JNull) of
                (Inr en, Inr url) \<Rightarrow>
                  Inr (if truthy en \<and> truthy url then legacy_camera url else [])
              | _ \<Rightarrow> Inl AttributeError)))"

section \<open>The parking-transactions table\<close>

abbreviation is_active_tx :: "ptx \<Rightarrow> bool" where
  "is_active_tx t \<equiv> tx_status t = ''ACTIVE''"

text \<open>The keys of the partial unique indexes \<open>uq_active_card\<close> and \<open>uq_active_barcode\<close>.\<close>

definition active_cards :: "ptx list \<Rightarrow> string list" where
  "active_cards ts = List.map_filter (\<lambda>t. if is_active_tx t then tx_card_number t else None) ts"

definition active_barcodes :: "ptx list \<Rightarrow> string list" where
  "active_barcodes ts = List.map_filter (\<lambda>t. if is_active_tx t then tx_barcode t else None) ts"

definition unique_active :: "ptx list \<Rightarrow> bool" where
  "unique_active ts \<longleftrightarrow> distinct (active_cards ts) \<and> distinct (active_barcodes ts)"

definition check_unique :: "ptx list \<Rightarrow> py_exc + ptx list" where
  "check_unique ts =
     (if \<not> distinct (active_cards ts) then Inl (IntegrityError ''uq_active_card'')
      else if \<not> distinct (active_barcodes ts) then Inl (IntegrityError ''uq_active_barcode'')
      else Inr ts)"

text \<open>\<open>db.get(ParkingTransaction, id)\<close>.\<close>

definition get_tx :: "store \<Rightarrow> int \<Rightarrow> ptx option" where
  "get_tx s i = find (\<lambda>t. tx_id t = i) (txs s)"

text \<open>\<open>db.flush()\<close> after assigning to the attributes of a row.\<close>

definition replace_tx :: "ptx \<Rightarrow> ptx list \<Rightarrow> ptx list" where
  "replace_tx t ts = map (\<lambda>u. if tx_id u = tx_id t then t else u) ts"

definition flush_tx :: "store \<Rightarrow> ptx \<Rightarrow> py_exc + store" where
  "flush_tx s t =
     (case check_unique (replace_tx t (txs s)) of Inl e \<Rightarrow> Inl e
      | Inr ts \<Rightarrow> Inr (s\<lparr>txs := ts\<rparr>))"

text \<open>\<open>db.add(tx)\<close> and its flush: the row gets the next identifier.\<close>

definition insert_tx :: "store \<Rightarrow> ptx \<Rightarrow> py_exc + ptx \<times> store" where
  "insert_tx s t =
     (let t' = t\<lparr>tx_id := next_tx_id s\<rparr>
      in case check_unique (txs s @ [t']) of Inl e \<Rightarrow> Inl e
         | Inr ts \<Rightarrow> Inr (t', s\<lparr>txs := ts, next_tx_id := next_tx_id s + 1\<rparr>))"

section \<open>Well-formed tables\<close>

text \<open>
  Identifiers are distinct and below the sequence; the indexes hold; a row that is not ACTIVE
  has its exit recorded, an ACTIVE one has not.
\<close>

definition row_ok :: "ptx \<Rightarrow> bool" where
  "row_ok t \<longleftrightarrow>
     (if is_active_tx t then tx_exit_time t = None
      else tx_exit_time t \<noteq> None \<and> tx_fee t \<noteq> None \<and> tx_gate_out_id t \<noteq> None \<and>
           tx_payment_method t \<noteq> None)"

definition store_ok :: "store \<Rightarrow> bool" where
  "store_ok s \<longleftrightarrow>
     distinct (map tx_id (txs s)) \<and> (\<forall>t \<in> set (txs s). tx_id t < next_tx_id s) \<and>
     unique_active (txs s) \<and> (\<forall>t \<in> set (txs s). row_ok t)"

lemma check_unique_Inr [simp]: "check_unique ts = Inr ts' \<longleftrightarrow> unique_active ts \<and> ts' = ts"
  by (auto simp: check_unique_def unique_active_def)

lemma check_unique_Inl [dest]: "check_unique ts = Inl e \<Longrightarrow> \<not> unique_active ts"
  by (auto simp: check_unique_def unique_active_def split: if_splits)

lemma flush_tx_Inr:
  "flush_tx s t = Inr s' \<longleftrightarrow>
     unique_active (replace_tx t (txs s)) \<and> s' = s\<lparr>txs := replace_tx t (txs s)\<rparr>"
  by (auto simp: flush_tx_def dest: check_unique_Inl split: sum.splits)

lemma insert_tx_Inr:
  "insert_tx s t = Inr (t', s') \<longleftrightarrow>
     t' = t\<lparr>tx_id := next_tx_id s\<rparr> \<and> unique_active (txs s @ [t']) \<and>
     s' = s\<lparr>txs := txs s @ [t'], next_tx_id := next_tx_id s + 1\<rparr>"
  by (auto simp: insert_tx_def Let_def dest: check_unique_Inl split: sum.splits)

lemma map_id_replace_tx [simp]: "map tx_id (replace_tx t ts) = map tx_id ts"
  by (auto simp: replace_tx_def)

lemma set_replace_tx:
  "u \<in> set (replace_tx t ts) \<Longrightarrow> u = t \<or> (u \<in> set ts \<and> tx_id u \<noteq> tx_id t)"
  by (auto simp: replace_tx_def)

lemma replace_tx_other:
  "u \<in> set ts \<Longrightarrow> tx_id u \<noteq> tx_id t \<Longrightarrow> u \<in> set (replace_tx t ts)"
  by (force simp: replace_tx_def)

lemma replace_tx_same:
  "u \<in> set ts \<Longrightarrow> tx_id u = tx_id t \<Longrightarrow> t \<in> set (replace_tx t ts)"
  by (force simp: replace_tx_def)

lemma store_ok_flush:
  assumes "store_ok s" "flush_tx s t = Inr s'" "row_ok t" "u \<in> set (txs s)" "tx_id u = tx_id t"
  shows "store_ok s'"
proof -
  have "tx_id t < next_tx_id s" using assms(1,4,5) by (auto simp: store_ok_def)
  with assms show ?thesis by (auto simp: store_ok_def flush_tx_Inr dest: set_replace_tx)
qed

lemma store_ok_insert:
  assumes "store_ok s" "insert_tx s t = Inr (t', s')" "row_ok t"
  shows "store_ok s'"
proof -
  have "row_ok (t\<lparr>tx_id := i\<rparr>) = row_ok t" for i by (simp add: row_ok_def)
  with assms show ?thesis by (force simp: store_ok_def insert_tx_Inr)
qed

lemma get_tx_Some: "get_tx s i = Some t \<Longrightarrow> t \<in> set (txs s) \<and> tx_id t = i"
  by (auto simp: get_tx_def find_Some_iff)

lemma get_tx_iff:
  assumes "store_ok s"
  shows "get_tx s i = Some t \<longleftrightarrow> t \<in> set (txs s) \<and> tx_id t = i"
proof
  assume *: "t \<in> set (txs s) \<and> tx_id t = i"
  then obtain u where u: "get_tx s i = Some u"
    by (cases "get_tx s i") (auto simp: get_tx_def find_None_iff)
  with get_tx_Some[OF u] * assms have "u = t"
    by (auto simp: store_ok_def distinct_map inj_on_def)
  with u show "get_tx s i = Some t" by simp
qed (rule get_tx_Some)

lemma store_ok_frame [simp]:
  "store_ok (s\<lparr>jobs := j\<rparr>) = store_ok s" "store_ok (s\<lparr>pending := p\<rparr>) = store_ok s"
  "store_ok (s\<lparr>emoney_txs := e, next_em_id := n\<rparr>) = store_ok s"
  by (simp_all add: store_ok_def)

text \<open>Under the indexes an active card or barcode names one row.\<close>

lemma map_filter_distinct_inj:
  assumes "distinct (List.map_filter f xs)" "x \<in> set xs" "y \<in> set xs" "f x = Some v" "f y = Some v"
  shows "x = y"
  using assms
proof (induction xs)
  case (Cons a xs)
  have "v \<in> set (List.map_filter f xs)" if "z \<in> set xs" "f z = Some v" for z
    using that by (force simp: map_filter_def)
  with Cons show ?case by (auto simp: map_filter_simps split: option.splits)
qed simp

lemma unique_active_card:
  assumes "unique_active ts" "t \<in> set ts" "u \<in> set ts" "is_active_tx t" "is_active_tx u"
    "tx_card_number t = Some c" "tx_card_number u = Some c"
  shows "t = u"
  using map_filter_distinct_inj[of "\<lambda>t. if is_active_tx t then tx_card_number t else None" ts t u c]
    assms by (simp add: unique_active_def active_cards_def)

lemma unique_active_barcode:
  assumes "unique_active ts" "t \<in> set ts" "u \<in> set ts" "is_active_tx t" "is_active_tx u"
    "tx_barcode t = Some c" "tx_barcode u = Some c"
  shows "t = u"
  using map_filter_distinct_inj[of "\<lambda>t. if is_active_tx t then tx_barcode t else None" ts t u c]
    assms by (simp add: unique_active_def active_barcodes_def)

end
