(* ===== verification/Tariff.thy ===== *)
theory Tariff
  imports Prelude
begin

text \<open>
  The tariff engine, \<open>api/app/services/tariff.py\<close>: the rate and configuration classes, the
  fee of a stay, and the default configuration.

  Durations are exact rationals where the code divides floats. A stay is a whole number of
  microseconds; the code divides it by \<open>1e6\<close> and twice by 60, so a quotient is off by a few
  units in the last place, which is less than a microsecond for stays below about 60 years:
  no comparison, ceiling or floor below comes out differently there.
\<close>

section \<open>Rates\<close>

record vehicle_type_rate =
  hourly_rate :: int
  daily_cap :: int
  base_tariff :: int
  overnight_mode :: string
  overnight_tariff :: int
  lost_ticket_penalty :: int
  is_progressive :: bool

record tariff_config =
  vehicle_types :: "string \<rightharpoonup> vehicle_type_rate"
  grace_period_minutes :: int

definition MINUTES_PER_HOUR :: rat where "MINUTES_PER_HOUR = 60"
definition MINUTES_PER_DAY :: rat where "MINUTES_PER_DAY = 60 * 24"

definition duration_minutes :: "time \<Rightarrow> time \<Rightarrow> rat" where
  "duration_minutes entry_time exit_time = of_int (exit_time - entry_time) / 1000000 / 60"

text \<open>\<open>datetime.date()\<close> as a day number.\<close>

definition date_of :: "time \<Rightarrow> int" where
  "date_of t = t div us_per_day"

section \<open>The fee of a stay\<close>

text \<open>The steps of \<open>calculate_tariff\<close> after the checks, in its order.\<close>

definition base_fee :: "vehicle_type_rate \<Rightarrow> int \<Rightarrow> int" where
  "base_fee rate hours =
     (if is_progressive rate then
        int_or (base_tariff rate) (hourly_rate rate) + max 0 (hours - 1) * hourly_rate rate
      else hours * int_or (hourly_rate rate) (base_tariff rate))"

definition nights_of :: "vehicle_type_rate \<Rightarrow> time \<Rightarrow> time \<Rightarrow> int" where
  "nights_of rate entry_time exit_time =
     (if overnight_mode rate = ''24h''
      then \<lfloor>duration_minutes entry_time exit_time / MINUTES_PER_DAY\<rfloor>
      else max 0 (date_of exit_time - date_of entry_time))"

definition overnight_fee :: "vehicle_type_rate \<Rightarrow> time \<Rightarrow> time \<Rightarrow> int \<Rightarrow> int" where
  "overnight_fee rate entry_time exit_time fee =
     (if overnight_mode rate \<noteq> ''none'' \<and> 0 < overnight_tariff rate
      then fee + nights_of rate entry_time exit_time * overnight_tariff rate else fee)"

definition capped_fee :: "vehicle_type_rate \<Rightarrow> rat \<Rightarrow> int \<Rightarrow> int" where
  "capped_fee rate dur fee =
     (if 0 < daily_cap rate
      then min fee (max 1 \<lceil>dur / MINUTES_PER_DAY\<rceil> * daily_cap rate) else fee)"

definition lost_fee :: "vehicle_type_rate \<Rightarrow> bool \<Rightarrow> int \<Rightarrow> int" where
  "lost_fee rate is_lost_ticket fee =
     (if is_lost_ticket \<and> 0 < lost_ticket_penalty rate
      then max fee (lost_ticket_penalty rate) else fee)"

definition calculate_tariff ::
  "time \<Rightarrow> time \<Rightarrow> string \<Rightarrow> tariff_config \<Rightarrow> bool \<Rightarrow> py_exc + int" where
  "calculate_tariff entry_time exit_time vehicle_type_code config is_lost_ticket =
     (if exit_time < entry_time then Inl (ValueError ''exit_time must be after entry_time'')
      else case vehicle_types config vehicle_type_code of
        None \<Rightarrow> Inl (ValueError (''Unknown vehicle type: '' @ vehicle_type_code))
      | Some rate \<Rightarrow>
          let dur = duration_minutes entry_time exit_time
          in if \<not> is_lost_ticket \<and> dur \<le> of_int (grace_period_minutes config) then Inr 0
             else
               let hours = max 1 \<lceil>dur / MINUTES_PER_HOUR\<rceil>;
                   fee = base_fee rate hours;
                   fee = overnight_fee rate entry_time exit_time fee;
                   fee = capped_fee rate dur fee
               in Inr (lost_fee rate is_lost_ticket fee))"

definition mk_rate :: "int \<Rightarrow> int \<Rightarrow> vehicle_type_rate" where
  "mk_rate hr cap =
     \<lparr>hourly_rate = hr, daily_cap = cap, base_tariff = 0, overnight_mode = ''none'',
      overnight_tariff = 0, lost_ticket_penalty = 0, is_progressive = False\<rparr>"

definition DEFAULT_TARIFF_CONFIG :: tariff_config where
  "DEFAULT_TARIFF_CONFIG =
     \<lparr>vehicle_types = [''MOTOR'' \<mapsto> mk_rate 2000 15000, ''MOBIL'' \<mapsto> mk_rate 5000 50000,
                       ''BUS'' \<mapsto> mk_rate 10000 100000],
      grace_period_minutes = 15\<rparr>"

section \<open>Whole-unit arithmetic\<close>

text \<open>Ceilings and floors of the rational durations are integer divisions of microseconds.\<close>

lemma ceiling_rat_div: "0 < b \<Longrightarrow> \<lceil>(of_int a :: rat) / of_int b\<rceil> = - ((- a) div b)"
  by (metis ceiling_divide_eq_div)

lemma floor_rat_div: "\<lfloor>(of_int a :: rat) / of_int b\<rfloor> = a div b"
  by (rule floor_divide_of_int_eq)

lemma duration_hours:
  "\<lceil>duration_minutes e x / MINUTES_PER_HOUR\<rceil> = - ((e - x) div us_per_hour)"
  using ceiling_rat_div[of us_per_hour "x - e"]
  by (simp add: duration_minutes_def MINUTES_PER_HOUR_def)

lemma duration_days:
  "\<lceil>duration_minutes e x / MINUTES_PER_DAY\<rceil> = - ((e - x) div us_per_day)"
  using ceiling_rat_div[of us_per_day "x - e"]
  by (simp add: duration_minutes_def MINUTES_PER_DAY_def)

lemma duration_full_days:
  "\<lfloor>duration_minutes e x / MINUTES_PER_DAY\<rfloor> = (x - e) div us_per_day"
  using floor_rat_div[of "x - e" us_per_day]
  by (simp add: duration_minutes_def MINUTES_PER_DAY_def)

lemma duration_le_grace:
  "duration_minutes e x \<le> of_int g \<longleftrightarrow> x - e \<le> g * us_per_minute"
proof -
  have "duration_minutes e x \<le> of_int g \<longleftrightarrow> (of_int (x - e) :: rat) \<le> of_int (g * us_per_minute)"
    by (simp add: duration_minutes_def divide_le_eq)
  then show ?thesis by (simp only: of_int_le_iff)
qed

lemmas duration_units = duration_hours duration_days duration_full_days duration_le_grace

text \<open>The reference: the same pricing on integers, one equation per rule of the module's doc.\<close>

definition ref_nights :: "vehicle_type_rate \<Rightarrow> time \<Rightarrow> time \<Rightarrow> int" where
  "ref_nights rate e x =
     (if overnight_mode rate = ''none'' \<or> overnight_tariff rate \<le> 0 then 0
      else if overnight_mode rate = ''24h'' then (x - e) div us_per_day
      else date_of x - date_of e)"

definition tariff_ref :: "vehicle_type_rate \<Rightarrow> int \<Rightarrow> time \<Rightarrow> time \<Rightarrow> bool \<Rightarrow> int" where
  "tariff_ref rate grace e x lost =
     (if \<not> lost \<and> x - e \<le> grace * us_per_minute then 0
      else
        let hours = max 1 (- ((e - x) div us_per_hour));
            timefee = (if is_progressive rate
              then int_or (base_tariff rate) (hourly_rate rate) + (hours - 1) * hourly_rate rate
              else hours * int_or (hourly_rate rate) (base_tariff rate));
            total = timefee + ref_nights rate e x * overnight_tariff rate;
            days = max 1 (- ((e - x) div us_per_day));
            capped = (if 0 < daily_cap rate then min total (days * daily_cap rate) else total)
        in (if lost \<and> 0 < lost_ticket_penalty rate
            then max capped (lost_ticket_penalty rate) else capped))"

lemma date_mono: "e \<le> x \<Longrightarrow> date_of e \<le> date_of x"
  by (simp add: date_of_def zdiv_mono1)

lemma base_fee_ref:
  "1 \<le> h \<Longrightarrow> base_fee rate h =
     (if is_progressive rate
      then int_or (base_tariff rate) (hourly_rate rate) + (h - 1) * hourly_rate rate
      else h * int_or (hourly_rate rate) (base_tariff rate))"
  by (simp add: base_fee_def)

lemma calculate_tariff_known:
  assumes "e \<le> x" and "vehicle_types config code = Some rate"
  shows "calculate_tariff e x code config lost
           = Inr (tariff_ref rate (grace_period_minutes config) e x lost)"
proof -
  let ?h = "max 1 (- ((e - x) div us_per_hour))"
  have nights: "overnight_fee rate e x fee = fee + ref_nights rate e x * overnight_tariff rate" for fee
    using date_mono[OF assms(1)]
    by (simp add: overnight_fee_def nights_of_def ref_nights_def duration_units)
  have fee: "base_fee rate ?h = (if is_progressive rate
      then int_or (base_tariff rate) (hourly_rate rate) + (?h - 1) * hourly_rate rate
      else ?h * int_or (hourly_rate rate) (base_tariff rate))"
    by (rule base_fee_ref) simp
  from assms(1) have "\<not> x < e" by simp
  then show ?thesis
    unfolding calculate_tariff_def tariff_ref_def Let_def assms(2) option.case duration_units
      nights capped_fee_def lost_fee_def fee
    by (simp only: if_distrib[of Inr] simp_thms if_False)
qed

lemma calculate_tariff_Inr:
  "calculate_tariff e x code config lost = Inr f \<longleftrightarrow>
     e \<le> x \<and> (\<exists>rate. vehicle_types config code = Some rate \<and>
       f = tariff_ref rate (grace_period_minutes config) e x lost)"
proof (cases "e \<le> x")
  case True
  then show ?thesis
    by (cases "vehicle_types config code")
      (auto simp: calculate_tariff_known, simp add: calculate_tariff_def)
qed (simp add: calculate_tariff_def)

section \<open>Laws of the reference price\<close>

definition rate_nonneg :: "vehicle_type_rate \<Rightarrow> bool" where
  "rate_nonneg rate \<longleftrightarrow> 0 \<le> hourly_rate rate \<and> 0 \<le> base_tariff rate"

definition started_hours :: "time \<Rightarrow> time \<Rightarrow> int" where
  "started_hours e x = max 1 (- ((e - x) div us_per_hour))"

definition started_days :: "time \<Rightarrow> time \<Rightarrow> int" where
  "started_days e x = max 1 (- ((e - x) div us_per_day))"

definition ref_time_fee :: "vehicle_type_rate \<Rightarrow> int \<Rightarrow> int" where
  "ref_time_fee rate h =
     (if is_progressive rate
      then int_or (base_tariff rate) (hourly_rate rate) + (h - 1) * hourly_rate rate
      else h * int_or (hourly_rate rate) (base_tariff rate))"

definition ref_capped :: "vehicle_type_rate \<Rightarrow> time \<Rightarrow> time \<Rightarrow> int" where
  "ref_capped rate e x =
     (let total = ref_time_fee rate (started_hours e x) + ref_nights rate e x * overnight_tariff rate
      in if 0 < daily_cap rate then min total (started_days e x * daily_cap rate) else total)"

lemma tariff_ref_alt:
  "tariff_ref rate grace e x lost =
     (if \<not> lost \<and> x - e \<le> grace * us_per_minute then 0
      else if lost \<and> 0 < lost_ticket_penalty rate
           then max (ref_capped rate e x) (lost_ticket_penalty rate)
      else ref_capped rate e x)"
  by (simp only: tariff_ref_def ref_capped_def ref_time_fee_def started_hours_def
      started_days_def Let_def)

lemma started_mono:
  assumes "x \<le> x'"
  shows "started_hours e x \<le> started_hours e x'" "started_days e x \<le> started_days e x'"
proof -
  have "(e - x') div us_per_hour \<le> (e - x) div us_per_hour"
    "(e - x') div us_per_day \<le> (e - x) div us_per_day"
    using assms by (simp_all add: zdiv_mono1)
  then show "started_hours e x \<le> started_hours e x'" "started_days e x \<le> started_days e x'"
    unfolding started_hours_def started_days_def by linarith+
qed

lemma started_ge_1: "1 \<le> started_hours e x" "1 \<le> started_days e x"
  by (simp_all add: started_hours_def started_days_def)

lemma ref_time_fee_mono:
  assumes "rate_nonneg rate" "1 \<le> h" "h \<le> h'"
  shows "0 \<le> ref_time_fee rate h \<and> ref_time_fee rate h \<le> ref_time_fee rate h'"
  using assms int_or_nonneg[of "hourly_rate rate" "base_tariff rate"]
    int_or_nonneg[of "base_tariff rate" "hourly_rate rate"]
  by (auto simp: ref_time_fee_def rate_nonneg_def intro: mult_right_mono)

lemma ref_nights_mono:
  assumes "e \<le> x" "x \<le> x'"
  shows "0 \<le> ref_nights rate e x * overnight_tariff rate \<and>
    ref_nights rate e x * overnight_tariff rate \<le> ref_nights rate e x' * overnight_tariff rate"
proof (cases "overnight_mode rate = ''none'' \<or> overnight_tariff rate \<le> 0")
  case True
  then show ?thesis by (auto simp: ref_nights_def)
next
  case False
  have "0 \<le> ref_nights rate e x" "ref_nights rate e x \<le> ref_nights rate e x'"
    using False assms date_mono[of e x] date_mono[of x x']
    by (auto simp: ref_nights_def zdiv_mono1 pos_imp_zdiv_nonneg_iff)
  with False show ?thesis by (simp add: mult_right_mono)
qed

lemma ref_capped_mono:
  assumes "rate_nonneg rate" "e \<le> x" "x \<le> x'"
  shows "0 \<le> ref_capped rate e x \<and> ref_capped rate e x \<le> ref_capped rate e x'"
proof -
  note m = ref_time_fee_mono[OF assms(1) started_ge_1(1) started_mono(1)[OF assms(3)], of e]
    ref_nights_mono[OF assms(2,3), of rate]
  show ?thesis
  proof (cases "0 < daily_cap rate")
    case True
    have c: "0 \<le> started_days e x * daily_cap rate"
      "started_days e x * daily_cap rate \<le> started_days e x' * daily_cap rate"
      using True started_mono(2)[OF assms(3), of e] started_ge_1(2)[of e x]
      by (simp_all add: mult_right_mono)
    have "ref_time_fee rate (started_hours e x) + ref_nights rate e x * overnight_tariff rate
        \<le> ref_time_fee rate (started_hours e x') + ref_nights rate e x' * overnight_tariff rate"
      using m by linarith
    from min.mono[OF this c(2)] m c(1) True show ?thesis by (simp add: ref_capped_def Let_def)
  next
    case False
    with m show ?thesis by (simp add: ref_capped_def Let_def)
  qed
qed

section \<open>Properties\<close>

text \<open>
  C7. Equivalence: on every input the engine's rational computation with its sequence of
  adjustments raises ValueError exactly for an exit before the entry and for an unknown vehicle
  type, and otherwise returns exactly the integer reference price \<open>tariff_ref\<close>.
\<close>

theorem calculate_tariff_eq_ref:
  "calculate_tariff e x code config lost =
     (if x < e then Inl (ValueError ''exit_time must be after entry_time'')
      else case vehicle_types config code of
        None \<Rightarrow> Inl (ValueError (''Unknown vehicle type: '' @ code))
      | Some rate \<Rightarrow> Inr (tariff_ref rate (grace_period_minutes config) e x lost))"
  by (cases "vehicle_types config code")
    (simp_all add: calculate_tariff_known not_less, simp_all add: calculate_tariff_def)

text \<open>
  A longer stay never costs less: with non-negative rates the fee is monotone in the exit
  time, through the grace period, the started hours, the overnight surcharge, the per-day cap
  and the lost-ticket floor; and it is never negative.
\<close>

theorem calculate_tariff_mono:
  assumes "calculate_tariff e x code config lost = Inr f"
    and "calculate_tariff e x' code config lost = Inr f'"
    and "x \<le> x'"
    and "\<And>rate. vehicle_types config code = Some rate \<Longrightarrow> rate_nonneg rate"
  shows "0 \<le> f \<and> f \<le> f'"
proof -
  from assms(1,2) obtain rate where r: "vehicle_types config code = Some rate" "e \<le> x"
    "f = tariff_ref rate (grace_period_minutes config) e x lost"
    "f' = tariff_ref rate (grace_period_minutes config) e x' lost"
    by (auto simp: calculate_tariff_Inr)
  from ref_capped_mono[OF assms(4)[OF r(1)] r(2) assms(3)] r(3,4) assms(3) show ?thesis
    by (auto simp: tariff_ref_alt)
qed

theorem calculate_tariff_mono_witness:
  "\<exists>f f'. calculate_tariff 0 (90 * us_per_minute) ''MOBIL'' DEFAULT_TARIFF_CONFIG False = Inr f \<and>
     calculate_tariff 0 (150 * us_per_minute) ''MOBIL'' DEFAULT_TARIFF_CONFIG False = Inr f' \<and>
     0 \<le> f \<and> f \<le> f'"
proof -
  have r: "vehicle_types DEFAULT_TARIFF_CONFIG ''MOBIL'' = Some (mk_rate 5000 50000)"
    by (simp add: DEFAULT_TARIFF_CONFIG_def)
  have v: "calculate_tariff 0 (90 * us_per_minute) ''MOBIL'' DEFAULT_TARIFF_CONFIG False = Inr 10000"
    "calculate_tariff 0 (150 * us_per_minute) ''MOBIL'' DEFAULT_TARIFF_CONFIG False = Inr 15000"
    using r by (simp_all add: calculate_tariff_known tariff_ref_alt ref_capped_def ref_time_fee_def
        started_hours_def started_days_def ref_nights_def mk_rate_def int_or_def
        DEFAULT_TARIFF_CONFIG_def)
  have "(0::int) \<le> 10000 \<and> (10000::int) \<le> 15000"
    by (rule calculate_tariff_mono[OF v]) (use r in \<open>simp_all add: rate_nonneg_def mk_rate_def\<close>)
  with v show ?thesis by blast
qed

text \<open>
  Bounds: with a daily cap an ordinary stay never costs more than the cap for each started
  24-hour block, and a lost ticket never costs less than its penalty, not even within the grace
  period or under the cap.
\<close>

theorem calculate_tariff_bounds:
  assumes "calculate_tariff e x code config lost = Inr f"
    and "vehicle_types config code = Some rate"
  shows "(\<not> lost \<longrightarrow> 0 < daily_cap rate \<longrightarrow> f \<le> started_days e x * daily_cap rate) \<and>
         (lost \<longrightarrow> 0 < lost_ticket_penalty rate \<longrightarrow> lost_ticket_penalty rate \<le> f)"
proof -
  have f: "f = tariff_ref rate (grace_period_minutes config) e x lost"
    using assms by (simp add: calculate_tariff_Inr)
  have "0 < daily_cap rate \<Longrightarrow> 0 \<le> started_days e x * daily_cap rate"
    using started_ge_1(2)[of e x] by simp
  with f show ?thesis by (auto simp: tariff_ref_alt ref_capped_def Let_def)
qed

theorem calculate_tariff_bounds_witness:
  "lost_ticket_penalty ((mk_rate 5000 20000)\<lparr>lost_ticket_penalty := 50000\<rparr>) \<le> (50000::int)"
proof -
  define rate where "rate = (mk_rate 5000 20000)\<lparr>lost_ticket_penalty := 50000\<rparr>"
  define config where "config = \<lparr>vehicle_types = [''MOBIL'' \<mapsto> rate], grace_period_minutes = 15\<rparr>"
  have r: "vehicle_types config ''MOBIL'' = Some rate" by (simp add: config_def)
  have v: "calculate_tariff 0 (5 * us_per_minute) ''MOBIL'' config True = Inr 50000"
    using r by (simp add: calculate_tariff_known tariff_ref_alt ref_capped_def ref_time_fee_def
        started_hours_def started_days_def ref_nights_def rate_def mk_rate_def int_or_def)
  from calculate_tariff_bounds[OF v r] show ?thesis by (simp add: rate_def mk_rate_def)
qed

text \<open>
  The fee depends on the length of the stay alone: moving entry and exit together leaves it
  unchanged, by any amount unless the surcharge counts midnights, and then by whole days.
\<close>

theorem calculate_tariff_shift:
  assumes "(\<forall>rate. vehicle_types config code = Some rate \<longrightarrow>
              overnight_mode rate \<in> {''none'', ''24h''} \<or> overnight_tariff rate \<le> 0)
           \<or> us_per_day dvd d"
  shows "calculate_tariff (e + d) (x + d) code config lost = calculate_tariff e x code config lost"
proof (cases "vehicle_types config code")
  case None
  then show ?thesis by (simp add: calculate_tariff_def)
next
  case (Some rate)
  have "us_per_day dvd d \<Longrightarrow> date_of (x + d) - date_of (e + d) = date_of x - date_of e"
    by (auto simp: date_of_def elim!: dvdE)
  with assms Some have "ref_nights rate (e + d) (x + d) = ref_nights rate e x"
    by (auto simp: ref_nights_def)
  moreover have "started_hours (e + d) (x + d) = started_hours e x"
    "started_days (e + d) (x + d) = started_days e x"
    by (simp_all add: started_hours_def started_days_def)
  ultimately have "ref_capped rate (e + d) (x + d) = ref_capped rate e x"
    by (simp add: ref_capped_def Let_def)
  then have "tariff_ref rate g (e + d) (x + d) lost = tariff_ref rate g e x lost" for g
    by (simp add: tariff_ref_alt)
  with Some show ?thesis
    by (cases "e \<le> x") (simp_all add: calculate_tariff_known, simp add: calculate_tariff_def)
qed

theorem calculate_tariff_shift_witness:
  "calculate_tariff (0 + 7) (us_per_hour + 7) ''BUS'' DEFAULT_TARIFF_CONFIG False
     = calculate_tariff 0 us_per_hour ''BUS'' DEFAULT_TARIFF_CONFIG False"
  by (rule calculate_tariff_shift) (simp add: DEFAULT_TARIFF_CONFIG_def mk_rate_def)

end
