(* ===== verification/Transactions.thy ===== *)
theory Transactions
  imports Schema Tariff
begin

text \<open>
  Creation, lookup, pricing and completion of parking transactions
  (\<open>api/app/services/transaction.py\<close>), the current shift (\<open>shift_utils.py\<close>) and the snapshot
  jobs of a gate (\<open>snapshot_utils.py\<close>).

  A service takes the store and gives its result or exception with the new store. Every
  reading of the clock is an argument. Where the database leaves the order of equal keys open
  (\<open>ORDER BY entry_time DESC\<close>, \<open>ORDER BY start_time\<close>) the model takes the table order.
\<close>

type_synonym 'a svc = "store \<Rightarrow> (py_exc + 'a) \<times> store"

section \<open>Snapshots\<close>

text \<open>The job of camera number \<open>idx\<close>: its key is the label, or the index when that is falsy.\<close>

definition jfield :: "json \<Rightarrow> string \<Rightarrow> json" where
  "jfield v k = (case jget v k JNull of Inr x \<Rightarrow> x | Inl e \<Rightarrow> JNull)"

definition snapshot_job :: "string \<Rightarrow> int \<Rightarrow> string \<Rightarrow> nat \<times> json \<Rightarrow> job" where
  "snapshot_job gcode tid stype ic =
     (case ic of (idx, cam) \<Rightarrow>
       let label = jfield cam ''label'';
           cam_key = (if truthy label then label else JStr (str_of_nat idx))
       in \<lparr>job_name = ''take_snapshot'',
           job_args = [(''gate_id'', JStr gcode), (''camera_url'', jfield cam ''url''),
             (''transaction_id'', JInt tid), (''snapshot_type'', JStr stype),
             (''camera_label'', label), (''camera_username'', jfield cam ''username''),
             (''camera_password'', jfield cam ''password''),
             (''camera_auth_type'', jfield cam ''auth_type'')],
           job_key = Some [JStr ''snapshot'', JStr stype, JInt tid, cam_key],
           job_queue = Some ''arq:queue:critical''\<rparr>)"

text \<open>Every exception is caught: the caller never notices.\<close>

definition find_gate :: "store \<Rightarrow> string \<Rightarrow> py_exc + gate option" where
  "find_gate s code = scalar_one_or_none (filter (\<lambda>g. gate_code g = code) (gates s))"

definition enqueue_snapshots_for_gate :: "string \<Rightarrow> int \<Rightarrow> string \<Rightarrow> store \<Rightarrow> store" where
  "enqueue_snapshots_for_gate gcode tid stype s =
     (case find_gate s gcode of Inl e \<Rightarrow> s
      | Inr None \<Rightarrow> s
      | Inr (Some g) \<Rightarrow>
        (case get_cameras g of Inl e \<Rightarrow> s
         | Inr cams \<Rightarrow>
           if cams = [] \<or> \<not> redis_up s then s
           else s\<lparr>jobs := jobs s @ map (snapshot_job gcode tid stype) (enumerate 0 cams)\<rparr>))"

lemma enqueue_snapshots_jobs:
  "\<exists>js. enqueue_snapshots_for_gate gcode tid stype s = s\<lparr>jobs := js\<rparr>"
proof -
  have "\<exists>js. s = s\<lparr>jobs := js\<rparr>" by (rule exI[of _ "jobs s"]) simp
  then show ?thesis
    by (auto simp: enqueue_snapshots_for_gate_def split: sum.splits option.splits)
qed

lemma enqueue_snapshots_frame [frame_simps, simp]:
  "txs (enqueue_snapshots_for_gate c i k s) = txs s"
  "emoney_txs (enqueue_snapshots_for_gate c i k s) = emoney_txs s"
  "members (enqueue_snapshots_for_gate c i k s) = members s"
  "gates (enqueue_snapshots_for_gate c i k s) = gates s"
  "vtypes (enqueue_snapshots_for_gate c i k s) = vtypes s"
  "shifts (enqueue_snapshots_for_gate c i k s) = shifts s"
  "pending (enqueue_snapshots_for_gate c i k s) = pending s"
  "next_tx_id (enqueue_snapshots_for_gate c i k s) = next_tx_id s"
  "next_em_id (enqueue_snapshots_for_gate c i k s) = next_em_id s"
  "redis_up (enqueue_snapshots_for_gate c i k s) = redis_up s"
  "store_ok (enqueue_snapshots_for_gate c i k s) = store_ok s"
  using enqueue_snapshots_jobs[of c i k s] by auto

section \<open>Shifts\<close>

definition time_of_day :: "time \<Rightarrow> time" where
  "time_of_day t = t mod us_per_day"

text \<open>One turn of the loop: does the shift cover the time of day, over midnight or not?\<close>

definition shift_covers :: "time \<Rightarrow> shift \<Rightarrow> bool" where
  "shift_covers tod sh =
     (if sh_start_time sh \<le> sh_end_time sh
      then sh_start_time sh \<le> tod \<and> tod \<le> sh_end_time sh
      else sh_start_time sh \<le> tod \<or> tod \<le> sh_end_time sh)"

definition get_current_shift :: "store \<Rightarrow> time \<Rightarrow> shift option" where
  "get_current_shift s now =
     (let tod = time_of_day now;
          active = sort_key sh_start_time (filter sh_is_active (shifts s))
      in case find (shift_covers tod) active of
           Some sh \<Rightarrow> Some sh
         | None \<Rightarrow> (case active of [] \<Rightarrow> None | sh # _ \<Rightarrow> Some sh))"

section \<open>Transactions\<close>

definition create_entry_transaction ::
  "string option \<Rightarrow> string option \<Rightarrow> string option \<Rightarrow> int option \<Rightarrow> int option \<Rightarrow> string \<Rightarrow>
   int option \<Rightarrow> time \<Rightarrow> ptx svc" where
  "create_entry_transaction barcode card_number plate_number vehicle_type_id gate_in_id
       payment_method member_id now s =
     (let tx = \<lparr>tx_id = 0, tx_barcode = barcode, tx_card_number = card_number,
                tx_plate_number = plate_number, tx_vehicle_type_id = vehicle_type_id,
                tx_gate_in_id = gate_in_id, tx_gate_out_id = None, tx_entry_time = now,
                tx_exit_time = None, tx_payment_method = Some payment_method, tx_fee = None,
                tx_paid_amount = None, tx_member_id = member_id,
                tx_emoney_transaction_id = None, tx_status = ''ACTIVE'', tx_shift_id = None,
                tx_operator_id = None, tx_is_lost_ticket = False\<rparr>
      in case insert_tx s tx of
           Inl e \<Rightarrow> (Inl e, s)
         | Inr (tx, s) \<Rightarrow>
           (case gate_in_id of
              None \<Rightarrow> (Inr tx, s)
            | Some gid \<Rightarrow>
              if gid = 0 then (Inr tx, s)
              else case find (\<lambda>g. gate_id g = gid) (gates s) of
                     None \<Rightarrow> (Inr tx, s)
                   | Some g \<Rightarrow>
                     (Inr tx, enqueue_snapshots_for_gate (gate_code g) (tx_id tx) ''entry'' s)))"

text \<open>\<open>ORDER BY entry_time DESC\<close> and the first row.\<close>

fun latest_entry :: "ptx list \<Rightarrow> ptx option" where
  "latest_entry [] = None"
| "latest_entry (t # ts) =
     (case latest_entry ts of None \<Rightarrow> Some t
      | Some u \<Rightarrow> if tx_entry_time t < tx_entry_time u then Some u else Some t)"

definition lookup_criterion ::
  "string option \<Rightarrow> string option \<Rightarrow> string option \<Rightarrow> (ptx \<Rightarrow> bool) option" where
  "lookup_criterion barcode card_number plate_number =
     (if truthy_str barcode then Some (\<lambda>t. tx_barcode t = barcode)
      else if truthy_str card_number then Some (\<lambda>t. tx_card_number t = card_number)
      else if truthy_str plate_number then Some (\<lambda>t. tx_plate_number t = plate_number)
      else None)"

definition find_active_transaction ::
  "store \<Rightarrow> string option \<Rightarrow> string option \<Rightarrow> string option \<Rightarrow> ptx option" where
  "find_active_transaction s barcode card_number plate_number =
     (case lookup_criterion barcode card_number plate_number of
        None \<Rightarrow> None
      | Some p \<Rightarrow> latest_entry (filter (\<lambda>t. is_active_tx t \<and> p t) (txs s)))"

definition rate_of_vtype :: "vehicle_type \<Rightarrow> vehicle_type_rate" where
  "rate_of_vtype vt =
     \<lparr>hourly_rate = vt_hourly_rate vt, daily_cap = vt_max_daily_cap vt,
      base_tariff = vt_base_tariff vt, overnight_mode = vt_overnight_mode vt,
      overnight_tariff = vt_overnight_tariff vt,
      lost_ticket_penalty = vt_lost_ticket_penalty vt, is_progressive = vt_is_progressive vt\<rparr>"

definition get_vehicle_type_tariff_config ::
  "store \<Rightarrow> int option \<Rightarrow> py_exc + tariff_config \<times> string option" where
  "get_vehicle_type_tariff_config s vehicle_type_id =
     (case vehicle_type_id of
        None \<Rightarrow> Inr (DEFAULT_TARIFF_CONFIG, None)
      | Some i \<Rightarrow>
        (case scalar_one_or_none (filter (\<lambda>v. vt_id v = i) (vtypes s)) of
           Inl e \<Rightarrow> Inl e
         | Inr None \<Rightarrow> Inr (DEFAULT_TARIFF_CONFIG, None)
         | Inr (Some vt) \<Rightarrow>
           Inr (\<lparr>vehicle_types = [vt_code vt \<mapsto> rate_of_vtype vt], grace_period_minutes = 15\<rparr>,
                Some (vt_code vt))))"

definition calculate_transaction_fee ::
  "store \<Rightarrow> ptx \<Rightarrow> time \<Rightarrow> int option \<Rightarrow> py_exc + int" where
  "calculate_transaction_fee s transaction exit_time vehicle_type_id_override =
     (let effective_vt_id = (case vehicle_type_id_override of
            Some i \<Rightarrow> Some i | None \<Rightarrow> tx_vehicle_type_id transaction)
      in case get_vehicle_type_tariff_config s effective_vt_id of
           Inl e \<Rightarrow> Inl e
         | Inr (config, code_opt) \<Rightarrow>
           let code = (case code_opt of None \<Rightarrow> ''MOBIL'' | Some c \<Rightarrow> c);
               exit_time = (if exit_time < tx_entry_time transaction
                            then tx_entry_time transaction else exit_time)
           in calculate_tariff (tx_entry_time transaction) exit_time code config
                (tx_is_lost_ticket transaction))"

definition completed_tx ::
  "ptx \<Rightarrow> int \<Rightarrow> string \<Rightarrow> int \<Rightarrow> int option \<Rightarrow> int option \<Rightarrow> int option \<Rightarrow> int option \<Rightarrow>
   int option \<Rightarrow> time \<Rightarrow> ptx" where
  "completed_tx t gate_out_id payment_method fee paid_amount member_id emoney_transaction_id
       operator_id shift_id now =
     t\<lparr>tx_gate_out_id := Some gate_out_id, tx_exit_time := Some now,
       tx_payment_method := Some payment_method, tx_fee := Some fee,
       tx_paid_amount := paid_amount, tx_member_id := member_id,
       tx_emoney_transaction_id := emoney_transaction_id, tx_operator_id := operator_id,
       tx_shift_id := shift_id, tx_status := ''COMPLETED''\<rparr>"

definition complete_exit_transaction ::
  "ptx \<Rightarrow> int \<Rightarrow> string \<Rightarrow> int \<Rightarrow> int option \<Rightarrow> int option \<Rightarrow> int option \<Rightarrow> int option \<Rightarrow>
   int option \<Rightarrow> time \<Rightarrow> ptx svc" where
  "complete_exit_transaction t gate_out_id payment_method fee paid_amount member_id
       emoney_transaction_id operator_id shift_id now s =
     (let t' = completed_tx t gate_out_id payment_method fee paid_amount member_id
                 emoney_transaction_id operator_id shift_id now
      in case flush_tx s t' of Inl e \<Rightarrow> (Inl e, s) | Inr s' \<Rightarrow> (Inr t', s'))"

section \<open>Lookup\<close>

lemma latest_entry_None [simp]: "latest_entry ts = None \<longleftrightarrow> ts = []"
  by (cases ts) (auto split: option.splits)

lemma latest_entry_Some:
  "latest_entry ts = Some t \<Longrightarrow>
     t \<in> set ts \<and> (\<forall>u \<in> set ts. tx_entry_time u \<le> tx_entry_time t)"
proof (induction ts arbitrary: t)
  case (Cons a ts)
  show ?case
  proof (cases "latest_entry ts")
    case None
    with Cons.prems show ?thesis by auto
  next
    case (Some u)
    with Cons.IH[OF Some] Cons.prems show ?thesis by (auto split: if_splits)
  qed
qed simp

lemma find_active_Some:
  assumes "find_active_transaction s b c p = Some t"
  shows "t \<in> set (txs s)" "is_active_tx t"
    "\<exists>q. lookup_criterion b c p = Some q \<and> q t \<and>
       (\<forall>u \<in> set (txs s). is_active_tx u \<and> q u \<longrightarrow> tx_entry_time u \<le> tx_entry_time t)"
proof -
  from assms obtain q where q: "lookup_criterion b c p = Some q"
    "latest_entry (filter (\<lambda>t. is_active_tx t \<and> q t) (txs s)) = Some t"
    by (auto simp: find_active_transaction_def split: option.splits)
  from latest_entry_Some[OF q(2)] q(1) show "t \<in> set (txs s)" "is_active_tx t"
    "\<exists>q. lookup_criterion b c p = Some q \<and> q t \<and>
       (\<forall>u \<in> set (txs s). is_active_tx u \<and> q u \<longrightarrow> tx_entry_time u \<le> tx_entry_time t)"
    by auto
qed

lemma find_active_None:
  "find_active_transaction s b c p = None \<longleftrightarrow>
     (case lookup_criterion b c p of None \<Rightarrow> True
      | Some q \<Rightarrow> \<forall>u \<in> set (txs s). is_active_tx u \<longrightarrow> \<not> q u)"
  by (auto simp: find_active_transaction_def filter_empty_conv split: option.splits)

text \<open>The lookup reads the table alone.\<close>

lemma find_active_frame:
  "txs s' = txs s \<Longrightarrow> find_active_transaction s' b c p = find_active_transaction s b c p"
  by (simp add: find_active_transaction_def cong: option.case_cong)

lemma find_active_barcode_unique:
  assumes "store_ok s" "t \<in> set (txs s)" "is_active_tx t" "tx_barcode t = Some b" "b \<noteq> []"
  shows "find_active_transaction s (Some b) c p = Some t"
proof (cases "find_active_transaction s (Some b) c p")
  case None
  with assms(2-5) show ?thesis by (auto simp: find_active_None lookup_criterion_def)
next
  case (Some u)
  from find_active_Some[OF Some] assms(5)
  have "u \<in> set (txs s)" "is_active_tx u" "tx_barcode u = Some b"
    by (auto simp: lookup_criterion_def)
  moreover have "unique_active (txs s)" using assms(1) by (simp add: store_ok_def)
  ultimately have "t = u" using assms(2-4) by (intro unique_active_barcode)
  with Some show ?thesis by simp
qed

section \<open>Pricing a transaction\<close>

lemma tariff_config_has_code:
  assumes "get_vehicle_type_tariff_config s i = Inr (config, code)"
  shows "\<exists>rate. vehicle_types config (case code of None \<Rightarrow> ''MOBIL'' | Some c \<Rightarrow> c) = Some rate"
  using assms
  by (auto simp: get_vehicle_type_tariff_config_def DEFAULT_TARIFF_CONFIG_def
      split: option.splits sum.splits)

lemma config_frame:
  "vtypes s' = vtypes s \<Longrightarrow>
     get_vehicle_type_tariff_config s' i = get_vehicle_type_tariff_config s i"
  by (simp add: get_vehicle_type_tariff_config_def cong: option.case_cong)

lemma shift_frame: "shifts s' = shifts s \<Longrightarrow> get_current_shift s' now = get_current_shift s now"
  by (simp add: get_current_shift_def)

lemma fee_frame:
  "vtypes s' = vtypes s \<Longrightarrow>
     calculate_transaction_fee s' t x v = calculate_transaction_fee s t x v"
  by (simp only: calculate_transaction_fee_def config_frame[of s' s])

section \<open>Completion\<close>

lemma completed_tx_simps [simp]:
  "tx_id (completed_tx t g m f p mem em op sh now) = tx_id t"
  "tx_barcode (completed_tx t g m f p mem em op sh now) = tx_barcode t"
  "tx_card_number (completed_tx t g m f p mem em op sh now) = tx_card_number t"
  "tx_plate_number (completed_tx t g m f p mem em op sh now) = tx_plate_number t"
  "tx_vehicle_type_id (completed_tx t g m f p mem em op sh now) = tx_vehicle_type_id t"
  "tx_entry_time (completed_tx t g m f p mem em op sh now) = tx_entry_time t"
  "tx_is_lost_ticket (completed_tx t g m f p mem em op sh now) = tx_is_lost_ticket t"
  "tx_status (completed_tx t g m f p mem em op sh now) = ''COMPLETED''"
  "tx_exit_time (completed_tx t g m f p mem em op sh now) = Some now"
  "tx_fee (completed_tx t g m f p mem em op sh now) = Some f"
  "tx_paid_amount (completed_tx t g m f p mem em op sh now) = p"
  "tx_payment_method (completed_tx t g m f p mem em op sh now) = Some m"
  "tx_gate_out_id (completed_tx t g m f p mem em op sh now) = Some g"
  "tx_member_id (completed_tx t g m f p mem em op sh now) = mem"
  "tx_emoney_transaction_id (completed_tx t g m f p mem em op sh now) = em"
  "row_ok (completed_tx t g m f p mem em op sh now)"
  by (simp_all add: completed_tx_def row_ok_def)

text \<open>Completing a row removes its keys from the indexes, so the flush cannot fail.\<close>

lemma distinct_map_filter_less:
  assumes "distinct (List.map_filter f xs)" "\<And>x. x \<in> set xs \<Longrightarrow> g x = f x \<or> g x = None"
  shows "distinct (List.map_filter g xs)"
  using assms
proof (induction xs)
  case (Cons a xs)
  have sub: "set (List.map_filter g xs) \<subseteq> set (List.map_filter f xs)"
    using Cons.prems(2) by (force simp: map_filter_def)
  have ih: "distinct (List.map_filter g xs)"
    using Cons.IH Cons.prems by (auto simp: map_filter_simps split: option.splits)
  show ?case
  proof (cases "g a")
    case None
    with ih show ?thesis by (simp add: map_filter_simps)
  next
    case (Some v)
    with Cons.prems(2)[of a] have "f a = Some v" by auto
    with Cons.prems(1) sub ih Some show ?thesis by (auto simp: map_filter_simps)
  qed
qed simp

lemma unique_active_complete:
  assumes "unique_active ts" "\<not> is_active_tx t"
  shows "unique_active (replace_tx t ts)"
proof -
  have "distinct (List.map_filter (\<lambda>u. if is_active_tx u then k u else None) (replace_tx t ts))"
    if "distinct (List.map_filter (\<lambda>u. if is_active_tx u then k u else None) ts)"
    for k :: "ptx \<Rightarrow> string option"
  proof -
    have "List.map_filter (\<lambda>u. if is_active_tx u then k u else None) (replace_tx t ts)
        = List.map_filter (\<lambda>u. if tx_id u = tx_id t then None
            else if is_active_tx u then k u else None) ts"
      using assms(2)
      by (induction ts) (auto simp: replace_tx_def map_filter_simps split: option.splits)
    moreover have "distinct \<dots>"
      by (rule distinct_map_filter_less[OF that]) simp
    ultimately show ?thesis by simp
  qed
  with assms(1) show ?thesis
    by (auto simp: unique_active_def active_cards_def active_barcodes_def)
qed

lemma complete_exit_ok:
  assumes "unique_active (txs s)"
  shows "complete_exit_transaction t g m f p mem em op sh now s =
     (Inr (completed_tx t g m f p mem em op sh now),
      s\<lparr>txs := replace_tx (completed_tx t g m f p mem em op sh now) (txs s)\<rparr>)"
proof -
  have "unique_active (replace_tx (completed_tx t g m f p mem em op sh now) (txs s))"
    by (rule unique_active_complete[OF assms]) simp
  then show ?thesis
    by (simp add: complete_exit_transaction_def Let_def flush_tx_def check_unique_def
        unique_active_def)
qed


section \<open>Correctness\<close>

text \<open>The rate a transaction is priced with: the vehicle type's, or the default car's.\<close>

definition effective_rate :: "store \<Rightarrow> int option \<Rightarrow> vehicle_type_rate" where
  "effective_rate s i =
     (case i of None \<Rightarrow> mk_rate 5000 50000
      | Some i \<Rightarrow> (case find (\<lambda>v. vt_id v = i) (vtypes s) of None \<Rightarrow> mk_rate 5000 50000
                  | Some vt \<Rightarrow> rate_of_vtype vt))"

definition effective_vt :: "ptx \<Rightarrow> int option \<Rightarrow> int option" where
  "effective_vt t v = (case v of Some i \<Rightarrow> Some i | None \<Rightarrow> tx_vehicle_type_id t)"

lemma find_none_filter: "find P xs = None \<Longrightarrow> filter P xs = []"
  by (auto simp: find_None_iff filter_empty_conv)

lemma filter_key_distinct:
  assumes "distinct (map k xs)" "find (\<lambda>x. k x = i) xs = Some x"
  shows "filter (\<lambda>x. k x = i) xs = [x]"
  using assms
proof (induction xs)
  case (Cons y ys)
  show ?case
  proof (cases "k y = i")
    case True
    have "k y \<notin> k ` set ys" using Cons.prems(1) by simp
    with True have "\<forall>z \<in> set ys. k z \<noteq> i" by (metis image_eqI)
    then have "filter (\<lambda>z. k z = i) ys = []" by (simp add: filter_empty_conv)
    with True Cons.prems(2) show ?thesis by simp
  next
    case False
    with Cons show ?thesis by simp
  qed
qed simp

lemma fee_eq_ref:
  assumes "distinct (map vt_id (vtypes s))"
  shows "calculate_transaction_fee s t x v =
    Inr (tariff_ref (effective_rate s (effective_vt t v)) 15 (tx_entry_time t)
           (max (tx_entry_time t) x) (tx_is_lost_ticket t))"
proof -
  let ?i = "effective_vt t v"
  let ?x = "if x < tx_entry_time t then tx_entry_time t else x"
  have m: "?x = max (tx_entry_time t) x" by auto
  have le: "tx_entry_time t \<le> max (tx_entry_time t) x" by simp
  have "\<exists>config code. get_vehicle_type_tariff_config s ?i = Inr (config, code) \<and>
      grace_period_minutes config = 15 \<and>
      vehicle_types config (case code of None \<Rightarrow> ''MOBIL'' | Some c \<Rightarrow> c) =
        Some (effective_rate s ?i)"
  proof (cases ?i)
    case None
    then show ?thesis
      by (simp add: get_vehicle_type_tariff_config_def effective_rate_def DEFAULT_TARIFF_CONFIG_def)
  next
    case (Some i)
    show ?thesis
    proof (cases "find (\<lambda>v. vt_id v = i) (vtypes s)")
      case None
      from find_none_filter[OF None] None Some show ?thesis
        by (simp add: get_vehicle_type_tariff_config_def effective_rate_def DEFAULT_TARIFF_CONFIG_def)
    next
      case (Some vt)
      from filter_key_distinct[OF assms Some] Some \<open>?i = Some i\<close> show ?thesis
        by (simp add: get_vehicle_type_tariff_config_def effective_rate_def)
    qed
  qed
  then obtain config code where c: "get_vehicle_type_tariff_config s ?i = Inr (config, code)"
    "grace_period_minutes config = 15"
    "vehicle_types config (case code of None \<Rightarrow> ''MOBIL'' | Some c \<Rightarrow> c) =
       Some (effective_rate s ?i)" by blast
  from calculate_tariff_known[OF le c(3), of "tx_is_lost_ticket t"] c(1,2) show ?thesis
    by (simp add: calculate_transaction_fee_def effective_vt_def[symmetric] m Let_def)
qed

text \<open>
  C23. Pricing a transaction never raises when vehicle types have distinct identifiers: the fee
  is that of the pricing rules at the effective vehicle type's rate, with 15 minutes of grace
  and an exit time no earlier than the entry. The \<open>ValueError\<close> of an unknown vehicle code is
  unreachable from here.
\<close>

theorem transaction_fee_total:
  assumes "distinct (map vt_id (vtypes s))"
  shows "calculate_transaction_fee s t x v =
    calculate_tariff (tx_entry_time t) (max (tx_entry_time t) x) ''X''
      \<lparr>vehicle_types = [''X'' \<mapsto> effective_rate s (effective_vt t v)], grace_period_minutes = 15\<rparr>
      (tx_is_lost_ticket t) \<and>
    (\<exists>fee. calculate_transaction_fee s t x v = Inr fee)"
  using fee_eq_ref[OF assms, of t x v]
  by (simp add: calculate_tariff_known[where rate = "effective_rate s (effective_vt t v)"])

definition example_vtype :: vehicle_type where
  "example_vtype = \<lparr>vt_id = 2, vt_code = ''TRUK'', vt_base_tariff = 4000, vt_hourly_rate = 3000,
     vt_max_daily_cap = 40000, vt_lost_ticket_penalty = 50000, vt_overnight_mode = ''none'',
     vt_overnight_tariff = 0, vt_is_progressive = True\<rparr>"

definition example_gate :: gate where
  "example_gate = \<lparr>gate_id = 7, gate_name = ''Keluar 1'', gate_code = ''OUT1'',
     gate_direction = ''OUT'', gate_protocol = ''ENET'', gate_controller_host = None,
     gate_controller_port = None, gate_controller_device = None,
     gate_controller_baudrate = None, gate_relay_mode = ''pulse'', gate_open_timeout_s = 10,
     gate_hardware_config = JObj [(''receipt_printer'', JObj [(''enabled'', JBool True)])]\<rparr>"

definition example_tx :: ptx where
  "example_tx = \<lparr>tx_id = 1, tx_barcode = Some ''B001'', tx_card_number = None,
     tx_plate_number = None, tx_vehicle_type_id = Some 2, tx_gate_in_id = Some 3,
     tx_gate_out_id = None, tx_entry_time = 0, tx_exit_time = None,
     tx_payment_method = Some ''CASH'', tx_fee = None, tx_paid_amount = None,
     tx_member_id = None, tx_emoney_transaction_id = None, tx_status = ''ACTIVE'',
     tx_shift_id = None, tx_operator_id = None, tx_is_lost_ticket = False\<rparr>"

definition example_store :: store where
  "example_store = \<lparr>txs = [example_tx], emoney_txs = [], gates = [example_gate], members = [],
     vtypes = [example_vtype], shifts = [], next_tx_id = 2, next_em_id = 1,
     pending = Map.empty, jobs = [], redis_up = True\<rparr>"

lemmas example_defs = example_store_def example_tx_def example_gate_def example_vtype_def

theorem transaction_fee_total_witness:
  "calculate_transaction_fee example_store example_tx (3 * us_per_hour) None =
     calculate_tariff 0 (3 * us_per_hour) ''X''
      \<lparr>vehicle_types = [''X'' \<mapsto> effective_rate example_store (Some 2)], grace_period_minutes = 15\<rparr>
      False"
  using transaction_fee_total[of example_store example_tx "3 * us_per_hour" None]
  by (simp add: example_defs effective_vt_def)

text \<open>
  An entry by ticket, without a card: with a ticket no active transaction bears the new row is
  ACTIVE, has the next identifier and is the one the exit finds by that ticket; with a ticket an
  active transaction already bears the database refuses the row and the store is unchanged.
\<close>

theorem entry_then_found:
  assumes "store_ok s" "b \<noteq> []" "c = None"
  shows "case create_entry_transaction (Some b) c p v g m mem now s of
      (Inr t, s') \<Rightarrow>
        b \<notin> set (active_barcodes (txs s)) \<and> store_ok s' \<and> t \<in> set (txs s') \<and> t \<notin> set (txs s) \<and>
        tx_id t = next_tx_id s \<and> tx_entry_time t = now \<and>
        find_active_transaction s' (Some b) None None = Some t
    | (Inl e, s') \<Rightarrow>
        b \<in> set (active_barcodes (txs s)) \<and> e = IntegrityError ''uq_active_barcode'' \<and> s' = s"
proof -
  define row where "row = \<lparr>tx_id = 0, tx_barcode = Some b, tx_card_number = c,
      tx_plate_number = p, tx_vehicle_type_id = v, tx_gate_in_id = g, tx_gate_out_id = None,
      tx_entry_time = now, tx_exit_time = None, tx_payment_method = Some m, tx_fee = None,
      tx_paid_amount = None, tx_member_id = mem, tx_emoney_transaction_id = None,
      tx_status = ''ACTIVE'', tx_shift_id = None, tx_operator_id = None,
      tx_is_lost_ticket = False\<rparr>"
  define t' where "t' = row\<lparr>tx_id := next_tx_id s\<rparr>"
  have t': "is_active_tx t'" "tx_barcode t' = Some b" "tx_card_number t' = None"
    "tx_id t' = next_tx_id s" "tx_entry_time t' = now"
    by (simp_all add: t'_def row_def assms(3))
  have cards: "active_cards (txs s @ [t']) = active_cards (txs s)"
    "active_barcodes (txs s @ [t']) = active_barcodes (txs s) @ [b]"
    using t' by (simp_all add: active_cards_def active_barcodes_def map_filter_simps map_filter_def)
  from assms(1) have u: "distinct (active_cards (txs s))" "distinct (active_barcodes (txs s))"
    by (simp_all add: store_ok_def unique_active_def)
  show ?thesis
  proof (cases "b \<in> set (active_barcodes (txs s))")
    case True
    then have "insert_tx s row = Inl (IntegrityError ''uq_active_barcode'')"
      using u by (simp add: insert_tx_def Let_def t'_def[symmetric] check_unique_def cards)
    with True show ?thesis by (simp add: create_entry_transaction_def row_def[symmetric] Let_def)
  next
    case False
    let ?s1 = "s\<lparr>txs := txs s @ [t'], next_tx_id := next_tx_id s + 1\<rparr>"
    have ins: "insert_tx s row = Inr (t', ?s1)"
      using u False
      by (simp add: insert_tx_def Let_def t'_def[symmetric] check_unique_def cards)
    have ok: "store_ok ?s1"
      by (rule store_ok_insert[OF assms(1) ins]) (simp add: row_ok_def row_def)
    have new: "t' \<notin> set (txs s)" using assms(1) t'(4) by (auto simp: store_ok_def)
    have found: "find_active_transaction ?s1 (Some b) None None = Some t'"
      by (rule find_active_barcode_unique[OF ok]) (use t' assms(2) in simp_all)
    have fr: "find_active_transaction (enqueue_snapshots_for_gate k i x ?s1) (Some b) None None
        = Some t'" for k i x
      by (subst find_active_frame[of _ ?s1]) (simp_all add: found)
    show ?thesis
      using False ok new found fr t'
      by (auto simp: create_entry_transaction_def row_def[symmetric] Let_def ins
          split: option.splits)
  qed
qed

theorem entry_then_found_witness:
  "case create_entry_transaction (Some ''B002'') None None (Some 2) (Some 3) ''CASH'' None 9
          example_store of
      (Inr t, s') \<Rightarrow> find_active_transaction s' (Some ''B002'') None None = Some t \<and> tx_id t = 2
    | (Inl e, s') \<Rightarrow> False"
proof -
  have "store_ok example_store"
    by (simp add: store_ok_def example_defs unique_active_def active_cards_def active_barcodes_def
        map_filter_simps row_ok_def)
  moreover have "''B002'' \<notin> set (active_barcodes (txs example_store))" "next_tx_id example_store = 2"
    by (simp_all add: example_defs active_barcodes_def map_filter_simps)
  ultimately show ?thesis
    using entry_then_found[where s = example_store and b = "''B002''" and c = None and p = None and
        v = "Some 2" and g = "Some 3" and m = "''CASH''" and mem = None and now = 9]
    by (auto split: prod.splits sum.splits)
qed


lemma find_sorted_least:
  "find P xs = Some x \<Longrightarrow> sorted (map k xs) \<Longrightarrow> y \<in> set xs \<Longrightarrow> P y \<Longrightarrow> k x \<le> k y"
  by (induction xs) (auto split: if_splits)

text \<open>
  The current shift is an active one; if an active shift covers the time of day (a night
  shift covers it over midnight) it is the covering one that starts first, else the active one
  that starts first; there is none only when no shift is active.
\<close>

theorem current_shift_spec:
  "case get_current_shift s now of
     None \<Rightarrow> \<forall>x \<in> set (shifts s). \<not> sh_is_active x
   | Some sh \<Rightarrow>
       sh \<in> set (shifts s) \<and> sh_is_active sh \<and>
       (\<forall>x \<in> set (shifts s). sh_is_active x \<longrightarrow>
          (shift_covers (time_of_day now) x \<longrightarrow>
             shift_covers (time_of_day now) sh \<and> sh_start_time sh \<le> sh_start_time x) \<and>
          (\<not> shift_covers (time_of_day now) sh \<longrightarrow> sh_start_time sh \<le> sh_start_time x))"
proof -
  let ?tod = "time_of_day now"
  define act where "act = sort_key sh_start_time (filter sh_is_active (shifts s))"
  have set: "set act = {x \<in> set (shifts s). sh_is_active x}" by (auto simp: act_def)
  have srt: "sorted (map sh_start_time act)" by (simp add: act_def)
  have eq: "get_current_shift s now = (case find (shift_covers ?tod) act of
      Some sh \<Rightarrow> Some sh | None \<Rightarrow> (case act of [] \<Rightarrow> None | sh # _ \<Rightarrow> Some sh))"
    by (simp add: get_current_shift_def act_def[symmetric] Let_def)
  show ?thesis
  proof (cases "find (shift_covers ?tod) act")
    case (Some sh)
    then have "sh \<in> set act" "shift_covers ?tod sh" by (auto simp: find_Some_iff)
    moreover have "sh_start_time sh \<le> sh_start_time x"
      if "x \<in> set (shifts s)" "sh_is_active x" "shift_covers ?tod x" for x
      using find_sorted_least[OF Some srt, of x] that by (simp add: set)
    ultimately show ?thesis using Some by (simp add: eq set)
  next
    case None
    then have no: "\<forall>x \<in> set act. \<not> shift_covers ?tod x" by (auto simp: find_None_iff)
    show ?thesis
    proof (cases act)
      case Nil
      with None set show ?thesis by (auto simp: eq)
    next
      case (Cons sh r)
      then have m: "sh \<in> set act" "\<forall>x \<in> set act. sh_start_time sh \<le> sh_start_time x"
        using srt by auto
      from m(1) no have sh: "sh \<in> set (shifts s)" "sh_is_active sh" "\<not> shift_covers ?tod sh"
        by (auto simp: set)
      have "\<not> shift_covers ?tod x \<and> sh_start_time sh \<le> sh_start_time x"
        if "x \<in> set (shifts s)" "sh_is_active x" for x
        using that m(2) no by (simp add: set)
      with sh have "get_current_shift s now = Some sh \<longrightarrow> ?thesis" by auto
      with None Cons show ?thesis by (simp add: eq)
    qed
  qed
qed

theorem current_shift_spec_witness:
  "case get_current_shift (example_store\<lparr>shifts :=
       [\<lparr>sh_id = 1, sh_start_time = 7 * us_per_hour, sh_end_time = 19 * us_per_hour, sh_is_active = True\<rparr>,
        \<lparr>sh_id = 2, sh_start_time = 19 * us_per_hour, sh_end_time = 7 * us_per_hour, sh_is_active = True\<rparr>]\<rparr>)
       (26 * us_per_hour) of None \<Rightarrow> False | Some sh \<Rightarrow> sh_id sh = 2 \<and> sh_is_active sh"
  using current_shift_spec[of "example_store\<lparr>shifts :=
       [\<lparr>sh_id = 1, sh_start_time = 7 * us_per_hour, sh_end_time = 19 * us_per_hour, sh_is_active = True\<rparr>,
        \<lparr>sh_id = 2, sh_start_time = 19 * us_per_hour, sh_end_time = 7 * us_per_hour, sh_is_active = True\<rparr>]\<rparr>"
      "26 * us_per_hour"]
  by (auto simp: shift_covers_def time_of_day_def split: option.splits)

end
