(* ===== verification/Sessions.thy ===== *)
theory Sessions
  imports Transactions
begin

text \<open>
  Worker sessions at the booths (\<open>api/app/services/worker_session.py\<close>): check-in with a PIN, the
  two-step handover, and the forced leave.

  Two things the source does not define are arguments: \<open>verify\<close>, the password check of the
  hashing library, and \<open>ctor attrs kwargs\<close>, whether the ORM's constructor of a class with the
  mapped attributes \<open>attrs\<close> accepts the keyword arguments \<open>kwargs\<close> (the documented constructor
  accepts exactly attributes of the class and raises \<open>TypeError\<close> otherwise). The em dash of one
  error message is written as a hyphen, HOL's characters being bytes.
\<close>

section \<open>Rows\<close>

record user =
  us_id :: int
  us_is_active :: bool
  us_worker_pin :: "string option"

record shift_assignment =
  sa_id :: int
  sa_shift_id :: int
  sa_gate_id :: int

record wsession =
  ws_id :: int
  ws_shift_id :: int
  ws_shift_assignment_id :: "int option"
  ws_worker_id :: int
  ws_gate_id :: int
  ws_date :: int
  ws_status :: string
  ws_started_at :: time
  ws_outgoing_confirmed_at :: "time option"
  ws_ended_at :: "time option"
  ws_end_type :: "string option"
  ws_end_reason :: "string option"
  ws_is_substitute :: bool
  ws_previous_session_id :: "int option"

text \<open>The attributes the class \<open>WorkerSession\<close> maps, as its constructor knows them.\<close>

definition WORKER_SESSION_ATTRS :: "string list" where
  "WORKER_SESSION_ATTRS =
     [''id'', ''created_at'', ''updated_at'', ''shift_id'', ''shift_assignment_id'', ''worker_id'',
      ''gate_id'', ''date'', ''status'', ''started_at'', ''outgoing_confirmed_at'', ''ended_at'',
      ''end_type'', ''end_reason'', ''is_substitute'', ''previous_session_id'',
      ''force_leave_approved_by'', ''shift'', ''shift_assignment'', ''worker'', ''gate'']"

record alert =
  al_gate_type :: string
  al_gate_id :: int
  al_alert_type :: string
  al_message :: string

record booth_db =
  bd_core :: store
  bd_users :: "user list"
  bd_assignments :: "shift_assignment list"
  bd_sessions :: "wsession list"
  bd_alerts :: "alert list"
  bd_next_id :: int

type_synonym 'a bsvc = "booth_db \<Rightarrow> (py_exc + 'a) \<times> booth_db"
type_synonym ctor = "string list \<Rightarrow> string list \<Rightarrow> bool"

section \<open>Lookups\<close>

definition get_worker_and_verify_pin ::
  "(string \<Rightarrow> string \<Rightarrow> bool) \<Rightarrow> booth_db \<Rightarrow> int \<Rightarrow> string \<Rightarrow> py_exc + user" where
  "get_worker_and_verify_pin verify d worker_id pin =
     (case find (\<lambda>u. us_id u = worker_id) (bd_users d) of
        None \<Rightarrow> Inl (HTTPException 404 ''Worker not found'')
      | Some worker \<Rightarrow>
        if \<not> us_is_active worker then Inl (HTTPException 404 ''Worker not found'')
        else if \<not> truthy_str (us_worker_pin worker)
        then Inl (HTTPException 400 (''Worker has no PIN set '' @ ''- contact admin''))
        else if \<not> verify pin (the (us_worker_pin worker))
        then Inl (HTTPException 401 ''Invalid PIN'')
        else Inr worker)"

definition is_open :: "wsession \<Rightarrow> bool" where
  "is_open w \<longleftrightarrow> ws_status w = ''ACTIVE'' \<or> ws_status w = ''PENDING_HANDOVER''"

definition get_active_session :: "booth_db \<Rightarrow> int \<Rightarrow> py_exc + wsession option" where
  "get_active_session d gid =
     scalar_one_or_none (filter (\<lambda>w. ws_gate_id w = gid \<and> is_open w) (bd_sessions d))"

definition get_session :: "booth_db \<Rightarrow> int \<Rightarrow> wsession option" where
  "get_session d i = find (\<lambda>w. ws_id w = i) (bd_sessions d)"

definition get_gate :: "booth_db \<Rightarrow> int \<Rightarrow> gate option" where
  "get_gate d i = find (\<lambda>g. gate_id g = i) (gates (bd_core d))"

definition put_session :: "wsession \<Rightarrow> booth_db \<Rightarrow> booth_db" where
  "put_session w d =
     d\<lparr>bd_sessions := map (\<lambda>v. if ws_id v = ws_id w then w else v) (bd_sessions d)\<rparr>"

definition add_session :: "wsession \<Rightarrow> booth_db \<Rightarrow> wsession \<times> booth_db" where
  "add_session w d =
     (let w = w\<lparr>ws_id := bd_next_id d\<rparr>
      in (w, d\<lparr>bd_sessions := bd_sessions d @ [w], bd_next_id := bd_next_id d + 1\<rparr>))"

section \<open>Check-in\<close>

record checkin =
  ci_gate_id :: int
  ci_worker_id :: int
  ci_pin :: string
  ci_shift_assignment_id :: "int option"
  ci_is_substitute :: bool
  ci_original_worker_id :: "int option"

text \<open>The reads and checks: the shift of the new session.\<close>

definition check_in_checks ::
  "(string \<Rightarrow> string \<Rightarrow> bool) \<Rightarrow> checkin \<Rightarrow> time \<Rightarrow> booth_db \<Rightarrow> py_exc + int" where
  "check_in_checks verify c t_shift d =
     (case get_gate d (ci_gate_id c) of
        None \<Rightarrow> Inl (HTTPException 404 ''Gate not found'')
      | Some _ \<Rightarrow>
        case get_worker_and_verify_pin verify d (ci_worker_id c) (ci_pin c) of
          Inl e \<Rightarrow> Inl e
        | Inr _ \<Rightarrow>
          case get_active_session d (ci_gate_id c) of
            Inl e \<Rightarrow> Inl e
          | Inr (Some existing) \<Rightarrow>
            Inl (HTTPException 409
              (if ws_status existing = ''ACTIVE''
               then ''Gate already has an active worker session''
               else ''Use confirm-incoming endpoint to complete pending handover''))
          | Inr None \<Rightarrow>
            case ci_shift_assignment_id c of
              Some i \<Rightarrow>
                (case find (\<lambda>a. sa_id a = i) (bd_assignments d) of
                   None \<Rightarrow> Inl (HTTPException 400 ''Invalid shift assignment'')
                 | Some a \<Rightarrow>
                   if sa_gate_id a \<noteq> ci_gate_id c
                   then Inl (HTTPException 400 ''Invalid shift assignment'')
                   else Inr (sa_shift_id a))
            | None \<Rightarrow>
                (case get_current_shift (bd_core d) t_shift of
                   None \<Rightarrow> Inl (HTTPException 400 ''No active shift for current time'')
                 | Some sh \<Rightarrow> Inr (sh_id sh)))"

definition CHECK_IN_KWARGS :: "string list" where
  "CHECK_IN_KWARGS =
     [''shift_id'', ''shift_assignment_id'', ''worker_id'', ''gate_id'', ''date'', ''status'',
      ''started_at'', ''is_substitute'', ''original_worker_id'']"

text \<open>Building the row, adding it, committing.\<close>

definition check_in_write ::
  "ctor \<Rightarrow> checkin \<Rightarrow> int \<Rightarrow> time \<Rightarrow> time \<Rightarrow> wsession bsvc" where
  "check_in_write ctor c shift_id now today d =
     (if \<not> ctor WORKER_SESSION_ATTRS CHECK_IN_KWARGS then (Inl TypeError, d)
      else
        let w = \<lparr>ws_id = 0, ws_shift_id = shift_id,
               ws_shift_assignment_id = ci_shift_assignment_id c, ws_worker_id = ci_worker_id c,
               ws_gate_id = ci_gate_id c, ws_date = date_of today, ws_status = ''ACTIVE'',
               ws_started_at = now, ws_outgoing_confirmed_at = None, ws_ended_at = None,
               ws_end_type = None, ws_end_reason = None, ws_is_substitute = ci_is_substitute c,
               ws_previous_session_id = None\<rparr>
        in case add_session w d of (w, d) \<Rightarrow> (Inr w, d))"

definition check_in ::
  "ctor \<Rightarrow> (string \<Rightarrow> string \<Rightarrow> bool) \<Rightarrow> checkin \<Rightarrow> time \<Rightarrow> time \<Rightarrow> time \<Rightarrow> wsession bsvc" where
  "check_in ctor verify c t_shift now today d =
     (case check_in_checks verify c t_shift d of
        Inl e \<Rightarrow> (Inl e, d)
      | Inr shift_id \<Rightarrow> check_in_write ctor c shift_id now today d)"

section \<open>Handover\<close>

definition confirm_outgoing ::
  "(string \<Rightarrow> string \<Rightarrow> bool) \<Rightarrow> int \<Rightarrow> string \<Rightarrow> string \<Rightarrow> string option \<Rightarrow> time \<Rightarrow> wsession bsvc" where
  "confirm_outgoing verify sid pin end_type end_reason now d =
     (case get_session d sid of
        None \<Rightarrow> (Inl (HTTPException 404 ''Session not found''), d)
      | Some w \<Rightarrow>
        if ws_status w \<noteq> ''ACTIVE''
        then (Inl (HTTPException 409 (''Session is '' @ ws_status w @ '', must be ACTIVE'')), d)
        else case get_worker_and_verify_pin verify d (ws_worker_id w) pin of
               Inl e \<Rightarrow> (Inl e, d)
             | Inr _ \<Rightarrow>
               let w = w\<lparr>ws_outgoing_confirmed_at := Some now, ws_status := ''PENDING_HANDOVER'',
                         ws_end_type := Some end_type, ws_end_reason := end_reason\<rparr>
               in (Inr w, put_session w d))"

definition CONFIRM_INCOMING_KWARGS :: "string list" where
  "CONFIRM_INCOMING_KWARGS =
     [''shift_id'', ''shift_assignment_id'', ''worker_id'', ''gate_id'', ''date'', ''status'',
      ''started_at'', ''is_substitute'', ''previous_session_id'']"

definition confirm_incoming ::
  "ctor \<Rightarrow> (string \<Rightarrow> string \<Rightarrow> bool) \<Rightarrow> int \<Rightarrow> int \<Rightarrow> string \<Rightarrow> bool \<Rightarrow> time \<Rightarrow> time \<Rightarrow> time \<Rightarrow>
   wsession bsvc" where
  "confirm_incoming ctor verify pending_id worker_id pin is_substitute now t_shift today d =
     (case get_session d pending_id of
        None \<Rightarrow> (Inl (HTTPException 404 ''Session not found''), d)
      | Some p \<Rightarrow>
        if ws_status p \<noteq> ''PENDING_HANDOVER''
        then (Inl (HTTPException 409
                (''Session is '' @ ws_status p @ '', must be PENDING_HANDOVER'')), d)
        else case get_worker_and_verify_pin verify d worker_id pin of
               Inl e \<Rightarrow> (Inl e, d)
             | Inr _ \<Rightarrow>
               let p' = p\<lparr>ws_ended_at := Some now, ws_status := ''COMPLETED''\<rparr>;
                   shift_id = (case get_current_shift (bd_core d) t_shift of
                                 Some sh \<Rightarrow> sh_id sh | None \<Rightarrow> ws_shift_id p)
               in if \<not> ctor WORKER_SESSION_ATTRS CONFIRM_INCOMING_KWARGS then (Inl TypeError, d)
                  else
                    let w = \<lparr>ws_id = 0, ws_shift_id = shift_id, ws_shift_assignment_id = None,
                           ws_worker_id = worker_id, ws_gate_id = ws_gate_id p,
                           ws_date = date_of today, ws_status = ''ACTIVE'', ws_started_at = now,
                           ws_outgoing_confirmed_at = None, ws_ended_at = None,
                           ws_end_type = None, ws_end_reason = None,
                           ws_is_substitute = is_substitute, ws_previous_session_id = Some (ws_id p)\<rparr>
                    in case add_session w (put_session p' d) of (w, d) \<Rightarrow> (Inr w, d))"

definition force_leave ::
  "(string \<Rightarrow> string \<Rightarrow> bool) \<Rightarrow> int \<Rightarrow> string \<Rightarrow> string \<Rightarrow> time \<Rightarrow> wsession bsvc" where
  "force_leave verify sid pin reason now d =
     (case get_session d sid of
        None \<Rightarrow> (Inl (HTTPException 404 ''Session not found''), d)
      | Some w \<Rightarrow>
        if \<not> is_open w
        then (Inl (HTTPException 409 (''Session is '' @ ws_status w @ '', cannot force-leave'')), d)
        else case get_worker_and_verify_pin verify d (ws_worker_id w) pin of
               Inl e \<Rightarrow> (Inl e, d)
             | Inr _ \<Rightarrow>
               let gate_type = (case get_gate d (ws_gate_id w) of
                     Some g \<Rightarrow> lower (gate_direction g) | None \<Rightarrow> ''out'');
                   w' = w\<lparr>ws_ended_at := Some now, ws_status := ''COMPLETED'',
                          ws_end_type := Some ''FORCE_LEAVE'', ws_end_reason := Some reason\<rparr>;
                   a = \<lparr>al_gate_type = gate_type, al_gate_id = ws_gate_id w,
                        al_alert_type = ''WORKER_UNCOVERED'',
                        al_message = ''Worker (id='' @ str_of_int (ws_worker_id w) @
                          '') force-left gate '' @ str_of_int (ws_gate_id w) @
                          ''. Booth is now uncovered. Reason: '' @ reason\<rparr>;
                   d = put_session w' d
               in (Inr w', d\<lparr>bd_alerts := bd_alerts d @ [a]\<rparr>))"

section \<open>One worker a booth\<close>

definition booth_ok :: "booth_db \<Rightarrow> bool" where
  "booth_ok d \<longleftrightarrow>
     distinct (map ws_id (bd_sessions d)) \<and> (\<forall>w \<in> set (bd_sessions d). ws_id w < bd_next_id d) \<and>
     distinct (map ws_gate_id (filter is_open (bd_sessions d))) \<and>
     (\<forall>w \<in> set (bd_sessions d). (ws_status w = ''COMPLETED'') = (ws_ended_at w \<noteq> None) \<and>
        ws_status w \<in> {''ACTIVE'', ''PENDING_HANDOVER'', ''COMPLETED''})"

text \<open>The life of a session as a state machine, and what an operation may do to the table.\<close>

inductive handover :: "string \<Rightarrow> string \<Rightarrow> bool" where
  leaving: "handover ''ACTIVE'' ''PENDING_HANDOVER''"
| taken_over: "handover ''PENDING_HANDOVER'' ''COMPLETED''"
| forced: "st = ''ACTIVE'' \<or> st = ''PENDING_HANDOVER'' \<Longrightarrow> handover st ''COMPLETED''"

inductive_cases handover_from_completed: "handover ''COMPLETED'' st"
inductive_simps handover_simps: "handover a b"

definition follows :: "booth_db \<Rightarrow> booth_db \<Rightarrow> bool" where
  "follows d d' \<longleftrightarrow>
     (\<forall>w \<in> set (bd_sessions d). \<exists>w' \<in> set (bd_sessions d').
        ws_id w' = ws_id w \<and> ws_worker_id w' = ws_worker_id w \<and> ws_gate_id w' = ws_gate_id w \<and>
        handover\<^sup>*\<^sup>* (ws_status w) (ws_status w') \<and> (ws_status w = ''COMPLETED'' \<longrightarrow> w' = w))"

lemma follows_refl [simp]: "follows d d"
  by (auto simp: follows_def)

lemma completed_end: "handover\<^sup>*\<^sup>* ''COMPLETED'' st \<Longrightarrow> st = ''COMPLETED''"
  by (induction rule: rtranclp_induct) (auto elim: handover_from_completed)

lemma follows_trans:
  assumes "follows d1 d2" "follows d2 d3"
  shows "follows d1 d3"
  unfolding follows_def
proof
  fix w assume w: "w \<in> set (bd_sessions d1)"
  from bspec[OF assms(1)[unfolded follows_def] w] obtain v where
    v: "v \<in> set (bd_sessions d2)" "ws_id v = ws_id w" "ws_worker_id v = ws_worker_id w"
      "ws_gate_id v = ws_gate_id w" "handover\<^sup>*\<^sup>* (ws_status w) (ws_status v)"
      "ws_status w = ''COMPLETED'' \<longrightarrow> v = w"
    by blast
  from bspec[OF assms(2)[unfolded follows_def] v(1)] obtain u where
    "u \<in> set (bd_sessions d3)" "ws_id u = ws_id v" "ws_worker_id u = ws_worker_id v"
    "ws_gate_id u = ws_gate_id v" "handover\<^sup>*\<^sup>* (ws_status v) (ws_status u)"
    "ws_status v = ''COMPLETED'' \<longrightarrow> u = v"
    by blast
  with v show "\<exists>w' \<in> set (bd_sessions d3).
        ws_id w' = ws_id w \<and> ws_worker_id w' = ws_worker_id w \<and> ws_gate_id w' = ws_gate_id w \<and>
        handover\<^sup>*\<^sup>* (ws_status w) (ws_status w') \<and> (ws_status w = ''COMPLETED'' \<longrightarrow> w' = w)"
    by (intro bexI[of _ u]) auto
qed

text \<open>
  The contract of an operation on sessions: the table stays well formed and every session moves
  along the state machine.
\<close>

locale booth_service =
  fixes step :: "'op \<Rightarrow> booth_db \<Rightarrow> booth_db"
  assumes keeps_ok: "booth_ok d \<Longrightarrow> booth_ok (step op d)"
    and moves: "booth_ok d \<Longrightarrow> follows d (step op d)"
begin

lemma run_ok: "booth_ok d \<Longrightarrow> booth_ok (fold step ops d)"
  by (induction ops arbitrary: d) (simp_all add: keeps_ok)

lemma one_worker:
  assumes "booth_ok d"
  shows "\<exists>r. get_active_session (fold step ops d) gid = Inr r"
proof -
  let ?d = "fold step ops d"
  have dist: "distinct (map ws_gate_id (filter is_open (bd_sessions ?d)))"
    using run_ok[OF assms] by (simp add: booth_ok_def)
  have short: "length (filter (\<lambda>w. ws_gate_id w = gid) xs) \<le> 1" if "distinct (map ws_gate_id xs)" for xs
    using that
  proof (induction xs)
    case (Cons x xs)
    show ?case
    proof (cases "ws_gate_id x = gid")
      case True
      with Cons.prems have "gid \<notin> ws_gate_id ` set xs" by auto
      then have "filter (\<lambda>w. ws_gate_id w = gid) xs = []"
        by (auto simp: filter_empty_conv image_iff)
      with True show ?thesis by simp
    qed (use Cons in simp)
  qed simp
  have "length (filter (\<lambda>w. ws_gate_id w = gid \<and> is_open w) (bd_sessions ?d)) \<le> 1"
    using short[OF dist] by (simp add: conj_commute)
  then show ?thesis
    unfolding get_active_session_def
    by (cases "filter (\<lambda>w. ws_gate_id w = gid \<and> is_open w) (bd_sessions ?d)" rule: scalar_one_or_none.cases)
       auto
qed

lemma run_follows: "booth_ok d \<Longrightarrow> follows d (fold step ops d)"
proof (induction ops arbitrary: d)
  case (Cons op ops)
  from follows_trans[OF moves[OF Cons.prems] Cons.IH[OF keeps_ok[OF Cons.prems]]] show ?case by simp
qed simp

end

section \<open>The operations keep the contract\<close>

datatype booth_op =
    CheckIn checkin time time time
  | ConfirmOutgoing int string string "string option" time
  | ConfirmIncoming int int string bool time time time
  | ForceLeave int string string time

fun booth_step :: "ctor \<Rightarrow> (string \<Rightarrow> string \<Rightarrow> bool) \<Rightarrow> booth_op \<Rightarrow> booth_db \<Rightarrow> booth_db" where
  "booth_step ctor verify (CheckIn c t_shift now today) d =
     snd (check_in ctor verify c t_shift now today d)"
| "booth_step ctor verify (ConfirmOutgoing sid pin end_type end_reason now) d =
     snd (confirm_outgoing verify sid pin end_type end_reason now d)"
| "booth_step ctor verify (ConfirmIncoming sid worker_id pin subst now t_shift today) d =
     snd (confirm_incoming ctor verify sid worker_id pin subst now t_shift today d)"
| "booth_step ctor verify (ForceLeave sid pin reason now) d =
     snd (force_leave verify sid pin reason now d)"

lemmas booth_op_defs =
  check_in_def check_in_write_def confirm_outgoing_def confirm_incoming_def force_leave_def

text \<open>
  What the operations do to the table comes down to three shapes: nothing, one open row moved
  along the state machine, one open row appended at a gate without one.
\<close>

definition add_row :: "wsession \<Rightarrow> booth_db \<Rightarrow> booth_db" where
  "add_row w d = snd (add_session w d)"

lemma add_row_simps [simp]:
  "bd_sessions (add_row w d) = bd_sessions d @ [w\<lparr>ws_id := bd_next_id d\<rparr>]"
  "bd_next_id (add_row w d) = bd_next_id d + 1"
  by (simp_all add: add_row_def add_session_def Let_def)

inductive change :: "booth_db \<Rightarrow> booth_db \<Rightarrow> bool" where
  nothing: "change d d"
| move: "\<lbrakk>w \<in> set (bd_sessions d); ws_id w' = ws_id w; ws_gate_id w' = ws_gate_id w;
          ws_worker_id w' = ws_worker_id w; handover (ws_status w) (ws_status w');
          (ws_status w' = ''COMPLETED'') = (ws_ended_at w' \<noteq> None)\<rbrakk> \<Longrightarrow> change d (put_session w' d)"
| append: "\<lbrakk>\<forall>w \<in> set (bd_sessions d). ws_gate_id w = ws_gate_id w' \<longrightarrow> \<not> is_open w;
            ws_status w' = ''ACTIVE''; ws_ended_at w' = None\<rbrakk> \<Longrightarrow> change d (add_row w' d)"

lemma handover_open: "handover a b \<Longrightarrow> a = ''ACTIVE'' \<or> a = ''PENDING_HANDOVER''"
  by (auto simp: handover_simps)

lemma handover_status: "handover a b \<Longrightarrow> b \<in> {''PENDING_HANDOVER'', ''COMPLETED''}"
  by (auto simp: handover_simps)

lemma map_put_key:
  assumes "distinct (map f xs)" "x \<in> set xs" "f x' = f x"
  shows "map f (map (\<lambda>v. if f v = f x' then x' else v) xs) = map f xs"
  using assms by auto

lemma put_filtered:
  assumes "distinct (map f xs)" "x \<in> set xs" "f x' = f x" "g x' = g x" "P x"
    and "distinct (map g (filter P xs))"
  shows "distinct (map g (filter P (map (\<lambda>v. if f v = f x' then x' else v) xs)))"
  using assms
proof (induction xs)
  case (Cons y ys)
  have same: "map (\<lambda>v. if f v = f x' then x' else v) ys = ys" if "f y = f x'"
    using Cons.prems(1) that by (intro map_idI) (auto simp: image_iff)
  show ?case
  proof (cases "f y = f x'")
    case True
    with Cons.prems have "y = x" by (auto simp: image_iff)
    with same[OF True] Cons.prems True show ?thesis by auto
  next
    case False
    with Cons.prems have x: "x \<in> set ys" by auto
    have sub: "g ` set (filter P (map (\<lambda>v. if f v = f x' then x' else v) ys)) \<subseteq> g ` set (filter P ys)"
      using x Cons.prems(4,5) by auto
    have "distinct (map g (filter P ys))" using Cons.prems(6) by (auto split: if_splits)
    with Cons.IH[OF _ x Cons.prems(3,4,5)] Cons.prems(1,6) False sub show ?thesis
      by (auto split: if_splits)
  qed
qed simp

lemma booth_okD:
  assumes "booth_ok d"
  shows "distinct (map ws_id (bd_sessions d))"
    and "distinct (map ws_gate_id (filter is_open (bd_sessions d)))"
    and "w \<in> set (bd_sessions d) \<Longrightarrow> ws_id w < bd_next_id d"
    and "w \<in> set (bd_sessions d) \<Longrightarrow> ws_status w \<in> {''ACTIVE'', ''PENDING_HANDOVER'', ''COMPLETED''}"
    and "w \<in> set (bd_sessions d) \<Longrightarrow> (ws_status w = ''COMPLETED'') = (ws_ended_at w \<noteq> None)"
  using assms unfolding booth_ok_def by blast+

lemma same_id:
  assumes "booth_ok d" "v \<in> set (bd_sessions d)" "w \<in> set (bd_sessions d)" "ws_id v = ws_id w"
  shows "v = w"
  using booth_okD(1)[OF assms(1)] assms(2-) by (auto simp: distinct_map inj_on_def)

lemma change_ok:
  assumes "change d d'" "booth_ok d"
  shows "booth_ok d'"
  using assms
proof cases
  case (move w w')
  note ok = booth_okD[OF assms(2)]
  have "map ws_id (bd_sessions d') = map ws_id (bd_sessions d)"
    using move ok(1) by (simp add: put_session_def)
  moreover have "distinct (map ws_gate_id (filter is_open (bd_sessions d')))"
    using put_filtered[OF ok(1) move(2,3,4) _ ok(2)] handover_open[OF move(6)] move(1)
    by (simp add: put_session_def is_open_def)
  moreover have "bd_next_id d' = bd_next_id d" using move by (simp add: put_session_def)
  moreover have "\<forall>v \<in> set (bd_sessions d'). v = w' \<or> v \<in> set (bd_sessions d)"
    using move by (auto simp: put_session_def)
  ultimately show ?thesis
    using ok(1,3,4,5) move(2,3,7) handover_status[OF move(6)]
    unfolding booth_ok_def by fastforce
next
  case (append w')
  note ok = booth_okD[OF assms(2)]
  have "ws_gate_id w' \<notin> ws_gate_id ` set (filter is_open (bd_sessions d))"
    using append(2) by auto
  moreover have "bd_next_id d \<notin> ws_id ` set (bd_sessions d)"
    using ok(3) by force
  moreover have "ws_id w < bd_next_id d + 1" if "w \<in> set (bd_sessions d)" for w
    using ok(3)[OF that] by simp
  ultimately show ?thesis
    using ok(1,2,4,5) append(1,3,4) unfolding booth_ok_def by (simp add: is_open_def ball_Un)
qed simp

lemma change_follows:
  assumes "change d d'" "booth_ok d"
  shows "follows d d'"
  using assms
proof cases
  case (move w w')
  show ?thesis
    unfolding follows_def
  proof
    fix v assume v: "v \<in> set (bd_sessions d)"
    have "\<exists>v' \<in> set (bd_sessions d'). ws_id v' = ws_id v \<and> (v' = v \<or> v = w \<and> v' = w')"
    proof (cases "ws_id v = ws_id w")
      case True
      from same_id[OF assms(2) v move(2) True] show ?thesis
        using move v by (intro bexI[of _ w']) (auto simp: put_session_def image_iff)
    next
      case False
      then show ?thesis
        using move v by (intro bexI[of _ v]) (auto simp: put_session_def image_iff)
    qed
    then obtain v' where v': "v' \<in> set (bd_sessions d')" "ws_id v' = ws_id v"
        "v' = v \<or> v = w \<and> v' = w'"
      by blast
    moreover have "ws_status w \<noteq> ''COMPLETED''" using handover_open[OF move(6)] by auto
    ultimately show "\<exists>v' \<in> set (bd_sessions d'). ws_id v' = ws_id v \<and> ws_worker_id v' = ws_worker_id v \<and>
        ws_gate_id v' = ws_gate_id v \<and> handover\<^sup>*\<^sup>* (ws_status v) (ws_status v') \<and>
        (ws_status v = ''COMPLETED'' \<longrightarrow> v' = v)"
      using move(4,5,6) by (intro bexI[of _ v']) auto
  qed
qed (auto simp: follows_def)

lemma get_session_in: "get_session d i = Some w \<Longrightarrow> w \<in> set (bd_sessions d) \<and> ws_id w = i"
  by (auto simp: get_session_def find_Some_iff)

lemma none_open:
  "get_active_session d gid = Inr None \<Longrightarrow> w \<in> set (bd_sessions d) \<Longrightarrow> ws_gate_id w = gid \<Longrightarrow> \<not> is_open w"
  unfolding get_active_session_def
  by (cases "filter (\<lambda>w. ws_gate_id w = gid \<and> is_open w) (bd_sessions d)" rule: scalar_one_or_none.cases)
     (auto simp: filter_empty_conv)

lemma check_in_checks_free:
  "check_in_checks verify c t d = Inr i \<Longrightarrow> get_active_session d (ci_gate_id c) = Inr None"
  by (auto simp: check_in_checks_def split: option.splits sum.splits if_splits)

lemma case_add [simp]:
  "(case add_session w d of (w, d) \<Rightarrow> (Inr w, d)) = (Inr (w\<lparr>ws_id := bd_next_id d\<rparr>), add_row w d)"
  by (simp add: add_session_def add_row_def Let_def)

lemma check_in_changes: "change d (snd (check_in ctor verify c t_shift now today d))"
proof (cases "check_in_checks verify c t_shift d")
  case (Inr i)
  from none_open[OF check_in_checks_free[OF Inr]] show ?thesis
    by (auto simp: check_in_def check_in_write_def Inr Let_def intro!: change.append intro: change.nothing)
qed (simp add: check_in_def change.intros)

lemma confirm_outgoing_changes:
  "change d (snd (confirm_outgoing verify sid pin end_type end_reason now d))" if "booth_ok d"
proof -
  have "change d (put_session (w\<lparr>ws_outgoing_confirmed_at := Some now, ws_status := ''PENDING_HANDOVER'',
      ws_end_type := Some end_type, ws_end_reason := end_reason\<rparr>) d)"
    if w: "w \<in> set (bd_sessions d)" "ws_status w = ''ACTIVE''" for w
    using w booth_okD(5)[OF \<open>booth_ok d\<close> w(1)] by (intro change.move[of w]) (auto intro: handover.leaving)
  then show ?thesis
    by (auto simp: confirm_outgoing_def Let_def intro: change.nothing dest!: get_session_in
        split: option.split sum.split)
qed

lemma force_leave_changes:
  "\<exists>d'. change d d' \<and> bd_sessions (snd (force_leave verify sid pin reason now d)) = bd_sessions d' \<and>
     bd_next_id (snd (force_leave verify sid pin reason now d)) = bd_next_id d'"
proof -
  have "change d (put_session (w\<lparr>ws_ended_at := Some now, ws_status := ''COMPLETED'',
      ws_end_type := Some ''FORCE_LEAVE'', ws_end_reason := Some reason\<rparr>) d)"
    if "w \<in> set (bd_sessions d)" "is_open w" for w
    using that by (intro change.move[of w]) (auto simp: is_open_def intro: handover.forced)
  then show ?thesis
    by (fastforce simp: force_leave_def Let_def intro: change.nothing dest!: get_session_in
        split: option.split sum.split)
qed

lemma confirm_incoming_changes:
  assumes "booth_ok d"
  shows "\<exists>d1. change d d1 \<and> change d1 (snd (confirm_incoming ctor verify sid worker_id pin subst now t_shift today d))"
proof -
  have "\<exists>d1. change d d1 \<and> change d1 (add_row w (put_session (p\<lparr>ws_ended_at := Some now, ws_status := ''COMPLETED''\<rparr>) d))"
    if p: "p \<in> set (bd_sessions d)" "ws_status p = ''PENDING_HANDOVER''"
      and w: "ws_gate_id w = ws_gate_id p" "ws_status w = ''ACTIVE''" "ws_ended_at w = None" for p w
  proof (intro exI conjI)
    let ?p = "p\<lparr>ws_ended_at := Some now, ws_status := ''COMPLETED''\<rparr>"
    show "change d (put_session ?p d)"
      using p by (intro change.move[of p]) (auto intro: handover.taken_over)
    have one: "\<not> is_open v" if "v \<in> set (bd_sessions d)" "v \<noteq> p" "ws_gate_id v = ws_gate_id p" for v
      using booth_okD(2)[OF assms] p that
      by (auto simp: distinct_map inj_on_def is_open_def)
    show "change (put_session ?p d) (add_row w (put_session ?p d))"
      using w one by (intro change.append) (auto simp: put_session_def is_open_def)
  qed
  then show ?thesis
    by (auto simp: confirm_incoming_def Let_def intro: change.nothing dest!: get_session_in
        split: option.split sum.split)
qed

lemma booth_ok_cong:
  "bd_sessions d = bd_sessions d' \<Longrightarrow> bd_next_id d = bd_next_id d' \<Longrightarrow> booth_ok d = booth_ok d'"
  by (simp add: booth_ok_def)

lemma follows_cong: "bd_sessions d = bd_sessions d' \<Longrightarrow> follows e d = follows e d'"
  by (simp add: follows_def)

lemma booth_step_keeps:
  assumes "booth_ok d"
  shows "booth_ok (booth_step ctor verify op d) \<and> follows d (booth_step ctor verify op d)"
proof (cases op)
  case (CheckIn c t_shift now today)
  from change_ok[OF check_in_changes assms] change_follows[OF check_in_changes assms] CheckIn
  show ?thesis by simp
next
  case (ConfirmOutgoing sid pin end_type end_reason now)
  from change_ok[OF confirm_outgoing_changes[OF assms] assms]
    change_follows[OF confirm_outgoing_changes[OF assms] assms] ConfirmOutgoing
  show ?thesis by simp
next
  case (ConfirmIncoming sid worker_id pin subst now t_shift today)
  with confirm_incoming_changes[OF assms] obtain d1 where
    c: "change d d1" "change d1 (booth_step ctor verify op d)"
    by (metis booth_step.simps(3))
  note ok = change_ok[OF c(1) assms]
  from change_ok[OF c(2) ok] follows_trans[OF change_follows[OF c(1) assms] change_follows[OF c(2) ok]]
  show ?thesis by simp
next
  case (ForceLeave sid pin reason now)
  with force_leave_changes[of d verify sid pin reason now] obtain d' where d': "change d d'"
    "bd_sessions (booth_step ctor verify op d) = bd_sessions d'"
    "bd_next_id (booth_step ctor verify op d) = bd_next_id d'" by auto
  from change_ok[OF d'(1) assms] change_follows[OF d'(1) assms] show ?thesis
    by (simp add: booth_ok_cong[OF d'(2,3)] follows_cong[OF d'(2)])
qed

interpretation booths: booth_service "booth_step ctor verify" for ctor verify
  by unfold_locales (simp_all add: booth_step_keeps)

section \<open>Properties\<close>

text \<open>A booth with one gate, two workers with a PIN and an all-day shift.\<close>

definition example_booth :: booth_db where
  "example_booth = \<lparr>bd_core = example_store,
     bd_users = [\<lparr>us_id = 1, us_is_active = True, us_worker_pin = Some ''h1''\<rparr>,
                 \<lparr>us_id = 2, us_is_active = True, us_worker_pin = Some ''h2''\<rparr>],
     bd_assignments = [\<lparr>sa_id = 5, sa_shift_id = 1, sa_gate_id = 7\<rparr>],
     bd_sessions = [], bd_alerts = [], bd_next_id = 1\<rparr>"

definition example_verify :: "string \<Rightarrow> string \<Rightarrow> bool" where
  "example_verify pin h \<longleftrightarrow> h = CHR ''h'' # pin"

definition example_checkin :: checkin where
  "example_checkin = \<lparr>ci_gate_id = 7, ci_worker_id = 1, ci_pin = ''1'',
     ci_shift_assignment_id = Some 5, ci_is_substitute = False, ci_original_worker_id = None\<rparr>"

text \<open>The constructor as the ORM documents it: only attributes of the class.\<close>

definition documented_ctor :: ctor where
  "documented_ctor attrs kwargs \<longleftrightarrow> set kwargs \<subseteq> set attrs"

text \<open>
  C11. Whatever the constructor accepts and however PINs are verified, along every sequence of
  check-ins, confirmations and forced leaves, the lookup of the session of a gate never finds two
  (so it does not raise), every session keeps its worker and gate and only moves forward along
  ACTIVE, PENDING_HANDOVER, COMPLETED, and a completed session is never changed again.
\<close>

theorem booth_sessions:
  assumes "booth_ok d"
  shows "(\<exists>r. get_active_session (fold (booth_step ctor verify) ops d) gid = Inr r) \<and>
    (\<forall>w \<in> set (bd_sessions d). \<exists>w' \<in> set (bd_sessions (fold (booth_step ctor verify) ops d)).
        ws_id w' = ws_id w \<and> ws_worker_id w' = ws_worker_id w \<and> ws_gate_id w' = ws_gate_id w \<and>
        handover\<^sup>*\<^sup>* (ws_status w) (ws_status w') \<and> (ws_status w = ''COMPLETED'' \<longrightarrow> w' = w))"
  using booths.one_worker[OF assms] booths.run_follows[OF assms] by (simp add: follows_def)

theorem booth_sessions_witness:
  "booth_ok example_booth \<and>
   (\<exists>r. get_active_session (fold (booth_step (\<lambda>_ _. True) example_verify)
       [CheckIn example_checkin 0 0 0, ConfirmOutgoing 1 ''1'' ''SCHEDULED'' None 0,
        ConfirmIncoming 1 2 ''2'' False 0 0 0] example_booth) 7 = Inr r)"
proof -
  have "booth_ok example_booth" by (simp add: booth_ok_def example_booth_def)
  then show ?thesis using booth_sessions by blast
qed

text \<open>
  C27. With a constructor that accepts only mapped attributes, no check-in succeeds: after every
  check has passed the service passes \<open>original_worker_id\<close>, which \<open>WorkerSession\<close> does not map, so
  the request ends in a \<open>TypeError\<close>; the store is unchanged in every case.
\<close>

theorem check_in_never_succeeds:
  "check_in documented_ctor verify c t_shift now today d =
     (case check_in_checks verify c t_shift d of Inl e \<Rightarrow> (Inl e, d) | Inr _ \<Rightarrow> (Inl TypeError, d))"
  by (simp add: check_in_def check_in_write_def documented_ctor_def CHECK_IN_KWARGS_def
      WORKER_SESSION_ATTRS_def split: sum.split)

text \<open>
  The check and the insert of a check-in are not atomic. If the keyword is accepted and two
  check-ins for one gate both run their checks before either writes, both insert, and from then on
  the lookup of the session of that gate raises.
\<close>

theorem check_in_race:
  assumes "check_in_checks verify c1 t d = Inr i" "check_in_checks verify c2 t d = Inr j"
    and "ci_gate_id c1 = ci_gate_id c2"
    and "ctor WORKER_SESSION_ATTRS CHECK_IN_KWARGS"
  shows "let (r1, d1) = check_in_write ctor c1 i now today d;
             (r2, d2) = check_in_write ctor c2 j now today d1
         in \<not> isl r1 \<and> \<not> isl r2 \<and> get_active_session d2 (ci_gate_id c1) = Inl MultipleResultsFound"
proof -
  have "filter (\<lambda>w. ws_gate_id w = ci_gate_id c1 \<and> is_open w) (bd_sessions d) = []"
    using none_open[OF check_in_checks_free[OF assms(1)]] by (auto simp: filter_empty_conv)
  with assms(3,4) show ?thesis
    by (simp add: check_in_write_def get_active_session_def Let_def is_open_def)
qed

theorem check_in_race_witness:
  "let (r1, d1) = check_in_write (\<lambda>_ _. True) example_checkin 1 0 0 example_booth;
       (r2, d2) = check_in_write (\<lambda>_ _. True) (example_checkin\<lparr>ci_worker_id := 2, ci_pin := ''2''\<rparr>) 1 0 0 d1
   in \<not> isl r1 \<and> \<not> isl r2 \<and> get_active_session d2 7 = Inl MultipleResultsFound"
  using check_in_race[of example_verify example_checkin 0 example_booth 1
      "example_checkin\<lparr>ci_worker_id := 2, ci_pin := ''2''\<rparr>" 1 "\<lambda>_ _. True" 0 0]
  by (simp add: check_in_checks_def get_gate_def get_worker_and_verify_pin_def get_active_session_def
      example_booth_def example_checkin_def example_verify_def example_defs)

end
