(* ===== verification/Ledger.thy ===== *)
theory Ledger
  imports Transactions
begin

text \<open>
  What every operation on the parking transactions owes the table: the invariant
  \<open>store_ok\<close> is kept, a transaction that has left ACTIVE is never written again, no row
  disappears. The interface \<open>exit_service\<close> states it for a family of operations and carries it
  over any sequence of them; the services interpret it on their own definitions.
\<close>

definition evolves :: "store \<Rightarrow> store \<Rightarrow> bool" where
  "evolves s s' \<longleftrightarrow>
     (store_ok s \<longrightarrow>
        store_ok s' \<and> next_tx_id s \<le> next_tx_id s' \<and>
        tx_id ` set (txs s) \<subseteq> tx_id ` set (txs s') \<and>
        (\<forall>t \<in> set (txs s). \<not> is_active_tx t \<longrightarrow> t \<in> set (txs s')))"

lemma evolves_refl [simp, pres_intros]: "evolves s s"
  by (simp add: evolves_def)

lemma evolves_trans: "evolves s s' \<Longrightarrow> evolves s' s'' \<Longrightarrow> evolves s s''"
  unfolding evolves_def by (meson order_trans subset_trans)

lemma evolves_frame:
  "txs s' = txs s \<Longrightarrow> next_tx_id s' = next_tx_id s \<Longrightarrow> evolves s s'"
  by (simp add: evolves_def store_ok_def)

lemma evolves_cong:
  assumes "evolves s s'" "txs s'' = txs s'" "next_tx_id s'' = next_tx_id s'"
  shows "evolves s s''"
proof -
  have "store_ok s'' = store_ok s'" by (simp only: store_ok_def assms(2,3))
  with assms(1) show ?thesis by (simp only: evolves_def assms(2,3))
qed

lemma evolves_snapshots [simp]:
  "evolves s (enqueue_snapshots_for_gate c i k s') = evolves s s'"
  by (simp add: evolves_def)

lemma evolves_updates [simp]:
  "evolves s (s'\<lparr>jobs := j\<rparr>) = evolves s s'" "evolves s (s'\<lparr>pending := p\<rparr>) = evolves s s'"
  "evolves s (s'\<lparr>emoney_txs := e, next_em_id := n\<rparr>) = evolves s s'"
  by (simp_all add: evolves_def)

text \<open>Flushing an update of a row that was ACTIVE.\<close>

lemma evolves_flush [pres_intros]:
  assumes "flush_tx s t' = Inr s'" "row_ok t'" "t \<in> set (txs s)" "is_active_tx t"
    "tx_id t' = tx_id t"
  shows "evolves s s'"
proof -
  have eq: "txs s' = replace_tx t' (txs s)" "next_tx_id s' = next_tx_id s"
    using assms(1) by (auto simp: flush_tx_Inr)
  have ids: "tx_id ` set (txs s) = tx_id ` set (txs s')"
    unfolding eq using map_id_replace_tx[of t' "txs s"] by (metis set_map)
  show ?thesis
    unfolding evolves_def
  proof (intro impI conjI ballI)
    assume ok: "store_ok s"
    show "store_ok s'"
      by (rule store_ok_flush[OF ok assms(1,2,3)]) (simp add: assms(5))
    fix u assume u: "u \<in> set (txs s)" "\<not> is_active_tx u"
    have "tx_id u \<noteq> tx_id t'"
      using ok u assms(3-5) by (auto simp: store_ok_def distinct_map inj_on_def)
    with u show "u \<in> set (txs s')" unfolding eq by (intro replace_tx_other)
  qed (simp_all add: ids eq(2))
qed

lemma evolves_insert [pres_intros]:
  assumes "insert_tx s t = Inr (t', s')" "row_ok t"
  shows "evolves s s'"
  using assms store_ok_insert[OF _ assms]
  by (auto simp: evolves_def insert_tx_Inr)

section \<open>The interface\<close>

locale exit_service =
  fixes view :: "'a \<Rightarrow> store"
    and step :: "'op \<Rightarrow> 'a \<Rightarrow> 'a"
  assumes step_evolves: "evolves (view s) (view (step op s))"
begin

lemma run_evolves: "evolves (view s) (view (fold step ops s))"
proof (induction ops arbitrary: s)
  case Nil
  show ?case by simp
next
  case (Cons op ops)
  have "evolves (view s) (view (step op s))" by (rule step_evolves)
  moreover have "evolves (view (step op s)) (view (fold step ops (step op s)))" by (rule Cons.IH)
  ultimately show ?case by (simp add: evolves_trans[of "view s" "view (step op s)"])
qed

lemma run_ok: "store_ok (view s) \<Longrightarrow> store_ok (view (fold step ops s))"
  using run_evolves[of s ops] by (simp add: evolves_def)

lemma run_completed:
  "store_ok (view s) \<Longrightarrow> t \<in> set (txs (view s)) \<Longrightarrow> \<not> is_active_tx t \<Longrightarrow>
     t \<in> set (txs (view (fold step ops s)))"
  using run_evolves[of s ops] by (auto simp: evolves_def)

lemma run_get_completed:
  assumes "store_ok (view s)" "get_tx (view s) i = Some t" "\<not> is_active_tx t"
  shows "get_tx (view (fold step ops s)) i = Some t"
  using assms run_completed[of s t ops] run_ok[of s ops] by (simp add: get_tx_iff)

end

section \<open>Operations that open no transaction\<close>

definition no_new_active :: "store \<Rightarrow> store \<Rightarrow> bool" where
  "no_new_active s s' \<longleftrightarrow>
     (\<forall>u \<in> set (txs s'). is_active_tx u \<longrightarrow>
        (\<exists>v \<in> set (txs s). is_active_tx v \<and> tx_id v = tx_id u \<and> tx_barcode v = tx_barcode u))"

lemma no_new_active_same [intro]: "txs s' = txs s \<Longrightarrow> no_new_active s s'"
  by (auto simp: no_new_active_def)

lemma no_new_active_trans:
  "no_new_active s s' \<Longrightarrow> no_new_active s' s'' \<Longrightarrow> no_new_active s s''"
  unfolding no_new_active_def by metis

lemma no_new_active_replace:
  assumes "t \<in> set (txs s)" "is_active_tx t" "tx_id t' = tx_id t" "tx_barcode t' = tx_barcode t"
  shows "no_new_active s (s'\<lparr>txs := replace_tx t' (txs s)\<rparr>)"
  using assms set_replace_tx[of _ t' "txs s"] by (force simp: no_new_active_def)

lemma no_new_active_frame [simp]:
  "no_new_active s (enqueue_snapshots_for_gate c i k s') = no_new_active s s'"
  "no_new_active s (s'\<lparr>pending := p\<rparr>) = no_new_active s s'"
  "no_new_active s (s'\<lparr>jobs := j\<rparr>) = no_new_active s s'"
  "no_new_active s (s'\<lparr>emoney_txs := e, next_em_id := n\<rparr>) = no_new_active s s'"
  by (simp_all add: no_new_active_def)

locale exit_only = exit_service view step
  for view :: "'a \<Rightarrow> store" and step :: "'op \<Rightarrow> 'a \<Rightarrow> 'a" +
  assumes step_opens_none: "store_ok (view s) \<Longrightarrow> no_new_active (view s) (view (step op s))"
begin

lemma run_opens_none:
  "store_ok (view s) \<Longrightarrow> no_new_active (view s) (view (fold step ops s))"
proof (induction ops arbitrary: s)
  case Nil
  show ?case by auto
next
  case (Cons op ops)
  have "store_ok (view (step op s))"
    using step_evolves[of s op] Cons.prems by (simp add: evolves_def)
  from no_new_active_trans[OF step_opens_none[OF Cons.prems] Cons.IH[OF this]]
  show ?case by simp
qed

lemma run_paid_stays_paid:
  assumes "store_ok (view s)" "b \<noteq> []"
    "find_active_transaction (view s) (Some b) None None = None"
  shows "find_active_transaction (view (fold step ops s)) (Some b) c p = None"
  using assms(2,3) run_opens_none[OF assms(1), of ops]
  by (fastforce simp: find_active_None lookup_criterion_def no_new_active_def)

end

section \<open>Entry and completion\<close>

lemma create_entry_evolves [pres_intros]:
  "evolves s (snd (create_entry_transaction b c p v g m mem now s))"
proof -
  have ins: "evolves s s'" if "insert_tx s t = Inr (t', s')" "tx_exit_time t = None"
      "tx_status t = ''ACTIVE''" for t t' s'
    using evolves_insert[OF that(1)] that(2,3) by (simp add: row_ok_def)
  show ?thesis
    by (auto simp: create_entry_transaction_def Let_def split: sum.splits option.splits prod.splits
        intro: ins)
qed

lemma complete_exit_evolves [pres_intros]:
  assumes "t0 \<in> set (txs s)" "is_active_tx t0" "tx_id t = tx_id t0"
  shows "evolves s (snd (complete_exit_transaction t g m f p mem em op sh now s))"
  using evolves_flush[OF _ _ assms(1,2)] assms(3)
  by (auto simp: complete_exit_transaction_def Let_def split: sum.splits)


text \<open>Entries, as a family of operations.\<close>

record entry =
  en_barcode :: "string option"
  en_card_number :: "string option"
  en_plate_number :: "string option"
  en_vehicle_type_id :: "int option"
  en_gate_in_id :: "int option"
  en_payment_method :: string
  en_member_id :: "int option"
  en_time :: time

definition entry_step :: "entry \<Rightarrow> store \<Rightarrow> store" where
  "entry_step e s = snd (create_entry_transaction (en_barcode e) (en_card_number e)
     (en_plate_number e) (en_vehicle_type_id e) (en_gate_in_id e) (en_payment_method e)
     (en_member_id e) (en_time e) s)"

interpretation entries: exit_service "\<lambda>s. s" entry_step
  by unfold_locales (simp add: entry_step_def create_entry_evolves)

end
