(* ===== verification/Payments.thy ===== *)
theory Payments
  imports Ledger
begin

text \<open>
  Cash, RFID and e-money payments at an exit gate (\<open>api/app/services/payment.py\<close>).

  A pending e-money deduct is the Redis key \<open>emoney:pending:<gate>\<close> with its expiry time. A
  service is one step of the store: the row lock of \<open>with_for_update\<close> makes it so for the rows
  it touches. Every reading of the clock is an argument; a sleep between two readings is
  any pair of values.
\<close>

section \<open>Deduct results\<close>

datatype deduct_status =
    SUCCESS | LOST_CONTACT | CORRECTION_VERIFIED | CORRECTION_FAILED | WRONG_CARD
  | INSUFFICIENT_BALANCE | TIMEOUT | FAILED

fun status_value :: "deduct_status \<Rightarrow> string" where
  "status_value SUCCESS = ''SUCCESS''"
| "status_value LOST_CONTACT = ''LOST_CONTACT''"
| "status_value CORRECTION_VERIFIED = ''CORRECTION_VERIFIED''"
| "status_value CORRECTION_FAILED = ''CORRECTION_FAILED''"
| "status_value WRONG_CARD = ''WRONG_CARD''"
| "status_value INSUFFICIENT_BALANCE = ''INSUFFICIENT_BALANCE''"
| "status_value TIMEOUT = ''TIMEOUT''"
| "status_value FAILED = ''FAILED''"

text \<open>\<open>DeductStatus(value)\<close>.\<close>

definition deduct_status_of :: "string \<Rightarrow> deduct_status option" where
  "deduct_status_of v =
     find (\<lambda>st. status_value st = v)
       [SUCCESS, LOST_CONTACT, CORRECTION_VERIFIED, CORRECTION_FAILED, WRONG_CARD,
        INSUFFICIENT_BALANCE, TIMEOUT, FAILED]"

section \<open>The pending deduct\<close>

definition EMONEY_PENDING_TTL :: time where
  "EMONEY_PENDING_TTL = 180 * us_per_second"

definition set_emoney_pending :: "string \<Rightarrow> emoney_pending \<Rightarrow> time \<Rightarrow> unit svc" where
  "set_emoney_pending gid pd now s =
     (if \<not> redis_up s then (Inl RedisError, s)
      else (Inr (), s\<lparr>pending := (pending s)(gid \<mapsto> (PJson pd, now + EMONEY_PENDING_TTL))\<rparr>))"

definition get_emoney_pending :: "string \<Rightarrow> time \<Rightarrow> store \<Rightarrow> py_exc + emoney_pending option" where
  "get_emoney_pending gid now s =
     (if \<not> redis_up s then Inl RedisError
      else case pending s gid of
             None \<Rightarrow> Inr None
           | Some (raw, expires) \<Rightarrow>
             if expires \<le> now then Inr None
             else (case raw of PJson pd \<Rightarrow> Inr (Some pd) | PGarbage \<Rightarrow> Inr None))"

definition clear_emoney_pending :: "string \<Rightarrow> unit svc" where
  "clear_emoney_pending gid s =
     (if \<not> redis_up s then (Inl RedisError, s)
      else (Inr (), s\<lparr>pending := (pending s)(gid := None)\<rparr>))"

section \<open>The receipt job\<close>

definition receipt_job :: "string \<Rightarrow> int \<Rightarrow> json \<Rightarrow> job" where
  "receipt_job gid tid data =
     \<lparr>job_name = ''print_receipt'',
      job_args = [(''gate_id'', JStr gid), (''transaction_data'', data)],
      job_key = (if tid = 0 then None else Some [JStr ''receipt'', JInt tid]),
      job_queue = None\<rparr>"

text \<open>Every exception is caught; a disabled printer skips the job.\<close>

definition enqueue_print_receipt :: "string \<Rightarrow> int \<Rightarrow> json \<Rightarrow> store \<Rightarrow> store" where
  "enqueue_print_receipt gid tid data s =
     (case find_gate s gid of Inl e \<Rightarrow> s
      | Inr None \<Rightarrow> s
      | Inr (Some g) \<Rightarrow>
        (case is_peripheral_enabled g ''receipt_printer'' of Inl e \<Rightarrow> s
         | Inr en \<Rightarrow>
           if \<not> truthy en \<or> \<not> redis_up s then s
           else s\<lparr>jobs := jobs s @ [receipt_job gid tid data]\<rparr>))"

definition receipt_data ::
  "ptx \<Rightarrow> int \<Rightarrow> int \<Rightarrow> string \<Rightarrow> (string \<times> json) list \<Rightarrow> json" where
  "receipt_data t fee paid_amount payment_method extra =
     JObj ([(''transaction_id'', JInt (tx_id t)), (''barcode'', jstr_opt (tx_barcode t)),
            (''plate_number'', jstr_opt (tx_plate_number t)),
            (''entry_time'', JIso (tx_entry_time t)),
            (''exit_time'', jiso_opt (tx_exit_time t)), (''fee'', JInt fee),
            (''paid_amount'', JInt paid_amount),
            (''payment_method'', JStr payment_method)] @ extra)"

section \<open>Cash\<close>

text \<open>The vehicle-type override, flushed before the fee is computed.\<close>

definition override_vehicle_type :: "ptx \<Rightarrow> int option \<Rightarrow> ptx svc" where
  "override_vehicle_type t vehicle_type_id s =
     (case vehicle_type_id of
        None \<Rightarrow> (Inr t, s)
      | Some v \<Rightarrow>
        let t' = t\<lparr>tx_vehicle_type_id := Some v\<rparr>
        in case flush_tx s t' of Inl e \<Rightarrow> (Inl e, s) | Inr s' \<Rightarrow> (Inr t', s'))"

definition process_cash_payment ::
  "string \<Rightarrow> int \<Rightarrow> string option \<Rightarrow> string option \<Rightarrow> string option \<Rightarrow> int \<Rightarrow> int option \<Rightarrow>
   int option \<Rightarrow> time \<Rightarrow> time \<Rightarrow> time \<Rightarrow> (ptx \<times> int \<times> int) svc" where
  "process_cash_payment gid gate_out_id barcode card_number plate_number paid_amount
       operator_id vehicle_type_id t_fee t_shift t_exit s =
     (case find_active_transaction s barcode card_number plate_number of
        None \<Rightarrow> (Inl (ValueError ''No active transaction found''), s)
      | Some t \<Rightarrow>
        case override_vehicle_type t vehicle_type_id s of
          (Inl e, s) \<Rightarrow> (Inl e, s)
        | (Inr t, s) \<Rightarrow>
          let s = enqueue_snapshots_for_gate gid (tx_id t) ''exit'' s
          in case calculate_transaction_fee s t t_fee None of
               Inl e \<Rightarrow> (Inl e, s)
             | Inr fee \<Rightarrow>
               if paid_amount < fee
               then (Inl (ValueError (''Insufficient payment: '' @ str_of_int paid_amount
                       @ '' < '' @ str_of_int fee)), s)
               else
                 let current = get_current_shift s t_shift
                 in case complete_exit_transaction t gate_out_id ''CASH'' fee (Some paid_amount)
                           None None operator_id (map_option sh_id current) t_exit s of
                      (Inl e, s) \<Rightarrow> (Inl e, s)
                    | (Inr t, s) \<Rightarrow>
                      (Inr (t, fee, max 0 (paid_amount - fee)),
                       enqueue_print_receipt gid (tx_id t)
                         (receipt_data t fee paid_amount ''CASH'' []) s))"

section \<open>RFID\<close>

definition process_rfid_payment ::
  "string \<Rightarrow> int \<Rightarrow> string \<Rightarrow> int option \<Rightarrow> time \<Rightarrow> time \<Rightarrow> (ptx \<times> int \<times> member) svc" where
  "process_rfid_payment gid gate_out_id card_number operator_id t_shift t_exit s =
     (case scalar_one_or_none
             (filter (\<lambda>m. mem_card_number m = card_number \<and> mem_is_active m) (members s)) of
        Inl e \<Rightarrow> (Inl e, s)
      | Inr None \<Rightarrow> (Inl (ValueError ''Invalid or inactive member card''), s)
      | Inr (Some m) \<Rightarrow>
        case find_active_transaction s None (Some card_number) None of
          None \<Rightarrow> (Inl (ValueError ''No active transaction found for this card''), s)
        | Some t \<Rightarrow>
          let s = enqueue_snapshots_for_gate gid (tx_id t) ''exit'' s;
              current = get_current_shift s t_shift
          in case complete_exit_transaction t gate_out_id ''RFID_MEMBER'' 0 None
                    (Some (mem_id m)) None operator_id (map_option sh_id current) t_exit s of
               (Inl e, s) \<Rightarrow> (Inl e, s)
             | (Inr t, s) \<Rightarrow> (Inr (t, 0, m), s))"

section \<open>E-money\<close>

definition process_emoney_deduct ::
  "string \<Rightarrow> int \<Rightarrow> string \<Rightarrow> int option \<Rightarrow> time \<Rightarrow> time \<Rightarrow> (ptx \<times> int) svc" where
  "process_emoney_deduct gid gate_out_id barcode vehicle_type_id t_fee t_arm s =
     (case find_active_transaction s (Some barcode) None None of
        None \<Rightarrow> (Inl (ValueError ''No active transaction found for this ticket''), s)
      | Some t \<Rightarrow>
        case override_vehicle_type t vehicle_type_id s of
          (Inl e, s) \<Rightarrow> (Inl e, s)
        | (Inr t, s) \<Rightarrow>
          case calculate_transaction_fee s t t_fee None of
            Inl e \<Rightarrow> (Inl e, s)
          | Inr fee \<Rightarrow>
            case set_emoney_pending gid
                   \<lparr>pd_transaction_id = tx_id t, pd_gate_out_id = gate_out_id, pd_fee = fee\<rparr>
                   t_arm s of
              (Inl e, s) \<Rightarrow> (Inl e, s)
            | (Inr _, s) \<Rightarrow> (Inr (t, fee), s))"

text \<open>What the reader reports of a deduct.\<close>

record deduct_report =
  rp_card_number :: string
  rp_status :: deduct_status
  rp_deduct_amount :: int
  rp_balance_before :: int
  rp_balance_after :: int
  rp_transaction_counter :: int
  rp_raw_response_hex :: string
  rp_settlement_payload_hex :: string
  rp_card_type :: "string option"
  rp_card_type_code :: "int option"

text \<open>Writing the row of the deduct.\<close>

definition add_emoney_tx :: "int \<Rightarrow> deduct_report \<Rightarrow> time \<Rightarrow> store \<Rightarrow> int \<times> store" where
  "add_emoney_tx tid r now s =
     (let row = \<lparr>em_id = next_em_id s, em_parking_transaction_id = Some tid,
            em_emoney_reader_id = None, em_card_number = rp_card_number r,
            em_card_type = rp_card_type r, em_card_type_code = rp_card_type_code r,
            em_amount_deducted = rp_deduct_amount r,
            em_balance_before = Some (rp_balance_before r),
            em_balance_after = Some (rp_balance_after r),
            em_transaction_counter = Some (rp_transaction_counter r),
            em_status = status_value (rp_status r),
            em_raw_response_hex = Some (rp_raw_response_hex r),
            em_settlement_payload_hex =
              (if rp_settlement_payload_hex r = [] then None
               else Some (rp_settlement_payload_hex r)),
            em_settlement_batch_id = None, em_bank_response_status = None,
            em_bank_response_at = None, em_created_at = now\<rparr>
      in (next_em_id s, s\<lparr>emoney_txs := emoney_txs s @ [row], next_em_id := next_em_id s + 1\<rparr>))"

definition save_card_number :: "ptx \<Rightarrow> string \<Rightarrow> ptx svc" where
  "save_card_number t card_number s =
     (if card_number = [] then (Inr t, s)
      else let t' = t\<lparr>tx_card_number := Some card_number\<rparr>
           in case flush_tx s t' of Inl e \<Rightarrow> (Inl e, s) | Inr s' \<Rightarrow> (Inr t', s'))"

definition deduct_success :: "deduct_status \<Rightarrow> bool" where
  "deduct_success st \<longleftrightarrow> st = SUCCESS \<or> st = CORRECTION_VERIFIED"

definition is_terminal_failure :: "deduct_status \<Rightarrow> bool" where
  "is_terminal_failure st \<longleftrightarrow>
     st = FAILED \<or> st = WRONG_CARD \<or> st = INSUFFICIENT_BALANCE \<or> st = CORRECTION_FAILED"

text \<open>
  The result: the transaction, the identifier of the deduct's row, \<open>success\<close>, the status and
  \<open>is_intermediate\<close>. The clocks: the read of the pending key, the row's creation, the shift
  lookup and the completion.
\<close>

definition process_emoney_result ::
  "string \<Rightarrow> int \<Rightarrow> deduct_report \<Rightarrow> int option \<Rightarrow> time \<Rightarrow> time \<Rightarrow> time \<Rightarrow> time \<Rightarrow>
   (ptx \<times> int \<times> bool \<times> deduct_status \<times> bool) svc" where
  "process_emoney_result gid gate_out_id r operator_id t_get t_row t_shift t_exit s =
     (case get_emoney_pending gid t_get s of
        Inl e \<Rightarrow> (Inl e, s)
      | Inr None \<Rightarrow>
        (Inl (ValueError ''No pending e-money deduct for this gate (timeout or never armed)''), s)
      | Inr (Some pd) \<Rightarrow>
        case (case get_tx s (pd_transaction_id pd) of None \<Rightarrow> None
              | Some t \<Rightarrow> if is_active_tx t then Some t else None) of
          None \<Rightarrow>
            (case clear_emoney_pending gid s of
               (Inl e, s) \<Rightarrow> (Inl e, s)
             | (Inr _, s) \<Rightarrow>
               (Inl (ValueError ''Pending transaction missing or already completed''), s))
        | Some t \<Rightarrow>
          case save_card_number t (rp_card_number r) s of
            (Inl e, s) \<Rightarrow> (Inl e, s)
          | (Inr t, s) \<Rightarrow>
            case add_emoney_tx (tx_id t) r t_row s of
              (eid, s) \<Rightarrow>
                if deduct_success (rp_status r)
                then
                  (let current = get_current_shift s t_shift;
                       out = int_or (pd_gate_out_id pd) gate_out_id
                   in case complete_exit_transaction t out ''EMONEY'' (rp_deduct_amount r)
                             (Some (rp_deduct_amount r)) None (Some eid) operator_id
                             (map_option sh_id current) t_exit s of
                        (Inl e, s) \<Rightarrow> (Inl e, s)
                      | (Inr t, s) \<Rightarrow>
                        case clear_emoney_pending gid s of
                          (Inl e, s) \<Rightarrow> (Inl e, s)
                        | (Inr _, s) \<Rightarrow>
                          let s = enqueue_snapshots_for_gate gid (tx_id t) ''exit'' s;
                              s = enqueue_print_receipt gid (tx_id t)
                                    (receipt_data t (rp_deduct_amount r) (rp_deduct_amount r)
                                       ''EMONEY'' [(''balance_after'', JInt (rp_balance_after r))]) s
                          in (Inr (t, eid, True, rp_status r, rp_status r = LOST_CONTACT), s))
                else if rp_status r = LOST_CONTACT
                then (Inr (t, eid, False, rp_status r, True), s)
                else if is_terminal_failure (rp_status r) \<or> rp_status r = TIMEOUT
                then (case clear_emoney_pending gid s of
                        (Inl e, s) \<Rightarrow> (Inl e, s)
                      | (Inr _, s) \<Rightarrow> (Inr (t, eid, False, rp_status r, False), s))
                else (Inr (t, eid, False, rp_status r, False), s))"


section \<open>Steps of a payment\<close>

lemma evolvesI: "(store_ok s \<Longrightarrow> evolves s s') \<Longrightarrow> evolves s s'"
  by (auto simp: evolves_def)

lemma enqueue_print_receipt_jobs:
  "\<exists>js. enqueue_print_receipt gid tid d s = s\<lparr>jobs := js\<rparr>"
proof -
  have "\<exists>js. s = s\<lparr>jobs := js\<rparr>" by (rule exI[of _ "jobs s"]) simp
  then show ?thesis
    by (auto simp: enqueue_print_receipt_def split: sum.splits option.splits)
qed

lemma enqueue_print_receipt_frame [frame_simps, simp]:
  "txs (enqueue_print_receipt g i d s) = txs s"
  "emoney_txs (enqueue_print_receipt g i d s) = emoney_txs s"
  "pending (enqueue_print_receipt g i d s) = pending s"
  "next_tx_id (enqueue_print_receipt g i d s) = next_tx_id s"
  "next_em_id (enqueue_print_receipt g i d s) = next_em_id s"
  "redis_up (enqueue_print_receipt g i d s) = redis_up s"
  "store_ok (enqueue_print_receipt g i d s) = store_ok s"
  "evolves s0 (enqueue_print_receipt g i d s) = evolves s0 s"
  "no_new_active s0 (enqueue_print_receipt g i d s) = no_new_active s0 s"
  using enqueue_print_receipt_jobs[of g i d s] by auto

text \<open>An update that touches neither the status nor the indexed keys.\<close>

lemma replace_tx_keys:
  assumes "distinct (map tx_id ts)" "t \<in> set ts" "tx_id t' = tx_id t"
    "tx_status t' = tx_status t" "tx_card_number t' = tx_card_number t"
    "tx_barcode t' = tx_barcode t"
  shows "unique_active (replace_tx t' ts) = unique_active ts"
proof -
  have same: "u = t" if "u \<in> set ts" "tx_id u = tx_id t'" for u
    using assms(1-3) that by (auto simp: distinct_map inj_on_def)
  have "List.map_filter f (replace_tx t' ts) = List.map_filter f ts"
    if "f t' = f t" for f :: "ptx \<Rightarrow> string option"
    unfolding replace_tx_def map_filter_def filter_map map_map
    using same that
    by (auto intro!: arg_cong2[where f = map] map_cong filter_cong simp: comp_def)
  then show ?thesis
    using assms(4-6) by (simp add: unique_active_def active_cards_def active_barcodes_def)
qed

lemma replace_tx_self:
  assumes "distinct (map tx_id ts)" "t \<in> set ts"
  shows "replace_tx t ts = ts"
proof -
  have "u = t" if "u \<in> set ts" "tx_id u = tx_id t" for u
    using assms that by (auto simp: distinct_map inj_on_def)
  then show ?thesis unfolding replace_tx_def by (intro map_idI) (simp split: if_split, metis)
qed

lemma replace_tx_twice [simp]:
  "tx_id t = tx_id u \<Longrightarrow> replace_tx t (replace_tx u ts) = replace_tx t ts"
  by (simp add: replace_tx_def)

text \<open>The row with the override applied.\<close>

definition with_vehicle_type :: "ptx \<Rightarrow> int option \<Rightarrow> ptx" where
  "with_vehicle_type t v =
     t\<lparr>tx_vehicle_type_id := (case v of None \<Rightarrow> tx_vehicle_type_id t | Some i \<Rightarrow> Some i)\<rparr>"

lemma with_vehicle_type_simps [simp]:
  "tx_id (with_vehicle_type t v) = tx_id t"
  "tx_status (with_vehicle_type t v) = tx_status t"
  "tx_barcode (with_vehicle_type t v) = tx_barcode t"
  "tx_card_number (with_vehicle_type t v) = tx_card_number t"
  "row_ok (with_vehicle_type t v) = row_ok t"
  by (simp_all add: with_vehicle_type_def row_ok_def)

lemma override_ok:
  assumes "store_ok s" "t \<in> set (txs s)"
  shows "override_vehicle_type t v s =
     (Inr (with_vehicle_type t v), s\<lparr>txs := replace_tx (with_vehicle_type t v) (txs s)\<rparr>)"
proof -
  from assms(1) have d: "distinct (map tx_id (txs s))" and u: "unique_active (txs s)"
    by (auto simp: store_ok_def)
  show ?thesis
  proof (cases v)
    case None
    with replace_tx_self[OF d assms(2)] show ?thesis
      by (simp add: override_vehicle_type_def with_vehicle_type_def)
  next
    case (Some i)
    have "unique_active (replace_tx (with_vehicle_type t v) (txs s))"
      using replace_tx_keys[OF d assms(2), of "with_vehicle_type t v"] u by simp
    with Some show ?thesis
      by (simp add: override_vehicle_type_def with_vehicle_type_def flush_tx_def check_unique_def
          unique_active_def Let_def)
  qed
qed

lemma override_store_ok:
  assumes "store_ok s" "t \<in> set (txs s)"
  shows "store_ok (s\<lparr>txs := replace_tx (with_vehicle_type t v) (txs s)\<rparr>)"
    "with_vehicle_type t v \<in> set (replace_tx (with_vehicle_type t v) (txs s))"
proof -
  have "unique_active (replace_tx (with_vehicle_type t v) (txs s))"
    using replace_tx_keys[of "txs s" t "with_vehicle_type t v"] assms by (simp add: store_ok_def)
  moreover have "row_ok (with_vehicle_type t v)" using assms by (simp add: store_ok_def)
  ultimately show "store_ok (s\<lparr>txs := replace_tx (with_vehicle_type t v) (txs s)\<rparr>)"
    using store_ok_flush[OF assms(1), of "with_vehicle_type t v"] assms(2)
    by (simp add: flush_tx_Inr)
  show "with_vehicle_type t v \<in> set (replace_tx (with_vehicle_type t v) (txs s))"
    using assms(2) by (intro replace_tx_same) simp_all
qed

lemma override_evolves:
  assumes "store_ok s" "t \<in> set (txs s)" "is_active_tx t"
  shows "evolves s (s\<lparr>txs := replace_tx (with_vehicle_type t v) (txs s)\<rparr>)"
proof (rule evolves_flush[OF _ _ assms(2,3)])
  show "flush_tx s (with_vehicle_type t v) =
      Inr (s\<lparr>txs := replace_tx (with_vehicle_type t v) (txs s)\<rparr>)"
    using override_store_ok(1)[OF assms(1,2), of v] by (simp add: flush_tx_Inr store_ok_def)
  show "row_ok (with_vehicle_type t v)" using assms by (simp add: store_ok_def)
qed simp


section \<open>The services in closed form\<close>

lemma fee_updates [simp]:
  "calculate_transaction_fee (s\<lparr>txs := a\<rparr>) t x v = calculate_transaction_fee s t x v"
  "calculate_transaction_fee (enqueue_snapshots_for_gate c i k s) t x v =
     calculate_transaction_fee s t x v"
  by (rule fee_frame; simp)+

lemma shift_updates [simp]:
  "get_current_shift (s\<lparr>txs := a\<rparr>) now = get_current_shift s now"
  "get_current_shift (enqueue_snapshots_for_gate c i k s) now = get_current_shift s now"
  "get_current_shift (s\<lparr>emoney_txs := e, next_em_id := n\<rparr>) now = get_current_shift s now"
  by (rule shift_frame; simp)+

lemma cash_payment_eq:
  assumes "store_ok s" "find_active_transaction s b c p = Some t"
  shows "process_cash_payment gid out b c p paid op v t_fee t_shift t_exit s =
    (let t1 = with_vehicle_type t v;
         s1 = enqueue_snapshots_for_gate gid (tx_id t) ''exit''
                (s\<lparr>txs := replace_tx t1 (txs s)\<rparr>)
     in case calculate_transaction_fee s t1 t_fee None of
          Inl e \<Rightarrow> (Inl e, s1)
        | Inr fee \<Rightarrow>
          if paid < fee
          then (Inl (ValueError (''Insufficient payment: '' @ str_of_int paid @ '' < '' @
                  str_of_int fee)), s1)
          else let t2 = completed_tx t1 out ''CASH'' fee (Some paid) None None op
                          (map_option sh_id (get_current_shift s t_shift)) t_exit
               in (Inr (t2, fee, paid - fee),
                   enqueue_print_receipt gid (tx_id t) (receipt_data t2 fee paid ''CASH'' [])
                     (s1\<lparr>txs := replace_tx t2 (txs s)\<rparr>)))"
proof -
  from find_active_Some[OF assms(2)] have t: "t \<in> set (txs s)" by blast
  let ?s1 = "s\<lparr>txs := replace_tx (with_vehicle_type t v) (txs s)\<rparr>"
  from override_store_ok(1)[OF assms(1) t] have u: "unique_active (txs ?s1)"
    by (simp add: store_ok_def)
  then have "unique_active (txs (enqueue_snapshots_for_gate gid (tx_id t) ''exit'' ?s1))"
    by simp
  from complete_exit_ok[OF this] show ?thesis
    by (simp add: process_cash_payment_def assms(2) override_ok[OF assms(1) t] Let_def
        split: sum.splits)
qed

lemma cash_payment_none:
  "find_active_transaction s b c p = None \<Longrightarrow>
     process_cash_payment gid out b c p paid op v t_fee t_shift t_exit s =
       (Inl (ValueError ''No active transaction found''), s)"
  by (simp add: process_cash_payment_def)

lemma rfid_payment_eq:
  assumes "store_ok s"
    "scalar_one_or_none (filter (\<lambda>m. mem_card_number m = cno \<and> mem_is_active m) (members s)) =
       Inr (Some m)"
    "find_active_transaction s None (Some cno) None = Some t"
  shows "process_rfid_payment gid out cno op t_shift t_exit s =
    (let s1 = enqueue_snapshots_for_gate gid (tx_id t) ''exit'' s;
         t2 = completed_tx t out ''RFID_MEMBER'' 0 None (Some (mem_id m)) None op
                (map_option sh_id (get_current_shift s t_shift)) t_exit
     in (Inr (t2, 0, m), s1\<lparr>txs := replace_tx t2 (txs s)\<rparr>))"
proof -
  have "unique_active (txs (enqueue_snapshots_for_gate gid (tx_id t) ''exit'' s))"
    using assms(1) by (simp add: store_ok_def)
  from complete_exit_ok[OF this] show ?thesis
    by (simp add: process_rfid_payment_def assms(2,3) Let_def)
qed

section \<open>The services keep the ledger\<close>

lemma replace_done_evolves:
  assumes "store_ok s" "t \<in> set (txs s)" "is_active_tx t"
    "tx_id t2 = tx_id t" "row_ok t2" "\<not> is_active_tx t2"
  shows "evolves s (s\<lparr>txs := replace_tx t2 (txs s)\<rparr>)"
proof (rule evolves_flush[OF _ assms(5) assms(2,3,4)])
  show "flush_tx s t2 = Inr (s\<lparr>txs := replace_tx t2 (txs s)\<rparr>)"
    using unique_active_complete[OF _ assms(6)] assms(1) by (simp add: flush_tx_Inr store_ok_def)
qed

lemma snapshots_then_txs:
  "\<exists>js. (enqueue_snapshots_for_gate c i k s)\<lparr>txs := a\<rparr> = s\<lparr>txs := a, jobs := js\<rparr>"
proof -
  obtain js where "enqueue_snapshots_for_gate c i k s = s\<lparr>jobs := js\<rparr>"
    using enqueue_snapshots_jobs by blast
  then have "(enqueue_snapshots_for_gate c i k s)\<lparr>txs := a\<rparr> = s\<lparr>txs := a, jobs := js\<rparr>" by simp
  then show ?thesis ..
qed

lemma replace_done_evolves':
  assumes "store_ok s" "t \<in> set (txs s)" "is_active_tx t"
    "tx_id t2 = tx_id t" "row_ok t2" "\<not> is_active_tx t2"
  shows "evolves s ((enqueue_snapshots_for_gate c i k s)\<lparr>txs := replace_tx t2 (txs s)\<rparr>)"
    "evolves s ((enqueue_snapshots_for_gate c i k (s\<lparr>txs := a\<rparr>))\<lparr>txs := replace_tx t2 (txs s)\<rparr>)"
proof -
  note e = replace_done_evolves[OF assms]
  obtain js js' where
    "(enqueue_snapshots_for_gate c i k s)\<lparr>txs := replace_tx t2 (txs s)\<rparr> =
       s\<lparr>txs := replace_tx t2 (txs s), jobs := js\<rparr>"
    "(enqueue_snapshots_for_gate c i k (s\<lparr>txs := a\<rparr>))\<lparr>txs := replace_tx t2 (txs s)\<rparr> =
       (s\<lparr>txs := a\<rparr>)\<lparr>txs := replace_tx t2 (txs s), jobs := js'\<rparr>"
    using snapshots_then_txs by meson
  with e show
    "evolves s ((enqueue_snapshots_for_gate c i k s)\<lparr>txs := replace_tx t2 (txs s)\<rparr>)"
    "evolves s ((enqueue_snapshots_for_gate c i k (s\<lparr>txs := a\<rparr>))\<lparr>txs := replace_tx t2 (txs s)\<rparr>)"
    by simp_all
qed

lemma cash_payment_evolves [pres_intros]:
  "evolves s (snd (process_cash_payment gid out b c p paid op v t_fee t_shift t_exit s))"
proof (rule evolvesI)
  assume ok: "store_ok s"
  show ?thesis
  proof (cases "find_active_transaction s b c p")
    case None
    then show ?thesis by (simp add: cash_payment_none)
  next
    case (Some t)
    from find_active_Some[OF Some] have t: "t \<in> set (txs s)" "is_active_tx t" by blast+
    note o = override_evolves[OF ok t, of v]
    note d = replace_done_evolves'(2)[OF ok t]
    show ?thesis
      by (simp add: cash_payment_eq[OF ok Some] Let_def o d split: sum.splits)
  qed
qed

lemma rfid_cases:
  obtains (err) e where "scalar_one_or_none
      (filter (\<lambda>m. mem_card_number m = cno \<and> mem_is_active m) (members s)) = Inl e"
    | (nomem) "scalar_one_or_none
      (filter (\<lambda>m. mem_card_number m = cno \<and> mem_is_active m) (members s)) = Inr None"
    | (notx) m where "scalar_one_or_none
      (filter (\<lambda>m. mem_card_number m = cno \<and> mem_is_active m) (members s)) = Inr (Some m)"
      "find_active_transaction s None (Some cno) None = None"
    | (both) m t where "scalar_one_or_none
      (filter (\<lambda>m. mem_card_number m = cno \<and> mem_is_active m) (members s)) = Inr (Some m)"
      "find_active_transaction s None (Some cno) None = Some t"
  by (cases "scalar_one_or_none
      (filter (\<lambda>m. mem_card_number m = cno \<and> mem_is_active m) (members s))";
      cases "projr (scalar_one_or_none
      (filter (\<lambda>m. mem_card_number m = cno \<and> mem_is_active m) (members s)))";
      cases "find_active_transaction s None (Some cno) None") auto

lemma rfid_payment_evolves [pres_intros]:
  "evolves s (snd (process_rfid_payment gid out cno op t_shift t_exit s))"
proof (rule evolvesI)
  assume ok: "store_ok s"
  show ?thesis
  proof (cases rule: rfid_cases[of cno s])
    case (both m t)
    from find_active_Some[OF both(2)] have t: "t \<in> set (txs s)" "is_active_tx t" by blast+
    show ?thesis
      by (simp add: rfid_payment_eq[OF ok both] Let_def replace_done_evolves'(1)[OF ok t])
  qed (simp_all add: process_rfid_payment_def)
qed


lemma emoney_deduct_eq:
  assumes "store_ok s" "find_active_transaction s (Some b) None None = Some t"
  shows "process_emoney_deduct gid out b v t_fee t_arm s =
    (let t1 = with_vehicle_type t v; s1 = s\<lparr>txs := replace_tx t1 (txs s)\<rparr>
     in case calculate_transaction_fee s t1 t_fee None of
          Inl e \<Rightarrow> (Inl e, s1)
        | Inr fee \<Rightarrow>
          if \<not> redis_up s then (Inl RedisError, s1)
          else (Inr (t1, fee),
                s1\<lparr>pending := (pending s)(gid \<mapsto>
                  (PJson \<lparr>pd_transaction_id = tx_id t, pd_gate_out_id = out, pd_fee = fee\<rparr>,
                   t_arm + EMONEY_PENDING_TTL))\<rparr>))"
proof -
  from find_active_Some[OF assms(2)] have t: "t \<in> set (txs s)" by blast
  show ?thesis
    by (simp add: process_emoney_deduct_def assms(2) override_ok[OF assms(1) t] Let_def
        set_emoney_pending_def split: sum.splits)
qed

lemma emoney_deduct_evolves [pres_intros]:
  "evolves s (snd (process_emoney_deduct gid out b v t_fee t_arm s))"
proof (rule evolvesI)
  assume ok: "store_ok s"
  show ?thesis
  proof (cases "find_active_transaction s (Some b) None None")
    case None
    then show ?thesis by (simp add: process_emoney_deduct_def)
  next
    case (Some t)
    from find_active_Some[OF Some] have t: "t \<in> set (txs s)" "is_active_tx t" by blast+
    show ?thesis
      by (simp add: emoney_deduct_eq[OF ok Some] Let_def override_evolves[OF ok t, of v]
          split: sum.splits)
  qed
qed

text \<open>The row with the card that paid.\<close>

definition with_card :: "ptx \<Rightarrow> string \<Rightarrow> ptx" where
  "with_card t cno = (if cno = [] then t else t\<lparr>tx_card_number := Some cno\<rparr>)"

lemma with_card_simps [simp]:
  "tx_id (with_card t cno) = tx_id t" "tx_status (with_card t cno) = tx_status t"
  "tx_barcode (with_card t cno) = tx_barcode t" "row_ok (with_card t cno) = row_ok t"
  by (simp_all add: with_card_def row_ok_def)

lemma save_card_ok:
  assumes "store_ok s" "t \<in> set (txs s)" "unique_active (replace_tx (with_card t cno) (txs s))"
  shows "save_card_number t cno s =
    (Inr (with_card t cno), s\<lparr>txs := replace_tx (with_card t cno) (txs s)\<rparr>)"
proof (cases "cno = []")
  case True
  have "replace_tx t (txs s) = txs s"
    using assms by (intro replace_tx_self) (simp_all add: store_ok_def)
  with True show ?thesis by (simp add: save_card_number_def with_card_def)
next
  case False
  with assms(3) show ?thesis
    by (simp add: save_card_number_def with_card_def flush_tx_def check_unique_def
        unique_active_def Let_def)
qed

lemma save_card_conflict:
  assumes "store_ok s" "t \<in> set (txs s)" "\<not> unique_active (replace_tx (with_card t cno) (txs s))"
  shows "\<exists>e. save_card_number t cno s = (Inl (IntegrityError e), s)"
proof -
  have "cno \<noteq> []"
    using assms replace_tx_self[of "txs s" t] by (auto simp: with_card_def store_ok_def)
  with assms(3) show ?thesis
    by (auto simp: save_card_number_def with_card_def flush_tx_def check_unique_def
        unique_active_def Let_def)
qed

lemma with_card_evolves:
  assumes "store_ok s" "t \<in> set (txs s)" "is_active_tx t"
    "unique_active (replace_tx (with_card t cno) (txs s))"
  shows "evolves s (s\<lparr>txs := replace_tx (with_card t cno) (txs s)\<rparr>)"
proof (rule evolves_flush[OF _ _ assms(2,3)])
  show "flush_tx s (with_card t cno) = Inr (s\<lparr>txs := replace_tx (with_card t cno) (txs s)\<rparr>)"
    using assms(4) by (simp add: flush_tx_Inr)
  show "row_ok (with_card t cno)" using assms(1,2) by (simp add: store_ok_def)
qed simp

text \<open>The row the report of a deduct leaves behind.\<close>

definition emoney_row :: "int \<Rightarrow> int \<Rightarrow> deduct_report \<Rightarrow> time \<Rightarrow> emtx" where
  "emoney_row eid tid r now =
     last (emoney_txs (snd (add_emoney_tx tid r now
       \<lparr>txs = [], emoney_txs = [], gates = [], members = [], vtypes = [], shifts = [],
        next_tx_id = 0, next_em_id = eid, pending = Map.empty, jobs = [], redis_up = True\<rparr>)))"

lemma add_emoney_tx_eq:
  "add_emoney_tx tid r now s =
     (next_em_id s, s\<lparr>emoney_txs := emoney_txs s @ [emoney_row (next_em_id s) tid r now],
                      next_em_id := next_em_id s + 1\<rparr>)"
  by (simp add: add_emoney_tx_def emoney_row_def)

lemma emoney_row_simps [simp]:
  "em_id (emoney_row eid tid r now) = eid"
  "em_parking_transaction_id (emoney_row eid tid r now) = Some tid"
  "em_status (emoney_row eid tid r now) = status_value (rp_status r)"
  "em_amount_deducted (emoney_row eid tid r now) = rp_deduct_amount r"
  "em_emoney_reader_id (emoney_row eid tid r now) = None"
  by (simp_all add: add_emoney_tx_def emoney_row_def)

lemma pending_lookup:
  "get_emoney_pending gid now s = Inr (Some pd) \<longleftrightarrow>
     redis_up s \<and> (\<exists>ex. pending s gid = Some (PJson pd, ex) \<and> now < ex)"
  by (auto simp: get_emoney_pending_def split: option.splits pending_raw.splits)

text \<open>A report that finds its armed transaction: one equation per outcome.\<close>

lemma emoney_result_eq:
  fixes out :: int and op :: "int option" and t_row t_shift t_exit :: time
  assumes ok: "store_ok s" and pd: "get_emoney_pending gid t_get s = Inr (Some pd)"
    and t: "get_tx s (pd_transaction_id pd) = Some t" "is_active_tx t"
    and u: "unique_active (replace_tx (with_card t (rp_card_number r)) (txs s))"
  defines "t1 \<equiv> with_card t (rp_card_number r)"
  defines "s1 \<equiv> s\<lparr>txs := replace_tx t1 (txs s),
     emoney_txs := emoney_txs s @ [emoney_row (next_em_id s) (tx_id t) r t_row],
     next_em_id := next_em_id s + 1\<rparr>"
  defines "t2 \<equiv> completed_tx t1 (int_or (pd_gate_out_id pd) out) ''EMONEY'' (rp_deduct_amount r)
     (Some (rp_deduct_amount r)) None (Some (next_em_id s)) op
     (map_option sh_id (get_current_shift s t_shift)) t_exit"
  shows "process_emoney_result gid out r op t_get t_row t_shift t_exit s =
    (if deduct_success (rp_status r)
     then (Inr (t2, next_em_id s, True, rp_status r, False),
           enqueue_print_receipt gid (tx_id t)
             (receipt_data t2 (rp_deduct_amount r) (rp_deduct_amount r) ''EMONEY''
                [(''balance_after'', JInt (rp_balance_after r))])
             (enqueue_snapshots_for_gate gid (tx_id t) ''exit''
               (s1\<lparr>txs := replace_tx t2 (txs s), pending := (pending s)(gid := None)\<rparr>)))
     else if rp_status r = LOST_CONTACT
     then (Inr (t1, next_em_id s, False, LOST_CONTACT, True), s1)
     else (Inr (t1, next_em_id s, False, rp_status r, False),
           s1\<lparr>pending := (pending s)(gid := None)\<rparr>))"
proof -
  from pd have up: "redis_up s" by (simp add: pending_lookup)
  from get_tx_Some[OF t(1)] have mem: "t \<in> set (txs s)" "tx_id t = pd_transaction_id pd" by auto
  note sv = save_card_ok[OF ok mem(1) u, folded t1_def]
  have tids: "tx_id t1 = tx_id t" "tx_id t2 = tx_id t" by (simp_all add: t1_def t2_def)
  have s1: "txs s1 = replace_tx t1 (txs s)" "redis_up s1" "pending s1 = pending s"
    using up by (simp_all add: s1_def)
  have ad: "add_emoney_tx (tx_id t) r t_row (s\<lparr>txs := replace_tx t1 (txs s)\<rparr>) = (next_em_id s, s1)"
    by (simp add: add_emoney_tx_eq s1_def)
  have sh: "get_current_shift s1 t_shift = get_current_shift s t_shift"
    by (rule shift_frame) (simp add: s1_def)
  have "unique_active (txs s1)" using u by (simp add: s1 t1_def)
  note ce = complete_exit_ok[OF this, of t1 "int_or (pd_gate_out_id pd) out" "''EMONEY''"
      "rp_deduct_amount r" "Some (rp_deduct_amount r)" None "Some (next_em_id s)" op
      "map_option sh_id (get_current_shift s t_shift)" t_exit, folded t2_def]
  have tw: "replace_tx t2 (txs s1) = replace_tx t2 (txs s)" by (simp add: s1 tids)
  have cl: "clear_emoney_pending gid x = (Inr (), x\<lparr>pending := (pending x)(gid := None)\<rparr>)"
    if "redis_up x" for x
    using that by (simp add: clear_emoney_pending_def)
  show ?thesis
    by (cases "rp_status r")
       (simp_all add: process_emoney_result_def pd t sv ad sh ce tw cl s1 tids deduct_success_def
         is_terminal_failure_def)
qed


lemma clear_pending_frame [simp]:
  "evolves s0 (snd (clear_emoney_pending gid s)) = evolves s0 s"
  "txs (snd (clear_emoney_pending gid s)) = txs s"
  by (simp_all add: clear_emoney_pending_def)

lemma snd_case_clear [simp]:
  "snd (case clear_emoney_pending gid s of (Inl e, s) \<Rightarrow> (Inl e, s) | (Inr u, s) \<Rightarrow> (f s, s)) =
     snd (clear_emoney_pending gid s)"
  by (auto split: prod.splits sum.splits)

lemma emoney_result_cases:
  obtains (err) e where "get_emoney_pending gid t_get s = Inl e"
    | (none) "get_emoney_pending gid t_get s = Inr None"
    | (missing) pd where "get_emoney_pending gid t_get s = Inr (Some pd)"
        "(case get_tx s (pd_transaction_id pd) of None \<Rightarrow> None
          | Some t \<Rightarrow> if is_active_tx t then Some t else None) = None"
    | (active) pd t where "get_emoney_pending gid t_get s = Inr (Some pd)"
        "get_tx s (pd_transaction_id pd) = Some t" "is_active_tx t"
proof (cases "get_emoney_pending gid t_get s")
  case (Inr x)
  show thesis
  proof (cases x)
    case (Some pd)
    show thesis
    proof (cases "case get_tx s (pd_transaction_id pd) of None \<Rightarrow> None
          | Some t \<Rightarrow> if is_active_tx t then Some t else None")
      case None
      with missing Inr Some show thesis by simp
    next
      case (Some t)
      then have "get_tx s (pd_transaction_id pd) = Some t" "is_active_tx t"
        by (auto split: option.splits if_splits)
      with active Inr \<open>x = Some pd\<close> show thesis by simp
    qed
  qed (use Inr none in simp)
qed (use err in simp)

lemma emoney_result_evolves [pres_intros]:
  "evolves s (snd (process_emoney_result gid out r op t_get t_row t_shift t_exit s))"
proof (rule evolvesI)
  assume ok: "store_ok s"
  show ?thesis
  proof (cases rule: emoney_result_cases[of gid t_get s])
    case (active pd t)
    from get_tx_Some[OF active(2)] have t: "t \<in> set (txs s)" by blast
    show ?thesis
    proof (cases "unique_active (replace_tx (with_card t (rp_card_number r)) (txs s))")
      case True
      note wc = with_card_evolves[OF ok t active(3) True]
      have dn: "evolves s (s\<lparr>emoney_txs := e, next_em_id := n, txs := replace_tx t2 (txs s)\<rparr>)"
        if "tx_id t2 = tx_id t" "row_ok t2" "\<not> is_active_tx t2" for t2 e n
        by (rule evolves_cong[OF replace_done_evolves[OF ok t active(3) that]]) simp_all
      show ?thesis
        using wc by (auto simp: emoney_result_eq[OF ok active True] dn)
    next
      case False
      obtain e where "save_card_number t (rp_card_number r) s = (Inl (IntegrityError e), s)"
        using save_card_conflict[OF ok t False] by blast
      then show ?thesis by (simp add: process_emoney_result_def active)
    qed
  qed (simp_all add: process_emoney_result_def)
qed


section \<open>No payment opens a transaction\<close>

lemma cash_payment_opens_none:
  assumes "store_ok s"
  shows "no_new_active s (snd (process_cash_payment gid out b c p paid op v t_fee t_shift t_exit s))"
proof (cases "find_active_transaction s b c p")
  case None
  then show ?thesis by (auto simp: cash_payment_none)
next
  case (Some t)
  from find_active_Some[OF Some] have t: "t \<in> set (txs s)" "is_active_tx t" by blast+
  show ?thesis
    by (auto simp: cash_payment_eq[OF assms Some] Let_def split: sum.splits
        intro: no_new_active_replace[OF t])
qed

lemma rfid_payment_opens_none:
  assumes "store_ok s"
  shows "no_new_active s (snd (process_rfid_payment gid out cno op t_shift t_exit s))"
proof (cases rule: rfid_cases[of cno s])
  case (both m t)
  from find_active_Some[OF both(2)] have t: "t \<in> set (txs s)" "is_active_tx t" by blast+
  show ?thesis
    by (auto simp: rfid_payment_eq[OF assms both] Let_def intro: no_new_active_replace[OF t])
qed (auto simp: process_rfid_payment_def)

lemma emoney_deduct_opens_none:
  assumes "store_ok s"
  shows "no_new_active s (snd (process_emoney_deduct gid out b v t_fee t_arm s))"
proof (cases "find_active_transaction s (Some b) None None")
  case None
  then show ?thesis by (auto simp: process_emoney_deduct_def)
next
  case (Some t)
  from find_active_Some[OF Some] have t: "t \<in> set (txs s)" "is_active_tx t" by blast+
  show ?thesis
    by (auto simp: emoney_deduct_eq[OF assms Some] Let_def split: sum.splits
        intro: no_new_active_replace[OF t])
qed

lemma emoney_result_opens_none:
  assumes ok: "store_ok s"
  shows "no_new_active s (snd (process_emoney_result gid out r op t_get t_row t_shift t_exit s))"
proof (cases rule: emoney_result_cases[of gid t_get s])
  case (active pd t)
  from get_tx_Some[OF active(2)] have t: "t \<in> set (txs s)" by blast
  show ?thesis
  proof (cases "unique_active (replace_tx (with_card t (rp_card_number r)) (txs s))")
    case True
    show ?thesis
      by (auto simp: emoney_result_eq[OF ok active True] intro: no_new_active_replace[OF t active(3)])
  next
    case False
    obtain e where "save_card_number t (rp_card_number r) s = (Inl (IntegrityError e), s)"
      using save_card_conflict[OF ok t False] by blast
    then show ?thesis by (auto simp: process_emoney_result_def active)
  qed
qed (auto simp: process_emoney_result_def)

section \<open>Correctness of the services\<close>

lemma example_store_ok: "store_ok example_store"
  by (simp add: store_ok_def example_defs unique_active_def active_cards_def active_barcodes_def
      map_filter_simps row_ok_def)

lemma example_find: "find_active_transaction example_store (Some ''B001'') None None = Some example_tx"
  by (rule find_active_barcode_unique[OF example_store_ok]) (simp_all add: example_defs)

lemma example_fee:
  "calculate_transaction_fee example_store (with_vehicle_type example_tx None) (3 * us_per_hour) None = Inr 10000"
proof -
  have "tariff_ref (rate_of_vtype example_vtype) 15 0 (3 * us_per_hour) False = 10000"
    by (simp add: tariff_ref_def rate_of_vtype_def example_vtype_def ref_nights_def Let_def int_or_def)
  then show ?thesis
    by (subst fee_eq_ref)
       (simp_all add: effective_vt_def effective_rate_def with_vehicle_type_def example_store_def
         example_tx_def, simp add: example_vtype_def)
qed

lemma example_cash_paid:
  "\<exists>t' s'. process_cash_payment ''OUT1'' 7 (Some ''B001'') None None 20000 (Some 4) None
      (3 * us_per_hour) 0 (3 * us_per_hour) example_store = (Inr (t', 10000, 10000), s')"
proof -
  obtain r s' where r: "process_cash_payment ''OUT1'' 7 (Some ''B001'') None None 20000 (Some 4) None
      (3 * us_per_hour) 0 (3 * us_per_hour) example_store = (r, s')" by fastforce
  then obtain t' where "r = Inr (t', 10000, 10000)"
    by (auto simp: cash_payment_eq[OF example_store_ok example_find] example_fee[simplified] Let_def)
  with r show ?thesis by blast
qed

text \<open>
  C9. A cash payment for a transaction the lookup finds. Paying less than the fee is refused and
  leaves the transaction ACTIVE (only the vehicle-type override stays); paying the fee or more
  completes exactly that row with the fee, the amount and the exit gate, and the change is the
  difference.
\<close>

theorem cash_payment_correct:
  assumes "store_ok s" "find_active_transaction s b c p = Some t"
    "calculate_transaction_fee s (with_vehicle_type t v) t_fee None = Inr fee"
    "process_cash_payment gid out b c p paid op v t_fee t_shift t_exit s = (r, s')"
  shows "if paid < fee
    then r = Inl (ValueError (''Insufficient payment: '' @ str_of_int paid @ '' < '' @ str_of_int fee)) \<and>
         txs s' = replace_tx (with_vehicle_type t v) (txs s) \<and>
         get_tx s' (tx_id t) = Some (with_vehicle_type t v) \<and> is_active_tx (with_vehicle_type t v)
    else \<exists>t'. r = Inr (t', fee, paid - fee) \<and> txs s' = replace_tx t' (txs s) \<and>
           get_tx s' (tx_id t) = Some t' \<and> tx_status t' = ''COMPLETED'' \<and>
           tx_fee t' = Some fee \<and> tx_paid_amount t' = Some paid \<and> tx_exit_time t' = Some t_exit \<and>
           tx_gate_out_id t' = Some out \<and> tx_payment_method t' = Some ''CASH''"
proof -
  from find_active_Some[OF assms(2)] have t: "t \<in> set (txs s)" "is_active_tx t" by blast+
  have ok: "store_ok s'"
    using cash_payment_evolves[of s gid out b c p paid op v t_fee t_shift t_exit] assms(1,4)
    by (simp add: evolves_def)
  have row: "get_tx s' (tx_id t) = Some u"
    if "txs s' = replace_tx u (txs s)" "tx_id u = tx_id t" for u
    using that replace_tx_same[OF t(1), of u] by (simp add: get_tx_iff[OF ok])
  show ?thesis
    using assms(4) row t(2) by (auto simp: cash_payment_eq[OF assms(1,2)] assms(3) Let_def)
qed

theorem cash_payment_correct_witness:
  "\<exists>t' s'. process_cash_payment ''OUT1'' 7 (Some ''B001'') None None 20000 (Some 4) None
      (3 * us_per_hour) 0 (3 * us_per_hour) example_store = (Inr (t', 10000, 10000), s') \<and>
     get_tx s' 1 = Some t' \<and> tx_fee t' = Some 10000"
proof -
  obtain t' s' where r: "process_cash_payment ''OUT1'' 7 (Some ''B001'') None None 20000 (Some 4) None
      (3 * us_per_hour) 0 (3 * us_per_hour) example_store = (Inr (t', 10000, 10000), s')"
    using example_cash_paid by blast
  from cash_payment_correct[OF example_store_ok example_find example_fee r] r show ?thesis
    by (auto simp: example_tx_def)
qed


text \<open>
  C8. A reader's report for an armed transaction that is still ACTIVE writes one row for the
  deduct, and then: a success (verified corrections included) completes the armed transaction
  with the reported amount, linked to that row, and disarms the gate; lost contact keeps the
  gate armed and the transaction ACTIVE; every other status disarms the gate and leaves the
  transaction ACTIVE. No other row changes.
\<close>

theorem emoney_result_correct:
  assumes "store_ok s" "redis_up s" "pending s gid = Some (PJson pd, ex)" "t_get < ex"
    "get_tx s (pd_transaction_id pd) = Some t" "is_active_tx t"
    "unique_active (replace_tx (with_card t (rp_card_number r)) (txs s))"
    "process_emoney_result gid out r op t_get t_row t_shift t_exit s = (res, s')"
  shows "\<exists>t'. res = Inr (t', next_em_id s, rp_status r \<in> {SUCCESS, CORRECTION_VERIFIED}, rp_status r, rp_status r = LOST_CONTACT) \<and>
    txs s' = replace_tx t' (txs s) \<and> get_tx s' (tx_id t) = Some t' \<and>
    emoney_txs s' = emoney_txs s @ [emoney_row (next_em_id s) (tx_id t) r t_row] \<and>
    (if rp_status r \<in> {SUCCESS, CORRECTION_VERIFIED}
     then tx_status t' = ''COMPLETED'' \<and> tx_fee t' = Some (rp_deduct_amount r) \<and>
          tx_emoney_transaction_id t' = Some (next_em_id s) \<and> tx_exit_time t' = Some t_exit \<and>
          tx_gate_out_id t' = Some (int_or (pd_gate_out_id pd) out) \<and> pending s' gid = None
     else is_active_tx t' \<and>
          pending s' gid = (if rp_status r = LOST_CONTACT then pending s gid else None))"
proof -
  have pl: "get_emoney_pending gid t_get s = Inr (Some pd)"
    using assms(2-4) by (simp add: pending_lookup)
  note eq = emoney_result_eq[OF assms(1) pl assms(5-7), of out op t_row t_shift t_exit]
  from get_tx_Some[OF assms(5)] have t: "t \<in> set (txs s)" by blast
  have ok: "store_ok s'"
    using emoney_result_evolves[of s gid out r op t_get t_row t_shift t_exit] assms(1,8)
    by (simp add: evolves_def)
  have row: "get_tx s' (tx_id t) = Some u"
    if "txs s' = replace_tx u (txs s)" "tx_id u = tx_id t" for u
    using that replace_tx_same[OF t, of u] by (simp add: get_tx_iff[OF ok])
  show ?thesis
    using assms(8) row assms(6) unfolding eq
    by (cases "rp_status r") (auto simp: deduct_success_def)
qed

definition example_report :: deduct_report where
  "example_report = \<lparr>rp_card_number = ''6032981000000001'', rp_status = SUCCESS,
     rp_deduct_amount = 10000, rp_balance_before = 50000, rp_balance_after = 40000,
     rp_transaction_counter = 12, rp_raw_response_hex = [], rp_settlement_payload_hex = [],
     rp_card_type = None, rp_card_type_code = None\<rparr>"

definition example_armed :: store where
  "example_armed = example_store\<lparr>pending := [''OUT1'' \<mapsto>
     (PJson \<lparr>pd_transaction_id = 1, pd_gate_out_id = 7, pd_fee = 10000\<rparr>, 180 * us_per_second)]\<rparr>"

theorem emoney_result_correct_witness:
  "\<exists>t' s'. process_emoney_result ''OUT1'' 7 example_report None 5 6 7 8 example_armed =
      (Inr (t', 1, True, SUCCESS, False), s') \<and> get_tx s' 1 = Some t' \<and>
      tx_status t' = ''COMPLETED'' \<and> tx_fee t' = Some 10000 \<and> pending s' ''OUT1'' = None"
proof -
  obtain res s' where r: "process_emoney_result ''OUT1'' 7 example_report None 5 6 7 8 example_armed
      = (res, s')" by fastforce
  have "store_ok example_armed" using example_store_ok by (simp add: example_armed_def)
  moreover have "redis_up example_armed" "pending example_armed ''OUT1'' =
      Some (PJson \<lparr>pd_transaction_id = 1, pd_gate_out_id = 7, pd_fee = 10000\<rparr>, 180 * us_per_second)"
    "get_tx example_armed 1 = Some example_tx" "is_active_tx example_tx"
    "next_em_id example_armed = 1" "tx_id example_tx = 1"
    by (simp_all add: example_armed_def example_defs get_tx_def)
  moreover have "unique_active (replace_tx (with_card example_tx (rp_card_number example_report))
      (txs example_armed))"
    by (simp add: unique_active_def active_cards_def active_barcodes_def example_armed_def
        example_defs replace_tx_def with_card_def example_report_def map_filter_simps)
  ultimately show ?thesis
    using emoney_result_correct[OF _ _ _ _ _ _ _ r, of
        "\<lparr>pd_transaction_id = 1, pd_gate_out_id = 7, pd_fee = 10000\<rparr>" "180 * us_per_second" example_tx] r
    by (auto simp: example_report_def)
qed

end
