(* ===== verification/Payment_Routes.thy ===== *)
theory Payment_Routes
  imports Payments Rate_Limit
begin

text \<open>
  The payment endpoints (\<open>api/app/routes/payments.py\<close>) over the services: the request's
  database session (\<open>api/database.py\<close>: commit on a normal return, roll back on an exception),
  the idempotency cache of the cash and RFID endpoints, and the booth endpoints' budget.

  A caught \<open>ValueError\<close> becomes a normal response, so what the service wrote before raising is
  committed. A rollback undoes the rows but neither the Redis keys, nor the jobs, nor the
  identifiers drawn. Request validation by the schemas and the Prometheus counters are left
  out; authentication provides the token's \<open>sub\<close>.
\<close>

section \<open>Requests and responses\<close>

record payment_response =
  pr_success :: bool
  pr_message :: string
  pr_transaction_id :: "int option"
  pr_fee :: "int option"
  pr_change_amount :: "int option"
  pr_payment_method :: "string option"
  pr_receipt_queued :: bool

record cash_request =
  cq_gate_id :: string
  cq_gate_out_id :: int
  cq_barcode :: "string option"
  cq_plate_number :: "string option"
  cq_paid_amount :: int
  cq_vehicle_type_id :: "int option"

record rfid_request =
  rq_gate_id :: string
  rq_gate_out_id :: int
  rq_card_number :: string

record deduct_request =
  dq_gate_id :: string
  dq_gate_out_id :: int
  dq_barcode :: string
  dq_vehicle_type_id :: "int option"

record result_request =
  eq_gate_id :: string
  eq_gate_out_id :: int
  eq_card_number :: string
  eq_card_type :: "string option"
  eq_card_type_code :: "int option"
  eq_status :: string
  eq_deduct_amount :: int
  eq_balance_before :: int
  eq_balance_after :: int
  eq_transaction_counter :: int
  eq_raw_response_hex :: string
  eq_settlement_payload_hex :: string

text \<open>The API process: the store, the idempotency cache with its expiry times, the booth
  budgets.\<close>

record api =
  db :: store
  idem :: "string \<Rightarrow> (payment_response \<times> time) option"
  booth_z :: zsets

section \<open>The session of a request\<close>

definition rollback :: "store \<Rightarrow> store \<Rightarrow> store" where
  "rollback s0 s = s\<lparr>txs := txs s0, emoney_txs := emoney_txs s0\<rparr>"

definition failure_response :: "string \<Rightarrow> payment_response" where
  "failure_response m =
     \<lparr>pr_success = False, pr_message = m, pr_transaction_id = None, pr_fee = None,
      pr_change_amount = None, pr_payment_method = None, pr_receipt_queued = False\<rparr>"

text \<open>\<open>try: ... except ValueError\<close> around a service, inside the session \<open>get_db\<close> yields.\<close>

definition settle :: "'a svc \<Rightarrow> ('a \<Rightarrow> payment_response) \<Rightarrow> payment_response svc" where
  "settle svc resp s =
     (case svc s of
        (Inr x, s') \<Rightarrow> (Inr (resp x), s')
      | (Inl (ValueError m), s') \<Rightarrow> (Inr (failure_response m), s')
      | (Inl e, s') \<Rightarrow> (Inl e, rollback s s'))"

section \<open>Idempotency\<close>

definition IDEMPOTENCY_TTL :: time where "IDEMPOTENCY_TTL = 300 * us_per_second"

definition check_idempotency ::
  "string option \<Rightarrow> time \<Rightarrow> api \<Rightarrow> payment_response option" where
  "check_idempotency key now a =
     (if \<not> truthy_str key \<or> \<not> redis_up (db a) then None
      else case idem a (the key) of None \<Rightarrow> None
           | Some (r, expires) \<Rightarrow> if expires \<le> now then None else Some r)"

definition store_idempotency ::
  "string option \<Rightarrow> payment_response \<Rightarrow> time \<Rightarrow> api \<Rightarrow> api" where
  "store_idempotency key r now a =
     (if \<not> truthy_str key \<or> \<not> redis_up (db a) then a
      else a\<lparr>idem := (idem a)(the key \<mapsto> (r, now + IDEMPOTENCY_TTL))\<rparr>)"

text \<open>\<open>int(sub) if sub else None\<close>.\<close>

definition get_operator_id :: "string option \<Rightarrow> py_exc + int option" where
  "get_operator_id sub =
     (if \<not> truthy_str sub then Inr None
      else case int_of_str (the sub) of Inl e \<Rightarrow> Inl e | Inr i \<Rightarrow> Inr (Some i))"

definition with_operator :: "string option \<Rightarrow> (int option \<Rightarrow> 'a svc) \<Rightarrow> 'a svc" where
  "with_operator sub f s =
     (case get_operator_id sub of Inl e \<Rightarrow> (Inl e, s) | Inr op \<Rightarrow> f op s)"

section \<open>The endpoints\<close>

definition cash_response :: "ptx \<times> int \<times> int \<Rightarrow> payment_response" where
  "cash_response x =
     \<lparr>pr_success = True, pr_message = ''Payment successful. Receipt printed.'',
      pr_transaction_id = Some (tx_id (fst x)), pr_fee = Some (fst (snd x)),
      pr_change_amount = Some (snd (snd x)), pr_payment_method = Some ''CASH'',
      pr_receipt_queued = True\<rparr>"

definition rfid_response :: "ptx \<times> int \<times> member \<Rightarrow> payment_response" where
  "rfid_response x =
     \<lparr>pr_success = True, pr_message = ''RFID payment successful'',
      pr_transaction_id = Some (tx_id (fst x)), pr_fee = Some 0, pr_change_amount = Some 0,
      pr_payment_method = Some ''RFID_MEMBER'', pr_receipt_queued = False\<rparr>"

definition deduct_response :: "ptx \<times> int \<Rightarrow> payment_response" where
  "deduct_response x =
     \<lparr>pr_success = True, pr_message = ''Tempel kartu untuk pembayaran'',
      pr_transaction_id = Some (tx_id (fst x)), pr_fee = Some (snd x), pr_change_amount = None,
      pr_payment_method = Some ''PENDING'', pr_receipt_queued = False\<rparr>"

definition result_response ::
  "int \<Rightarrow> ptx \<times> int \<times> bool \<times> deduct_status \<times> bool \<Rightarrow> payment_response" where
  "result_response amount x =
     (case x of (t, _, ok, _, _) \<Rightarrow>
       \<lparr>pr_success = ok,
        pr_message = (if ok then ''E-money payment processed'' else ''E-money payment failed''),
        pr_transaction_id = Some (tx_id t), pr_fee = (if ok then Some amount else None),
        pr_change_amount = None, pr_payment_method = (if ok then Some ''EMONEY'' else None),
        pr_receipt_queued = False\<rparr>)"

text \<open>
  The clock readings of one request: the idempotency check, the fee, the shift, the completion
  and the caching (or the arming).
\<close>

record clock =
  k_check :: time
  k_fee :: time
  k_shift :: time
  k_exit :: time
  k_store :: time

definition cash_payment ::
  "cash_request \<Rightarrow> string option \<Rightarrow> string option \<Rightarrow> clock \<Rightarrow> api \<Rightarrow>
   (py_exc + payment_response) \<times> api" where
  "cash_payment q sub key k a =
     (case check_idempotency key (k_check k) a of
        Some r \<Rightarrow> (Inr r, a)
      | None \<Rightarrow>
        case settle (with_operator sub (\<lambda>op.
               process_cash_payment (cq_gate_id q) (cq_gate_out_id q) (cq_barcode q) None
                 (cq_plate_number q) (cq_paid_amount q) op (cq_vehicle_type_id q)
                 (k_fee k) (k_shift k) (k_exit k))) cash_response (db a) of
          (Inl e, s) \<Rightarrow> (Inl e, a\<lparr>db := s\<rparr>)
        | (Inr r, s) \<Rightarrow>
          (Inr r, if pr_success r then store_idempotency key r (k_store k) (a\<lparr>db := s\<rparr>)
                  else a\<lparr>db := s\<rparr>))"

definition rfid_payment ::
  "rfid_request \<Rightarrow> string option \<Rightarrow> string option \<Rightarrow> clock \<Rightarrow> api \<Rightarrow>
   (py_exc + payment_response) \<times> api" where
  "rfid_payment q sub key k a =
     (case check_idempotency key (k_check k) a of
        Some r \<Rightarrow> (Inr r, a)
      | None \<Rightarrow>
        case settle (with_operator sub (\<lambda>op.
               process_rfid_payment (rq_gate_id q) (rq_gate_out_id q) (rq_card_number q) op
                 (k_shift k) (k_exit k))) rfid_response (db a) of
          (Inl e, s) \<Rightarrow> (Inl e, a\<lparr>db := s\<rparr>)
        | (Inr r, s) \<Rightarrow>
          (Inr r, if pr_success r then store_idempotency key r (k_store k) (a\<lparr>db := s\<rparr>)
                  else a\<lparr>db := s\<rparr>))"

definition emoney_deduct ::
  "deduct_request \<Rightarrow> string option \<Rightarrow> clock \<Rightarrow> api \<Rightarrow> (py_exc + payment_response) \<times> api" where
  "emoney_deduct q sub k a =
     (case settle (with_operator sub (\<lambda>op.
             process_emoney_deduct (dq_gate_id q) (dq_gate_out_id q) (dq_barcode q)
               (dq_vehicle_type_id q) (k_fee k) (k_store k))) deduct_response (db a) of
        (r, s) \<Rightarrow> (r, a\<lparr>db := s\<rparr>))"

definition report_of :: "result_request \<Rightarrow> deduct_status \<Rightarrow> deduct_report" where
  "report_of q st =
     \<lparr>rp_card_number = eq_card_number q, rp_status = st, rp_deduct_amount = eq_deduct_amount q,
      rp_balance_before = eq_balance_before q, rp_balance_after = eq_balance_after q,
      rp_transaction_counter = eq_transaction_counter q,
      rp_raw_response_hex = eq_raw_response_hex q,
      rp_settlement_payload_hex = eq_settlement_payload_hex q, rp_card_type = eq_card_type q,
      rp_card_type_code = eq_card_type_code q\<rparr>"

text \<open>\<open>k_fee\<close> stamps the deduct's row, \<open>k_check\<close> is the read of the pending key.\<close>

definition emoney_result ::
  "result_request \<Rightarrow> string option \<Rightarrow> clock \<Rightarrow> api \<Rightarrow> (py_exc + payment_response) \<times> api" where
  "emoney_result q sub k a =
     (case deduct_status_of (eq_status q) of
        None \<Rightarrow> (Inr (failure_response (''Invalid deduct status: '' @ eq_status q)), a)
      | Some st \<Rightarrow>
        case settle (with_operator sub (\<lambda>op.
               process_emoney_result (eq_gate_id q) (eq_gate_out_id q) (report_of q st) op
                 (k_check k) (k_fee k) (k_shift k) (k_exit k)))
               (result_response (eq_deduct_amount q)) (db a) of
          (r, s) \<Rightarrow> (r, a\<lparr>db := s\<rparr>))"

text \<open>The booth endpoints: the budget first; \<open>n\<close> Redis calls of it succeed.\<close>

definition booth_guard ::
  "nat \<Rightarrow> string \<Rightarrow> time \<Rightarrow> (api \<Rightarrow> (py_exc + payment_response) \<times> api) \<Rightarrow> api \<Rightarrow>
   (py_exc + payment_response) \<times> api" where
  "booth_guard n gid now f a =
     (case enforce_booth_rate_limit n gid now (booth_z a) of
        (Some retry, z) \<Rightarrow>
          (Inl (HTTPException 429 ''Too many booth requests for this gate''), a\<lparr>booth_z := z\<rparr>)
      | (None, z) \<Rightarrow> f (a\<lparr>booth_z := z\<rparr>))"

definition rfid_booth ::
  "nat \<Rightarrow> rfid_request \<Rightarrow> clock \<Rightarrow> api \<Rightarrow> (py_exc + payment_response) \<times> api" where
  "rfid_booth n q k =
     booth_guard n (rq_gate_id q) (k_check k) (\<lambda>a.
       case settle (process_rfid_payment (rq_gate_id q) (rq_gate_out_id q) (rq_card_number q) None
              (k_shift k) (k_exit k)) rfid_response (db a) of
         (r, s) \<Rightarrow> (r, a\<lparr>db := s\<rparr>))"

definition emoney_booth_result ::
  "nat \<Rightarrow> result_request \<Rightarrow> clock \<Rightarrow> api \<Rightarrow> (py_exc + payment_response) \<times> api" where
  "emoney_booth_result n q k =
     booth_guard n (eq_gate_id q) (k_check k) (emoney_result q None k)"

definition lookup_transaction ::
  "string option \<Rightarrow> string option \<Rightarrow> string option \<Rightarrow> int option \<Rightarrow> time \<Rightarrow> api \<Rightarrow>
   py_exc + (ptx \<times> int) option" where
  "lookup_transaction barcode card_number plate_number vehicle_type_id now a =
     (case find_active_transaction (db a) barcode card_number plate_number of
        None \<Rightarrow> Inr None
      | Some t \<Rightarrow>
        (case calculate_transaction_fee (db a) t now vehicle_type_id of
           Inl e \<Rightarrow> Inl e | Inr fee \<Rightarrow> Inr (Some (t, fee))))"

definition calculate_fee_endpoint ::
  "int \<Rightarrow> int option \<Rightarrow> time \<Rightarrow> api \<Rightarrow> py_exc + int \<times> int option" where
  "calculate_fee_endpoint tid vehicle_type_id now a =
     (case get_tx (db a) tid of
        None \<Rightarrow> Inl (HTTPException 404 ''Active transaction not found'')
      | Some t \<Rightarrow>
        if tx_status t \<noteq> ''ACTIVE'' then Inl (HTTPException 404 ''Active transaction not found'')
        else case calculate_transaction_fee (db a) t now vehicle_type_id of
               Inl e \<Rightarrow> Inl e
             | Inr fee \<Rightarrow>
               Inr (fee, case vehicle_type_id of None \<Rightarrow> tx_vehicle_type_id t | Some v \<Rightarrow> Some v))"

section \<open>Every request keeps the ledger\<close>

text \<open>The requests the POS and the booth send, and what each does to the store.\<close>

datatype request =
    Cash cash_request "string option" "string option" clock
  | Rfid rfid_request "string option" "string option" clock
  | Arm deduct_request "string option" clock
  | Report result_request "string option" clock
  | RfidBooth nat rfid_request clock
  | ReportBooth nat result_request clock

fun serve :: "request \<Rightarrow> api \<Rightarrow> (py_exc + payment_response) \<times> api" where
  "serve (Cash q sub key k) = cash_payment q sub key k"
| "serve (Rfid q sub key k) = rfid_payment q sub key k"
| "serve (Arm q sub k) = emoney_deduct q sub k"
| "serve (Report q sub k) = emoney_result q sub k"
| "serve (RfidBooth n q k) = rfid_booth n q k"
| "serve (ReportBooth n q k) = emoney_booth_result n q k"

lemma evolves_rollback: "evolves s s' \<Longrightarrow> evolves s (rollback s s')"
  by (auto simp: evolves_def rollback_def store_ok_def)

lemma opens_none_rollback [simp]: "no_new_active s (rollback s s')"
  by (rule no_new_active_same) (simp add: rollback_def)

lemma store_idempotency_db [simp]: "db (store_idempotency key r now a) = db a"
  by (simp add: store_idempotency_def)


lemma cash_payment_store:
  "db (snd (cash_payment q sub key k a)) \<in>
     {db a, snd (settle (with_operator sub (\<lambda>op.
        process_cash_payment (cq_gate_id q) (cq_gate_out_id q) (cq_barcode q) None
          (cq_plate_number q) (cq_paid_amount q) op (cq_vehicle_type_id q)
          (k_fee k) (k_shift k) (k_exit k))) cash_response (db a))}"
  by (auto simp: cash_payment_def split: option.splits prod.splits sum.splits)

lemma rfid_payment_store:
  "db (snd (rfid_payment q sub key k a)) \<in>
     {db a, snd (settle (with_operator sub (\<lambda>op.
        process_rfid_payment (rq_gate_id q) (rq_gate_out_id q) (rq_card_number q) op
          (k_shift k) (k_exit k))) rfid_response (db a))}"
  by (auto simp: rfid_payment_def split: option.splits prod.splits sum.splits)

text \<open>
  What holds of the store before and after every service holds before and after every request: a
  relation kept by the four services and by a rollback is kept by the endpoints.
\<close>

locale service_relation =
  fixes R :: "store \<Rightarrow> store \<Rightarrow> bool"
  assumes rel_refl: "R s s"
    and rel_rollback: "R s s' \<Longrightarrow> R s (rollback s s')"
    and rel_cash: "R s (snd (process_cash_payment gid out b c p paid op v t_fee t_shift t_exit s))"
    and rel_rfid: "R s (snd (process_rfid_payment gid out cno op t_shift t_exit s))"
    and rel_deduct: "R s (snd (process_emoney_deduct gid out code v t_fee t_arm s))"
    and rel_result: "R s (snd (process_emoney_result gid out r op t_get t_row t_shift t_exit s))"
begin

lemma settle_rel: "R s (snd (svc s)) \<Longrightarrow> R s (snd (settle svc resp s))"
  by (auto simp: settle_def rel_rollback split: prod.splits sum.splits py_exc.splits)

lemma settle_op_rel:
  assumes "\<And>op. R s (snd (f op s))"
  shows "R s (snd (settle (with_operator sub f) resp s))"
  using assms by (intro settle_rel) (auto simp: with_operator_def rel_refl split: sum.splits)

lemma emoney_result_rel: "R (db a) (db (snd (emoney_result q sub k a)))"
  by (auto simp: emoney_result_def case_prod_beta rel_refl split: option.split
      intro!: settle_op_rel rel_result)

lemma serve_rel: "R (db a) (db (snd (serve r a)))"
proof (cases r)
  case (Cash q sub key k)
  have "R (db a) (snd (settle (with_operator sub (\<lambda>op.
        process_cash_payment (cq_gate_id q) (cq_gate_out_id q) (cq_barcode q) None
          (cq_plate_number q) (cq_paid_amount q) op (cq_vehicle_type_id q)
          (k_fee k) (k_shift k) (k_exit k))) cash_response (db a)))"
    by (intro settle_op_rel rel_cash)
  with Cash show ?thesis using cash_payment_store[of q sub key k a] by (auto simp: rel_refl)
next
  case (Rfid q sub key k)
  have "R (db a) (snd (settle (with_operator sub (\<lambda>op.
        process_rfid_payment (rq_gate_id q) (rq_gate_out_id q) (rq_card_number q) op
          (k_shift k) (k_exit k))) rfid_response (db a)))"
    by (intro settle_op_rel rel_rfid)
  with Rfid show ?thesis using rfid_payment_store[of q sub key k a] by (auto simp: rel_refl)
next
  case (Arm q sub k)
  then show ?thesis
    by (auto simp: emoney_deduct_def case_prod_beta intro!: settle_op_rel rel_deduct)
next
  case (Report q sub k)
  then show ?thesis by (simp add: emoney_result_rel)
next
  case (RfidBooth n q k)
  then show ?thesis
    by (auto simp: rfid_booth_def booth_guard_def case_prod_beta rel_refl split: prod.splits option.splits
        intro!: settle_rel rel_rfid)
next
  case (ReportBooth n q k)
  have "R (db a) (db (snd (emoney_result q None k (a\<lparr>booth_z := z\<rparr>))))" for z
    using emoney_result_rel[of "a\<lparr>booth_z := z\<rparr>" q None k] by simp
  with ReportBooth show ?thesis
    by (auto simp: emoney_booth_result_def booth_guard_def rel_refl split: prod.splits option.splits)
qed

end

interpretation evolving: service_relation evolves
  by unfold_locales (simp_all add: evolves_rollback cash_payment_evolves rfid_payment_evolves
      emoney_deduct_evolves emoney_result_evolves)

interpretation opens_none: service_relation "\<lambda>s s'. store_ok s \<longrightarrow> no_new_active s s'"
  by unfold_locales (auto simp: cash_payment_opens_none rfid_payment_opens_none
      emoney_deduct_opens_none emoney_result_opens_none)

definition serve_step :: "request \<Rightarrow> api \<Rightarrow> api" where
  "serve_step r a = snd (serve r a)"

interpretation payments: exit_only db serve_step
  using opens_none.serve_rel by unfold_locales (simp_all add: serve_step_def evolving.serve_rel)


section \<open>Correctness of the endpoints\<close>

lemma complete_clears_barcode:
  assumes ok: "store_ok s" and t: "t \<in> set (txs s)" "is_active_tx t" "tx_barcode t = Some b"
    and t2: "tx_id t2 = tx_id t" "\<not> is_active_tx t2" and s': "txs s' = replace_tx t2 (txs s)"
    and b: "b \<noteq> []"
  shows "find_active_transaction s' (Some b) None None = None"
proof -
  have "tx_barcode u \<noteq> Some b" if "u \<in> set (txs s')" "is_active_tx u" for u
  proof
    assume "tx_barcode u = Some b"
    moreover from that t2 s' have "u \<in> set (txs s)" "tx_id u \<noteq> tx_id t"
      using set_replace_tx[of u t2 "txs s"] by auto
    ultimately show False
      using unique_active_barcode[of "txs s" u t b] ok t that(2) by (auto simp: store_ok_def)
  qed
  with b show ?thesis by (auto simp: find_active_None lookup_criterion_def)
qed

lemma cash_payment_success:
  assumes ok: "store_ok (db a)" and b: "cq_barcode q = Some b" "b \<noteq> []"
    and run: "cash_payment q sub None k a = (Inr r, a')" "pr_success r"
  shows "store_ok (db a') \<and> find_active_transaction (db a') (Some b) None None = None \<and>
    (\<exists>t. pr_transaction_id r = Some (tx_id t) \<and> pr_fee r = tx_fee t \<and>
       tx_status t = ''COMPLETED'' \<and> get_tx (db a') (tx_id t) = Some t)"
proof -
  let ?f = "\<lambda>op. process_cash_payment (cq_gate_id q) (cq_gate_out_id q) (Some b) None
     (cq_plate_number q) (cq_paid_amount q) op (cq_vehicle_type_id q) (k_fee k) (k_shift k) (k_exit k)"
  have ni: "check_idempotency None x a = None" for x by (simp add: check_idempotency_def)
  from run obtain op x s' where svc: "?f op (db a) = (Inr x, s')" "r = cash_response x" "db a' = s'"
    by (auto simp: cash_payment_def ni b settle_def with_operator_def store_idempotency_def
        failure_response_def split: prod.splits sum.splits py_exc.splits if_splits)
  then obtain t where f: "find_active_transaction (db a) (Some b) None (cq_plate_number q) = Some t"
    by (cases "find_active_transaction (db a) (Some b) None (cq_plate_number q)")
       (auto simp: process_cash_payment_def)
  from find_active_Some[OF f] b(2) have t: "t \<in> set (txs (db a))" "is_active_tx t" "tx_barcode t = Some b"
    by (auto simp: lookup_criterion_def)
  obtain fee where fee: "calculate_transaction_fee (db a)
      (with_vehicle_type t (cq_vehicle_type_id q)) (k_fee k) None = Inr fee"
    and le: "fee \<le> cq_paid_amount q"
    using svc(1)
    by (auto simp: cash_payment_eq[OF ok f] Let_def split: sum.splits if_splits)
  define t2 where "t2 = completed_tx (with_vehicle_type t (cq_vehicle_type_id q)) (cq_gate_out_id q)
     ''CASH'' fee (Some (cq_paid_amount q)) None None op
     (map_option sh_id (get_current_shift (db a) (k_shift k))) (k_exit k)"
  have x: "x = (t2, fee, cq_paid_amount q - fee)" and s': "txs s' = replace_tx t2 (txs (db a))"
    using svc(1) le by (auto simp: cash_payment_eq[OF ok f] Let_def fee t2_def)
  have t2: "tx_id t2 = tx_id t" "\<not> is_active_tx t2" "tx_status t2 = ''COMPLETED''" "tx_fee t2 = Some fee"
    by (simp_all add: t2_def)
  have ok': "store_ok s'"
    using cash_payment_evolves[where s = "db a"] svc(1) ok unfolding evolves_def by (metis snd_conv)
  have row: "get_tx s' (tx_id t2) = Some t2"
    using s' t2(1) replace_tx_same[OF t(1), of t2] by (simp add: get_tx_iff[OF ok'])
  show ?thesis
    using complete_clears_barcode[OF ok t t2(1,2) s' b(2)] ok' row svc(2,3) x t2
    by (intro conjI exI[of _ t2]) (simp_all add: cash_response_def)
qed


section \<open>Replays\<close>

text \<open>The services leave Redis as it is.\<close>

lemma services_redis:
  "override_vehicle_type t v s = (r, s') \<Longrightarrow> redis_up s' = redis_up s"
  "complete_exit_transaction t g m f p mem em op sh x s = (r', s') \<Longrightarrow> redis_up s' = redis_up s"
  "save_card_number t c s = (r'', s') \<Longrightarrow> redis_up s' = redis_up s"
  "set_emoney_pending gid pd now s = (q, s') \<Longrightarrow> redis_up s' = redis_up s"
  "clear_emoney_pending gid s = (q', s') \<Longrightarrow> redis_up s' = redis_up s"
  "add_emoney_tx i rp now s = (eid, s') \<Longrightarrow> redis_up s' = redis_up s"
  by (auto simp: override_vehicle_type_def complete_exit_transaction_def save_card_number_def add_emoney_tx_def
      set_emoney_pending_def clear_emoney_pending_def flush_tx_Inr Let_def split: sum.splits option.splits if_splits)

lemma cleared_redis [simp]: "redis_up (snd (clear_emoney_pending gid s)) = redis_up s"
  using services_redis(5)[of gid s] by (cases "clear_emoney_pending gid s") simp

lemma payments_redis:
  "redis_up (snd (process_cash_payment gid out b c p paid op v t_fee t_shift t_exit s)) = redis_up s"
  "redis_up (snd (process_rfid_payment gid out cno op t_shift t_exit s)) = redis_up s"
  "redis_up (snd (process_emoney_deduct gid out code v t_fee t_arm s)) = redis_up s"
  "redis_up (snd (process_emoney_result gid out rp op t_get t_row t_shift t_exit s)) = redis_up s"
  by (auto simp: process_cash_payment_def process_rfid_payment_def process_emoney_deduct_def
      process_emoney_result_def Let_def dest!: services_redis
      split: option.splits prod.splits sum.splits if_splits)

interpretation redis: service_relation "\<lambda>s s'. redis_up s' = redis_up s"
  by unfold_locales (simp_all add: payments_redis rollback_def)

fun request_clock :: "request \<Rightarrow> clock" where
  "request_clock (Cash q sub key k) = k"
| "request_clock (Rfid q sub key k) = k"
| "request_clock (Arm q sub k) = k"
| "request_clock (Report q sub k) = k"
| "request_clock (RfidBooth n q k) = k"
| "request_clock (ReportBooth n q k) = k"

text \<open>An entry of the cache stays through every request that reads the clock before it expires.\<close>

lemma serve_keeps_entry:
  assumes "idem a kk = Some (r, ex)" "redis_up (db a)" "kk \<noteq> []" "k_check (request_clock req) < ex"
  shows "idem (serve_step req a) kk = Some (r, ex)"
proof (cases req)
  case (Cash q sub key k)
  with assms show ?thesis
    by (cases "key = Some kk") (auto simp: serve_step_def cash_payment_def check_idempotency_def
        store_idempotency_def split: option.splits prod.splits sum.splits elim!: truthy_strE)
next
  case (Rfid q sub key k)
  with assms show ?thesis
    by (cases "key = Some kk") (auto simp: serve_step_def rfid_payment_def check_idempotency_def
        store_idempotency_def split: option.splits prod.splits sum.splits elim!: truthy_strE)
next
  case (ReportBooth n q k)
  with assms(1) show ?thesis
    by (auto simp: serve_step_def emoney_booth_result_def booth_guard_def emoney_result_def
        split: option.splits prod.splits)
qed (use assms(1) in \<open>auto simp: serve_step_def emoney_deduct_def emoney_result_def rfid_booth_def
    booth_guard_def split: option.splits prod.splits\<close>)

lemma run_keeps_entry:
  assumes "idem a kk = Some (r, ex)" "redis_up (db a)" "kk \<noteq> []" "\<forall>req \<in> set reqs. k_check (request_clock req) < ex"
  shows "idem (fold serve_step reqs a) kk = Some (r, ex) \<and> redis_up (db (fold serve_step reqs a))"
  using assms
proof (induction reqs arbitrary: a)
  case (Cons req reqs)
  have "redis_up (db (serve_step req a))"
    using redis.serve_rel[of req a] Cons.prems(2) by (simp add: serve_step_def)
  with Cons serve_keeps_entry[of a kk r ex req] show ?case by simp
qed simp

text \<open>
  C21. A successful cash payment under an idempotency key is answered once. While Redis is up and for
  five minutes from the caching, whatever other payment requests are served in between: replaying the
  key, with whatever request, answers the same response and touches nothing; so does an RFID request
  under the same key.
\<close>

theorem idempotent_replay:
  assumes "truthy_str key" "redis_up (db a')" "check_idempotency key (k_check k) a = None"
    "cash_payment q sub key k a = (Inr r, a')" "pr_success r"
    and "a'' = fold serve_step reqs a'"
      "\<forall>req \<in> set reqs. k_check (request_clock req) < k_store k + 300 * us_per_second"
    and "k_check k' < k_store k + 300 * us_per_second"
  shows "cash_payment q' sub' key k' a'' = (Inr r, a'') \<and>
    rfid_payment rq sub'' key k' a'' = (Inr r, a'')"
proof -
  obtain kk where key: "key = Some kk" "kk \<noteq> []" using assms(1) by (auto elim: truthy_strE)
  from assms(2-5) key have "idem a' kk = Some (r, k_store k + 300 * us_per_second)"
    by (auto simp: cash_payment_def store_idempotency_def IDEMPOTENCY_TTL_def
        split: prod.splits sum.splits if_splits)
  from run_keeps_entry[OF this assms(2) key(2) assms(7)] assms(6,8) key
  have "check_idempotency key (k_check k') a'' = Some r"
    by (simp add: check_idempotency_def)
  then show ?thesis by (simp add: cash_payment_def rfid_payment_def)
qed

definition example_api :: api where
  "example_api = \<lparr>db = example_store, idem = Map.empty, booth_z = Map.empty\<rparr>"

definition example_cash :: cash_request where
  "example_cash = \<lparr>cq_gate_id = ''OUT1'', cq_gate_out_id = 7, cq_barcode = Some ''B001'',
     cq_plate_number = None, cq_paid_amount = 20000, cq_vehicle_type_id = None\<rparr>"

definition example_clock :: clock where
  "example_clock = \<lparr>k_check = 3 * us_per_hour, k_fee = 3 * us_per_hour, k_shift = 3 * us_per_hour,
     k_exit = 3 * us_per_hour, k_store = 3 * us_per_hour\<rparr>"

lemma example_cash_run:
  "\<exists>r a'. cash_payment example_cash (Some ''4'') key example_clock example_api = (Inr r, a') \<and>
     pr_success r \<and> pr_fee r = Some 10000 \<and> redis_up (db a')"
proof -
  have "tariff_ref (rate_of_vtype example_vtype) 15 0 (3 * us_per_hour) False = 10000"
    by (simp add: tariff_ref_def rate_of_vtype_def example_vtype_def ref_nights_def Let_def
        int_or_def)
  then have f: "calculate_transaction_fee example_store (with_vehicle_type example_tx None)
      (3 * us_per_hour) None = Inr 10000"
    by (subst fee_eq_ref)
       (simp_all add: effective_vt_def effective_rate_def with_vehicle_type_def example_store_def
         example_tx_def, simp add: example_vtype_def)
  have up: "redis_up example_store" by (simp add: example_store_def)
  have i: "check_idempotency key x example_api = None" for x
    by (simp add: check_idempotency_def example_api_def)
  have op: "get_operator_id (Some ''4'') = Inr (Some 4)"
    by (simp add: get_operator_id_def int_of_str_def py_int_def strip_def lstrip_def rstrip_def
        is_space_def is_digit_def dec_val_def digit_val_def)
  have d: "db example_api = example_store" by (simp add: example_api_def)
  show ?thesis
    by (simp add: cash_payment_def i d settle_def with_operator_def op example_cash_def
        example_clock_def cash_payment_eq[OF example_store_ok example_find] f[simplified] Let_def
        cash_response_def store_idempotency_def up)
qed


theorem idempotent_replay_witness:
  "\<exists>r a' a''. cash_payment example_cash (Some ''4'') (Some ''k1'') example_clock example_api = (Inr r, a') \<and>
     a'' = fold serve_step [Cash example_cash None (Some ''k2'') example_clock] a' \<and>
     cash_payment example_cash None (Some ''k1'') example_clock a'' = (Inr r, a'')"
proof -
  obtain r a' where r: "cash_payment example_cash (Some ''4'') (Some ''k1'') example_clock example_api
      = (Inr r, a')" "pr_success r" "redis_up (db a')" using example_cash_run by blast
  have i: "check_idempotency (Some ''k1'') (k_check example_clock) example_api = None"
    by (simp add: check_idempotency_def example_api_def)
  from idempotent_replay[OF _ r(3) i r(1,2) refl, of "[Cash example_cash None (Some ''k2'') example_clock]"] r(1)
  show ?thesis by (auto simp: example_clock_def)
qed

end
