(* ===== verification/Tasks.thy ===== *)
theory Tasks
  imports Prelude
begin

text \<open>
  Asyncio coroutines as programs, and the event loop as a step relation over a pool of them.

  A program is a tree: \<open>Do\<close> is code that runs without giving up control, \<open>Await\<close> is code up to
  and including an \<open>await\<close> that suspends. Every \<open>Do\<close> and \<open>Await\<close> sees its own outcome of the
  outside world (the environment \<open>'e\<close>: the clock, whether a write succeeds, what Redis
  answers), so nothing is assumed of it. A loop's body is a task that the event loop starts
  again when it returns \<open>True\<close>.

  The logic \<open>safe\<close> is a rely-guarantee argument with credits: an invariant \<open>I s n\<close> of the shared
  state and of the number of credits all tasks together hold.
\<close>

section \<open>Programs\<close>

datatype ('e, 's) prog =
    Ret bool
  | Raise py_exc
  | Do "'e \<Rightarrow> 's \<Rightarrow> ('e, 's) prog \<times> 's"
  | Await "'e \<Rightarrow> 's \<Rightarrow> ('e, 's) prog \<times> 's"

primrec bind :: "('e, 's) prog \<Rightarrow> (bool \<Rightarrow> ('e, 's) prog) \<Rightarrow> ('e, 's) prog" where
  "bind (Ret b) k = k b"
| "bind (Raise x) k = Raise x"
| "bind (Do f) k = Do (\<lambda>e s. map_prod (\<lambda>p. bind p k) id (f e s))"
| "bind (Await f) k = Await (\<lambda>e s. map_prod (\<lambda>p. bind p k) id (f e s))"

text \<open>\<open>p\<close>, then \<open>q\<close>; and \<open>try: p except Exception: h\<close>.\<close>

definition andThen :: "('e, 's) prog \<Rightarrow> ('e, 's) prog \<Rightarrow> ('e, 's) prog" where
  "andThen p q = bind p (\<lambda>_. q)"

primrec catch :: "('e, 's) prog \<Rightarrow> (py_exc \<Rightarrow> ('e, 's) prog) \<Rightarrow> ('e, 's) prog" where
  "catch (Ret b) h = Ret b"
| "catch (Raise x) h = h x"
| "catch (Do f) h = Do (\<lambda>e s. map_prod (\<lambda>p. catch p h) id (f e s))"
| "catch (Await f) h = Await (\<lambda>e s. map_prod (\<lambda>p. catch p h) id (f e s))"

fun seq :: "('e, 's) prog list \<Rightarrow> ('e, 's) prog" where
  "seq [] = Ret True"
| "seq [p] = p"
| "seq (p # ps) = andThen p (seq ps)"

declare seq.simps [simp del]

text \<open>Look at the state (and the environment) and go on.\<close>

definition look :: "('s \<Rightarrow> ('e, 's) prog) \<Rightarrow> ('e, 's) prog" where
  "look k = Do (\<lambda>e s. (k s, s))"

definition look_env :: "('e \<Rightarrow> 's \<Rightarrow> ('e, 's) prog) \<Rightarrow> ('e, 's) prog" where
  "look_env k = Do (\<lambda>e s. (k e s, s))"

definition modify :: "('s \<Rightarrow> 's) \<Rightarrow> ('e, 's) prog" where
  "modify f = Do (\<lambda>e s. (Ret True, f s))"

definition sleep :: "('e, 's) prog" where
  "sleep = Await (\<lambda>e s. (Ret True, s))"

text \<open>A value that may be an exception.\<close>

definition try_value :: "py_exc + 'a \<Rightarrow> ('a \<Rightarrow> ('e, 's) prog) \<Rightarrow> ('e, 's) prog" where
  "try_value v k = (case v of Inl x \<Rightarrow> Raise x | Inr a \<Rightarrow> k a)"

section \<open>Running\<close>

text \<open>A task from one suspension to the next; \<open>es\<close> are the outcomes it meets.\<close>

primrec segment :: "('e, 's) prog \<Rightarrow> (nat \<Rightarrow> 'e) \<Rightarrow> 's \<Rightarrow> ('e, 's) prog \<times> 's" where
  "segment (Ret b) = (\<lambda>es s. (Ret b, s))"
| "segment (Raise x) = (\<lambda>es s. (Raise x, s))"
| "segment (Do f) = (\<lambda>es s. case map_prod segment id (f (es 0) s) of
       (g, s') \<Rightarrow> g (\<lambda>n. es (Suc n)) s')"
| "segment (Await f) = (\<lambda>es s. f (es 0) s)"

text \<open>A task that is left alone, to its end: the value or exception and the state.\<close>

primrec alone :: "('e, 's) prog \<Rightarrow> (nat \<Rightarrow> 'e) \<Rightarrow> 's \<Rightarrow> (py_exc + bool) \<times> 's" where
  "alone (Ret b) = (\<lambda>es s. (Inr b, s))"
| "alone (Raise x) = (\<lambda>es s. (Inl x, s))"
| "alone (Do f) = (\<lambda>es s. case map_prod alone id (f (es 0) s) of
       (g, s') \<Rightarrow> g (\<lambda>n. es (Suc n)) s')"
| "alone (Await f) = (\<lambda>es s. case map_prod alone id (f (es 0) s) of
       (g, s') \<Rightarrow> g (\<lambda>n. es (Suc n)) s')"

text \<open>
  The event loop. \<open>requests\<close> takes from the state the tasks to start and those to cancel.
\<close>

inductive sched ::
  "('t \<Rightarrow> ('e, 's) prog) \<Rightarrow> ('t \<Rightarrow> bool) \<Rightarrow> ('s \<Rightarrow> 't list \<times> 't list \<times> 's) \<Rightarrow>
   ('t \<times> ('e, 's) prog) list \<times> 's \<Rightarrow> ('t \<times> ('e, 's) prog) list \<times> 's \<Rightarrow> bool"
  for body loops requests where
  resume: "sched body loops requests (a @ (t, p) # b, s)
     (filter (\<lambda>x. fst x \<notin> set stop) (a @ (t, p') # b) @ map (\<lambda>u. (u, body u)) start, s'')"
    if "segment p es s = (p', s')" "requests s' = (start, stop, s'')"
| finish: "sched body loops requests (a @ (t, p) # b, s) (a @ b, s)"
    if "p = Ret False \<or> p = Ret True \<and> \<not> loops t \<or> p = Raise x"
| again: "sched body loops requests (a @ (t, Ret True) # b, s) (a @ (t, body t) # b, s)"
    if "loops t"

inductive_cases sched_cases: "sched body loops requests c c'"

section \<open>The logic\<close>

primrec safe ::
  "('s \<Rightarrow> nat \<Rightarrow> bool) \<Rightarrow> ('e, 's) prog \<Rightarrow> nat \<Rightarrow> (bool \<Rightarrow> nat) \<Rightarrow> bool" where
  "safe I (Ret b) = (\<lambda>n Q. Q b \<le> n)"
| "safe I (Raise x) = (\<lambda>n Q. True)"
| "safe I (Do f) = (\<lambda>n Q. \<forall>e s. case map_prod (safe I) id (f e s) of (g, s') \<Rightarrow>
       \<exists>m. (\<forall>k. I s (n + k) \<longrightarrow> I s' (m + k)) \<and> g m Q)"
| "safe I (Await f) = (\<lambda>n Q. \<forall>e s. case map_prod (safe I) id (f e s) of (g, s') \<Rightarrow>
       \<exists>m. (\<forall>k. I s (n + k) \<longrightarrow> I s' (m + k)) \<and> g m Q)"

lemma prog_induct [case_names Ret Raise Do Await]:
  assumes "\<And>b. P (Ret b)" "\<And>x. P (Raise x)"
    "\<And>f. (\<And>e s p s'. f e s = (p, s') \<Longrightarrow> P p) \<Longrightarrow> P (Do f)"
    "\<And>f. (\<And>e s p s'. f e s = (p, s') \<Longrightarrow> P p) \<Longrightarrow> P (Await f)"
  shows "P q"
proof (induction q)
  case (Do f)
  have "P p" if "f e s = (p, s')" for e s p s'
    using Do[of "f e" "f e s" p] that rangeI[of "f e" s] by (simp add: Basic_BNFs.fsts.simps)
  then show ?case by (rule assms(3))
next
  case (Await f)
  have "P p" if "f e s = (p, s')" for e s p s'
    using Await[of "f e" "f e s" p] that rangeI[of "f e" s] by (simp add: Basic_BNFs.fsts.simps)
  then show ?case by (rule assms(4))
qed (rule assms)+

text \<open>One step keeps the invariant and leaves a program that is safe with what credits remain.\<close>

definition step_ok ::
  "('s \<Rightarrow> nat \<Rightarrow> bool) \<Rightarrow> ('e \<Rightarrow> 's \<Rightarrow> ('e, 's) prog \<times> 's) \<Rightarrow> nat \<Rightarrow> (bool \<Rightarrow> nat) \<Rightarrow> bool" where
  "step_ok I f n Q \<longleftrightarrow>
     (\<forall>e s p s'. f e s = (p, s') \<longrightarrow>
        (\<exists>m. (\<forall>k. I s (n + k) \<longrightarrow> I s' (m + k)) \<and> safe I p m Q))"

lemma step_okI:
  "(\<And>e s p s'. f e s = (p, s') \<Longrightarrow>
      \<exists>m. (\<forall>k. I s (n + k) \<longrightarrow> I s' (m + k)) \<and> safe I p m Q) \<Longrightarrow> step_ok I f n Q"
  by (simp add: step_ok_def)

lemma step_okE:
  assumes "step_ok I f n Q" "f e s = (p, s')"
  obtains m where "\<forall>k. I s (n + k) \<longrightarrow> I s' (m + k)" "safe I p m Q"
  using assms unfolding step_ok_def by blast

lemma map_prod_same: "(\<lambda>e s. map_prod (\<lambda>p. p) id (f e s)) = f"
  by (simp add: fun_eq_iff map_prod_def case_prod_beta)

lemma safe_step [simp]:
  "safe I (Do f) n Q \<longleftrightarrow> step_ok I f n Q" "safe I (Await f) n Q \<longleftrightarrow> step_ok I f n Q"
  by (auto simp: step_ok_def case_prod_beta) (metis fst_conv snd_conv prod.collapse)+

declare safe.simps(3,4) [simp del]

locale shared_invariant =
  fixes I :: "'s \<Rightarrow> nat \<Rightarrow> bool"
  assumes credits_drop: "I s n \<Longrightarrow> m \<le> n \<Longrightarrow> I s m"
begin

lemma step_weaken:
  assumes "step_ok I f n Q" "n \<le> n'"
    "\<And>e s p s' m. f e s = (p, s') \<Longrightarrow> safe I p m Q \<Longrightarrow> safe I (h p) m Q'"
  shows "step_ok I (\<lambda>e s. map_prod h id (f e s)) n' Q'"
proof (rule step_okI)
  fix e s p s' assume "map_prod h id (f e s) = (p, s')"
  then obtain q where f: "f e s = (q, s')" "p = h q" by (cases "f e s") auto
  from assms(1) f(1) obtain m where m: "\<forall>k. I s (n + k) \<longrightarrow> I s' (m + k)" "safe I q m Q"
    by (rule step_okE)
  have "I s' (m + k)" if "I s (n' + k)" for k
    using m(1) credits_drop[OF that, of "n + k"] assms(2) by simp
  with assms(3)[OF f(1) m(2)] f(2)
  show "\<exists>m. (\<forall>k. I s (n' + k) \<longrightarrow> I s' (m + k)) \<and> safe I p m Q'" by blast
qed

lemma safe_weaken:
  "safe I p n Q \<Longrightarrow> n \<le> n' \<Longrightarrow> (\<And>b. Q' b \<le> Q b) \<Longrightarrow> safe I p n' Q'"
proof (induction p arbitrary: n n' rule: prog_induct)
  case (Ret b)
  then show ?case by (auto intro: order_trans)
next
  case (Do f)
  have "step_ok I (\<lambda>e s. map_prod (\<lambda>p. p) id (f e s)) n' Q'"
    using Do by (intro step_weaken[of f n Q]) auto
  then show ?case by (simp add: map_prod_same)
next
  case (Await f)
  have "step_ok I (\<lambda>e s. map_prod (\<lambda>p. p) id (f e s)) n' Q'"
    using Await by (intro step_weaken[of f n Q]) auto
  then show ?case by (simp add: map_prod_same)
qed simp

lemma safe_bind:
  "safe I p n Q \<Longrightarrow> (\<And>b. safe I (k b) (Q b) R) \<Longrightarrow> safe I (bind p k) n R"
proof (induction p arbitrary: n rule: prog_induct)
  case (Ret b)
  then show ?case using safe_weaken[of "k b" "Q b" R n R] by simp
next
  case (Do f)
  then show ?case by (simp, intro step_weaken[of f n Q]) auto
next
  case (Await f)
  then show ?case by (simp, intro step_weaken[of f n Q]) auto
qed simp

lemma safe_catch:
  "safe I p n Q \<Longrightarrow> (\<And>x. safe I (h x) 0 Q) \<Longrightarrow> safe I (catch p h) n Q"
proof (induction p arbitrary: n rule: prog_induct)
  case (Raise x)
  then show ?case using safe_weaken[of "h x" 0 Q n Q] by simp
next
  case (Do f)
  then show ?case by (simp, intro step_weaken[of f n Q]) auto
next
  case (Await f)
  then show ?case by (simp, intro step_weaken[of f n Q]) auto
qed simp

lemma safe_andThen: "safe I p n (\<lambda>_. m) \<Longrightarrow> safe I q m R \<Longrightarrow> safe I (andThen p q) n R"
  unfolding andThen_def by (rule safe_bind)

lemma safe_frame: "safe I p n Q \<Longrightarrow> safe I p (n + j) (\<lambda>b. Q b + j)"
proof (induction p arbitrary: n rule: prog_induct)
  case (Do f)
  show ?case
    unfolding safe_step
  proof (rule step_okI)
    fix e s p s' assume f: "f e s = (p, s')"
    from Do.prems have "step_ok I f n Q" by simp
    from this f obtain m where m: "\<forall>k. I s (n + k) \<longrightarrow> I s' (m + k)" "safe I p m Q" by (rule step_okE)
    from m(1) have "\<forall>k. I s (n + j + k) \<longrightarrow> I s' (m + j + k)" by (metis add.assoc)
    with Do.IH[OF f m(2)]
    show "\<exists>m. (\<forall>k. I s (n + j + k) \<longrightarrow> I s' (m + k)) \<and> safe I p m (\<lambda>b. Q b + j)" by blast
  qed
next
  case (Await f)
  show ?case
    unfolding safe_step
  proof (rule step_okI)
    fix e s p s' assume f: "f e s = (p, s')"
    from Await.prems have "step_ok I f n Q" by simp
    from this f obtain m where m: "\<forall>k. I s (n + k) \<longrightarrow> I s' (m + k)" "safe I p m Q" by (rule step_okE)
    from m(1) have "\<forall>k. I s (n + j + k) \<longrightarrow> I s' (m + j + k)" by (metis add.assoc)
    with Await.IH[OF f m(2)]
    show "\<exists>m. (\<forall>k. I s (n + j + k) \<longrightarrow> I s' (m + k)) \<and> safe I p m (\<lambda>b. Q b + j)" by blast
  qed
qed simp_all

lemma safe_keep: "safe I p 0 (\<lambda>_. 0) \<Longrightarrow> safe I q n R \<Longrightarrow> safe I (andThen p q) n R"
  using safe_frame[of p 0 "\<lambda>_. 0" n] by (intro safe_andThen[of p n n q R]) simp_all

lemma safe_Ret [simp]: "safe I (Ret b) n Q \<longleftrightarrow> Q b \<le> n"
  by simp

lemma safe_look: "(\<And>s. safe I (k s) n Q) \<Longrightarrow> safe I (look k) n Q"
  by (auto simp: look_def step_ok_def)

lemma safe_look_env: "(\<And>e s. safe I (k e s) n Q) \<Longrightarrow> safe I (look_env k) n Q"
  by (auto simp: look_env_def step_ok_def)

lemma safe_modify:
  "(\<And>s k. I s (n + k) \<Longrightarrow> I (f s) (m + k)) \<Longrightarrow> Q True \<le> m \<Longrightarrow> safe I (modify f) n Q"
  by (auto simp: modify_def step_ok_def intro!: exI[of _ m])

lemma safe_sleep: "Q True \<le> n \<Longrightarrow> safe I sleep n Q"
  by (auto simp: sleep_def step_ok_def)

lemma safe_try_value: "(\<And>a. v = Inr a \<Longrightarrow> safe I (k a) n Q) \<Longrightarrow> safe I (try_value v k) n Q"
  by (auto simp: try_value_def split: sum.splits)

lemma safe_seq: "(\<And>p. p \<in> set ps \<Longrightarrow> safe I p 0 (\<lambda>_. 0)) \<Longrightarrow> safe I (seq ps) 0 (\<lambda>_. 0)"
  by (induction ps rule: seq.induct) (auto simp: seq.simps intro: safe_andThen)

lemmas safe_rules = safe_bind safe_catch safe_andThen safe_look safe_look_env safe_sleep
  safe_try_value

lemma safe_segment:
  "safe I p n Q \<Longrightarrow> segment p es s = (p', s') \<Longrightarrow>
     \<exists>m. (\<forall>k. I s (n + k) \<longrightarrow> I s' (m + k)) \<and> safe I p' m Q"
proof (induction p arbitrary: n es s rule: prog_induct)
  case (Do f)
  obtain q s1 where f: "f (es 0) s = (q, s1)" by fastforce
  from Do.prems(1) have "step_ok I f n Q" by simp
  from this f obtain m where m: "\<forall>k. I s (n + k) \<longrightarrow> I s1 (m + k)" "safe I q m Q"
    by (rule step_okE)
  from Do.prems(2) f have "segment q (\<lambda>n. es (Suc n)) s1 = (p', s')" by simp
  from Do.IH[OF f m(2) this] m(1) show ?case by blast
next
  case (Await f)
  then show ?case by (auto simp: step_ok_def)
qed auto

text \<open>
  The pool: every task safe with its credits, the shared state in the invariant with the sum.
\<close>

inductive funded :: "('t \<times> ('e, 's) prog) list \<Rightarrow> nat \<Rightarrow> bool" where
  "funded [] 0"
| "safe I (snd tp) n (\<lambda>_. 0) \<Longrightarrow> funded c m \<Longrightarrow> funded (tp # c) (n + m)"

lemma funded_append: "funded a n \<Longrightarrow> funded b m \<Longrightarrow> funded (a @ b) (n + m)"
proof (induction rule: funded.induct)
  case (2 tp n c k)
  then have "funded (tp # (c @ b)) (n + (k + m))" by (intro funded.intros)
  then show ?case by (simp add: add.assoc)
qed simp

lemma funded_split:
  "funded (a @ b) n \<Longrightarrow> \<exists>k m. n = k + m \<and> funded a k \<and> funded b m"
proof (induction a arbitrary: n)
  case Nil
  then show ?case by (intro exI[of _ 0] exI[of _ n]) (auto intro: funded.intros)
next
  case (Cons x a)
  from Cons.prems obtain i j where ij: "n = i + j" "safe I (snd x) i (\<lambda>_. 0)" "funded (a @ b) j"
    by (auto elim: funded.cases)
  from Cons.IH[OF ij(3)] obtain k m where "j = k + m" "funded a k" "funded b m" by blast
  with ij show ?case
    by (intro exI[of _ "i + k"] exI[of _ m]) (auto intro: funded.intros)
qed

lemma funded_filter: "funded c n \<Longrightarrow> \<exists>m \<le> n. funded (filter P c) m"
proof (induction rule: funded.induct)
  case (2 tp n c m)
  then obtain k where k: "k \<le> m" "funded (filter P c) k" by blast
  show ?case
  proof (cases "P tp")
    case True
    with 2 k show ?thesis by (intro exI[of _ "n + k"]) (auto intro: funded.intros)
  next
    case False
    with k show ?thesis by (intro exI[of _ k]) auto
  qed
qed (auto intro: funded.intros)

lemma funded_bodies:
  "(\<And>t. safe I (body t) 0 (\<lambda>_. 0)) \<Longrightarrow> funded (map (\<lambda>u. (u, body u)) ts) 0"
proof (induction ts)
  case (Cons t ts)
  then have "funded ((t, body t) # map (\<lambda>u. (u, body u)) ts) (0 + 0)" by (intro funded.intros) auto
  then show ?case by simp
qed (auto intro: funded.intros)

definition all_safe :: "('t \<times> ('e, 's) prog) list \<times> 's \<Rightarrow> bool" where
  "all_safe c \<longleftrightarrow> (\<exists>n. funded (fst c) n \<and> I (snd c) n)"

lemma sched_safe:
  assumes "sched body loops requests c c'" "all_safe c" "\<And>t. safe I (body t) 0 (\<lambda>_. 0)"
    "\<And>s n start stop s'. requests s = (start, stop, s') \<Longrightarrow> I s n \<Longrightarrow> I s' n"
  shows "all_safe c'"
  using assms(1,2)
proof (cases rule: sched.cases)
  case (resume p es s p' s' start stop s'' a t b)
  from assms(2) resume(1) obtain n where n: "funded (a @ (t, p) # b) n" "I s n"
    by (auto simp: all_safe_def)
  from funded_split[OF n(1)] obtain k m where km: "n = k + m" "funded a k" "funded ((t, p) # b) m"
    by blast
  from km(3) obtain i j where ij: "m = i + j" "safe I p i (\<lambda>_. 0)" "funded b j"
    by (auto elim: funded.cases)
  from safe_segment[OF ij(2) resume(3)] obtain l where
    l: "\<forall>k. I s (i + k) \<longrightarrow> I s' (l + k)" "safe I p' l (\<lambda>_. 0)" by blast
  have "n = i + (k + j)" using km(1) ij(1) by simp
  with l(1) n(2) have "I s' (l + (k + j))" by blast
  then have inv: "I s'' (l + (k + j))" by (rule assms(4)[OF resume(4)])
  have "funded (a @ (t, p') # b) (k + (l + j))"
    using km(2) ij(3) l(2) by (intro funded_append) (auto intro: funded.intros)
  from funded_filter[OF this, of "\<lambda>x. fst x \<notin> set stop"] obtain r where
    r: "r \<le> k + (l + j)" "funded (filter (\<lambda>x. fst x \<notin> set stop) (a @ (t, p') # b)) r" by blast
  have "funded (map (\<lambda>u. (u, body u)) start) 0" by (rule funded_bodies) (rule assms(3))
  from funded_append[OF r(2) this]
  have "funded (filter (\<lambda>x. fst x \<notin> set stop) (a @ (t, p') # b) @ map (\<lambda>u. (u, body u)) start) r"
    by simp
  moreover have "I s'' r" by (rule credits_drop[OF inv]) (use r(1) in simp)
  ultimately show ?thesis using resume(2) by (auto simp: all_safe_def)
next
  case (finish p t x a b s)
  from assms(2) finish(1) obtain n where n: "funded (a @ (t, p) # b) n" "I s n"
    by (auto simp: all_safe_def)
  from funded_split[OF n(1)] obtain k m where km: "n = k + m" "funded a k" "funded ((t, p) # b) m"
    by blast
  from km(3) obtain i j where ij: "m = i + j" "funded b j" by (auto elim: funded.cases)
  have "funded (a @ b) (k + j)" using km(2) ij(2) by (rule funded_append)
  moreover have "I s (k + j)" using credits_drop[OF n(2)] km(1) ij(1) by simp
  ultimately show ?thesis using finish(2) by (auto simp: all_safe_def)
next
  case (again t a b s)
  from assms(2) again(1) obtain n where n: "funded (a @ (t, Ret True) # b) n" "I s n"
    by (auto simp: all_safe_def)
  from funded_split[OF n(1)] obtain k m where
    km: "n = k + m" "funded a k" "funded ((t, Ret True) # b) m" by blast
  from km(3) obtain i j where ij: "m = i + j" "funded b j" by (auto elim: funded.cases)
  have "funded (a @ (t, body t) # b) (k + (0 + j))"
    using assms(3)[of t] by (intro funded_append[OF km(2)] funded.intros(2)[OF _ ij(2)]) simp
  moreover have "I s (k + (0 + j))" using credits_drop[OF n(2)] km(1) ij(1) by simp
  ultimately show ?thesis using again(2) by (auto simp: all_safe_def)
qed

theorem reachable_safe:
  assumes "(sched body loops requests)\<^sup>*\<^sup>* c c'" "all_safe c" "\<And>t. safe I (body t) 0 (\<lambda>_. 0)"
    "\<And>s n start stop s'. requests s = (start, stop, s') \<Longrightarrow> I s n \<Longrightarrow> I s' n"
  shows "all_safe c'"
  using assms(1,2)
  by (induction rule: rtranclp_induct) (auto intro: sched_safe[OF _ _ assms(3,4)])

end

end
