(* ===== verification/Framing.thy ===== *)
theory Framing
  imports Prelude
begin

text \<open>
  The contract of a framed byte stream: a frame at the head of a stream is read back with what
  follows it. The controller framing and the reader framing interpret it.
\<close>

locale framing =
  fixes frame :: "'p \<Rightarrow> bytes"
    and deframe :: "bytes \<Rightarrow> ('p \<times> bytes) option"
    and fits :: "'p \<Rightarrow> bool"
  assumes deframe_frame: "fits p \<Longrightarrow> deframe (frame p @ rest) = Some (p, rest)"
    and deframe_nil: "deframe [] = None"
begin

lemma frame_inj: "fits p \<Longrightarrow> fits q \<Longrightarrow> frame p = frame q \<Longrightarrow> p = q"
  by (metis deframe_frame option.inject prod.inject)

lemma frame_prefix_free:
  "fits p \<Longrightarrow> fits q \<Longrightarrow> frame p @ xs = frame q @ ys \<Longrightarrow> p = q \<and> xs = ys"
  by (metis deframe_frame option.inject prod.inject)

fun deframes :: "nat \<Rightarrow> bytes \<Rightarrow> 'p list" where
  "deframes 0 bs = []"
| "deframes (Suc n) bs =
     (case deframe bs of None \<Rightarrow> [] | Some (p, rest) \<Rightarrow> p # deframes n rest)"

lemma stream_roundtrip:
  "list_all fits ps \<Longrightarrow> length ps \<le> n \<Longrightarrow> deframes n (concat (map frame ps)) = ps"
proof (induction ps arbitrary: n)
  case Nil
  then show ?case by (cases n) (simp_all add: deframe_nil)
next
  case (Cons p ps)
  then show ?case by (cases n) (simp_all add: deframe_frame)
qed

end

end
