(* ===== verification/Controller.thy ===== *)
theory Controller
  imports Framing
begin

text \<open>
  The gate controllers: the command builders and transports of the Compass protocol
  (\<open>protocols/compass/protocol.py\<close>), the ENET framing (\<open>protocols/enet/protocol.py\<close>), the parser
  of what a controller sends (\<open>protocols/compass/parser.py\<close>) and the splitting of the pushed
  byte stream into messages (\<open>_process_rss_buffer\<close> of \<open>daemons/gate_in.py\<close>).

  A transport keeps what the code keeps, the socket or serial port; the outcome of every
  operating-system call is an argument.
\<close>

section \<open>Commands\<close>

abbreviation FRAME_START :: byte where "FRAME_START \<equiv> 0xA6"
abbreviation FRAME_END :: byte where "FRAME_END \<equiv> 0xA9"

definition build_command :: "bytes \<Rightarrow> bytes" where
  "build_command cmd = [FRAME_START] @ cmd @ [FRAME_END]"

definition cmd_trig1 :: bytes where "cmd_trig1 = build_command (encode ''TRIG1'')"
definition cmd_trig2 :: bytes where "cmd_trig2 = build_command (encode ''TRIG2'')"
definition cmd_open1 :: bytes where "cmd_open1 = build_command (encode ''OPEN1'')"
definition cmd_close1 :: bytes where "cmd_close1 = build_command (encode ''CLOSE1'')"
definition cmd_stop1 :: bytes where "cmd_stop1 = build_command (encode ''STOP1'')"
definition cmd_stat :: bytes where "cmd_stat = build_command (encode ''STAT'')"

definition cmd_mt :: "string \<Rightarrow> bytes" where
  "cmd_mt track = build_command (encode (''MT'' @ track))"

definition cmd_ds :: "string \<Rightarrow> string \<Rightarrow> bytes" where
  "cmd_ds line1 line2 =
     (let text = encode line1 @ encode ''|'' @ encode line2
      in build_command (encode ''DSD913003'' @ text))"

definition cmd_dsu :: bytes where "cmd_dsu = build_command (encode ''DSU'')"

text \<open>The event switches of RSS mode, with the defaults of the signature.\<close>

record rss_flags =
  in1_on :: bool
  in1_off :: bool
  in2_on :: bool
  in2_off :: bool
  in3_on :: bool
  in3_off :: bool
  in4_on :: bool
  in4_off :: bool
  play_end :: bool
  no_track :: bool
  wiegand :: bool

definition default_flags :: rss_flags where
  "default_flags =
     \<lparr>in1_on = True, in1_off = True, in2_on = True, in2_off = False, in3_on = True,
      in3_off = True, in4_on = True, in4_off = False, play_end = False, no_track = False,
      wiegand = True\<rparr>"

definition cmd_rss :: "int \<Rightarrow> rss_flags \<Rightarrow> bytes" where
  "cmd_rss interval_100ms f =
     (let flags = map (\<lambda>b. if b then CHR ''1'' else CHR ''0'')
            [in1_on f, in1_off f, in2_on f, in2_off f, in3_on f, in3_off f, in4_on f, in4_off f,
             play_end f, no_track f, wiegand f]
      in build_command (encode (''RSS'' @ fmt0 2 interval_100ms @ flags)))"

definition cmd_ack :: "string \<Rightarrow> bytes" where
  "cmd_ack sig = build_command (encode (sig @ ''OK''))"

definition cmd_pr3 :: "bytes \<Rightarrow> bytes" where
  "cmd_pr3 data = build_command (encode ''PR3'' @ data)"

definition cmd_qr5 :: "bytes \<Rightarrow> bytes" where
  "cmd_qr5 frame = build_command (encode ''QR5'' @ frame)"

text \<open>ENET: \<open>:<cmd>;\<close>.\<close>

definition enet_build_command :: "bytes \<Rightarrow> bytes" where
  "enet_build_command cmd = encode '':'' @ cmd @ encode '';''"

definition enet_cmd_pr4 :: "bytes \<Rightarrow> bytes" where
  "enet_cmd_pr4 data = enet_build_command (encode ''PR4'' @ data)"

section \<open>Transports\<close>

text \<open>
  The socket of a \<open>CompassTransport\<close>: none, one whose \<open>connect\<close> has not succeeded, or one that
  has been connected.
\<close>

datatype sock = NoSock | Unconnected | Connected

text \<open>A read's outcome: the timeout, an error, or the bytes (none at all on EOF).\<close>

datatype recv_outcome = RecvTimeout | RecvError | RecvData bytes

definition compass_connect :: "bool \<Rightarrow> sock \<Rightarrow> (py_exc + unit) \<times> sock" where
  "compass_connect ok s = (if ok then (Inr (), Connected) else (Inl OSError, Unconnected))"

definition compass_close :: "sock \<Rightarrow> sock" where
  "compass_close s = NoSock"

definition compass_send :: "bool \<Rightarrow> sock \<Rightarrow> py_exc + unit" where
  "compass_send ok s =
     (case s of NoSock \<Rightarrow> Inl (RuntimeError ''Not connected'')
      | Unconnected \<Rightarrow> Inl OSError
      | Connected \<Rightarrow> if ok then Inr () else Inl OSError)"

definition compass_send_recv :: "bool \<Rightarrow> recv_outcome \<Rightarrow> sock \<Rightarrow> py_exc + bytes" where
  "compass_send_recv ok r s =
     (case compass_send ok s of Inl e \<Rightarrow> Inl e
      | Inr _ \<Rightarrow> (case r of RecvTimeout \<Rightarrow> Inr [] | RecvError \<Rightarrow> Inl OSError | RecvData d \<Rightarrow> Inr d))"

definition compass_recv_async :: "recv_outcome \<Rightarrow> sock \<Rightarrow> bytes \<times> sock" where
  "compass_recv_async r s =
     (if s = NoSock then ([], s)
      else case r of
             RecvTimeout \<Rightarrow> ([], s)
           | RecvError \<Rightarrow> ([], compass_close s)
           | RecvData d \<Rightarrow> (d, if d = [] then compass_close s else s))"

text \<open>\<open>peer\<close>: whether \<open>getpeername\<close> succeeds on a connected socket.\<close>

definition compass_is_connected :: "bool \<Rightarrow> sock \<Rightarrow> bool" where
  "compass_is_connected peer s = (s = Connected \<and> peer)"

text \<open>The port of a \<open>SerialTransport\<close>: none, or an object that is open or not.\<close>

datatype port = NoPort | Port bool

definition serial_connect :: "bool \<Rightarrow> port \<Rightarrow> (py_exc + unit) \<times> port" where
  "serial_connect ok p = (if ok then (Inr (), Port True) else (Inl OSError, p))"

definition serial_close :: "port \<Rightarrow> port" where
  "serial_close p = NoPort"

definition serial_send :: "bool \<Rightarrow> port \<Rightarrow> py_exc + unit" where
  "serial_send ok p =
     (if p \<noteq> Port True then Inl (RuntimeError ''Not connected'')
      else if ok then Inr () else Inl OSError)"

definition serial_send_recv :: "bool \<Rightarrow> recv_outcome \<Rightarrow> port \<Rightarrow> py_exc + bytes" where
  "serial_send_recv ok r p =
     (case serial_send ok p of Inl e \<Rightarrow> Inl e
      | Inr _ \<Rightarrow> (case r of RecvTimeout \<Rightarrow> Inr [] | RecvError \<Rightarrow> Inl OSError | RecvData d \<Rightarrow> Inr d))"

definition serial_recv_async :: "recv_outcome \<Rightarrow> port \<Rightarrow> bytes \<times> port" where
  "serial_recv_async r p =
     (if p \<noteq> Port True then ([], p)
      else case r of RecvTimeout \<Rightarrow> ([], p) | RecvError \<Rightarrow> ([], serial_close p)
           | RecvData d \<Rightarrow> (d, p))"

definition serial_is_connected :: "port \<Rightarrow> bool" where
  "serial_is_connected p = (p = Port True)"

text \<open>What a daemon holds in \<open>controller\<close>.\<close>

datatype transport = TCompass sock | TSerial port

fun t_connect :: "bool \<Rightarrow> transport \<Rightarrow> (py_exc + unit) \<times> transport" where
  "t_connect ok (TCompass s) = (case compass_connect ok s of (r, s') \<Rightarrow> (r, TCompass s'))"
| "t_connect ok (TSerial p) = (case serial_connect ok p of (r, p') \<Rightarrow> (r, TSerial p'))"

fun t_close :: "transport \<Rightarrow> transport" where
  "t_close (TCompass s) = TCompass (compass_close s)"
| "t_close (TSerial p) = TSerial (serial_close p)"

fun t_send :: "bool \<Rightarrow> transport \<Rightarrow> py_exc + unit" where
  "t_send ok (TCompass s) = compass_send ok s"
| "t_send ok (TSerial p) = serial_send ok p"

fun t_recv :: "recv_outcome \<Rightarrow> transport \<Rightarrow> bytes \<times> transport" where
  "t_recv r (TCompass s) = (case compass_recv_async r s of (d, s') \<Rightarrow> (d, TCompass s'))"
| "t_recv r (TSerial p) = (case serial_recv_async r p of (d, p') \<Rightarrow> (d, TSerial p'))"

fun t_is_connected :: "bool \<Rightarrow> transport \<Rightarrow> bool" where
  "t_is_connected peer (TCompass s) = compass_is_connected peer s"
| "t_is_connected peer (TSerial p) = serial_is_connected p"

section \<open>Parsing\<close>

record stat =
  st_in1 :: bool
  st_in2 :: bool
  st_in3 :: bool
  st_in4 :: bool
  st_out1 :: bool
  st_out2 :: bool
  st_out3 :: bool
  st_out4 :: bool
  st_wiegand_w :: "string option"
  st_wiegand_x :: "string option"
  st_raw :: string

text \<open>\<open>re.search(r"STAT([01]{8})", text)\<close>: the eight digits of the first match.\<close>

definition is_bit :: "char \<Rightarrow> bool" where
  "is_bit c = (c = CHR ''0'' \<or> c = CHR ''1'')"

fun search_stat :: "string \<Rightarrow> string option" where
  "search_stat [] = None"
| "search_stat (c # cs) =
     (let bits = take 8 (drop 4 (c # cs))
      in if starts_with ''STAT'' (c # cs) \<and> length bits = 8 \<and> list_all is_bit bits
         then Some bits else search_stat cs)"

text \<open>\<open>_extract_wiegand\<close>: the hexadecimal digits after the first channel letter, up to the end
  byte or the first other character, in decimal.\<close>

definition END_CHAR :: char where "END_CHAR = char_of (169 :: nat)"

definition extract_wiegand :: "string \<Rightarrow> char \<Rightarrow> string option" where
  "extract_wiegand text channel =
     (if channel \<notin> set text then None
      else
        (case split_once channel text of
           (_, None) \<Rightarrow> None
         | (_, Some after) \<Rightarrow>
           let remainder = fst (split_once END_CHAR after)
           in if remainder = [] then None
              else
                let hex_chars = takeWhile is_hex remainder
                in if hex_chars = [] then None else Some (str_of_nat (hex_to_nat hex_chars))))"

definition input_state :: "string \<Rightarrow> string \<Rightarrow> string \<Rightarrow> bool \<Rightarrow> bool" where
  "input_state text on off current =
     (if contains on text then True else if contains off text then False else current)"

definition parse_stat :: "bytes \<Rightarrow> stat" where
  "parse_stat response =
     (let text = latin1_decode response;
          bit = (\<lambda>i. case search_stat text of None \<Rightarrow> False | Some bits \<Rightarrow> bits ! i = CHR ''1'')
      in \<lparr>st_in1 = input_state text ''IN1ON'' ''IN1OFF'' (bit 0),
          st_in2 = input_state text ''IN2ON'' ''IN2OFF'' (bit 1),
          st_in3 = input_state text ''IN3ON'' ''IN3OFF'' (bit 2),
          st_in4 = input_state text ''IN4ON'' ''IN4OFF'' (bit 3),
          st_out1 = bit 4, st_out2 = bit 5, st_out3 = bit 6, st_out4 = bit 7,
          st_wiegand_w = extract_wiegand text (CHR ''W''),
          st_wiegand_x = extract_wiegand text (CHR ''X''), st_raw = text\<rparr>)"

section \<open>Splitting the pushed stream\<close>

text \<open>One turn of the loop on a buffer of two bytes or more.\<close>

datatype rss_next = NoStart | Partial | Frame bytes bytes

definition next_frame :: "bytes \<Rightarrow> rss_next" where
  "next_frame buffer =
     (case dropWhile (\<lambda>b. b \<noteq> FRAME_START) buffer of
        [] \<Rightarrow> NoStart
      | a # after \<Rightarrow>
        if FRAME_END \<notin> set after then Partial
        else Frame (a # takeWhile (\<lambda>b. b \<noteq> FRAME_END) after @ [FRAME_END])
                   (tl (dropWhile (\<lambda>b. b \<noteq> FRAME_END) after)))"

lemma next_frame_shorter: "next_frame buffer = Frame msg rest \<Longrightarrow> length rest < length buffer"
proof -
  assume "next_frame buffer = Frame msg rest"
  then obtain a after where a: "dropWhile (\<lambda>b. b \<noteq> FRAME_START) buffer = a # after"
    "rest = tl (dropWhile (\<lambda>b. b \<noteq> FRAME_END) after)"
    by (auto simp: next_frame_def split: list.splits if_splits)
  have "length (a # after) \<le> length buffer" by (metis a(1) length_dropWhile_le)
  moreover have "length rest \<le> length after"
    unfolding a(2) using length_dropWhile_le[of "\<lambda>b. b \<noteq> FRAME_END" after] by simp
  ultimately show ?thesis by simp
qed

function split_rss :: "bytes \<Rightarrow> bytes list \<times> bytes" where
  "split_rss buffer =
     (if length buffer < 2 then ([], buffer)
      else case next_frame buffer of
             NoStart \<Rightarrow> ([], [])
           | Partial \<Rightarrow> ([], buffer)
           | Frame msg rest \<Rightarrow> (case split_rss rest of (ms, r) \<Rightarrow> (msg # ms, r)))"
  by pat_completeness auto
termination
  by (relation "measure length") (auto simp: next_frame_shorter)

declare split_rss.simps [simp del]


section \<open>The stream\<close>

lemma stop_at:
  "c \<notin> set p \<Longrightarrow> takeWhile (\<lambda>b. b \<noteq> c) (p @ c # r) = p \<and> dropWhile (\<lambda>b. b \<noteq> c) (p @ c # r) = c # r"
  by (induction p) auto

lemma skip_to: "c \<notin> set a \<Longrightarrow> dropWhile (\<lambda>b. b \<noteq> c) (a @ b) = dropWhile (\<lambda>b. b \<noteq> c) b"
  by (induction a) auto

lemma dropWhile_found: "dropWhile P a = x # xs \<Longrightarrow> dropWhile P (a @ b) = x # xs @ b"
  by (induction a) (auto split: if_splits)

lemma dropWhile_stops: "dropWhile (\<lambda>b. b \<noteq> c) a = x # xs \<Longrightarrow> x = c \<and> c \<in> set a"
  by (induction a) (auto split: if_splits)

lemma dropWhile_missing: "dropWhile (\<lambda>b. b \<noteq> c) a = [] \<longleftrightarrow> c \<notin> set a"
  by (induction a) auto

lemma takeWhile_found: "c \<in> set a \<Longrightarrow> takeWhile (\<lambda>b. b \<noteq> c) (a @ b) = takeWhile (\<lambda>b. b \<noteq> c) a"
  by (induction a) auto

lemma next_frame_command:
  assumes "FRAME_START \<notin> set noise" "FRAME_END \<notin> set p"
  shows "next_frame (noise @ build_command p @ rest) = Frame (build_command p) rest"
proof -
  have "dropWhile (\<lambda>b. b \<noteq> FRAME_START) (noise @ build_command p @ rest) =
      FRAME_START # p @ FRAME_END # rest"
    using assms(1) by (simp add: skip_to build_command_def)
  with stop_at[OF assms(2), of rest] show ?thesis by (simp add: next_frame_def build_command_def)
qed

definition read_command :: "bytes \<Rightarrow> (bytes \<times> bytes) option" where
  "read_command buffer =
     (case next_frame buffer of Frame msg rest \<Rightarrow> Some (butlast (tl msg), rest) | _ \<Rightarrow> None)"

interpretation compass: framing build_command read_command "\<lambda>p. FRAME_END \<notin> set p"
proof
  fix p rest assume "FRAME_END \<notin> set p"
  from next_frame_command[OF _ this, of "[]" rest]
  show "read_command (build_command p @ rest) = Some (p, rest)"
    by (simp add: read_command_def build_command_def)
qed (simp add: read_command_def next_frame_def)

lemma next_frame_append:
  assumes "next_frame a = Frame msg rest"
  shows "next_frame (a @ b) = Frame msg (rest @ b)"
proof -
  from assms obtain x after where a: "dropWhile (\<lambda>b. b \<noteq> FRAME_START) a = x # after"
    "FRAME_END \<in> set after" "msg = x # takeWhile (\<lambda>b. b \<noteq> FRAME_END) after @ [FRAME_END]"
    "rest = tl (dropWhile (\<lambda>b. b \<noteq> FRAME_END) after)"
    by (auto simp: next_frame_def split: list.splits if_splits)
  from a(2) obtain y ys where d: "dropWhile (\<lambda>b. b \<noteq> FRAME_END) after = y # ys"
    by (cases "dropWhile (\<lambda>b. b \<noteq> FRAME_END) after") (auto simp: dropWhile_missing)
  show ?thesis
    using a(2) by (simp add: next_frame_def dropWhile_found[OF a(1)] dropWhile_found[OF d] a(3,4) d
        takeWhile_found)
qed

lemma next_frame_NoStart: "next_frame a = NoStart \<longleftrightarrow> FRAME_START \<notin> set a"
  by (auto simp: next_frame_def dropWhile_missing split: list.splits dest: dropWhile_stops)

lemma next_frame_noise: "FRAME_START \<notin> set a \<Longrightarrow> next_frame (a @ b) = next_frame b"
  by (simp add: next_frame_def skip_to)

lemma split_rss_short: "length a < 2 \<Longrightarrow> split_rss a = ([], a)"
  by (subst split_rss.simps) simp

lemma split_rss_frame:
  "next_frame a = Frame msg rest \<Longrightarrow>
     split_rss a = (msg # fst (split_rss rest), snd (split_rss rest))"
proof -
  assume f: "next_frame a = Frame msg rest"
  have "\<not> length a < 2"
  proof
    assume "length a < 2"
    then consider "a = []" | x where "a = [x]" by (cases a) (auto simp: less_Suc_eq)
    then show False using f by cases (auto simp: next_frame_def split: if_splits)
  qed
  with f show ?thesis by (subst split_rss.simps) (simp add: case_prod_beta)
qed

lemma split_rss_none:
  "next_frame a = NoStart \<or> next_frame a = Partial \<Longrightarrow> fst (split_rss a) = []"
  by (subst split_rss.simps) auto

lemma split_rss_noise: "FRAME_START \<notin> set a \<Longrightarrow> fst (split_rss (a @ b)) = fst (split_rss b)"
proof -
  assume "FRAME_START \<notin> set a"
  then have n: "next_frame (a @ b) = next_frame b" by (rule next_frame_noise)
  show ?thesis
  proof (cases "next_frame b")
    case (Frame msg rest)
    with n split_rss_frame[of b] split_rss_frame[of "a @ b"] show ?thesis by simp
  qed (use n split_rss_none[of b] split_rss_none[of "a @ b"] in auto)
qed

lemma split_rss_append:
  "fst (split_rss (a @ b)) = fst (split_rss a) @ fst (split_rss (snd (split_rss a) @ b))"
proof (induction a rule: split_rss.induct)
  case (1 a)
  show ?case
  proof (cases "length a < 2")
    case True
    then show ?thesis by (simp add: split_rss_short)
  next
    case False
    show ?thesis
    proof (cases "next_frame a")
      case NoStart
      then have "split_rss a = ([], [])" using False by (subst split_rss.simps) simp
      with NoStart split_rss_noise[of a b] show ?thesis by (simp add: next_frame_NoStart)
    next
      case Partial
      then have "split_rss a = ([], a)" using False by (subst split_rss.simps) simp
      then show ?thesis by simp
    next
      case (Frame msg rest)
      from 1[OF False Frame] split_rss_frame[OF Frame]
        split_rss_frame[OF next_frame_append[OF Frame, of b]]
      show ?thesis by simp
    qed
  qed
qed

text \<open>A stream of frames with noise between and an incomplete frame at its end.\<close>

lemma split_stream:
  assumes "list_all (\<lambda>(noise, p). FRAME_START \<notin> set noise \<and> FRAME_END \<notin> set p) fs" "FRAME_END \<notin> set tail_bytes"
  shows "fst (split_rss (concat (map (\<lambda>(noise, p). noise @ build_command p) fs) @ tail_bytes)) =
    map (\<lambda>(noise, p). build_command p) fs"
  using assms(1)
proof (induction fs)
  case Nil
  have "next_frame tail_bytes = NoStart \<or> next_frame tail_bytes = Partial"
  proof (cases "dropWhile (\<lambda>b. b \<noteq> FRAME_START) tail_bytes")
    case (Cons x xs)
    have "FRAME_END \<notin> set (x # xs)"
      unfolding Cons[symmetric] using assms(2) by (blast dest: set_dropWhileD)
    then show ?thesis by (simp add: next_frame_def Cons)
  next
    case Nil
    then have "next_frame tail_bytes = NoStart" by (simp only: next_frame_def list.case)
    then show ?thesis ..
  qed
  then show ?case by (simp add: split_rss_none)
next
  case (Cons f fs)
  obtain noise p where f: "f = (noise, p)" by fastforce
  with Cons.prems have "FRAME_START \<notin> set noise" "FRAME_END \<notin> set p" by auto
  from split_rss_frame[OF next_frame_command[OF this]] Cons f show ?case by simp
qed


section \<open>What the parser reads\<close>

lemma stop_split: "c \<notin> set p \<Longrightarrow> split_once c (p @ c # r) = (p, Some r)"
  using stop_at[of c p r] by (simp add: split_once_def Let_def)

lemma split_once_none: "c \<notin> set p \<Longrightarrow> split_once c p = (p, None)"
proof -
  assume c: "c \<notin> set p"
  then have "takeWhile (\<lambda>b. b \<noteq> c) p = p" "dropWhile (\<lambda>b. b \<noteq> c) p = []"
    by (induction p) auto
  then show ?thesis by (simp add: split_once_def Let_def)
qed

lemma hex_not_end: "list_all is_hex hs \<Longrightarrow> END_CHAR \<notin> set hs"
  by (auto simp: list_all_iff END_CHAR_def is_hex_def)

lemma takeWhile_hex: "list_all is_hex hs \<Longrightarrow> takeWhile is_hex (hs @ r) = hs @ takeWhile is_hex r"
  by (induction hs) auto

text \<open>A card number, with whatever follows the digits on the line.\<close>

lemma extract_wiegand_digits:
  assumes "c \<notin> set pre" "list_all is_hex hs" "hs \<noteq> []" "r = [] \<or> \<not> is_hex (hd r)"
  shows "extract_wiegand (pre @ c # hs @ r) c = Some (str_of_nat (hex_to_nat hs))"
proof -
  have s: "split_once c (pre @ c # hs @ r) = (pre, Some (hs @ r))"
    using assms(1) by (rule stop_split)
  obtain r1 where r1: "fst (split_once END_CHAR (hs @ r)) = hs @ r1" "takeWhile is_hex r1 = []"
  proof -
    have e: "END_CHAR \<notin> set hs" using assms(2) by (rule hex_not_end)
    have "takeWhile (\<lambda>b. b \<noteq> END_CHAR) (hs @ r) = hs @ takeWhile (\<lambda>b. b \<noteq> END_CHAR) r"
      using e by (induction hs) auto
    moreover have "takeWhile is_hex (takeWhile (\<lambda>b. b \<noteq> END_CHAR) r) = []"
      using assms(4) by (cases r) auto
    ultimately show ?thesis using that by (simp add: split_once_def Let_def)
  qed
  show ?thesis
    using assms(2,3) by (simp add: extract_wiegand_def s r1 takeWhile_hex Let_def)
qed

lemma char_ne: "(char_of (n :: nat) = c) = (n mod 256 = of_char c)"
  by (simp add: char_of_eq_iff take_bit_eq_mod)

lemma foldl_hex:
  "foldl (\<lambda>acc c. 16 * acc + hex_val c) a hs =
     a * 16 ^ length hs + foldl (\<lambda>acc c. 16 * acc + hex_val c) 0 hs"
proof (induction hs arbitrary: a)
  case (Cons h hs)
  show ?case using Cons[of "16 * a + hex_val h"] Cons[of "hex_val h"] by (simp add: algebra_simps)
qed simp

lemma hex_to_nat_Cons: "hex_to_nat (c # hs) = hex_val c * 16 ^ length hs + hex_to_nat hs"
  using foldl_hex[of "hex_val c" hs] by (simp add: hex_to_nat_def)

text \<open>
  C26. A pushed card line gives the card number in decimal: the hexadecimal digits between the
  channel letter and the end byte, leading zeros dropped. On the ENET line, whose channel is
  written \<open>W1\<close>, the same parser reads the \<open>1\<close> as the first digit of the number.
\<close>

theorem wiegand_number:
  assumes "list_all is_hex hs" "hs \<noteq> []" "list_all (\<lambda>c. of_char c < (128 :: nat)) hs"
  shows "st_wiegand_w (parse_stat (build_command (encode (''W'' @ hs)))) =
      Some (str_of_nat (hex_to_nat hs)) \<and>
    st_wiegand_w (parse_stat (enet_build_command (encode (''W1'' @ hs)))) =
      Some (str_of_nat (16 ^ length hs + hex_to_nat hs))"
proof
  have a: "ascii hs" using assms(3) by (simp add: ascii_def)
  have start: "latin1_decode [FRAME_START] = [char_of (166 :: nat)]"
    "latin1_decode [FRAME_END] = [END_CHAR]"
    by (simp_all add: latin1_decode_def END_CHAR_def)
  have enc: "latin1_decode (encode t) = t" if "ascii t" for t
    using that by (simp add: encode_ascii)
  have "latin1_decode (build_command (encode (''W'' @ hs))) =
      [char_of (166 :: nat)] @ CHR ''W'' # hs @ [END_CHAR]"
    using a start enc[of "''W'' @ hs"]
    by (simp add: build_command_def ascii_def latin1_decode_def)
  moreover have "\<not> is_hex END_CHAR" by (simp add: END_CHAR_def is_hex_def)
  ultimately show "st_wiegand_w (parse_stat (build_command (encode (''W'' @ hs)))) =
      Some (str_of_nat (hex_to_nat hs))"
    using extract_wiegand_digits[of "CHR ''W''" "[char_of (166 :: nat)]" hs "[END_CHAR]"] assms(1,2)
    by (simp add: parse_stat_def Let_def char_ne eq_commute[of "CHR ''W''"])
  have "latin1_decode (enet_build_command (encode (''W1'' @ hs))) =
      '':'' @ CHR ''W'' # (CHR ''1'' # hs) @ '';''"
    using a enc[of "''W1'' @ hs"] enc[of "'':''"] enc[of "'';''"]
    by (simp add: enet_build_command_def ascii_def)
  then show "st_wiegand_w (parse_stat (enet_build_command (encode (''W1'' @ hs)))) =
      Some (str_of_nat (16 ^ length hs + hex_to_nat hs))"
    using extract_wiegand_digits[of "CHR ''W''" "'':''" "CHR ''1'' # hs" "'';''"] assms(1)
    by (simp add: parse_stat_def Let_def hex_to_nat_Cons is_hex_def hex_val_def)
qed

theorem wiegand_number_witness:
  "st_wiegand_w (parse_stat (build_command (encode ''W00FF''))) = Some (str_of_nat 255)"
  using wiegand_number[of "''00FF''"]
  by (simp add: is_hex_def hex_to_nat_def hex_val_def)

definition bit_char :: "bool \<Rightarrow> char" where
  "bit_char b = (if b then CHR ''1'' else CHR ''0'')"

text \<open>
  A status reply gives its eight pins bit by bit, and no card.
\<close>

theorem status_pins:
  "parse_stat (build_command (encode (''STAT'' @ map bit_char [a, b, c, d, e, f, g, h]))) =
     \<lparr>st_in1 = a, st_in2 = b, st_in3 = c, st_in4 = d, st_out1 = e, st_out2 = f, st_out3 = g,
      st_out4 = h, st_wiegand_w = None, st_wiegand_x = None,
      st_raw = [char_of (166 :: nat)] @ ''STAT'' @ map bit_char [a, b, c, d, e, f, g, h] @ [END_CHAR]\<rparr>"
proof -
  let ?bits = "map bit_char [a, b, c, d, e, f, g, h]"
  have asc: "ascii (''STAT'' @ ?bits)" by (simp add: ascii_def bit_char_def)
  then have t: "latin1_decode (build_command (encode (''STAT'' @ ?bits))) =
      [char_of (166 :: nat)] @ ''STAT'' @ ?bits @ [END_CHAR]"
    unfolding build_command_def encode_ascii[OF asc] latin1_decode_append latin1_roundtrip
    by (simp add: latin1_decode_def END_CHAR_def)
  have n: "bit_char x \<noteq> CHR ''I''" "bit_char x \<noteq> CHR ''W''" "bit_char x \<noteq> CHR ''X''"
    "bit_char x \<noteq> CHR ''S''" "is_bit (bit_char x)" "bit_char x = CHR ''1'' \<longleftrightarrow> x" for x
    by (simp_all add: bit_char_def is_bit_def)
  have m: "(char_of (166 :: nat) :: char) \<noteq> CHR ''I''" "END_CHAR \<noteq> CHR ''I''"
    "(char_of (166 :: nat) :: char) \<noteq> CHR ''W''" "END_CHAR \<noteq> CHR ''W''"
    "(char_of (166 :: nat) :: char) \<noteq> CHR ''X''" "END_CHAR \<noteq> CHR ''X''"
    "(char_of (166 :: nat) :: char) \<noteq> CHR ''S''"
    by (simp_all add: END_CHAR_def char_ne)
  have noI: "\<not> contains (CHR ''I'' # k) xs" if "CHR ''I'' \<notin> set xs" for k xs
    using that by (induction xs) (auto simp: starts_with_def)
  have I: "CHR ''I'' \<notin> set ([char_of (166 :: nat)] @ ''STAT'' @ ?bits @ [END_CHAR])"
    "CHR ''W'' \<notin> set ([char_of (166 :: nat)] @ ''STAT'' @ ?bits @ [END_CHAR])"
    "CHR ''X'' \<notin> set ([char_of (166 :: nat)] @ ''STAT'' @ ?bits @ [END_CHAR])"
    using n m by simp_all (metis m n)+
  have "search_stat ([char_of (166 :: nat)] @ ''STAT'' @ ?bits @ [END_CHAR]) = Some ?bits"
    using m(7) by (simp add: starts_with_def n eval_nat_numeral)
  then show ?thesis
    unfolding parse_stat_def Let_def t input_state_def
    using noI[OF I(1)] I(2,3) by (simp add: extract_wiegand_def n eval_nat_numeral)
qed

end
