(* ===== verification/Passti.thy ===== *)
theory Passti
  imports Framing
begin

text \<open>
  The PASSTI e-money reader: frames with their XOR checksum (\<open>protocols/passti/frame.py\<close>), the
  commands and the parsers of the responses (\<open>protocols/passti/commands.py\<close>).

  The local clock a command reads is the argument \<open>now\<close>. \<open>_to_bcd\<close> is only called on decimal
  digits and is modelled there. A decoded text with replacement characters is the list of its
  code points.
\<close>

unbundle bit_operations_syntax

section \<open>Frames\<close>

definition STX :: byte where "STX = 0x02"
definition CMD_INIT :: byte where "CMD_INIT = 0x01"
definition CMD_CHECK_BALANCE :: byte where "CMD_CHECK_BALANCE = 0x02"
definition CMD_DEDUCT :: byte where "CMD_DEDUCT = 0x03"
definition CMD_CANCEL_CORRECTION :: byte where "CMD_CANCEL_CORRECTION = 0x04"
definition CMD_GET_LAST_TRANSACTION :: byte where "CMD_GET_LAST_TRANSACTION = 0x05"
definition CMD_DISPLAY_BUZZER :: byte where "CMD_DISPLAY_BUZZER = 0x09"

definition STATUS_MESSAGES :: "(bytes \<times> string) list" where
  "STATUS_MESSAGES =
     [([0x00, 0x00, 0x00], ''OK''), ([0x01, 0x10, 0x01], ''General error''),
      ([0x01, 0x10, 0x02], ''Timeout - no card detected''),
      ([0x01, 0x10, 0x03], ''Init failed (wrong key)''),
      ([0x01, 0x10, 0x04], ''Insufficient balance''), ([0x01, 0x10, 0x05], ''Lost contact''),
      ([0x01, 0x10, 0x06], ''Expected previous card''),
      ([0x01, 0x10, 0x07], ''Deduct interval too short''),
      ([0x01, 0x10, 0x09], ''BNI inactive card''),
      ([0x01, 0x10, 0x10], ''Expected same deduct amount'')]"

definition CARD_TYPES :: "(byte \<times> string) list" where
  "CARD_TYPES =
     [(0x01, ''Luminos''), (0x02, ''Mandiri eMoney''), (0x03, ''BRI Brizzi''),
      (0x04, ''BNI TapCash''), (0x05, ''BCA Flazz''), (0x06, ''DKI JakCard''),
      (0x07, ''NOBU Card''), (0x08, ''Mega MegaCash''), (0x09, ''QR Payment'')]"

definition lrc :: "bytes \<Rightarrow> byte" where
  "lrc data = fold (\<lambda>b result. result XOR b) data 0"

fun bcd_pairs :: "string \<Rightarrow> bytes" where
  "bcd_pairs (a # b # ds) = word_of_nat (16 * digit_val a + digit_val b) # bcd_pairs ds"
| "bcd_pairs _ = []"

definition to_bcd :: "string \<Rightarrow> bytes" where
  "to_bcd digits = bcd_pairs (if odd (length digits) then CHR ''0'' # digits else digits)"

definition bcd_timeout :: "int \<Rightarrow> py_exc + bytes" where
  "bcd_timeout sec =
     (if \<not> (0 \<le> sec \<and> sec \<le> 9999)
      then Inl (ValueError (''Timeout must be 0..9999 seconds, got '' @ str_of_int sec))
      else Inr (to_bcd (fmt0 4 sec)))"

text \<open>The length header is the low 16 bits of the payload's length.\<close>

definition len_h :: "bytes \<Rightarrow> byte" where
  "len_h payload = word_of_nat (length payload div 256 mod 256)"

definition len_l :: "bytes \<Rightarrow> byte" where
  "len_l payload = word_of_nat (length payload mod 256)"

definition frame_of :: "bytes \<Rightarrow> bytes" where
  "frame_of payload =
     (let chk = lrc ([len_h payload, len_l payload] @ payload)
      in [STX, len_h payload, len_l payload] @ payload @ [chk])"

definition build_frame :: "byte \<Rightarrow> bytes \<Rightarrow> bytes" where
  "build_frame cmd data = frame_of ([0xEF, 0x01, cmd] @ data)"

record response =
  rs_ok :: bool
  rs_resp_code :: byte
  rs_status :: bytes
  rs_status_msg :: string
  rs_body :: bytes
  rs_body_hex :: string

datatype parsed =
    BadFrame string "(byte \<times> byte) option"
  | Parsed response

definition status_message :: "bytes \<Rightarrow> string" where
  "status_message st =
     (case map_of STATUS_MESSAGES st of Some m \<Rightarrow> m | None \<Rightarrow> ''Unknown '' @ hex_of_bytes st)"

definition data_length :: "bytes \<Rightarrow> nat" where
  "data_length raw = 256 * unat (raw ! 1) + unat (raw ! 2)"

text \<open>An empty payload passes the checks and fails on \<open>payload[0]\<close>.\<close>

definition parse_response :: "bytes \<Rightarrow> py_exc + parsed" where
  "parse_response raw =
     (if length raw < 6 then Inr (BadFrame ''Response too short'' None)
      else if raw ! 0 \<noteq> STX then Inr (BadFrame ''Invalid STX'' None)
      else
        let data_len = data_length raw;
            expected_len = 3 + data_len + 1
        in if length raw < expected_len then Inr (BadFrame ''Incomplete response'' None)
           else
             let payload = take data_len (drop 3 raw);
                 received_lrc = raw ! (3 + data_len);
                 calculated_lrc = lrc (take (2 + data_len) (drop 1 raw))
             in if received_lrc \<noteq> calculated_lrc
                then Inr (BadFrame ''LRC mismatch'' (Some (received_lrc, calculated_lrc)))
                else case payload of [] \<Rightarrow> Inl IndexError
                  | resp_code # _ \<Rightarrow>
                    let status = (if 4 \<le> length payload then take 3 (drop 1 payload)
                                  else [0xFF, 0xFF, 0xFF]);
                        body = (if 4 < length payload then drop 4 payload else [])
                    in Inr (Parsed
                         \<lparr>rs_ok = (resp_code = 0x00 \<and> status = [0x00, 0x00, 0x00]),
                          rs_resp_code = resp_code, rs_status = status,
                          rs_status_msg = status_message status, rs_body = body,
                          rs_body_hex = upper (hex_of_bytes body)\<rparr>))"

section \<open>Commands\<close>

text \<open>The fields of \<open>datetime.now()\<close>.\<close>

record local_time =
  lt_year :: int
  lt_month :: int
  lt_day :: int
  lt_hour :: int
  lt_minute :: int
  lt_second :: int

definition bcd_now :: "local_time \<Rightarrow> bytes" where
  "bcd_now now =
     to_bcd (fmt0 2 (lt_day now) @ fmt0 2 (lt_month now) @ fmt0 4 (lt_year now)) @
     to_bcd (fmt0 2 (lt_hour now) @ fmt0 2 (lt_minute now) @ fmt0 2 (lt_second now))"

text \<open>\<open>n.to_bytes(4, "big")\<close> and \<open>int.from_bytes(bs, "big")\<close>.\<close>

definition to_bytes4 :: "int \<Rightarrow> py_exc + bytes" where
  "to_bytes4 n =
     (if n < 0 \<or> 2 ^ 32 \<le> n then Inl OverflowError
      else Inr [word_of_int (n div 2 ^ 24), word_of_int (n div 2 ^ 16), word_of_int (n div 2 ^ 8),
                word_of_int n])"

definition from_bytes :: "bytes \<Rightarrow> int" where
  "from_bytes bs = fold (\<lambda>b acc. 256 * acc + uint b) bs 0"

definition cmd_init :: "bytes \<Rightarrow> bytes" where
  "cmd_init key = build_frame CMD_INIT key"

definition cmd_check_balance :: "local_time \<Rightarrow> int \<Rightarrow> py_exc + bytes" where
  "cmd_check_balance now timeout_sec =
     (case bcd_timeout timeout_sec of Inl e \<Rightarrow> Inl e
      | Inr tm \<Rightarrow> Inr (build_frame CMD_CHECK_BALANCE (bcd_now now @ tm)))"

definition cmd_deduct :: "local_time \<Rightarrow> int \<Rightarrow> int \<Rightarrow> py_exc + bytes" where
  "cmd_deduct now amount timeout_sec =
     (case to_bytes4 amount of Inl e \<Rightarrow> Inl e
      | Inr am \<Rightarrow>
        (case bcd_timeout timeout_sec of Inl e \<Rightarrow> Inl e
         | Inr tm \<Rightarrow> Inr (build_frame CMD_DEDUCT (bcd_now now @ am @ tm))))"

definition cmd_get_last_transaction :: bytes where
  "cmd_get_last_transaction = build_frame CMD_GET_LAST_TRANSACTION []"

definition cmd_cancel_correction :: bytes where
  "cmd_cancel_correction = build_frame CMD_CANCEL_CORRECTION []"

definition cmd_buzzer :: "bool \<Rightarrow> bytes" where
  "cmd_buzzer success = build_frame CMD_DISPLAY_BUZZER [0x02, if success then 0x00 else 0x01]"

text \<open>\<open>text.encode("ascii")[:16].ljust(16)\<close>.\<close>

definition cmd_display :: "string \<Rightarrow> py_exc + bytes" where
  "cmd_display text =
     (if \<not> ascii text then Inl UnicodeEncodeError
      else
        let t = take 16 (latin1_encode text);
            t = t @ replicate (16 - length t) 0x20;
            tlv = [0xD1, 0x01, 0x01, 0xD2, word_of_nat (length t)] @ t @
                  [0xD3, 0x01, 0x02, 0xD4, 0x01, 0x01]
        in Inr (build_frame CMD_DISPLAY_BUZZER ([0x03] @ tlv)))"

definition cmd_reset_display :: bytes where
  "cmd_reset_display = build_frame CMD_DISPLAY_BUZZER [0x00]"

section \<open>Responses\<close>

definition slice :: "nat \<Rightarrow> nat \<Rightarrow> bytes \<Rightarrow> bytes" where
  "slice i j body = take (j - i) (drop i body)"

definition hex_up :: "bytes \<Rightarrow> string" where
  "hex_up bs = upper (hex_of_bytes bs)"

definition card_type_of :: "byte \<Rightarrow> string" where
  "card_type_of c =
     (case map_of CARD_TYPES c of Some n \<Rightarrow> n | None \<Rightarrow> ''Unknown('' @ hex_up [c] @ '')'')"

record balance_response =
  br_card_type_code :: byte
  br_card_type :: string
  br_card_number :: string
  br_balance :: int

definition parse_check_balance_response :: "bytes \<Rightarrow> string + balance_response" where
  "parse_check_balance_response body =
     (if length body < 13 then Inl ''Body too short''
      else Inr \<lparr>br_card_type_code = body ! 0, br_card_type = card_type_of (body ! 0),
                br_card_number = hex_up (slice 1 9 body),
                br_balance = from_bytes (slice 9 13 body)\<rparr>)"

record deduct_fields =
  df_card_type_code :: byte
  df_card_type :: string
  df_mid :: string
  df_tid :: string
  df_datetime_bcd :: string
  df_card_number :: string
  df_deducted :: int
  df_remaining :: int
  df_trans_counter :: int

text \<open>The extra fields of a QR payment.\<close>

record qr_fields = deduct_fields +
  qr_payment_type :: byte
  qr_order_id_hex :: string
  qr_trx_id :: "nat list"
  qr_rfu :: string

datatype deduct_reply = Prepaid deduct_fields | QR qr_fields

text \<open>\<open>decode("ascii", errors="replace")\<close>.\<close>

definition ascii_replace :: "bytes \<Rightarrow> nat list" where
  "ascii_replace bs = map (\<lambda>b. if unat b < 128 then unat b else 0xFFFD) bs"

definition parse_qr_deduct_response :: "bytes \<Rightarrow> string + qr_fields" where
  "parse_qr_deduct_response body =
     (if length body < 84 then Inl ''Body too short for QR payment response''
      else
        let rfu_len = unat (body ! 83)
        in Inr \<lparr>df_card_type_code = 0x09, df_card_type = ''QR Payment'',
                df_mid = hex_up (slice 1 9 body), df_tid = hex_up (slice 9 13 body),
                df_datetime_bcd = hex_of_bytes (slice 13 20 body), df_card_number = [],
                df_deducted = from_bytes (slice 21 25 body), df_remaining = 0,
                df_trans_counter = 0, qr_payment_type = body ! 20,
                qr_order_id_hex = hex_up (slice 25 47 body),
                qr_trx_id = ascii_replace (slice 47 83 body),
                qr_rfu = (if 0 < rfu_len then hex_of_bytes (slice 84 (84 + rfu_len) body)
                          else [])\<rparr>)"

definition parse_deduct_response :: "bytes \<Rightarrow> string + deduct_reply" where
  "parse_deduct_response body =
     (if length body < 1 then Inl ''Body too short''
      else if body ! 0 = 0x09
      then (case parse_qr_deduct_response body of Inl e \<Rightarrow> Inl e | Inr q \<Rightarrow> Inr (QR q))
      else if length body < 40 then Inl ''Body too short for prepaid card response''
      else Inr (Prepaid
        \<lparr>df_card_type_code = body ! 0, df_card_type = card_type_of (body ! 0),
         df_mid = hex_up (slice 1 9 body), df_tid = hex_up (slice 9 13 body),
         df_datetime_bcd = hex_of_bytes (slice 13 20 body),
         df_card_number = hex_up (slice 20 28 body),
         df_deducted = from_bytes (slice 28 32 body),
         df_remaining = from_bytes (slice 32 36 body),
         df_trans_counter = from_bytes (slice 36 40 body)\<rparr>))"


section \<open>The checksum\<close>

lemma lrc_Nil [simp]: "lrc [] = 0"
  by (simp add: lrc_def)

lemma fold_xor: "fold (\<lambda>b result. result XOR b) bs (a :: byte) = a XOR lrc bs"
proof (induction bs arbitrary: a)
  case (Cons b bs)
  show ?case using Cons[of "a XOR b"] Cons[of b] by (simp add: lrc_def xor.assoc)
qed simp

lemma lrc_Cons [simp]: "lrc (b # bs) = b XOR lrc bs"
  using fold_xor[of bs b] by (simp add: lrc_def)

lemma lrc_append [simp]: "lrc (xs @ ys) = lrc xs XOR lrc ys"
  by (induction xs) (simp_all add: xor.assoc)

lemma lrc_update:
  "i < length bs \<Longrightarrow> lrc (bs[i := b]) = lrc bs XOR (bs ! i XOR b)"
proof (induction bs arbitrary: i)
  case (Cons x xs)
  show ?case
  proof (cases i)
    case 0
    have "b XOR lrc xs = (x XOR x) XOR (b XOR lrc xs)" by simp
    also have "\<dots> = x XOR lrc xs XOR (x XOR b)" by (simp only: xor.assoc xor.left_commute xor.commute)
    finally show ?thesis using 0 by (simp add: xor.assoc)
  next
    case (Suc j)
    with Cons show ?thesis by (simp add: xor.assoc)
  qed
qed simp

lemma xor_diff: "(a :: byte) XOR b = 0 \<longleftrightarrow> a = b"
  by (metis xor.assoc xor_self_eq xor.left_neutral xor.right_neutral)

lemma lrc_update_differs:
  assumes "i < length bs" "b \<noteq> bs ! i"
  shows "lrc (bs[i := b]) \<noteq> lrc bs"
proof
  assume "lrc (bs[i := b]) = lrc bs"
  with lrc_update[OF assms(1), of b] have "lrc bs XOR (bs ! i XOR b) = lrc bs" by simp
  then have "bs ! i XOR b = 0" by (metis xor.assoc xor_self_eq xor.left_neutral)
  with assms(2) show False by (simp add: xor_diff)
qed

section \<open>Reading a frame\<close>

lemma unat_len:
  "unat (len_h p) = length p div 256 mod 256" "unat (len_l p) = length p mod 256"
  by (simp_all add: len_h_def len_l_def unat_of_nat)

lemma data_length_frame:
  assumes "length p < 65536"
  shows "data_length (frame_of p @ rest) = length p"
proof -
  have "length p div 256 mod 256 = length p div 256" using assms by simp
  then have "data_length (frame_of p @ rest) = 256 * (length p div 256) + length p mod 256"
    by (simp add: data_length_def frame_of_def Let_def unat_len)
  then show ?thesis by simp
qed

lemma frame_parts:
  assumes "length p < 65536"
  shows "take (length p) (drop 3 (frame_of p @ rest)) = p"
    "(frame_of p @ rest) ! (3 + length p) = lrc ([len_h p, len_l p] @ p)"
    "take (2 + length p) (drop 1 (frame_of p @ rest)) = [len_h p, len_l p] @ p"
    "(frame_of p @ rest) ! 0 = STX"
    "length (frame_of p @ rest) = length p + 4 + length rest"
  by (simp_all add: frame_of_def Let_def nth_append numeral_3_eq_3)

definition response_of :: "bytes \<Rightarrow> response" where
  "response_of payload =
     (let status = (if 4 \<le> length payload then take 3 (drop 1 payload) else [0xFF, 0xFF, 0xFF]);
          body = drop 4 payload
      in \<lparr>rs_ok = (hd payload = 0x00 \<and> status = [0x00, 0x00, 0x00]), rs_resp_code = hd payload,
          rs_status = status, rs_status_msg = status_message status, rs_body = body,
          rs_body_hex = hex_up body\<rparr>)"

lemma parse_frame:
  assumes "p \<noteq> []" "length p < 65536" "6 \<le> length (frame_of p @ rest)"
  shows "parse_response (frame_of p @ rest) = Inr (Parsed (response_of p))"
proof -
  note f = data_length_frame[OF assms(2), of rest] frame_parts[OF assms(2), of rest]
  obtain c q where p: "p = c # q" using assms(1) by (cases p) auto
  have b: "(if 4 < length p then drop 4 p else []) = drop 4 p" by simp
  have l: "\<not> length (frame_of p @ rest) < 3 + length p + 1" by (simp add: frame_of_def Let_def)
  have s: "\<not> length (frame_of p @ rest) < 6" using assms(3) by linarith
  show ?thesis
    unfolding parse_response_def f Let_def using l s
    by (simp only: if_False simp_thms b)
       (simp add: p response_of_def hex_up_def Let_def frame_of_def)
qed

text \<open>The deframer: one response and what follows it in the serial stream.\<close>

definition read_frame :: "bytes \<Rightarrow> (bytes \<times> bytes) option" where
  "read_frame raw =
     (case parse_response raw of
        Inr (Parsed r) \<Rightarrow>
          Some (take (data_length raw) (drop 3 raw), drop (4 + data_length raw) raw)
      | _ \<Rightarrow> None)"

interpretation passti: framing frame_of read_frame "\<lambda>p. 2 \<le> length p \<and> length p < 65536"
proof
  fix p rest assume p: "2 \<le> length p \<and> length (p :: bytes) < 65536"
  then have "p \<noteq> []" "length p < 65536" "6 \<le> length (frame_of p @ rest)"
    by (auto simp: frame_of_def Let_def)
  note pf = parse_frame[OF this]
  have "length (frame_of p) = 4 + length p" by (simp add: frame_of_def Let_def)
  then have "drop (4 + length p) (frame_of p @ rest) = rest" by simp
  with pf frame_parts(1)[of p rest] data_length_frame[of p rest] p
  show "read_frame (frame_of p @ rest) = Some (p, rest)" by (simp add: read_frame_def)
next
  show "read_frame [] = None" by (simp add: read_frame_def parse_response_def)
qed

section \<open>Numbers on the wire\<close>

lemma from_bytes_to_bytes4: "to_bytes4 n = Inr bs \<Longrightarrow> from_bytes bs = n \<and> length bs = 4"
proof -
  assume a: "to_bytes4 n = Inr bs"
  then have n: "0 \<le> n" "n < 2 ^ 32" and bs: "bs = [word_of_int (n div 2 ^ 24),
      word_of_int (n div 2 ^ 16), word_of_int (n div 2 ^ 8), word_of_int n]"
    by (auto simp: to_bytes4_def split: if_splits)
  have "from_bytes bs = 256 * (256 * (256 * (n div 2 ^ 24 mod 256) + n div 2 ^ 16 mod 256) +
      n div 2 ^ 8 mod 256) + n mod 256"
    by (simp add: bs from_bytes_def uint_word_of_int)
  also have "\<dots> = n"
  proof -
    have d: "n div 2 ^ 24 = n div 2 ^ 16 div 256" "n div 2 ^ 16 = n div 2 ^ 8 div 256"
      "n div 2 ^ 8 = n div 256"
      using zdiv_zmult2_eq[of 256 n "2 ^ 16"] zdiv_zmult2_eq[of 256 n "2 ^ 8"] by simp_all
    have "n div 2 ^ 24 mod 256 = n div 2 ^ 24" using n by simp
    then show ?thesis
      by (simp only: d mult_div_mod_eq)
  qed
  finally show ?thesis by (simp add: bs)
qed

lemma to_bytes4_total: "0 \<le> n \<Longrightarrow> n < 2 ^ 32 \<Longrightarrow> \<exists>bs. to_bytes4 n = Inr bs"
  by (simp add: to_bytes4_def)

lemma digit_nibble:
  assumes "is_digit a"
  shows "digit_val a < 10" "hex_digit (digit_val a) = a"
proof -
  from assms have "48 \<le> (of_char a :: nat)" "(of_char a :: nat) \<le> 57" by (auto simp: is_digit_def Let_def)
  then have "of_char a - 48 < (10 :: nat)" "48 + (of_char a - 48) = (of_char a :: nat)" by linarith+
  then show "digit_val a < 10" "hex_digit (digit_val a) = a"
    by (simp_all add: digit_val_def hex_digit_def)
qed

lemma bcd_hex:
  "list_all is_digit ds \<Longrightarrow> even (length ds) \<Longrightarrow> hex_of_bytes (bcd_pairs ds) = ds"
proof (induction ds rule: bcd_pairs.induct)
  case (1 a b ds)
  then have "digit_val a < 10" "digit_val b < 10" by (auto simp: digit_nibble)
  then have "unat (word_of_nat (16 * digit_val a + digit_val b) :: byte) =
      16 * digit_val a + digit_val b"
    by (simp only: unat_of_nat) simp
  moreover have "(16 * digit_val a + digit_val b) div 16 = digit_val a"
    "(16 * digit_val a + digit_val b) mod 16 = digit_val b"
    using \<open>digit_val b < 10\<close> by simp_all
  ultimately show ?case using 1
    by (simp only: bcd_pairs.simps hex_of_bytes_def list.map concat.simps) (simp add: digit_nibble)
qed (auto simp: hex_of_bytes_def)

lemma length_bcd_pairs: "length (bcd_pairs ds) = length ds div 2"
  by (induction ds rule: bcd_pairs.induct) auto


section \<open>Correctness of the reader protocol\<close>

lemma altered_checksum:
  assumes "p \<noteq> []" "0 < i" "i < length (frame_of p)" "b \<noteq> frame_of p ! i"
  shows "lrc (tl ((frame_of p)[i := b])) \<noteq> 0"
proof -
  have "tl (frame_of p) = ([len_h p, len_l p] @ p) @ [lrc ([len_h p, len_l p] @ p)]"
    by (simp only: frame_of_def Let_def append_Cons append_Nil list.sel)
  then have all: "lrc (tl (frame_of p)) = 0" by (simp only: lrc_append lrc_Cons lrc_Nil) simp
  have tlg: "tl ((frame_of p)[i := b]) = (tl (frame_of p))[i - 1 := b]"
    using assms(2,3) by (cases "frame_of p"; cases i) auto
  show ?thesis
    unfolding tlg all[symmetric]
    by (rule lrc_update_differs) (use assms(2-4) in \<open>simp_all add: nth_tl\<close>)
qed

text \<open>The bytes from the length on, as the parser cuts them out.\<close>

lemma cut_frame:
  assumes "length g = n + 4"
  shows "tl g = take (2 + n) (drop 1 (g @ rest)) @ [(g @ rest) ! (3 + n)]"
proof -
  have l: "length (tl g) = Suc (2 + n)" using assms by simp
  have "tl g = take (2 + n) (tl g) @ [tl g ! (2 + n)]"
    using l take_Suc_conv_app_nth[of "2 + n" "tl g"] by simp
  moreover have "take (2 + n) (drop 1 (g @ rest)) = take (2 + n) (tl g)"
    using l assms by (simp add: drop_Suc)
  moreover have "(g @ rest) ! (3 + n) = tl g ! (2 + n)"
    using l assms by (simp add: nth_append nth_tl eval_nat_numeral)
  ultimately show ?thesis by simp
qed

lemma altered_frame:
  assumes "2 \<le> length p" "length p < 65536" "3 \<le> i" "i < length (frame_of p)" "b \<noteq> frame_of p ! i"
  shows "\<exists>x. parse_response ((frame_of p)[i := b] @ rest) = Inr (BadFrame ''LRC mismatch'' (Some x))"
proof -
  let ?g = "(frame_of p)[i := b]" and ?n = "length p"
  have fl: "length (frame_of p) = ?n + 4" by (simp add: frame_of_def Let_def)
  have same: "(?g @ rest) ! k = frame_of p ! k" if "k < 3" for k
    using that assms(3) fl by (simp add: nth_append)
  have "frame_of p ! 0 = STX" by (simp add: frame_of_def Let_def)
  with same[of 0] same[of 1] same[of 2]
  have hd: "(?g @ rest) ! 0 = STX" "(?g @ rest) ! 1 = frame_of p ! 1" "(?g @ rest) ! 2 = frame_of p ! 2" by simp_all
  have dl: "data_length (?g @ rest) = ?n"
    using data_length_frame[of p "[]"] assms(2) hd by (simp add: data_length_def)
  have "lrc (tl ?g) \<noteq> 0"
    by (rule altered_checksum) (use assms in auto)
  with cut_frame[of ?g ?n rest] fl have "(?g @ rest) ! (3 + ?n) \<noteq> lrc (take (2 + ?n) (drop 1 (?g @ rest)))"
    by (metis length_list_update lrc_Cons lrc_Nil lrc_append xor.right_neutral xor_diff xor.commute)
  moreover have "\<not> length (?g @ rest) < 6" "\<not> length (?g @ rest) < 3 + ?n + 1"
    using fl assms(1) by simp_all
  ultimately show ?thesis
    unfolding parse_response_def Let_def dl by (simp only: hd if_False simp_thms if_True) blast
qed

text \<open>
  C18. A reader's frame is read back whatever follows it: response code, status, body and the OK
  flag, for any payload whose length fits the two header bytes; and a byte of the payload or the
  checksum that differs is always reported as an LRC mismatch.
\<close>

theorem response_roundtrip:
  assumes "length st = 3" "length body + 4 < 65536" "3 \<le> i"
    "i < length (frame_of (code # st @ body))" "b \<noteq> frame_of (code # st @ body) ! i"
  shows "parse_response (frame_of (code # st @ body) @ rest) =
      Inr (Parsed \<lparr>rs_ok = (code = 0 \<and> st = [0, 0, 0]), rs_resp_code = code, rs_status = st,
                  rs_status_msg = status_message st, rs_body = body,
                  rs_body_hex = upper (hex_of_bytes body)\<rparr>) \<and>
    (\<exists>x. parse_response ((frame_of (code # st @ body))[i := b] @ rest) =
      Inr (BadFrame ''LRC mismatch'' (Some x)))"
proof
  let ?p = "code # st @ body"
  have p: "?p \<noteq> []" "length ?p < 65536" "6 \<le> length (frame_of ?p @ rest)"
    using assms(1,2) by (simp_all add: frame_of_def Let_def)
  have "take 3 (st @ body) = st" using assms(1) by simp
  moreover have "drop 4 ?p = body" using assms(1) by (simp add: eval_nat_numeral)
  ultimately show "parse_response (frame_of ?p @ rest) =
      Inr (Parsed \<lparr>rs_ok = (code = 0 \<and> st = [0, 0, 0]), rs_resp_code = code, rs_status = st,
                  rs_status_msg = status_message st, rs_body = body,
                  rs_body_hex = upper (hex_of_bytes body)\<rparr>)"
    using parse_frame[OF p] assms(1) by (simp add: response_of_def hex_up_def)
  show "\<exists>x. parse_response ((frame_of ?p)[i := b] @ rest) = Inr (BadFrame ''LRC mismatch'' (Some x))"
    by (rule altered_frame) (use assms in simp_all)
qed

theorem response_roundtrip_witness:
  "\<exists>x. parse_response ((frame_of [0, 0, 0, 0, 7, 8])[7 := 9] @ [1]) =
     Inr (BadFrame ''LRC mismatch'' (Some x))"
  using response_roundtrip[of "[0, 0, 0]" "[7, 8]" 7 0 9 "[1]"]
  by (simp add: frame_of_def Let_def)

text \<open>
  C23. The parser is total but for one input: a frame of length zero with a zero checksum makes
  it fail with \<open>IndexError\<close>, and nothing else does.
\<close>

theorem parse_response_error:
  "parse_response raw = Inl e \<longleftrightarrow>
     e = IndexError \<and> 6 \<le> length raw \<and> raw ! 0 = STX \<and> raw ! 1 = 0 \<and> raw ! 2 = 0 \<and> raw ! 3 = 0"
proof -
  have "parse_response raw = Inl e \<longleftrightarrow>
      6 \<le> length raw \<and> raw ! 0 = STX \<and> 3 + data_length raw + 1 \<le> length raw \<and>
      raw ! (3 + data_length raw) = lrc (take (2 + data_length raw) (drop 1 raw)) \<and>
      take (data_length raw) (drop 3 raw) = [] \<and> e = IndexError"
    by (cases "take (data_length raw) (drop 3 raw)")
       (simp_all only: parse_response_def Let_def list.case, simp_all split: if_split, auto)
  also have "\<dots> \<longleftrightarrow> e = IndexError \<and> 6 \<le> length raw \<and> raw ! 0 = STX \<and> data_length raw = 0 \<and>
      raw ! 3 = lrc (take 2 (drop 1 raw))"
    by (auto simp: numeral_2_eq_2)
  also have "\<dots> \<longleftrightarrow> e = IndexError \<and> 6 \<le> length raw \<and> raw ! 0 = STX \<and> raw ! 1 = 0 \<and> raw ! 2 = 0 \<and>
      raw ! 3 = 0"
  proof (cases "6 \<le> length raw")
    case True
    then obtain a b c d where r: "raw = a # b # c # d"
      by (cases raw; cases "tl raw"; cases "tl (tl raw)") auto
    have "data_length raw = 0 \<longleftrightarrow> b = 0 \<and> c = 0"
      by (simp add: r data_length_def unat_eq_0)
    then show ?thesis using r by (auto simp: numeral_2_eq_2)
  qed simp
  finally show ?thesis .
qed


definition valid_local_time :: "local_time \<Rightarrow> bool" where
  "valid_local_time t \<longleftrightarrow>
     0 \<le> lt_day t \<and> lt_day t < 100 \<and> 0 \<le> lt_month t \<and> lt_month t < 100 \<and>
     0 \<le> lt_year t \<and> lt_year t < 10000 \<and> 0 \<le> lt_hour t \<and> lt_hour t < 100 \<and>
     0 \<le> lt_minute t \<and> lt_minute t < 100 \<and> 0 \<le> lt_second t \<and> lt_second t < 100"

lemma to_bcd_hex:
  "list_all is_digit ds \<Longrightarrow> even (length ds) \<Longrightarrow>
     hex_of_bytes (to_bcd ds) = ds \<and> length (to_bcd ds) = length ds div 2"
  by (simp add: to_bcd_def bcd_hex length_bcd_pairs)

lemma hex_of_bytes_append: "hex_of_bytes (a @ b) = hex_of_bytes a @ hex_of_bytes b"
  by (simp add: hex_of_bytes_def)

lemma bcd_now_hex:
  assumes "valid_local_time now"
  shows "hex_of_bytes (bcd_now now) = fmt0 2 (lt_day now) @ fmt0 2 (lt_month now) @
      fmt0 4 (lt_year now) @ fmt0 2 (lt_hour now) @ fmt0 2 (lt_minute now) @ fmt0 2 (lt_second now)"
    "length (bcd_now now) = 7"
proof -
  have l: "length (fmt0 2 (lt_day now)) = 2" "length (fmt0 2 (lt_month now)) = 2"
    "length (fmt0 4 (lt_year now)) = 4" "length (fmt0 2 (lt_hour now)) = 2"
    "length (fmt0 2 (lt_minute now)) = 2" "length (fmt0 2 (lt_second now)) = 2"
    using assms by (simp_all add: valid_local_time_def length_fmt0)
  have d: "list_all is_digit (fmt0 2 (lt_day now) @ fmt0 2 (lt_month now) @ fmt0 4 (lt_year now))"
    "list_all is_digit (fmt0 2 (lt_hour now) @ fmt0 2 (lt_minute now) @ fmt0 2 (lt_second now))"
    using assms by (simp_all add: valid_local_time_def fmt0_digits)
  from to_bcd_hex[OF d(1)] to_bcd_hex[OF d(2)] l
  show "hex_of_bytes (bcd_now now) = fmt0 2 (lt_day now) @ fmt0 2 (lt_month now) @
      fmt0 4 (lt_year now) @ fmt0 2 (lt_hour now) @ fmt0 2 (lt_minute now) @ fmt0 2 (lt_second now)"
    "length (bcd_now now) = 7"
    by (simp_all add: bcd_now_def hex_of_bytes_append)
qed

lemma slice_at:
  "length a = i \<Longrightarrow> length b = j - i \<Longrightarrow> slice i j (a @ b @ c) = b"
  by (simp add: slice_def)

text \<open>
  C27. A deduct command on the wire carries the clock, the amount and the timeout, each read back
  from its place; it is refused exactly when the amount does not fit four bytes
  (\<open>OverflowError\<close>) or the timeout four digits (\<open>ValueError\<close>).
\<close>

theorem deduct_command_wire:
  assumes "valid_local_time now"
  shows "if amount < 0 \<or> 2 ^ 32 \<le> amount then cmd_deduct now amount sec = Inl OverflowError
    else if sec < 0 \<or> 9999 < sec
    then cmd_deduct now amount sec =
      Inl (ValueError (''Timeout must be 0..9999 seconds, got '' @ str_of_int sec))
    else \<exists>f p. cmd_deduct now amount sec = Inr f \<and> length f = 20 \<and>
      read_frame (f @ rest) = Some (p, rest) \<and> slice 0 3 p = [0xEF, 0x01, 0x03] \<and>
      hex_of_bytes (slice 3 10 p) = fmt0 2 (lt_day now) @ fmt0 2 (lt_month now) @
        fmt0 4 (lt_year now) @ fmt0 2 (lt_hour now) @ fmt0 2 (lt_minute now) @ fmt0 2 (lt_second now) \<and>
      from_bytes (slice 10 14 p) = amount \<and> hex_of_bytes (slice 14 16 p) = fmt0 4 sec"
proof (cases "amount < 0 \<or> 2 ^ 32 \<le> amount")
  case True
  then show ?thesis by (simp add: cmd_deduct_def to_bytes4_def)
next
  case a: False
  then obtain am where am: "to_bytes4 amount = Inr am" using to_bytes4_total[of amount] by auto
  show ?thesis
  proof (cases "sec < 0 \<or> 9999 < sec")
    case True
    with a am show ?thesis by (auto simp: cmd_deduct_def bcd_timeout_def)
  next
    case False
    let ?tm = "to_bcd (fmt0 4 sec)"
    have lt: "length (fmt0 4 sec) = 4" "list_all is_digit (fmt0 4 sec)"
      using False by (simp_all add: length_fmt0 fmt0_digits)
    with to_bcd_hex[of "fmt0 4 sec"] have tm: "hex_of_bytes ?tm = fmt0 4 sec" "length ?tm = 2" by simp_all
    note b = bcd_now_hex[OF assms] from_bytes_to_bytes4[OF am]
    let ?p = "[0xEF, 0x01, 0x03] @ bcd_now now @ am @ ?tm"
    have len: "length ?p = 16" using b tm by simp
    have cmd: "cmd_deduct now amount sec = Inr (frame_of ?p)"
      using False am by (simp add: cmd_deduct_def bcd_timeout_def build_frame_def CMD_DEDUCT_def)
    have lf: "length (frame_of ?p) = 20" by (simp only: frame_of_def Let_def) (simp add: b tm)
    have "slice 0 3 ?p = [0xEF, 0x01, 0x03]" by (simp add: slice_def)
    moreover have "slice 3 10 ?p = bcd_now now" using b by (intro slice_at) simp_all
    moreover have "slice 10 14 (([0xEF, 0x01, 0x03] @ bcd_now now) @ am @ ?tm) = am"
      using b by (intro slice_at) simp_all
    moreover have "slice 14 16 (([0xEF, 0x01, 0x03] @ bcd_now now @ am) @ ?tm @ []) = ?tm"
      using b tm by (intro slice_at) simp_all
    moreover have "read_frame (frame_of ?p @ rest) = Some (?p, rest)"
      using passti.deframe_frame[of ?p rest] len by simp
    ultimately show ?thesis using a False cmd lf b tm by auto
  qed
qed

definition example_time :: local_time where
  "example_time = \<lparr>lt_year = 2026, lt_month = 5, lt_day = 9, lt_hour = 14, lt_minute = 30,
     lt_second = 7\<rparr>"

theorem deduct_command_wire_witness:
  "\<exists>f p. cmd_deduct example_time 5000 10 = Inr f \<and> length f = 20 \<and> read_frame (f @ [1, 2]) = Some (p, [1, 2]) \<and>
     from_bytes (slice 10 14 p) = 5000"
  using deduct_command_wire[of example_time 5000 10 "[1, 2]"]
  by (auto simp: valid_local_time_def example_time_def)

lemma parse_deduct_short:
  assumes "ct \<noteq> 0x09" "k < 40"
  shows "\<exists>e. parse_deduct_response (take k (ct # xs)) = Inl e"
proof (cases k)
  case (Suc n)
  have "length (take n xs) \<le> n" by simp
  with Suc assms show ?thesis
    by (auto simp: parse_deduct_response_def simp del: length_take)
qed (simp add: parse_deduct_response_def)

lemma parse_prepaid:
  assumes "length mid = 8" "length tid = 4" "length dt = 7" "length cno = 8" "ct \<noteq> 0x09"
    "to_bytes4 d = Inr db" "to_bytes4 r = Inr rb" "to_bytes4 n = Inr nb"
  shows "parse_deduct_response ([ct] @ mid @ tid @ dt @ cno @ db @ rb @ nb @ lg) =
      Inr (Prepaid \<lparr>df_card_type_code = ct, df_card_type = card_type_of ct, df_mid = hex_up mid,
        df_tid = hex_up tid, df_datetime_bcd = hex_of_bytes dt, df_card_number = hex_up cno,
        df_deducted = d, df_remaining = r, df_trans_counter = n\<rparr>)"
proof -
  let ?b = "[ct] @ mid @ tid @ dt @ cno @ db @ rb @ nb @ lg"
  note w = from_bytes_to_bytes4[OF assms(6)] from_bytes_to_bytes4[OF assms(7)]
    from_bytes_to_bytes4[OF assms(8)]
  have "slice 1 9 ([ct] @ mid @ (tid @ dt @ cno @ db @ rb @ nb @ lg)) = mid"
    "slice 9 13 (([ct] @ mid) @ tid @ (dt @ cno @ db @ rb @ nb @ lg)) = tid"
    "slice 13 20 (([ct] @ mid @ tid) @ dt @ (cno @ db @ rb @ nb @ lg)) = dt"
    "slice 20 28 (([ct] @ mid @ tid @ dt) @ cno @ (db @ rb @ nb @ lg)) = cno"
    "slice 28 32 (([ct] @ mid @ tid @ dt @ cno) @ db @ (rb @ nb @ lg)) = db"
    "slice 32 36 (([ct] @ mid @ tid @ dt @ cno @ db) @ rb @ (nb @ lg)) = rb"
    "slice 36 40 (([ct] @ mid @ tid @ dt @ cno @ db @ rb) @ nb @ lg) = nb"
    using assms(1-4) w by (intro slice_at; simp)+
  then show "parse_deduct_response ?b =
      Inr (Prepaid \<lparr>df_card_type_code = ct, df_card_type = card_type_of ct, df_mid = hex_up mid,
        df_tid = hex_up tid, df_datetime_bcd = hex_of_bytes dt, df_card_number = hex_up cno,
        df_deducted = d, df_remaining = r, df_trans_counter = n\<rparr>)"
    using assms(1-5) w by (simp add: parse_deduct_response_def)
qed

text \<open>
  A prepaid card's deduct response is read field by field, amounts included, whatever log
  follows; a body of fewer than 40 bytes is an error, never a partial record.
\<close>

theorem prepaid_response_fields:
  assumes "length mid = 8" "length tid = 4" "length dt = 7" "length cno = 8" "ct \<noteq> 0x09"
    "to_bytes4 d = Inr db" "to_bytes4 r = Inr rb" "to_bytes4 n = Inr nb"
  shows "parse_deduct_response ([ct] @ mid @ tid @ dt @ cno @ db @ rb @ nb @ lg) =
      Inr (Prepaid \<lparr>df_card_type_code = ct, df_card_type = card_type_of ct, df_mid = hex_up mid,
        df_tid = hex_up tid, df_datetime_bcd = hex_of_bytes dt, df_card_number = hex_up cno,
        df_deducted = d, df_remaining = r, df_trans_counter = n\<rparr>) \<and>
    (k < 40 \<longrightarrow> (\<exists>e. parse_deduct_response
       (take k ([ct] @ mid @ tid @ dt @ cno @ db @ rb @ nb @ lg)) = Inl e))"
proof -
  let ?b = "[ct] @ mid @ tid @ dt @ cno @ db @ rb @ nb @ lg"
  have "\<exists>e. parse_deduct_response (take k ?b) = Inl e" if "k < 40"
    using parse_deduct_short[OF assms(5) that] by (simp only: append_Cons append_Nil)
  with parse_prepaid[OF assms] show ?thesis by blast
qed

theorem prepaid_response_fields_witness:
  "\<exists>f. parse_deduct_response ([0x03] @ replicate 8 1 @ replicate 4 2 @ replicate 7 3 @ replicate 8 4 @
      [0, 0, 19, 136] @ [0, 0, 39, 16] @ [0, 0, 0, 12] @ [99]) = Inr (Prepaid f) \<and>
     df_deducted f = 5000 \<and> df_remaining f = 10000 \<and> df_trans_counter f = 12"
proof -
  have "to_bytes4 5000 = Inr [0, 0, 19, 136]" "to_bytes4 10000 = Inr [0, 0, 39, 16]"
    "to_bytes4 12 = Inr [0, 0, 0, 12]"
    by (simp_all add: to_bytes4_def)
  from prepaid_response_fields[OF _ _ _ _ _ this, of "replicate 8 1" "replicate 4 2" "replicate 7 3"
      "replicate 8 4" "0x03" "[99]"]
  show ?thesis by simp
qed

end
