(* ===== verification/Daemon_Base.thy ===== *)
theory Daemon_Base
  imports Tasks Controller Passti
begin

text \<open>
  The daemon base class (\<open>daemons/base.py\<close>): Redis initialisation with backoff, command
  consumption with acknowledgement, event publishing with the stream tee, the heartbeat, and
  the persistence and recovery of the state.

  A subclass extends the record \<open>daemon\<close> with its own flds and gives \<open>handle_command\<close>,
  \<open>controller_ok\<close> and its initial state as arguments. Logging, tracing and the trimming of the
  event stream by Redis are left out.
\<close>

section \<open>The world outside\<close>

text \<open>
  What one piece of code meets: the clocks, whether Redis answers, the identifier \<open>XADD\<close>
  returns (\<open>None\<close> when it fails), the next command, the peer, writes, connects and reads of
  the controller, and whether ARQ takes a job.
\<close>

record env =
  e_now :: time
  e_local :: local_time
  e_redis :: bool
  e_xadd :: "string option"
  e_msg :: "(string \<times> (string \<times> string) list) option"
  e_peer :: bool
  e_write :: bool
  e_connect :: bool
  e_recv :: recv_outcome
  e_arq :: bool

datatype effect =
    Wrote bytes
  | StateSet string
  | Published string
  | Enqueued string

text \<open>The text of \<open>state_data\<close> in the hash: JSON or not.\<close>

datatype raw_data = RawJson "(string \<times> json) list" | RawGarbage

record daemon =
  d_gate_id :: string
  d_state :: string
  d_state_data :: "(string \<times> json) list"
  d_redis :: bool
  d_running :: bool
  d_shutdown :: bool
  d_hash :: "(string option \<times> raw_data option) option"
  d_acked :: "string list"
  d_eventlog :: "(string \<times> json) list"
  d_published :: "json list"
  d_heartbeat :: "(json \<times> time) option"
  d_trace :: "effect list"

type_synonym 's dprog = "(env, 's) prog"

section \<open>Backoff\<close>

locale capped_backoff =
  fixes next_delay :: "int \<Rightarrow> int" and first :: int and cap :: int
  assumes doubles: "next_delay d = min (d * 2) cap"
    and first_ok: "0 < first" "first \<le> cap"
begin

lemma delay_after: "(next_delay ^^ n) first = min (first * 2 ^ n) cap"
proof (induction n)
  case 0
  show ?case using first_ok by simp
next
  case (Suc n)
  have "0 \<le> cap" using first_ok by simp
  with Suc show ?case by (simp add: doubles algebra_simps)
qed

lemma delay_bounds: "first \<le> (next_delay ^^ n) first \<and> (next_delay ^^ n) first \<le> cap"
proof -
  have "first \<le> first * 2 ^ n" using first_ok by simp
  then show ?thesis using first_ok by (simp add: delay_after)
qed

lemma delay_mono: "m \<le> n \<Longrightarrow> (next_delay ^^ m) first \<le> (next_delay ^^ n) first"
proof -
  assume "m \<le> n"
  then have "first * 2 ^ m \<le> first * 2 ^ n" using first_ok by (intro mult_left_mono) simp_all
  then show ?thesis by (simp add: delay_after)
qed

end

definition next_retry_delay :: "int \<Rightarrow> int" where
  "next_retry_delay delay = min (delay * 2) 30"

interpretation retry: capped_backoff next_retry_delay 1 30
  by unfold_locales (simp_all add: next_retry_delay_def)

section \<open>Recovery and initialisation\<close>

text \<open>\<open>read\<close> is what \<open>HGETALL\<close> gives, \<open>None\<close> when it raises.\<close>

definition recover_state ::
  "string \<Rightarrow> (string option \<times> raw_data option) option option \<Rightarrow> 'a daemon_scheme \<Rightarrow>
   'a daemon_scheme" where
  "recover_state initial read s =
     (if \<not> d_redis s then s
      else case read of
        None \<Rightarrow> s\<lparr>d_state := initial, d_state_data := []\<rparr>
      | Some None \<Rightarrow> s
      | Some (Some (st, data)) \<Rightarrow>
          s\<lparr>d_state := (case st of None \<Rightarrow> initial | Some x \<Rightarrow> x),
            d_state_data := (case data of Some (RawJson d) \<Rightarrow> d | _ \<Rightarrow> [])\<rparr>)"

datatype xgroup = GroupCreated | GroupExists | GroupError

definition ensure_consumer_group :: "xgroup \<Rightarrow> 'a daemon_scheme \<Rightarrow> py_exc + unit" where
  "ensure_consumer_group x s =
     (if \<not> d_redis s then Inl (RuntimeError ''Redis not connected'')
      else case x of GroupCreated \<Rightarrow> Inr () | GroupExists \<Rightarrow> Inr () | GroupError \<Rightarrow> Inl RedisError)"

text \<open>One turn of the initialisation loop: PING, recovery, group.\<close>

record attempt =
  at_ping :: bool
  at_read :: "(string option \<times> raw_data option) option option"
  at_group :: xgroup

text \<open>
  The loop over the attempts: the sleeps it takes, and the state once an attempt succeeds
  (\<open>None\<close>: it is still retrying).
\<close>

fun wait_for_redis ::
  "string \<Rightarrow> attempt list \<Rightarrow> int \<Rightarrow> 'a daemon_scheme \<Rightarrow> int list \<times> 'a daemon_scheme option" where
  "wait_for_redis initial [] delay s = ([], None)"
| "wait_for_redis initial (a # as) delay s =
     (let retry = (\<lambda>s. case wait_for_redis initial as (next_retry_delay delay) s of
             (ds, r) \<Rightarrow> (delay # ds, r))
      in if \<not> at_ping a then retry s
         else let s = recover_state initial (at_read a) s
              in case ensure_consumer_group (at_group a) s of
                   Inl e \<Rightarrow> retry s
                 | Inr _ \<Rightarrow> ([], Some s))"

section \<open>State\<close>

definition update_data :: "(string \<times> json) list \<Rightarrow> (string \<times> json) list \<Rightarrow> (string \<times> json) list" where
  "update_data kw data =
     fold (\<lambda>(k, v) d. if map_of d k = None then d @ [(k, v)]
                       else map (\<lambda>(k', v'). if k' = k then (k, v) else (k', v')) d) kw data"

definition persist_state :: "'a daemon_scheme dprog" where
  "persist_state = look (\<lambda>s.
     if \<not> d_redis s then Ret True
     else Await (\<lambda>e s.
       if e_redis e
       then (Ret True, s\<lparr>d_hash := Some (Some (d_state s), Some (RawJson (d_state_data s)))\<rparr>)
       else (Raise RedisError, s)))"

definition transition :: "string \<Rightarrow> (string \<times> json) list \<Rightarrow> 'a daemon_scheme dprog" where
  "transition new_state kw =
     andThen (modify (\<lambda>s. s\<lparr>d_state := new_state, d_state_data := update_data kw (d_state_data s),
                             d_trace := StateSet new_state # d_trace s\<rparr>))
             persist_state"

section \<open>Events\<close>

definition mk_event :: "string \<Rightarrow> string \<Rightarrow> time \<Rightarrow> (string \<times> json) list \<Rightarrow> (string \<times> json) list" where
  "mk_event ty gid now extra =
     [(''event_type'', JStr ty), (''gate_id'', JStr gid), (''timestamp'', JIso now)] @ extra"

text \<open>XADD first, its failure caught; the published payload carries the stream identifier.\<close>

definition publish_event :: "string \<Rightarrow> (string \<times> json) list \<Rightarrow> 'a daemon_scheme dprog" where
  "publish_event ty extra = look_env (\<lambda>e s.
     if \<not> d_redis s then Raise (RuntimeError ''Redis not connected'')
     else
       let base = mk_event ty (d_gate_id s) (e_now e) extra
       in Await (\<lambda>e s.
            let sid = e_xadd e;
                s = (case sid of None \<Rightarrow> s | Some i \<Rightarrow> s\<lparr>d_eventlog := d_eventlog s @ [(i, JObj base)]\<rparr>);
                payload = (if truthy_str sid then JObj (base @ [(''_event_id'', JStr (the sid))])
                           else JObj base)
            in (Await (\<lambda>e s.
                  if e_redis e
                  then (Ret True, s\<lparr>d_published := d_published s @ [payload],
                                   d_trace := Published ty # d_trace s\<rparr>)
                  else (Raise RedisError, s)), s)))"

section \<open>Commands\<close>

definition process_command ::
  "((string \<times> string) list \<Rightarrow> 'a daemon_scheme dprog) \<Rightarrow> string \<Rightarrow> (string \<times> string) list \<Rightarrow>
   'a daemon_scheme dprog" where
  "process_command handle_command msg_id flds = look (\<lambda>s.
     if \<not> d_redis s then Ret True
     else catch
       (bind (handle_command flds) (\<lambda>ack.
          if ack
          then Await (\<lambda>e s. if e_redis e then (Ret True, s\<lparr>d_acked := d_acked s @ [msg_id]\<rparr>)
                             else (Raise RedisError, s))
          else Ret True))
       (\<lambda>_. Ret True))"

text \<open>
  One turn of the consumption loop: \<open>XREADGROUP ... > COUNT 1\<close> waits, then gives new messages
  only. \<open>True\<close>: the loop goes on.
\<close>

definition consume_commands ::
  "((string \<times> string) list \<Rightarrow> 'a daemon_scheme dprog) \<Rightarrow> 'a daemon_scheme dprog" where
  "consume_commands handle_command = look (\<lambda>s.
     if \<not> d_redis s then Raise (RuntimeError ''Redis not connected'')
     else if \<not> d_running s then Ret False
     else catch
       (andThen sleep (look_env (\<lambda>e s.
          if \<not> e_redis e then Raise RedisError
          else case e_msg e of
                 None \<Rightarrow> Ret True
               | Some (msg_id, flds) \<Rightarrow>
                   andThen (process_command handle_command msg_id flds) (Ret True))))
       (\<lambda>_. andThen sleep (Ret True)))"

section \<open>Heartbeat\<close>

definition heartbeat_state :: "'a daemon_scheme \<Rightarrow> json" where
  "heartbeat_state s =
     JObj [(''event_type'', JStr ''heartbeat_state''), (''gate_id'', JStr (d_gate_id s)),
           (''state'', JStr (d_state s)), (''state_data'', JObj (d_state_data s))]"

definition HEARTBEAT_TTL :: time where "HEARTBEAT_TTL = 60 * us_per_second"

definition heartbeat :: "(env \<Rightarrow> 'a daemon_scheme \<Rightarrow> bool) \<Rightarrow> 'a daemon_scheme dprog" where
  "heartbeat controller_ok = look_env (\<lambda>e s.
     if \<not> d_running s then Ret False
     else let ok = controller_ok e s in catch
       (seq
         [publish_event ''heartbeat'' [(''controller_ok'', JBool ok)],
          look (\<lambda>s. if \<not> d_redis s then Ret True
            else seq
              [Await (\<lambda>e s. if e_redis e
                 then (Ret True, s\<lparr>d_published := d_published s @ [heartbeat_state s]\<rparr>)
                 else (Raise RedisError, s)),
               Await (\<lambda>e s. if e_redis e
                 then (Ret True, s\<lparr>d_heartbeat := Some
                   (JObj [(''gate_id'', JStr (d_gate_id s)), (''state'', JStr (d_state s)),
                          (''controller_ok'', JBool ok), (''ts'', JIso (e_now e))],
                    e_now e + HEARTBEAT_TTL)\<rparr>)
                 else (Raise RedisError, s))]),
          sleep])
       (\<lambda>_. andThen sleep (Ret True)))"

section \<open>Shutdown\<close>

definition request_shutdown :: "'a daemon_scheme \<Rightarrow> 'a daemon_scheme" where
  "request_shutdown s = s\<lparr>d_running := False, d_shutdown := True\<rparr>"

section \<open>Initialisation ends with the first attempt that succeeds\<close>

lemma wait_delays:
  assumes "list_all (\<lambda>a. \<not> at_ping a) as"
  shows "wait_for_redis initial (as @ bs) d s =
    (map (\<lambda>i. (next_retry_delay ^^ i) d) [0..<length as] @
       fst (wait_for_redis initial bs ((next_retry_delay ^^ length as) d) s),
     snd (wait_for_redis initial bs ((next_retry_delay ^^ length as) d) s))"
  using assms
proof (induction as arbitrary: d)
  case (Cons a as)
  have m: "map (\<lambda>i. (next_retry_delay ^^ i) d) [0..<Suc (length as)] =
      d # map (\<lambda>i. (next_retry_delay ^^ i) (next_retry_delay d)) [0..<length as]"
    by (rule nth_equalityI) (auto simp: nth_Cons funpow_swap1 split: nat.split simp del: upt_Suc)
  from Cons show ?case
    by (simp add: case_prod_beta Let_def m funpow_swap1 del: upt_Suc)
qed simp

text \<open>
  The daemon comes up with the first attempt at which Redis answers, having slept 1, 2, 4, ...
  seconds, never more than 30, before it; it then holds the state of the hash, the state it was
  constructed with when there is no hash, and its initial state when the read fails or the hash
  names none.
\<close>

theorem redis_init:
  assumes "list_all (\<lambda>a. \<not> at_ping a) as" "at_ping a" "at_group a \<noteq> GroupError" "d_redis s"
  shows "wait_for_redis initial (as @ a # rest) 1 s =
    (map (\<lambda>i. min (2 ^ i) 30) [0..<length as], Some (recover_state initial (at_read a) s)) \<and>
    d_state (recover_state initial (at_read a) s) =
      (case at_read a of None \<Rightarrow> initial | Some None \<Rightarrow> d_state s
       | Some (Some (st, _)) \<Rightarrow> (case st of None \<Rightarrow> initial | Some x \<Rightarrow> x))"
proof
  have r: "d_redis (recover_state initial (at_read a) s)"
    using assms(4) by (simp add: recover_state_def split: option.splits prod.splits)
  then have "ensure_consumer_group (at_group a) (recover_state initial (at_read a) s) = Inr ()"
    using assms(3) by (cases "at_group a") (simp_all add: ensure_consumer_group_def)
  then show "wait_for_redis initial (as @ a # rest) 1 s =
    (map (\<lambda>i. min (2 ^ i) 30) [0..<length as], Some (recover_state initial (at_read a) s))"
    using assms(2) by (simp add: wait_delays[OF assms(1)] retry.delay_after Let_def)
  show "d_state (recover_state initial (at_read a) s) =
      (case at_read a of None \<Rightarrow> initial | Some None \<Rightarrow> d_state s
       | Some (Some (st, _)) \<Rightarrow> (case st of None \<Rightarrow> initial | Some x \<Rightarrow> x))"
    using assms(4) by (simp add: recover_state_def split: option.splits)
qed

text \<open>A gate that finds Redis at the third attempt and its last state in the hash.\<close>

definition example_daemon :: daemon where
  "example_daemon = \<lparr>d_gate_id = ''1'', d_state = ''IDLE'', d_state_data = [], d_redis = True,
     d_running = True, d_shutdown = False, d_hash = None, d_acked = [], d_eventlog = [],
     d_published = [], d_heartbeat = None, d_trace = []\<rparr>"

definition example_attempt :: attempt where
  "example_attempt = \<lparr>at_ping = True, at_read = Some (Some (Some ''PRINTING'', Some RawGarbage)),
     at_group = GroupExists\<rparr>"

definition example_silent :: attempt where
  "example_silent = example_attempt\<lparr>at_ping := False\<rparr>"

theorem redis_init_witness:
  "wait_for_redis ''IDLE'' ([example_silent, example_silent] @ example_attempt # []) 1 example_daemon =
   ([1, 2], Some (example_daemon\<lparr>d_state := ''PRINTING'', d_state_data := []\<rparr>))"
proof -
  have "map (\<lambda>i. min (2 ^ i) 30) [0..<length [example_silent, example_silent]] = [1, 2 :: int]"
    by (simp add: upt_rec)
  moreover have "recover_state ''IDLE'' (at_read example_attempt) example_daemon =
      example_daemon\<lparr>d_state := ''PRINTING'', d_state_data := []\<rparr>"
    by (simp add: recover_state_def example_attempt_def example_daemon_def)
  moreover note redis_init[of "[example_silent, example_silent]" example_attempt example_daemon
      "''IDLE''" "[]"]
  ultimately show ?thesis by (simp add: example_attempt_def example_silent_def example_daemon_def)
qed

end
