(* ===== verification/Gate_In.thy ===== *)
theory Gate_In
  imports Daemon_Base
begin

text \<open>
  The gate-in daemon (\<open>daemons/gate_in.py\<close>): the entry state machine, the relay with its retry,
  the circuit breaker of the controller link, the RSS listener, the command handlers and the
  timers, as tasks of the event loop of \<open>Tasks\<close>.

  Sleeping times are not modelled (a sleep ends at any later time), nor is the socket option
  code. Between two turns of a loop the event loop may run other tasks, one more interleaving
  than the code has. A list or object as an audio track is outside the model of \<open>str()\<close>.
\<close>

section \<open>Configuration and state\<close>

record gate_config =
  c_protocol :: "string option"
  c_relay_mode :: "string option"
  c_host :: "string option"
  c_port :: "int option"
  c_device :: "string option"
  c_name :: string
  c_hw :: json
  has_rfid :: bool
  has_ticket_printer :: bool

definition STATE_IDLE :: string where "STATE_IDLE = ''IDLE''"
definition STATE_WAITING_INPUT :: string where "STATE_WAITING_INPUT = ''WAITING_INPUT''"
definition STATE_VALIDATING :: string where "STATE_VALIDATING = ''VALIDATING''"
definition STATE_PROCESSING :: string where "STATE_PROCESSING = ''PROCESSING''"
definition STATE_OPENING :: string where "STATE_OPENING = ''OPENING''"

lemmas state_defs = STATE_IDLE_def STATE_WAITING_INPUT_def STATE_VALIDATING_def
  STATE_PROCESSING_def STATE_OPENING_def

datatype task =
    TConsume | THeartbeat | TListener | TControllerHeartbeat | TRfidSerial
  | TValidating nat | TPassTimer

record gate_in = daemon +
  g_controller :: "transport option"
  g_in1_on :: bool
  g_cb_fail_count :: nat
  g_cb_open_until :: time
  g_validating_task :: "nat option"
  g_next_timer :: nat
  g_listening :: bool
  g_buffer :: bytes
  g_reconnect_delay :: int
  g_rfid_port :: bool
  g_spawned :: "task list"
  g_cancelled :: "task list"

type_synonym gprog = "(env, gate_in) prog"

text \<open>\<open>__init__\<close>: the switches read from the hardware configuration, the fields.\<close>

definition init_config ::
  "string option \<Rightarrow> string option \<Rightarrow> string option \<Rightarrow> int option \<Rightarrow> string option \<Rightarrow> string \<Rightarrow>
   json \<Rightarrow> py_exc + gate_config" where
  "init_config proto relay_mode host prt device name hw =
     (case (jget2 hw ''rfid'' ''enabled'' (JBool False),
            jget2 hw ''ticket_printer'' ''enabled'' (JBool False)) of
        (Inr r, Inr p) \<Rightarrow>
          Inr \<lparr>c_protocol = proto, c_relay_mode = relay_mode, c_host = host, c_port = prt,
               c_device = device, c_name = name, c_hw = hw, has_rfid = truthy r,
               has_ticket_printer = truthy p\<rparr>
      | _ \<Rightarrow> Inl AttributeError)"

definition init_gate :: "string \<Rightarrow> gate_in" where
  "init_gate gid =
     \<lparr>d_gate_id = gid, d_state = STATE_IDLE, d_state_data = [], d_redis = False,
      d_running = False, d_shutdown = False, d_hash = None, d_acked = [], d_eventlog = [],
      d_published = [], d_heartbeat = None, d_trace = [], g_controller = None,
      g_in1_on = False, g_cb_fail_count = 0, g_cb_open_until = 0, g_validating_task = None,
      g_next_timer = 0, g_listening = False, g_buffer = [], g_reconnect_delay = 1,
      g_rfid_port = False, g_spawned = [], g_cancelled = []\<rparr>"

definition CB_THRESHOLD :: nat where "CB_THRESHOLD = 3"
definition CB_COOLDOWN :: time where "CB_COOLDOWN = 15 * us_per_second"

definition spawn :: "task \<Rightarrow> gprog" where
  "spawn t = modify (\<lambda>s. s\<lparr>g_spawned := g_spawned s @ [t]\<rparr>)"

text \<open>What the event loop takes over: tasks to start, tasks to cancel.\<close>

definition requests :: "gate_in \<Rightarrow> task list \<times> task list \<times> gate_in" where
  "requests s = (g_spawned s, g_cancelled s, s\<lparr>g_spawned := [], g_cancelled := []\<rparr>)"

section \<open>The controller link\<close>

definition controller_ok :: "env \<Rightarrow> gate_in \<Rightarrow> bool" where
  "controller_ok e s =
     (case g_controller s of None \<Rightarrow> False | Some t \<Rightarrow> t_is_connected (e_peer e) t)"

text \<open>
  Sending: dropped while the link is down or the breaker is open; a failed write closes the
  link, and the third in a row opens the breaker. The lock is never held across a suspension.
\<close>

definition send_controller_command :: "bytes \<Rightarrow> gprog" where
  "send_controller_command command = Do (\<lambda>e s.
     case g_controller s of
       None \<Rightarrow> (Ret False, s)
     | Some t \<Rightarrow>
       if \<not> t_is_connected (e_peer e) t then (Ret False, s)
       else if e_now e < g_cb_open_until s then (Ret False, s)
       else case t_send (e_write e) t of
              Inr _ \<Rightarrow> (Ret True, s\<lparr>g_cb_fail_count := 0, d_trace := Wrote command # d_trace s\<rparr>)
            | Inl x \<Rightarrow>
              let n = Suc (g_cb_fail_count s);
                  s = s\<lparr>g_cb_fail_count := n, g_controller := Some (t_close t)\<rparr>
              in (Ret False,
                  if CB_THRESHOLD \<le> n then s\<lparr>g_cb_open_until := e_now e + CB_COOLDOWN\<rparr> else s))"

text \<open>Connecting: any exception leaves no controller.\<close>

definition connect_controller :: "gate_config \<Rightarrow> gprog" where
  "connect_controller cfg = Do (\<lambda>e s.
     let proto = (case c_protocol cfg of None \<Rightarrow> ''compass'' | Some p \<Rightarrow> p)
     in if proto = ''serial''
        then if \<not> truthy_str (c_device cfg) then (Ret True, s)
             else case t_connect (e_connect e) (TSerial NoPort) of
                    (Inr _, t) \<Rightarrow> (Ret True, s\<lparr>g_controller := Some t\<rparr>)
                  | (Inl _, t) \<Rightarrow> (Ret True, s\<lparr>g_controller := None\<rparr>)
        else if \<not> truthy_str (c_host cfg) \<or> c_port cfg = None \<or> c_port cfg = Some 0
             then (Ret True, s)
             else case t_connect (e_connect e) (TCompass NoSock) of
                    (Inr _, t) \<Rightarrow> (Ret True, s\<lparr>g_controller := Some t\<rparr>)
                  | (Inl _, t) \<Rightarrow> (Ret True, s\<lparr>g_controller := None\<rparr>))"

definition disconnect_controller :: gprog where
  "disconnect_controller = modify (\<lambda>s. s\<lparr>g_controller := None\<rparr>)"

definition setup_rss :: gprog where
  "setup_rss = Do (\<lambda>e s.
     case g_controller s of
       None \<Rightarrow> (Ret True, s)
     | Some t \<Rightarrow>
       if \<not> t_is_connected (e_peer e) t then (Ret True, s)
       else case t_send (e_write e) t of
              Inl x \<Rightarrow> (Raise x, s)
            | Inr _ \<Rightarrow> (Ret True, s\<lparr>d_trace := Wrote (cmd_rss 2 default_flags) # d_trace s\<rparr>))"

section \<open>Relay, display, audio\<close>

definition relay_open :: "gate_config \<Rightarrow> gprog" where
  "relay_open cfg =
     (if c_relay_mode cfg = None \<or> c_relay_mode cfg = Some ''SINGLE''
      then send_controller_command cmd_trig1 else send_controller_command cmd_open1)"

fun relay_attempts :: "gate_config \<Rightarrow> nat \<Rightarrow> gprog" where
  "relay_attempts cfg 0 = Ret False"
| "relay_attempts cfg (Suc k) =
     bind (relay_open cfg) (\<lambda>ok.
       if ok then Ret True
       else if k = 0 then Ret False
       else andThen sleep (relay_attempts cfg k))"

definition relay_open_reliable :: "gate_config \<Rightarrow> gprog" where
  "relay_open_reliable cfg = relay_attempts cfg 5"

definition relay_close :: "gate_config \<Rightarrow> gprog" where
  "relay_close cfg =
     (if c_relay_mode cfg = Some ''DUAL'' \<or> c_relay_mode cfg = Some ''TRIPLE''
      then send_controller_command cmd_close1 else Ret True)"

definition relay_brake :: "gate_config \<Rightarrow> gprog" where
  "relay_brake cfg =
     (if c_relay_mode cfg = Some ''TRIPLE'' then send_controller_command cmd_stop1 else Ret True)"

definition display :: "gate_config \<Rightarrow> string \<Rightarrow> string \<Rightarrow> gprog" where
  "display cfg line1 line2 =
     try_value (jget2 (c_hw cfg) ''display'' ''enabled'' (JBool True)) (\<lambda>en.
       if truthy en
       then send_controller_command (if line1 = [] then cmd_dsu else cmd_ds line1 line2)
       else Ret True)"

text \<open>\<open>str(track)\<close>, \<open>f"{track:05d}"\<close>, and the integer a \<open>PlayAudioEvent\<close> takes.\<close>

fun py_str :: "json \<Rightarrow> string" where
  "py_str JNull = ''None''"
| "py_str (JBool b) = (if b then ''True'' else ''False'')"
| "py_str (JInt i) = str_of_int i"
| "py_str (JStr s) = s"
| "py_str _ = []"

definition format_error :: py_exc where
  "format_error = ValueError (''Unknown format code '' @ py_repr ''d'' @ '' for object of type '' @
     py_repr ''str'')"

fun format_05d :: "json \<Rightarrow> py_exc + string" where
  "format_05d (JInt i) = Inr (fmt0 5 i)"
| "format_05d (JBool b) = Inr (fmt0 5 (if b then 1 else 0))"
| "format_05d (JStr s) = Inl format_error"
| "format_05d (JIso t) = Inl format_error"
| "format_05d _ = Inl TypeError"

fun event_track :: "json \<Rightarrow> py_exc + int" where
  "event_track (JInt i) = Inr i"
| "event_track (JBool b) = Inr (if b then 1 else 0)"
| "event_track (JStr s) = (case py_int s of Some i \<Rightarrow> Inr i | None \<Rightarrow> Inl (ValueError ''track''))"
| "event_track _ = Inl (ValueError ''track'')"

definition audio_option :: "gate_config \<Rightarrow> string \<Rightarrow> json \<Rightarrow> py_exc + json" where
  "audio_option cfg key d = jget2 (c_hw cfg) ''audio'' key d"

definition cmd_play_audio :: "gate_config \<Rightarrow> json \<Rightarrow> gprog" where
  "cmd_play_audio cfg track =
     try_value (audio_option cfg ''track_map'' (JObj [])) (\<lambda>track_map.
       try_value (jget track_map (py_str track) track) (\<lambda>actual.
         if c_protocol cfg = Some ''serial''
         then try_value (event_track actual) (\<lambda>n. publish_event ''play_audio'' [(''track'', JInt n)])
         else try_value (format_05d actual) (\<lambda>t. send_controller_command (cmd_mt t))))"

text \<open>\<open>if audio_cfg.get("enabled", True): await self._cmd_play_audio(audio_cfg.get(key, d))\<close>.\<close>

definition configured_audio :: "gate_config \<Rightarrow> string \<Rightarrow> int \<Rightarrow> gprog" where
  "configured_audio cfg key d =
     try_value (audio_option cfg ''enabled'' (JBool True)) (\<lambda>en.
       if truthy en
       then try_value (audio_option cfg key (JInt d)) (\<lambda>t. cmd_play_audio cfg t)
       else Ret True)"

section \<open>State handlers\<close>

definition on_vehicle_detected :: "gate_config \<Rightarrow> gprog" where
  "on_vehicle_detected cfg = seq
     [transition STATE_WAITING_INPUT [],
      publish_event ''vehicle_detected'' [(''sensor'', JStr ''IN1'')],
      configured_audio cfg ''welcome_track'' 1,
      display cfg ''Selamat Datang'' ''Tombol/Tempel Kartu'']"

definition on_vehicle_backed_up :: "gate_config \<Rightarrow> gprog" where
  "on_vehicle_backed_up cfg = seq [transition STATE_IDLE [], display cfg [] []]"

definition on_reset :: "gate_config \<Rightarrow> gprog" where
  "on_reset cfg = seq [transition STATE_IDLE [], display cfg [] []]"

definition on_help_button :: "gate_config \<Rightarrow> gprog" where
  "on_help_button cfg = seq
     [cmd_play_audio cfg (JInt 5), display cfg ''Mohon Tunggu'' ''Petugas Membantu Anda'',
      publish_event ''help_button_pressed'' [], sleep, transition STATE_IDLE [], display cfg [] []]"

definition on_ticket_button_pressed :: gprog where
  "on_ticket_button_pressed = seq
     [transition STATE_PROCESSING [], publish_event ''ticket_button_pressed'' []]"

definition on_rfid_card_read :: "string \<Rightarrow> string \<Rightarrow> gprog" where
  "on_rfid_card_read card_number channel = seq
     [transition STATE_VALIDATING [],
      publish_event ''rfid_card_read''
        [(''card_number'', JStr card_number), (''channel'', JStr channel)],
      modify (\<lambda>s. s\<lparr>g_spawned := g_spawned s @ [TValidating (g_next_timer s)],
                     g_validating_task := Some (g_next_timer s),
                     g_next_timer := Suc (g_next_timer s)\<rparr>)]"

definition validating_timeout :: "gate_config \<Rightarrow> gprog" where
  "validating_timeout cfg = andThen sleep (look (\<lambda>s.
     if d_state s = STATE_VALIDATING then seq [transition STATE_IDLE [], display cfg [] []]
     else Ret True))"

definition on_gate_opened :: gprog where
  "on_gate_opened = seq
     [transition STATE_OPENING [], publish_event ''gate_opened'' [], spawn TPassTimer]"

definition on_vehicle_passed :: "gate_config \<Rightarrow> gprog" where
  "on_vehicle_passed cfg = seq
     [transition STATE_IDLE [], publish_event ''vehicle_passed'' [], display cfg [] [],
      relay_close cfg]"

definition vehicle_pass_timer :: "gate_config \<Rightarrow> gprog" where
  "vehicle_pass_timer cfg = andThen sleep (look (\<lambda>s.
     if d_state s = STATE_OPENING then on_vehicle_passed cfg else Ret True))"

section \<open>The pushed messages\<close>

text \<open>\<open>if self.state == st: handler\<close> after an acknowledgement.\<close>

definition ack_then :: "string \<Rightarrow> (gate_in \<Rightarrow> gprog) \<Rightarrow> gprog" where
  "ack_then sig k = andThen (send_controller_command (cmd_ack sig)) (look k)"

definition dispatch_rss_message :: "gate_config \<Rightarrow> bytes \<Rightarrow> gprog" where
  "dispatch_rss_message cfg msg =
     (let text = latin1_decode msg
      in if ends_with ''OK'' (rstrip_char END_CHAR text) then Ret True
         else if contains ''IN1ON'' text then
           andThen (modify (\<lambda>s. s\<lparr>g_in1_on := True\<rparr>)) (ack_then ''IN1ON'' (\<lambda>s.
             if d_state s = STATE_IDLE then on_vehicle_detected cfg else Ret True))
         else if contains ''IN1OFF'' text then
           andThen (modify (\<lambda>s. s\<lparr>g_in1_on := False\<rparr>)) (ack_then ''IN1OFF'' (\<lambda>s.
             if d_state s = STATE_WAITING_INPUT then on_vehicle_backed_up cfg
             else if d_state s = STATE_OPENING then on_vehicle_passed cfg else Ret True))
         else if contains ''IN2ON'' text then
           ack_then ''IN2ON'' (\<lambda>s.
             if \<not> g_in1_on s then Ret True
             else if d_state s = STATE_WAITING_INPUT then on_ticket_button_pressed else Ret True)
         else if contains ''IN3ON'' text then
           ack_then ''IN3ON'' (\<lambda>s.
             if d_state s = STATE_WAITING_INPUT then on_help_button cfg else Ret True)
         else if contains ''IN4ON'' text then
           ack_then ''IN4ON'' (\<lambda>s.
             if d_state s = STATE_WAITING_INPUT then on_reset cfg
             else if d_state s = STATE_OPENING then on_vehicle_passed cfg else Ret True)
         else if contains ''IN4OFF'' text then
           ack_then ''IN4OFF'' (\<lambda>s.
             if d_state s = STATE_OPENING then on_vehicle_passed cfg else Ret True)
         else
           let parsed = parse_stat msg
           in if truthy_str (st_wiegand_w parsed) \<or> truthy_str (st_wiegand_x parsed)
              then ack_then ''W'' (\<lambda>s.
                if d_state s = STATE_WAITING_INPUT \<and> has_rfid cfg
                then if truthy_str (st_wiegand_w parsed)
                     then on_rfid_card_read (the (st_wiegand_w parsed)) ''W''
                     else if truthy_str (st_wiegand_x parsed)
                     then on_rfid_card_read (the (st_wiegand_x parsed)) ''X''
                     else Ret True
                else Ret True)
              else Ret True)"

text \<open>The buffer keeps its old contents when a handler raises.\<close>

definition process_rss_buffer :: "gate_config \<Rightarrow> bytes \<Rightarrow> gprog" where
  "process_rss_buffer cfg buffer =
     (case split_rss buffer of (ms, rest) \<Rightarrow>
        andThen (seq (map (dispatch_rss_message cfg) ms))
                (modify (\<lambda>s. s\<lparr>g_buffer := rest\<rparr>)))"

definition next_reconnect_delay :: "int \<Rightarrow> int" where
  "next_reconnect_delay d = min (d * 2) 30"

interpretation reconnect: capped_backoff next_reconnect_delay 1 30
  by unfold_locales (simp_all add: next_reconnect_delay_def)

text \<open>
  The listener: the setup before the loop is outside its \<open>try\<close>; then one turn at a time. The
  read completes after a suspension, on whatever controller is then held.
\<close>

definition rss_turn :: "gate_config \<Rightarrow> gprog" where
  "rss_turn cfg = look_env (\<lambda>e s.
     if controller_ok e s
     then andThen (modify (\<lambda>s. s\<lparr>g_reconnect_delay := 1\<rparr>))
       (andThen sleep (Do (\<lambda>e s.
          case g_controller s of
            None \<Rightarrow> (Ret True, s)
          | Some t \<Rightarrow>
            case t_recv (e_recv e) t of
              (chunk, t') \<Rightarrow>
                if chunk = [] then (Ret True, s\<lparr>g_controller := Some t'\<rparr>)
                else let buffer = g_buffer s @ chunk
                     in (process_rss_buffer cfg buffer,
                         s\<lparr>g_controller := Some t', g_buffer := buffer\<rparr>))))
     else seq
       [modify (\<lambda>s. s\<lparr>g_buffer := []\<rparr>), disconnect_controller, connect_controller cfg,
        look_env (\<lambda>e s.
          if controller_ok e s
          then seq [setup_rss,
                    modify (\<lambda>s. s\<lparr>g_cb_fail_count := 0, g_cb_open_until := 0,
                                   g_reconnect_delay := 1\<rparr>)]
          else seq [sleep,
                    modify (\<lambda>s. s\<lparr>g_reconnect_delay :=
                                   next_reconnect_delay (g_reconnect_delay s)\<rparr>)])])"

definition rss_listener :: "gate_config \<Rightarrow> gprog" where
  "rss_listener cfg = look (\<lambda>s.
     if \<not> g_listening s
     then seq [modify (\<lambda>s. s\<lparr>g_listening := True, g_buffer := [], g_reconnect_delay := 1\<rparr>),
               setup_rss, Ret True]
     else if \<not> d_running s then Ret False
     else catch (andThen (rss_turn cfg) (Ret True)) (\<lambda>_. andThen sleep (Ret True)))"

definition controller_heartbeat :: gprog where
  "controller_heartbeat = look (\<lambda>s.
     if \<not> d_running s then Ret False
     else catch
       (andThen sleep (look_env (\<lambda>e s.
          if controller_ok e s then andThen (send_controller_command cmd_stat) (Ret True)
          else Ret True)))
       (\<lambda>_. Ret True))"

text \<open>The serial RFID reader; \<open>decode("ascii", errors="ignore")\<close> drops the other bytes.\<close>

definition ascii_ignore :: "bytes \<Rightarrow> string" where
  "ascii_ignore bs = latin1_decode (filter (\<lambda>b. unat b < 128) bs)"

definition rfid_serial_reader :: "gate_config \<Rightarrow> gprog" where
  "rfid_serial_reader cfg = look_env (\<lambda>e s.
     if \<not> g_rfid_port s
     then try_value (jget (c_hw cfg) ''rfid'' (JObj [])) (\<lambda>rfid.
       try_value (jget rfid ''device'' JNull) (\<lambda>device.
         if \<not> truthy device \<or> \<not> e_connect e then Ret False
         else andThen (modify (\<lambda>s. s\<lparr>g_rfid_port := True\<rparr>)) (Ret True)))
     else if \<not> d_running s then Ret False
     else catch
       (andThen sleep (look_env (\<lambda>e s.
          case e_recv e of
            RecvError \<Rightarrow> Raise OSError
          | RecvTimeout \<Rightarrow> Ret True
          | RecvData raw \<Rightarrow>
            let card_number = strip (ascii_ignore raw)
            in if card_number \<noteq> [] \<and> d_state s = STATE_WAITING_INPUT \<and> has_rfid cfg
               then andThen (on_rfid_card_read card_number ''S'') (Ret True) else Ret True)))
       (\<lambda>_. andThen sleep (Ret True)))"


section \<open>Commands\<close>

text \<open>\<open>command_data.get(key, default)\<close>.\<close>

definition field :: "(string \<times> string) list \<Rightarrow> string \<Rightarrow> string \<Rightarrow> string" where
  "field data key d = (case map_of data key of None \<Rightarrow> d | Some v \<Rightarrow> v)"

definition cmd_open_gate :: "gate_config \<Rightarrow> gprog" where
  "cmd_open_gate cfg =
     bind (relay_open_reliable cfg) (\<lambda>ok.
       if \<not> ok then andThen (publish_event ''gate_open_failed'' []) (Ret False)
       else andThen (cmd_play_audio cfg (JInt 9)) (andThen on_gate_opened (Ret True)))"

text \<open>The ticket: \<open>Inl\<close> when the length of the barcode does not fit a byte.\<close>

definition escpos_ticket :: "local_time \<Rightarrow> string \<Rightarrow> string \<Rightarrow> py_exc + bytes" where
  "escpos_ticket now gname barcode =
     (if 255 < length barcode then Inl (ValueError ''bytes must be in range(0, 256)'')
      else
        let timestamp_str = fmt0 2 (lt_day now) @ ''/'' @ fmt0 2 (lt_month now) @ ''/'' @
              fmt0 4 (lt_year now) @ '' '' @ fmt0 2 (lt_hour now) @ '':'' @ fmt0 2 (lt_minute now) @
              '':'' @ fmt0 2 (lt_second now);
            nl = [0x0A]
        in Inr ([0x1B, 0x61, 0x01] @ encode ''TIKET PARKIR'' @ nl @ [0x1B, 0x61, 0x00] @
                encode (''GATE    : '' @ gname) @ nl @
                encode (''TANGGAL : '' @ timestamp_str) @ nl @
                [0x1B, 0x61, 0x01] @ [0x1D, 0x68, 0x64] @ [0x1D, 0x48, 0x02] @
                [0x1D, 0x6B, 0x45] @ [word_of_nat (length barcode)] @ encode barcode @ [0x00] @
                [0x0A, 0x1D, 0x56, 0x41]))"

text \<open>The printing part gives \<open>print_success\<close>.\<close>

definition print_part :: "string \<Rightarrow> string \<Rightarrow> gprog" where
  "print_part barcode gname =
     catch
       (look_env (\<lambda>e s. try_value (escpos_ticket (e_local e) gname barcode) (\<lambda>data.
          seq [send_controller_command (cmd_pr3 data), sleep, Ret True])))
       (\<lambda>_. Ret False)"

definition cmd_print_ticket_then_open :: "gate_config \<Rightarrow> string \<Rightarrow> string \<Rightarrow> gprog" where
  "cmd_print_ticket_then_open cfg barcode gname =
     (if \<not> has_ticket_printer cfg
      then andThen (configured_audio cfg ''ticket_track'' 2) (cmd_open_gate cfg)
      else bind (print_part barcode gname) (\<lambda>print_success.
        andThen
          (if \<not> print_success
           then seq [send_controller_command (cmd_ds ''CATAT NOMOR:'' barcode),
                     publish_event ''print_failed_alert'' [], sleep,
                     configured_audio cfg ''error_track'' 11]
           else configured_audio cfg ''ticket_track'' 2)
          (cmd_open_gate cfg)))"

text \<open>The queued variant no command reaches; any exception is caught.\<close>

definition cmd_print_ticket :: "gate_config \<Rightarrow> string \<Rightarrow> string \<Rightarrow> gprog" where
  "cmd_print_ticket cfg barcode gname =
     (if \<not> has_ticket_printer cfg then Ret True
      else Await (\<lambda>e s.
        if e_arq e then (Ret True, s\<lparr>d_trace := Enqueued (''print_ticket:'' @ barcode) # d_trace s\<rparr>)
        else (Ret True, s)))"

definition cmd_display_text :: "gate_config \<Rightarrow> string \<Rightarrow> string \<Rightarrow> gprog" where
  "cmd_display_text cfg line1 line2 = display cfg line1 line2"

definition cmd_reject_card :: "gate_config \<Rightarrow> string \<Rightarrow> string \<Rightarrow> int \<Rightarrow> gprog" where
  "cmd_reject_card cfg line1 line2 audio_track = seq
     [modify (\<lambda>s. case g_validating_task s of None \<Rightarrow> s
        | Some n \<Rightarrow> s\<lparr>g_cancelled := g_cancelled s @ [TValidating n]\<rparr>),
      display cfg line1 line2, cmd_play_audio cfg (JInt audio_track), sleep,
      transition STATE_WAITING_INPUT [],
      display cfg ''Selamat Datang'' ''Tombol/Tempel Kartu'']"

definition cmd_reset_gate :: "gate_config \<Rightarrow> gprog" where
  "cmd_reset_gate cfg = seq [transition STATE_IDLE [], display cfg [] []]"

definition float_ok :: "string \<Rightarrow> py_exc + unit" where
  "float_ok s = (if py_float_ok s then Inr ()
     else Inl (ValueError (''could not convert string to float: '' @ py_repr s)))"

definition run_command :: "gate_config \<Rightarrow> (string \<times> string) list \<Rightarrow> gprog" where
  "run_command cfg data =
     (let ty = field data ''command_type'' []
      in if ty = ''open_gate'' then cmd_open_gate cfg
         else if ty = ''close_gate'' then relay_close cfg
         else if ty = ''brake_gate'' then relay_brake cfg
         else if ty = ''play_audio'' then
           try_value (case map_of data ''track'' of None \<Rightarrow> Inr 1 | Some t \<Rightarrow> int_of_str t)
             (\<lambda>t. cmd_play_audio cfg (JInt t))
         else if ty = ''display_text'' then
           cmd_display_text cfg (field data ''line1'' []) (field data ''line2'' [])
         else if ty = ''print_ticket_then_open'' then
           cmd_print_ticket_then_open cfg (field data ''barcode'' [])
             (field data ''gate_name'' (c_name cfg))
         else if ty = ''reject_card'' then
           try_value (case map_of data ''audio_track'' of None \<Rightarrow> Inr 3 | Some t \<Rightarrow> int_of_str t) (\<lambda>t.
             try_value (case map_of data ''display_seconds'' of None \<Rightarrow> Inr () | Some d \<Rightarrow> float_ok d)
               (\<lambda>_. cmd_reject_card cfg (field data ''line1'' ''Kartu Tidak Valid'')
                      (field data ''line2'' []) t))
         else if ty = ''reset_gate'' then cmd_reset_gate cfg
         else if ty = ''inject_rss'' then
           dispatch_rss_message cfg
             ([0xA6] @ latin1_encode (field data ''signal'' []) @ [0xA9])
         else Ret True)"

definition handle_command :: "gate_config \<Rightarrow> (string \<times> string) list \<Rightarrow> gprog" where
  "handle_command cfg data =
     catch (andThen (run_command cfg data) (Ret True)) (\<lambda>_. Ret False)"

section \<open>The daemon\<close>

fun body :: "gate_config \<Rightarrow> task \<Rightarrow> gprog" where
  "body cfg TConsume = consume_commands (handle_command cfg)"
| "body cfg THeartbeat = heartbeat controller_ok"
| "body cfg TListener = rss_listener cfg"
| "body cfg TControllerHeartbeat = controller_heartbeat"
| "body cfg TRfidSerial = rfid_serial_reader cfg"
| "body cfg (TValidating n) = validating_timeout cfg"
| "body cfg TPassTimer = vehicle_pass_timer cfg"

fun loops :: "task \<Rightarrow> bool" where
  "loops (TValidating n) = False"
| "loops TPassTimer = False"
| "loops _ = True"

text \<open>\<open>_on_started\<close>: back to IDLE whatever was recovered, then the background tasks.\<close>

definition start_polling :: "gate_config \<Rightarrow> gprog" where
  "start_polling cfg =
     andThen (modify (\<lambda>s. s\<lparr>g_spawned := g_spawned s @ [TListener, TControllerHeartbeat]\<rparr>))
       (if \<not> has_rfid cfg then Ret True
        else try_value (jget2 (c_hw cfg) ''rfid'' ''connection'' JNull) (\<lambda>c.
          if c = JStr ''direct_serial'' then spawn TRfidSerial else Ret True))"

definition on_started :: "gate_config \<Rightarrow> gprog" where
  "on_started cfg = look (\<lambda>s.
     if d_state s \<noteq> STATE_IDLE then andThen (transition STATE_IDLE []) (start_polling cfg)
     else start_polling cfg)"

text \<open>
  The main coroutine after Redis has answered: the controller was connected first; then the
  flag, the hook, the two base loops.
\<close>

definition run_daemon :: "gate_config \<Rightarrow> gprog" where
  "run_daemon cfg = seq
     [modify (\<lambda>s. s\<lparr>d_running := True\<rparr>), on_started cfg,
      modify (\<lambda>s. s\<lparr>g_spawned := g_spawned s @ [TConsume, THeartbeat]\<rparr>)]"

text \<open>A task of the pool: the main coroutine or one of the tasks it starts.\<close>

fun pool_body :: "gate_config \<Rightarrow> task option \<Rightarrow> gprog" where
  "pool_body cfg None = run_daemon cfg"
| "pool_body cfg (Some t) = body cfg t"

definition pool_loops :: "task option \<Rightarrow> bool" where
  "pool_loops t = (case t of None \<Rightarrow> False | Some u \<Rightarrow> loops u)"

definition pool_requests :: "gate_in \<Rightarrow> task option list \<times> task option list \<times> gate_in" where
  "pool_requests s = (case requests s of (a, b, s') \<Rightarrow> (map Some a, map Some b, s'))"

definition gate_step ::
  "gate_config \<Rightarrow> (task option \<times> gprog) list \<times> gate_in \<Rightarrow>
   (task option \<times> gprog) list \<times> gate_in \<Rightarrow> bool" where
  "gate_step cfg = sched (pool_body cfg) pool_loops pool_requests"

text \<open>The start: \<open>run\<close> has connected to Redis and the controller and recovered some state.\<close>

definition gate_start :: "gate_config \<Rightarrow> gate_in \<Rightarrow> (task option \<times> gprog) list \<times> gate_in" where
  "gate_start cfg s = ([(None, run_daemon cfg)], s)"


section \<open>Invariants of the daemon\<close>

definition is_open_write :: "bytes \<Rightarrow> bool" where
  "is_open_write c \<longleftrightarrow> c = cmd_trig1 \<or> c = cmd_open1"

text \<open>The types of the events the daemon publishes.\<close>

definition event_types :: "string list" where
  "event_types = [''heartbeat'', ''vehicle_detected'', ''ticket_button_pressed'', ''rfid_card_read'',
     ''help_button_pressed'', ''gate_opened'', ''gate_open_failed'', ''vehicle_passed'', ''play_audio'',
     ''print_failed_alert'']"

lemma event_types [simp]:
  "''heartbeat'' \<in> set event_types" "''vehicle_detected'' \<in> set event_types"
  "''ticket_button_pressed'' \<in> set event_types" "''rfid_card_read'' \<in> set event_types"
  "''help_button_pressed'' \<in> set event_types" "''gate_opened'' \<in> set event_types"
  "''gate_open_failed'' \<in> set event_types" "''vehicle_passed'' \<in> set event_types"
  "''play_audio'' \<in> set event_types" "''print_failed_alert'' \<in> set event_types"
  by (simp_all add: event_types_def)

text \<open>
  A property of the state, of what the daemon has done so far, of the messages it has published and of
  the credits held: an open write that lands earns a credit, entering OPENING spends one.
\<close>

locale gate_invariant =
  fixes P :: "string \<Rightarrow> effect list \<Rightarrow> json list \<Rightarrow> nat \<Rightarrow> bool"
  assumes drop: "P st tr ms n \<Longrightarrow> m \<le> n \<Longrightarrow> P st tr ms m"
    and wrote: "P st tr ms n \<Longrightarrow> P st (Wrote c # tr) ms n"
    and wrote_open: "is_open_write c \<Longrightarrow> P st tr ms n \<Longrightarrow> P st (Wrote c # tr) ms (Suc n)"
    and set: "P st tr ms n \<Longrightarrow>
      st' \<in> {STATE_IDLE, STATE_WAITING_INPUT, STATE_VALIDATING, STATE_PROCESSING} \<Longrightarrow>
      P st' (StateSet st' # tr) ms n"
    and set_opening: "P st tr ms (Suc n) \<Longrightarrow> P STATE_OPENING (StateSet STATE_OPENING # tr) ms n"
    and published: "P st tr ms n \<Longrightarrow> ty \<in> set event_types \<Longrightarrow>
      P st (Published ty # tr) (ms @ [JObj ((''event_type'', JStr ty) # flds)]) n"
    and beat: "P st tr ms n \<Longrightarrow> P st tr (ms @ [JObj ((''event_type'', JStr ''heartbeat_state'') # flds)]) n"
begin

definition inv :: "gate_in \<Rightarrow> nat \<Rightarrow> bool" where
  "inv s n = P (d_state s) (d_trace s) (d_published s) n"

definition ok :: "gprog \<Rightarrow> bool" where
  "ok p = safe inv p 0 (\<lambda>_. 0)"

end

sublocale gate_invariant \<subseteq> shared_invariant inv
  by unfold_locales (auto simp: inv_def intro: drop)

context gate_invariant begin

lemma ok_Ret [simp]: "ok (Ret b)" and ok_Raise [simp]: "ok (Raise x)"
  by (simp_all add: ok_def)

lemma ok_sleep: "ok sleep"
  unfolding ok_def by (rule safe_sleep) simp

lemma ok_andThen: "ok p \<Longrightarrow> ok q \<Longrightarrow> ok (andThen p q)"
  unfolding ok_def by (rule safe_andThen)

lemma ok_bind: "ok p \<Longrightarrow> (\<And>b. ok (k b)) \<Longrightarrow> ok (bind p k)"
  unfolding ok_def by (rule safe_bind)

lemma ok_catch: "ok p \<Longrightarrow> (\<And>x. ok (h x)) \<Longrightarrow> ok (catch p h)"
  unfolding ok_def by (rule safe_catch)

lemma ok_seq: "(\<And>p. p \<in> set ps \<Longrightarrow> ok p) \<Longrightarrow> ok (seq ps)"
  unfolding ok_def by (rule safe_seq)

lemma ok_look: "(\<And>s. ok (k s)) \<Longrightarrow> ok (look k)"
  unfolding ok_def by (rule safe_look)

lemma ok_look_env: "(\<And>e s. ok (k e s)) \<Longrightarrow> ok (look_env k)"
  unfolding ok_def by (rule safe_look_env)

lemma ok_try: "(\<And>a. ok (k a)) \<Longrightarrow> ok (try_value v k)"
  unfolding ok_def by (rule safe_try_value)

lemma ok_if: "(b \<Longrightarrow> ok p) \<Longrightarrow> (\<not> b \<Longrightarrow> ok q) \<Longrightarrow> ok (if b then p else q)"
  by simp

lemma ok_modify:
  "(\<And>s. d_state (f s) = d_state s \<and> d_trace (f s) = d_trace s \<and> d_published (f s) = d_published s) \<Longrightarrow>
   ok (modify f)"
  unfolding ok_def by (rule safe_modify[where m = 0]) (simp_all add: inv_def)

text \<open>A step that leaves state and trace alone, or adds an event or a write.\<close>

definition quiet :: "gate_in \<Rightarrow> gate_in \<Rightarrow> bool" where
  "quiet s s' \<longleftrightarrow> d_state s' = d_state s \<and>
     (d_published s' = d_published s \<and> (d_trace s' = d_trace s \<or> (\<exists>c. d_trace s' = Wrote c # d_trace s)) \<or>
      (\<exists>ty flds. ty \<in> set event_types \<and> d_trace s' = Published ty # d_trace s \<and>
         d_published s' = d_published s @ [JObj ((''event_type'', JStr ty) # flds)]) \<or>
      (\<exists>flds. d_trace s' = d_trace s \<and>
         d_published s' = d_published s @ [JObj ((''event_type'', JStr ''heartbeat_state'') # flds)]))"

lemma quiet_inv: "quiet s s' \<Longrightarrow> inv s n \<Longrightarrow> inv s' n"
  by (auto simp: quiet_def inv_def intro: wrote published beat)

lemma quiet_step:
  assumes "\<And>e s. ok (fst (f e s)) \<and> quiet s (snd (f e s))"
  shows "ok (Do f)" "ok (Await f)"
proof -
  have "step_ok inv f 0 (\<lambda>_. 0)"
  proof (rule step_okI)
    fix e s p s' assume "f e s = (p, s')"
    with assms[of e s] have "safe inv p 0 (\<lambda>_. 0)" "quiet s s'" by (auto simp: ok_def)
    then show "\<exists>m. (\<forall>k. inv s (0 + k) \<longrightarrow> inv s' (m + k)) \<and> safe inv p m (\<lambda>_. 0)"
      by (intro exI[of _ 0]) (auto intro: quiet_inv)
  qed
  then show "ok (Do f)" "ok (Await f)" by (simp_all add: ok_def)
qed

lemma quiet_beat: "quiet s (s\<lparr>d_published := d_published s @ [heartbeat_state s]\<rparr>)"
  by (simp add: quiet_def heartbeat_state_def)

lemma quiet_refl:
  "d_state s' = d_state s \<Longrightarrow> d_trace s' = d_trace s \<Longrightarrow> d_published s' = d_published s \<Longrightarrow> quiet s s'"
  by (simp add: quiet_def)

lemma ok_persist: "ok persist_state"
  unfolding persist_state_def by (auto intro!: ok_look quiet_step simp: quiet_refl)

lemma ok_publish: "ty \<in> set event_types \<Longrightarrow> ok (publish_event ty extra)"
  unfolding publish_event_def Let_def
  by (auto intro!: ok_look_env quiet_step simp: quiet_def mk_event_def split: option.splits)

lemma ok_transition:
  assumes "st \<in> {STATE_IDLE, STATE_WAITING_INPUT, STATE_VALIDATING, STATE_PROCESSING}"
  shows "ok (transition st kw)"
proof -
  have "ok (modify (\<lambda>s :: gate_in. s\<lparr>d_state := st, d_state_data := update_data kw (d_state_data s),
      d_trace := StateSet st # d_trace s\<rparr>))"
    unfolding ok_def
    by (rule safe_modify[where m = 0]) (use assms in \<open>auto simp: inv_def intro!: set\<close>)
  then show ?thesis unfolding transition_def by (rule ok_andThen) (rule ok_persist)
qed

lemma safe_opening: "safe inv (transition STATE_OPENING kw) 1 (\<lambda>_. 0)"
proof -
  have "safe inv (modify (\<lambda>s :: gate_in. s\<lparr>d_state := STATE_OPENING,
      d_state_data := update_data kw (d_state_data s), d_trace := StateSet STATE_OPENING # d_trace s\<rparr>))
      1 (\<lambda>_. 0)"
    by (rule safe_modify[where m = 0]) (auto simp: inv_def intro: set_opening)
  then show ?thesis
    unfolding transition_def by (rule safe_andThen) (use ok_persist in \<open>simp add: ok_def\<close>)
qed

lemma ok_send: "ok (send_controller_command c)"
  unfolding send_controller_command_def
  by (intro quiet_step) (auto simp: quiet_def Let_def split: option.split sum.split)

lemma safe_send_open:
  assumes "is_open_write c"
  shows "safe inv (send_controller_command c) 0 (\<lambda>b. if b then 1 else 0)"
  unfolding send_controller_command_def safe_step
proof (rule step_okI, goal_cases)
  case (1 e s p s')
  have w: "inv (s\<lparr>g_cb_fail_count := 0, d_trace := Wrote c # d_trace s\<rparr>) (Suc k)" if "inv s k" for k
    using that wrote_open[OF assms] by (simp add: inv_def)
  show ?case
  proof (cases "p = Ret True")
    case True
    with 1 have "s' = s\<lparr>g_cb_fail_count := 0, d_trace := Wrote c # d_trace s\<rparr>"
      by (auto simp: Let_def split: option.splits sum.splits if_splits)
    with True w show ?thesis by (intro exI[of _ 1]) simp
  next
    case False
    with 1 have "p = Ret False" "d_state s' = d_state s" "d_trace s' = d_trace s" "d_published s' = d_published s"
      by (auto simp: Let_def split: option.splits sum.splits if_splits)
    then show ?thesis by (intro exI[of _ 0]) (simp add: inv_def)
  qed
qed

lemma safe_relay_open: "safe inv (relay_open cfg) 0 (\<lambda>b. if b then 1 else 0)"
  by (auto simp: relay_open_def is_open_write_def intro!: safe_send_open)

lemma safe_relay_attempts: "safe inv (relay_attempts cfg k) 0 (\<lambda>b. if b then 1 else 0)"
proof (induction k)
  case (Suc k)
  show ?case
    unfolding relay_attempts.simps
  proof (rule safe_bind[OF safe_relay_open])
    fix b
    have "safe inv (andThen sleep (relay_attempts cfg k)) 0 (\<lambda>b. if b then 1 else 0)"
      using ok_sleep Suc by (auto simp: ok_def intro: safe_andThen)
    then show "safe inv (if b then Ret True else if k = 0 then Ret False
        else andThen sleep (relay_attempts cfg k)) (if b then 1 else 0) (\<lambda>b. if b then 1 else 0)"
      by simp
  qed
qed simp

lemma ok_connect: "ok (connect_controller cfg)" "ok disconnect_controller" "ok setup_rss" "ok (spawn t)"
  unfolding connect_controller_def disconnect_controller_def setup_rss_def spawn_def Let_def
  by (intro quiet_step ok_modify;
      auto simp: quiet_def split: option.split sum.split prod.split)+

lemma ok_relay: "ok (relay_close cfg)" "ok (relay_brake cfg)"
  by (simp_all add: relay_close_def relay_brake_def ok_send)

lemma ok_display: "ok (display cfg a b)"
  by (auto simp: display_def intro!: ok_try ok_send)

lemma ok_play: "ok (cmd_play_audio cfg t)" "ok (configured_audio cfg key d)"
  by (auto simp: cmd_play_audio_def configured_audio_def intro!: ok_try ok_send ok_publish)

lemmas ok_rules = ok_send ok_publish ok_transition ok_display ok_play ok_relay ok_connect ok_sleep

lemma ok_seq_list: "list_all ok ps \<Longrightarrow> ok (seq ps)"
  by (rule ok_seq) (simp add: list_all_iff)

lemma ok_handlers:
  "ok (on_vehicle_detected cfg)" "ok (on_vehicle_backed_up cfg)" "ok (on_reset cfg)"
  "ok (on_help_button cfg)" "ok on_ticket_button_pressed" "ok (on_rfid_card_read n ch)"
  "ok (on_vehicle_passed cfg)" "ok (cmd_reset_gate cfg)"
  unfolding on_vehicle_detected_def on_vehicle_backed_up_def on_reset_def on_help_button_def
    on_ticket_button_pressed_def on_rfid_card_read_def on_vehicle_passed_def cmd_reset_gate_def
  by (rule ok_seq_list; simp add: ok_rules ok_modify)+

lemma ok_timers: "ok (validating_timeout cfg)" "ok (vehicle_pass_timer cfg)"
  unfolding validating_timeout_def vehicle_pass_timer_def
  by (auto intro!: ok_andThen ok_look ok_sleep ok_seq_list simp: ok_rules ok_handlers)

lemma ok_ack_then: "(\<And>s. ok (k s)) \<Longrightarrow> ok (ack_then sig k)"
  unfolding ack_then_def by (intro ok_andThen ok_look ok_send)

lemma ok_dispatch: "ok (dispatch_rss_message cfg msg)"
  unfolding dispatch_rss_message_def Let_def
  by (intro ok_if ok_ack_then ok_andThen ok_modify ok_handlers ok_Ret) simp_all

lemma ok_process_buffer: "ok (process_rss_buffer cfg b)"
  unfolding process_rss_buffer_def
  by (auto intro!: ok_andThen ok_seq ok_modify simp: ok_dispatch split: prod.split)

lemma safe_opened: "safe inv on_gate_opened 1 (\<lambda>_. 0)"
proof -
  have "safe inv (andThen (publish_event ''gate_opened'' []) (spawn TPassTimer)) 0 (\<lambda>_. 0)"
    using ok_publish[OF event_types(6)] ok_connect(4) unfolding ok_def by (rule safe_andThen)
  with safe_opening show ?thesis
    unfolding on_gate_opened_def seq.simps by (rule safe_andThen)
qed

lemma ok_open_gate: "ok (cmd_open_gate cfg)"
  unfolding ok_def cmd_open_gate_def
proof (rule safe_bind)
  show "safe inv (relay_open_reliable cfg) 0 (\<lambda>b. if b then 1 else 0)"
    unfolding relay_open_reliable_def by (rule safe_relay_attempts)
  fix b
  have "safe inv (andThen (publish_event ''gate_open_failed'' []) (Ret False)) 0 (\<lambda>_. 0)"
    using ok_publish by (intro safe_keep) (simp_all add: ok_def)
  moreover have "safe inv (andThen (cmd_play_audio cfg (JInt 9)) (andThen on_gate_opened (Ret True)))
      1 (\<lambda>_. 0)"
    by (rule safe_keep[OF ok_play(1)[unfolded ok_def]], rule safe_andThen[OF safe_opened]) simp
  ultimately show "safe inv (if \<not> b then andThen (publish_event ''gate_open_failed'' []) (Ret False)
      else andThen (cmd_play_audio cfg (JInt 9)) (andThen on_gate_opened (Ret True)))
      (if b then 1 else 0) (\<lambda>_. 0)" by simp
qed

lemma ok_print_part: "ok (print_part bc g)"
  unfolding print_part_def by (auto intro!: ok_catch ok_look_env ok_try ok_seq_list simp: ok_rules)

lemma ok_commands:
  "ok (cmd_print_ticket_then_open cfg bc g)" "ok (cmd_reject_card cfg a b t)"
  unfolding cmd_print_ticket_then_open_def cmd_reject_card_def
  by (auto intro!: ok_andThen ok_bind ok_seq_list ok_modify ok_print_part
      simp: ok_rules ok_open_gate split: option.split)

lemma ok_handle: "ok (handle_command cfg data)"
  unfolding handle_command_def run_command_def cmd_display_text_def Let_def
  by (auto intro!: ok_catch ok_andThen ok_try
      simp: ok_rules ok_open_gate ok_commands ok_handlers ok_dispatch)

lemma ok_consume: "(\<And>d. ok (h d)) \<Longrightarrow> ok (consume_commands h)"
  unfolding consume_commands_def process_command_def
  by (auto intro!: ok_look ok_look_env ok_catch ok_andThen ok_bind ok_sleep quiet_step
      simp: quiet_refl split: option.split)

lemma ok_heartbeat: "ok (heartbeat c)"
  unfolding heartbeat_def Let_def
  by (auto intro!: ok_look ok_look_env ok_catch ok_andThen ok_seq_list ok_sleep quiet_step
      simp: quiet_refl quiet_beat ok_rules)

lemma ok_listener: "ok (rss_listener cfg)"
  unfolding rss_listener_def rss_turn_def Let_def
  by (auto intro!: ok_look ok_look_env ok_catch ok_andThen ok_seq_list ok_sleep quiet_step ok_modify
      simp: quiet_refl ok_rules ok_process_buffer split: option.split prod.split)

lemma ok_other: "ok controller_heartbeat" "ok (rfid_serial_reader cfg)"
  unfolding controller_heartbeat_def rfid_serial_reader_def Let_def
  by (auto intro!: ok_look ok_look_env ok_catch ok_andThen ok_seq_list ok_sleep quiet_step ok_modify
      ok_try simp: quiet_refl ok_rules ok_handlers split: option.split recv_outcome.split)

lemma ok_body: "ok (pool_body cfg t)"
proof (cases t)
  case None
  have "ok (on_started cfg)"
    unfolding on_started_def start_polling_def
    by (auto intro!: ok_look ok_andThen ok_modify ok_try simp: ok_rules)
  with None show ?thesis
    by (auto simp: run_daemon_def intro!: ok_seq_list ok_modify)
next
  case (Some u)
  then show ?thesis
    by (cases u) (simp_all add: ok_consume ok_handle ok_heartbeat ok_listener ok_other ok_timers)
qed

theorem reachable_inv:
  assumes "(gate_step cfg)\<^sup>*\<^sup>* (gate_start cfg s0) (pool, s)" "P (d_state s0) (d_trace s0) (d_published s0) 0"
  shows "P (d_state s) (d_trace s) (d_published s) 0"
proof -
  have "funded [(None :: task option, run_daemon cfg)] (0 + 0)"
    using ok_body[of cfg None] by (intro funded.intros) (simp_all add: ok_def)
  then have start: "all_safe (gate_start cfg s0)"
    using assms(2) by (auto simp: all_safe_def gate_start_def inv_def intro!: exI[of _ 0])
  have "all_safe (pool, s)"
  proof (rule reachable_safe[OF assms(1)[unfolded gate_step_def] start])
    show "safe inv (pool_body cfg t) 0 (\<lambda>_. 0)" for t using ok_body by (simp add: ok_def)
    show "inv s' n" if "pool_requests s = (a, b, s')" "inv s n" for s n a b s'
      using that by (auto simp: pool_requests_def requests_def inv_def)
  qed
  then obtain n where "P (d_state s) (d_trace s) (d_published s) n" by (auto simp: all_safe_def inv_def)
  then show ?thesis by (rule drop) simp
qed

end


section \<open>What the daemon may claim\<close>

definition landed :: "effect list \<Rightarrow> nat" where
  "landed tr = length (filter (\<lambda>x. case x of Wrote c \<Rightarrow> is_open_write c | _ \<Rightarrow> False) tr)"

definition openings :: "effect list \<Rightarrow> nat" where
  "openings tr = length (filter (\<lambda>x. x = StateSet STATE_OPENING) tr)"

fun last_set :: "string \<Rightarrow> effect list \<Rightarrow> string" where
  "last_set st0 [] = st0"
| "last_set st0 (StateSet st # tr) = st"
| "last_set st0 (x # tr) = last_set st0 tr"

definition known_states :: "string list" where
  "known_states = [STATE_IDLE, STATE_WAITING_INPUT, STATE_VALIDATING, STATE_PROCESSING, STATE_OPENING]"

interpretation credit: gate_invariant "\<lambda>st tr ms n. openings tr + n \<le> landed tr"
  by unfold_locales (auto simp: openings_def landed_def state_defs)

interpretation tracked: gate_invariant "\<lambda>st tr ms n. last_set st0 tr = st"
  by unfold_locales auto

interpretation known: gate_invariant "\<lambda>st tr ms n. st \<in> set known_states"
  by unfold_locales (auto simp: known_states_def)

text \<open>What is on the channel of the gate: events of the known types and the state of the heartbeat.\<close>

definition announced :: "json \<Rightarrow> bool" where
  "announced m \<longleftrightarrow> (case m of JObj ((k, JStr ty) # flds) \<Rightarrow>
     k = ''event_type'' \<and> (ty = ''heartbeat_state'' \<or> ty \<in> set event_types) | _ \<Rightarrow> False)"

interpretation channel: gate_invariant "\<lambda>st tr ms n. list_all announced ms"
  by unfold_locales (auto simp: announced_def)

lemma last_set_opening:
  "last_set st0 tr = STATE_OPENING \<Longrightarrow> st0 \<noteq> STATE_OPENING \<Longrightarrow> 0 < openings tr"
  by (induction st0 tr rule: last_set.induct) (auto simp: openings_def)

text \<open>
  C1. The daemon never believes a closed barrier open. In every state any interleaving of its
  tasks can reach, whatever Redis and the controller do, it has entered OPENING at most as often
  as an open write has landed on the controller; so while it is in OPENING one has landed. Its
  state is always one of the five.
\<close>

theorem never_open_without_write:
  assumes "(gate_step cfg)\<^sup>*\<^sup>* (gate_start cfg s0) (pool, s)"
    "d_trace s0 = []" "d_state s0 \<in> set known_states - {STATE_OPENING}"
  shows "openings (d_trace s) \<le> landed (d_trace s) \<and>
    (d_state s = STATE_OPENING \<longrightarrow> 0 < landed (d_trace s)) \<and> d_state s \<in> set known_states"
proof -
  have c: "openings (d_trace s) + 0 \<le> landed (d_trace s)"
    by (rule credit.reachable_inv[OF assms(1)]) (simp add: assms(2) openings_def landed_def)
  have t: "last_set (d_state s0) (d_trace s) = d_state s"
    by (rule tracked.reachable_inv[OF assms(1)]) (simp add: assms(2))
  have "d_state s \<in> set known_states"
    by (rule known.reachable_inv[OF assms(1)]) (use assms(3) in simp)
  moreover have "0 < landed (d_trace s)" if "d_state s = STATE_OPENING"
  proof -
    have "0 < openings (d_trace s)"
      by (rule last_set_opening[of "d_state s0"]) (use t that assms(3) in auto)
    with c show ?thesis by simp
  qed
  ultimately show ?thesis using c by simp
qed

definition example_env :: env where
  "example_env = \<lparr>e_now = 0, e_local = example_time, e_redis = True, e_xadd = Some ''1-0'',
     e_msg = None, e_peer = True, e_write = True, e_connect = True, e_recv = RecvTimeout,
     e_arq = True\<rparr>"

definition example_config :: gate_config where
  "example_config = \<lparr>c_protocol = Some ''compass'', c_relay_mode = Some ''SINGLE'',
     c_host = Some ''10.0.0.5'', c_port = Some 5000, c_device = None, c_name = ''Masuk 1'',
     c_hw = JObj [], has_rfid = True, has_ticket_printer = True\<rparr>"

definition linked :: "gate_in \<Rightarrow> gate_in" where
  "linked s = s\<lparr>d_redis := True, d_running := True, g_controller := Some (TCompass Connected)\<rparr>"

lemma start_step:
  "gate_step example_config (gate_start example_config (init_gate ''gate-in-1''))
     ([(None, Ret True), (Some TListener, rss_listener example_config),
       (Some TControllerHeartbeat, controller_heartbeat),
       (Some TConsume, consume_commands (handle_command example_config)),
       (Some THeartbeat, heartbeat controller_ok)],
      (init_gate ''gate-in-1'')\<lparr>d_running := True\<rparr>)"
proof -
  let ?s = "init_gate ''gate-in-1''"
  have seg: "segment (run_daemon example_config) (\<lambda>_. example_env) ?s =
     (Ret True, ?s\<lparr>d_running := True,
        g_spawned := [TListener, TControllerHeartbeat, TConsume, THeartbeat]\<rparr>)"
    by (simp add: run_daemon_def seq.simps andThen_def modify_def on_started_def look_def
        start_polling_def init_gate_def example_config_def try_value_def jget2_def)
  have req: "pool_requests (?s\<lparr>d_running := True,
        g_spawned := [TListener, TControllerHeartbeat, TConsume, THeartbeat]\<rparr>) =
     ([Some TListener, Some TControllerHeartbeat, Some TConsume, Some THeartbeat], [],
      ?s\<lparr>d_running := True\<rparr>)"
    by (simp add: pool_requests_def requests_def init_gate_def)
  from sched.resume[where requests = pool_requests and a = "[]" and b = "[]" and t = None
      and body = "pool_body example_config" and loops = pool_loops, OF seg req]
  show ?thesis by (simp add: gate_step_def gate_start_def)
qed

theorem never_open_without_write_witness:
  "openings (d_trace ((init_gate ''gate-in-1'')\<lparr>d_running := True\<rparr>)) \<le>
     landed (d_trace ((init_gate ''gate-in-1'')\<lparr>d_running := True\<rparr>))"
  using never_open_without_write[OF r_into_rtranclp[of "gate_step example_config", OF start_step]]
  by (simp add: init_gate_def known_states_def state_defs)

section \<open>The link and the commands\<close>

lemma alone_andThen:
  "alone (andThen (Do f) q) es s =
     (case f (es 0) s of (p, s') \<Rightarrow> alone (andThen p q) (\<lambda>n. es (Suc n)) s')"
  by (simp add: andThen_def case_prod_beta)

text \<open>
  C21. A send tells the truth and a failed one takes the link down: it returns \<open>True\<close> exactly when
  the link is up, the breaker is closed and the write succeeds, and only then is the command
  written; after a failed write the link is down, so the next send is dropped without counting
  as a failure.
\<close>

theorem send_truth:
  assumes "g_controller s = Some (TCompass Connected)" "e_peer (es 0)"
    "g_cb_open_until s \<le> e_now (es 0)"
  shows "alone (send_controller_command c) es s =
      (if e_write (es 0)
       then (Inr True, s\<lparr>g_cb_fail_count := 0, d_trace := Wrote c # d_trace s\<rparr>)
       else (Inr False, s\<lparr>g_cb_fail_count := Suc (g_cb_fail_count s),
              g_controller := Some (TCompass NoSock),
              g_cb_open_until := (if CB_THRESHOLD \<le> Suc (g_cb_fail_count s)
                                  then e_now (es 0) + CB_COOLDOWN else g_cb_open_until s)\<rparr>)) \<and>
    (\<not> e_write (es 0) \<longrightarrow>
       alone (send_controller_command c') es' (snd (alone (send_controller_command c) es s)) =
         (Inr False, snd (alone (send_controller_command c) es s)))"
  using assms
  by (simp add: send_controller_command_def compass_is_connected_def compass_send_def
      compass_close_def Let_def)

theorem send_truth_witness:
  "alone (send_controller_command cmd_trig1) (\<lambda>_. example_env\<lparr>e_write := False\<rparr>)
     (linked (init_gate ''g'')) =
   (Inr False, (linked (init_gate ''g''))\<lparr>g_cb_fail_count := 1,
      g_controller := Some (TCompass NoSock)\<rparr>)"
  using send_truth[of "linked (init_gate ''g'')" "\<lambda>_. example_env\<lparr>e_write := False\<rparr>" cmd_trig1]
  by (simp add: linked_def example_env_def init_gate_def CB_THRESHOLD_def)

lemma alone_catch_returns: "\<exists>b. fst (alone (catch p (\<lambda>_. Ret c)) es s) = Inr b"
proof (induction p arbitrary: es s rule: prog_induct)
  case (Do f)
  obtain q s' where f: "f (es 0) s = (q, s')" by fastforce
  from Do[OF f, of "\<lambda>n. es (Suc n)" s'] f show ?case by (simp add: case_prod_beta)
next
  case (Await f)
  obtain q s' where f: "f (es 0) s = (q, s')" by fastforce
  from Await[OF f, of "\<lambda>n. es (Suc n)" s'] f show ?case by (simp add: case_prod_beta)
qed simp_all

lemma alone_catch_sleep: "\<exists>b. fst (alone (catch p (\<lambda>_. andThen sleep (Ret c))) es s) = Inr b"
proof (induction p arbitrary: es s rule: prog_induct)
  case (Do f)
  obtain q s' where f: "f (es 0) s = (q, s')" by fastforce
  from Do[OF f, of "\<lambda>n. es (Suc n)" s'] f show ?case by (simp add: case_prod_beta)
next
  case (Await f)
  obtain q s' where f: "f (es 0) s = (q, s')" by fastforce
  from Await[OF f, of "\<lambda>n. es (Suc n)" s'] f show ?case by (simp add: case_prod_beta)
qed (simp_all add: andThen_def sleep_def)

text \<open>
  C25. A command is always answered with a verdict and the consumer always goes on: handling any
  command gives \<open>True\<close> or \<open>False\<close>, and a turn of the consumption loop on a live Redis client never
  ends with an exception, whatever the command, Redis and the controller do.
\<close>

theorem commands_never_raise:
  assumes "d_redis s"
  shows "(\<exists>b. fst (alone (handle_command cfg data) es s) = Inr b) \<and>
    (\<exists>b. fst (alone (consume_commands (handle_command cfg)) es s) = Inr b)"
proof
  show "\<exists>b. fst (alone (handle_command cfg data) es s) = Inr b"
    unfolding handle_command_def by (rule alone_catch_returns)
  show "\<exists>b. fst (alone (consume_commands (handle_command cfg)) es s) = Inr b"
  proof (cases "d_running s")
    case True
    then show ?thesis
      using alone_catch_sleep[of "andThen sleep (look_env (\<lambda>e s. if \<not> e_redis e then Raise RedisError
          else case e_msg e of None \<Rightarrow> Ret True
               | Some (msg_id, flds) \<Rightarrow>
                   andThen (process_command (handle_command cfg) msg_id flds) (Ret True)))" True
          "\<lambda>n. es (Suc n)" s] assms
      by (simp add: consume_commands_def look_def)
  qed (auto simp: consume_commands_def look_def assms)
qed

theorem commands_never_raise_witness:
  "\<exists>b. fst (alone (handle_command example_config [(''command_type'', ''play_audio''), (''track'', ''x'')])
     (\<lambda>_. example_env) (linked (init_gate ''g''))) = Inr b"
  using commands_never_raise[of "linked (init_gate ''g'')"] by (simp add: linked_def)

text \<open>
  C27. The listener survives everything but its own setup: once it listens, a turn never ends
  with an exception; but when the link is up at startup and the first write (the RSS
  configuration) fails, the listener task ends with \<open>OSError\<close>, and nothing starts it again.
\<close>

theorem listener_setup_is_fatal:
  "(g_listening s \<longrightarrow> (\<exists>b. fst (alone (rss_listener cfg) es s) = Inr b)) \<and>
   (\<not> g_listening s \<and> g_controller s = Some (TCompass Connected) \<and> e_peer (es 2) \<and> \<not> e_write (es 2) \<longrightarrow>
      fst (alone (rss_listener cfg) es s) = Inl OSError)"
  using alone_catch_sleep[of "andThen (rss_turn cfg) (Ret True)" True "\<lambda>n. es (Suc n)" s]
  by (auto simp: rss_listener_def look_def seq.simps andThen_def modify_def setup_rss_def
      compass_is_connected_def compass_send_def numeral_2_eq_2)

theorem listener_setup_is_fatal_witness:
  "fst (alone (rss_listener example_config) (\<lambda>_. example_env\<lparr>e_write := False\<rparr>)
     (linked (init_gate ''g''))) = Inl OSError"
  using listener_setup_is_fatal[of "linked (init_gate ''g'')" example_config
      "\<lambda>_. example_env\<lparr>e_write := False\<rparr>"]
  by (simp add: linked_def init_gate_def example_env_def)

text \<open>
  The ticket's print step reports success for every barcode whose length fits a byte, whether
  or not the data reached the controller: with the link down nothing is written and it still
  reports success.
\<close>

theorem print_success_ignores_link:
  "fst (alone (print_part barcode gname) es s) = Inr (length barcode \<le> 255) \<and>
   (g_controller s = None \<longrightarrow> snd (alone (print_part barcode gname) es s) = s)"
proof -
  have "\<exists>b s'. alone (send_controller_command c) es s = (Inr b, s')" for c es s
    by (auto simp: send_controller_command_def Let_def split: option.split sum.split)
  show ?thesis
    by (auto simp: print_part_def look_env_def try_value_def escpos_ticket_def Let_def seq.simps
        andThen_def sleep_def send_controller_command_def split: option.split sum.split)
qed

theorem print_success_ignores_link_witness:
  "alone (print_part ''B001'' ''Masuk 1'') (\<lambda>_. example_env) (init_gate ''g'') =
     (Inr True, init_gate ''g'')"
  using print_success_ignores_link[of "''B001''" "''Masuk 1''" "\<lambda>_. example_env" "init_gate ''g''"]
  by (auto simp: init_gate_def prod_eq_iff)

section \<open>An opening carried out\<close>

text \<open>What was written stays on the trace, whatever a task does next.\<close>

interpretation written: gate_invariant "\<lambda>st tr ms n. \<exists>later. tr = later @ Wrote c # t0" for c t0
  by unfold_locales (auto intro: append_Cons[symmetric])

lemma alone_safe: "safe I p n Q \<Longrightarrow> I s (n + k) \<Longrightarrow> \<exists>m. I (snd (alone p es s)) (m + k)"
proof (induction p arbitrary: n es s rule: prog_induct)
  case (Do f)
  obtain q s1 where f: "f (es 0) s = (q, s1)" by fastforce
  with Do.prems obtain m where "I s1 (m + k)" "safe I q m Q"
    by (auto simp: step_ok_def) blast
  from Do.IH[OF f this(2,1)] show ?case by (simp add: f)
next
  case (Await f)
  obtain q s1 where f: "f (es 0) s = (q, s1)" by fastforce
  with Await.prems obtain m where "I s1 (m + k)" "safe I q m Q"
    by (auto simp: step_ok_def) blast
  from Await.IH[OF f this(2,1)] show ?case by (simp add: f)
qed auto

definition open_command :: "gate_config \<Rightarrow> bytes" where
  "open_command cfg = (if c_relay_mode cfg = None \<or> c_relay_mode cfg = Some ''SINGLE'' then cmd_trig1 else cmd_open1)"

text \<open>A turn of the consumption loop that reads an opening with the link up writes it to the relay first.\<close>

lemma opening_written:
  assumes "d_redis s" "d_running s" "g_controller s = Some (TCompass Connected)" "g_cb_open_until s \<le> e_now (es 4)"
    and "e_redis (es 2)" "e_msg (es 2) = Some (mid, flds)" "e_peer (es 4)" "e_write (es 4)"
    and "run_command cfg flds = cmd_open_gate cfg"
  shows "\<exists>later. d_trace (snd (alone (consume_commands (handle_command cfg)) es s)) =
    later @ Wrote (open_command cfg) # d_trace s"
proof -
  let ?s1 = "s\<lparr>g_cb_fail_count := 0, d_trace := Wrote (open_command cfg) # d_trace s\<rparr>"
  define rest where "rest = andThen (cmd_play_audio cfg (JInt 9)) (andThen on_gate_opened (Ret True))"
  define ack where "ack = (\<lambda>a. if a then Await (\<lambda>e s. if e_redis e then (Ret True, s\<lparr>d_acked := d_acked s @ [mid]\<rparr>)
    else (Raise RedisError, s)) else Ret True :: gprog)"
  define q where "q = catch (andThen (catch (bind (catch (andThen rest (Ret True)) (\<lambda>_. Ret False)) ack)
    (\<lambda>_. Ret True)) (Ret True)) (\<lambda>_. andThen sleep (Ret True))"
  have send: "send_controller_command (open_command cfg) = relay_open cfg"
    by (simp add: open_command_def relay_open_def)
  have run: "alone (consume_commands (handle_command cfg)) es s = alone q (\<lambda>n. es (Suc (Suc (Suc (Suc (Suc n)))))) ?s1"
  proof -
    have f: "5 = Suc 4" by simp
    note cmd = assms(9)[unfolded cmd_open_gate_def relay_open_reliable_def f relay_attempts.simps
        send[symmetric] send_controller_command_def]
    show ?thesis
      unfolding consume_commands_def process_command_def handle_command_def
      using assms(1-8) by (simp add: cmd look_def look_env_def sleep_def andThen_def q_def ack_def rest_def
          compass_is_connected_def compass_send_def eval_nat_numeral)
  qed
  have "written.ok (open_command cfg) (d_trace s) (transition STATE_OPENING [])"
    unfolding transition_def
  proof (rule written.ok_andThen[OF _ written.ok_persist])
    show "written.ok (open_command cfg) (d_trace s) (modify (\<lambda>s. s\<lparr>d_state := STATE_OPENING,
        d_state_data := update_data [] (d_state_data s), d_trace := StateSet STATE_OPENING # d_trace s\<rparr>))"
      unfolding written.ok_def
      by (rule written.safe_modify[where m = 0]) (auto simp: written.inv_def intro: append_Cons[symmetric])
  qed
  then have "written.ok (open_command cfg) (d_trace s) on_gate_opened"
    unfolding on_gate_opened_def
    by (intro written.ok_seq_list) (simp add: written.ok_publish[OF event_types(6)] written.ok_connect)
  then have "written.ok (open_command cfg) (d_trace s) rest"
    unfolding rest_def by (intro written.ok_andThen written.ok_play written.ok_Ret)
  moreover have "written.ok (open_command cfg) (d_trace s) (ack a)" for a
    by (auto simp: ack_def intro!: written.quiet_step simp: written.quiet_refl)
  ultimately have "written.ok (open_command cfg) (d_trace s) q"
    unfolding q_def by (intro written.ok_catch written.ok_andThen written.ok_bind written.ok_sleep
        written.ok_Ret) simp_all
  from alone_safe[OF this[unfolded written.ok_def], of ?s1 0] run show ?thesis
    by (simp add: written.inv_def)
qed

section \<open>The stream and the listener\<close>

lemma alone_bindD:
  "alone (bind p k) es s = (Inr b, s') \<Longrightarrow>
   \<exists>b1 es1 s1. alone p es s = (Inr b1, s1) \<and> alone (k b1) es1 s1 = (Inr b, s')"
proof (induction p arbitrary: es s rule: prog_induct)
  case (Do f)
  obtain q s1 where f: "f (es 0) s = (q, s1)" by fastforce
  from Do(2) have "alone (bind q k) (\<lambda>n. es (Suc n)) s1 = (Inr b, s')" by (simp add: f)
  from Do(1)[OF f this] show ?case by (simp add: f)
next
  case (Await f)
  obtain q s1 where f: "f (es 0) s = (q, s1)" by fastforce
  from Await(2) have "alone (bind q k) (\<lambda>n. es (Suc n)) s1 = (Inr b, s')" by (simp add: f)
  from Await(1)[OF f this] show ?case by (simp add: f)
qed auto

lemma alone_catch_ret: "alone p es s = (Inr b, s') \<Longrightarrow> alone (catch p h) es s = (Inr b, s')"
proof (induction p arbitrary: es s rule: prog_induct)
  case (Do f)
  obtain q s1 where f: "f (es 0) s = (q, s1)" by fastforce
  from Do(2) have "alone q (\<lambda>n. es (Suc n)) s1 = (Inr b, s')" by (simp add: f)
  from Do(1)[OF f this] show ?case by (simp add: f)
next
  case (Await f)
  obtain q s1 where f: "f (es 0) s = (q, s1)" by fastforce
  from Await(2) have "alone q (\<lambda>n. es (Suc n)) s1 = (Inr b, s')" by (simp add: f)
  from Await(1)[OF f this] show ?case by (simp add: f)
qed auto

text \<open>
  Turns of the listening loop that find the link up and whose handlers do not raise, with the bytes
  each reads (none on a timeout).
\<close>

inductive turns :: "gate_config \<Rightarrow> gate_in \<Rightarrow> bytes list \<Rightarrow> gate_in \<Rightarrow> bool" for cfg where
  no_turn: "turns cfg s [] s"
| next_turn: "\<lbrakk>g_listening s; d_running s; g_controller s = Some t; t_is_connected (e_peer (es 1)) t;
     chunk = fst (t_recv (e_recv (es 4)) t);
     fst (alone (rss_turn cfg) (\<lambda>n. es (Suc n)) s) = Inr b; alone (rss_listener cfg) es s = (Inr True, s1);
     turns cfg s1 chunks s2\<rbrakk> \<Longrightarrow> turns cfg s (chunk # chunks) s2"

text \<open>
  Runs of the handlers on given messages, in order, with only the listener's own fields and the
  transport touched in between.
\<close>

inductive handled :: "gate_config \<Rightarrow> bytes list \<Rightarrow> gate_in \<Rightarrow> gate_in \<Rightarrow> bool" for cfg where
  none_left: "handled cfg [] s s"
| own_fields: "handled cfg ms (s\<lparr>g_reconnect_delay := d, g_controller := c, g_buffer := buf\<rparr>) s' \<Longrightarrow> handled cfg ms s s'"
| one_message: "\<lbrakk>alone (dispatch_rss_message cfg m) es s = (Inr b, s1); handled cfg ms s1 s'\<rbrakk> \<Longrightarrow>
     handled cfg (m # ms) s s'"

lemma handled_append: "handled cfg ms s s1 \<Longrightarrow> handled cfg ms' s1 s' \<Longrightarrow> handled cfg (ms @ ms') s s'"
  by (induction rule: handled.induct) (auto intro: handled.intros)

lemma seq_handled:
  "alone (seq (map (dispatch_rss_message cfg) ms)) es s = (Inr b, s') \<Longrightarrow> handled cfg ms s s'"
proof (induction ms arbitrary: es s)
  case (Cons m ms)
  show ?case
  proof (cases ms)
    case Nil
    with Cons.prems show ?thesis by (auto simp: seq.simps intro: handled.intros)
  next
    case (Cons m' ms')
    from Cons.prems have "alone (bind (dispatch_rss_message cfg m) (\<lambda>_. seq (map (dispatch_rss_message cfg) ms))) es s =
        (Inr b, s')" by (simp add: Cons seq.simps andThen_def)
    from alone_bindD[OF this] show ?thesis by (blast intro: handled.one_message Cons.IH)
  qed
qed (auto simp: seq.simps intro: handled.intros)

lemma alone_then_ret: "alone p es s = (Inr b, s') \<Longrightarrow> alone (andThen p (Ret c)) es s = (Inr c, s')"
proof (induction p arbitrary: es s rule: prog_induct)
  case (Do f)
  obtain q s1 where f: "f (es 0) s = (q, s1)" by fastforce
  from Do(2) have "alone q (\<lambda>n. es (Suc n)) s1 = (Inr b, s')" by (simp add: f)
  from Do(1)[OF f this] show ?case by (simp add: f andThen_def)
next
  case (Await f)
  obtain q s1 where f: "f (es 0) s = (q, s1)" by fastforce
  from Await(2) have "alone q (\<lambda>n. es (Suc n)) s1 = (Inr b, s')" by (simp add: f)
  from Await(1)[OF f this] show ?case by (simp add: f andThen_def)
qed (auto simp: andThen_def)

text \<open>One turn: a timeout changes no buffer; bytes are appended, and the handlers run on the frames.\<close>

lemma rss_turn_eq:
  assumes "g_controller s = Some t" "t_is_connected (e_peer (es 0)) t" "t_recv (e_recv (es 3)) t = (chunk, t')"
  shows "alone (rss_turn cfg) es s =
    (if chunk = [] then (Inr True, s\<lparr>g_reconnect_delay := 1, g_controller := Some t'\<rparr>)
     else alone (process_rss_buffer cfg (g_buffer s @ chunk)) (\<lambda>n. es (Suc (Suc (Suc (Suc n)))))
       (s\<lparr>g_reconnect_delay := 1, g_controller := Some t', g_buffer := g_buffer s @ chunk\<rparr>))"
  using assms by (simp add: rss_turn_def look_env_def controller_ok_def modify_def sleep_def andThen_def
      Let_def numeral_3_eq_3)

lemma listener_turn:
  assumes "g_listening s" "d_running s" "alone (rss_turn cfg) (\<lambda>n. es (Suc n)) s = (Inr b, s')"
  shows "alone (rss_listener cfg) es s = (Inr True, s')"
  using assms(1,2) alone_catch_ret[OF alone_then_ret[OF assms(3)]] by (simp add: rss_listener_def look_def)

lemma turn_handled:
  assumes "g_controller s = Some t" "t_is_connected (e_peer (es 0)) t" "chunk = fst (t_recv (e_recv (es 3)) t)"
    and "alone (rss_turn cfg) es s = (Inr b, s')"
  shows "if chunk = [] then handled cfg [] s s' \<and> g_buffer s' = g_buffer s
    else handled cfg (fst (split_rss (g_buffer s @ chunk))) s s' \<and>
      g_buffer s' = snd (split_rss (g_buffer s @ chunk))"
proof -
  obtain t' where t': "t_recv (e_recv (es 3)) t = (chunk, t')" using assms(3) by (metis prod.collapse)
  let ?u = "s\<lparr>g_reconnect_delay := 1, g_controller := Some t', g_buffer := g_buffer s @ chunk\<rparr>"
  note turn = rss_turn_eq[OF assms(1,2) t', of cfg]
  show ?thesis
  proof (cases "chunk = []")
    case True
    have "handled cfg [] s (s\<lparr>g_reconnect_delay := 1, g_controller := Some t', g_buffer := g_buffer s\<rparr>)"
      by (blast intro: handled.intros)
    with True turn assms(4) show ?thesis by simp
  next
    case False
    obtain ms rest where sp: "split_rss (g_buffer s @ chunk) = (ms, rest)" by fastforce
    from turn False assms(4) obtain es' where "alone (bind (seq (map (dispatch_rss_message cfg) ms))
        (\<lambda>_. modify (\<lambda>s. s\<lparr>g_buffer := rest\<rparr>))) es' ?u = (Inr b, s')"
      by (auto simp: process_rss_buffer_def sp andThen_def)
    from alone_bindD[OF this] obtain b1 es1 s1 where s1: "alone (seq (map (dispatch_rss_message cfg) ms)) es' ?u = (Inr b1, s1)"
      "alone (modify (\<lambda>s. s\<lparr>g_buffer := rest\<rparr>) :: gprog) es1 s1 = (Inr b, s')" by blast
    then have s': "s' = s1\<lparr>g_reconnect_delay := g_reconnect_delay s1, g_controller := g_controller s1, g_buffer := rest\<rparr>"
      by (simp add: modify_def)
    have "handled cfg [] s1 s'" unfolding s' by (blast intro: handled.intros)
    with seq_handled[OF s1(1)] have "handled cfg (ms @ []) ?u s'" by (rule handled_append)
    then have "handled cfg ms s s'" by (auto intro: handled.own_fields)
    with False sp s' show ?thesis by simp
  qed
qed

lemma turns_handled:
  "turns cfg s chunks s' \<Longrightarrow> fst (split_rss (g_buffer s)) = [] \<Longrightarrow>
   handled cfg (fst (split_rss (g_buffer s @ concat chunks))) s s'"
proof (induction rule: turns.induct)
  case (next_turn s t es chunk b s1 chunks s2)
  obtain u where u: "alone (rss_turn cfg) (\<lambda>n. es (Suc n)) s = (Inr b, u)"
    using next_turn.hyps(6) by (metis prod.collapse)
  with listener_turn[where es = es, OF next_turn.hyps(1,2) u] next_turn.hyps(7)
  have run: "alone (rss_turn cfg) (\<lambda>n. es (Suc n)) s = (Inr b, s1)" by simp
  have four: "es (Suc 3) = es 4" "es (Suc 0) = es 1" by simp_all
  note turn = turn_handled[where es = "\<lambda>n. es (Suc n)", unfolded four, OF next_turn.hyps(3-5) run]
  show ?case
  proof (cases "chunk = []")
    case True
    with turn next_turn.IH[unfolded True] next_turn.prems handled_append[of cfg "[]" s s1] show ?thesis by simp
  next
    case False
    have "fst (split_rss (snd (split_rss x))) = []" for x
      using split_rss_append[of x "[]"] by simp
    with turn False next_turn.IH have
      "handled cfg (fst (split_rss (snd (split_rss (g_buffer s @ chunk)) @ concat chunks))) s1 s2" by simp
    from handled_append[OF _ this, of "fst (split_rss (g_buffer s @ chunk))" s] turn False show ?thesis
      using split_rss_append[of "g_buffer s @ chunk" "concat chunks"] by simp
  qed
qed (simp add: handled.none_left)

text \<open>The handlers, the setup and connecting leave the buffer alone.\<close>

primrec keeping :: "('s \<Rightarrow> 'b) \<Rightarrow> ('e, 's) prog \<Rightarrow> bool" where
  "keeping f (Ret b) = True"
| "keeping f (Raise x) = True"
| "keeping f (Do g) = (\<forall>e s. case map_prod (keeping f) id (g e s) of (k, s') \<Rightarrow> f s' = f s \<and> k)"
| "keeping f (Await g) = (\<forall>e s. case map_prod (keeping f) id (g e s) of (k, s') \<Rightarrow> f s' = f s \<and> k)"

lemma keeping_Do:
  "(\<And>e s. f (snd (g e s)) = f s \<and> keeping f (fst (g e s))) \<Longrightarrow> keeping f (Do g)"
  "(\<And>e s. f (snd (g e s)) = f s \<and> keeping f (fst (g e s))) \<Longrightarrow> keeping f (Await g)"
  by (auto simp: case_prod_beta)

lemma keeping_bind: "keeping f p \<Longrightarrow> (\<And>b. keeping f (k b)) \<Longrightarrow> keeping f (bind p k)"
proof (induction p rule: prog_induct)
  case (Do g)
  have "keeping f (bind (fst (g e s)) k)" for e s
    using Do(1)[of e s "fst (g e s)" "snd (g e s)"] Do(2,3) by (auto simp: case_prod_beta)
  with Do(2) show ?case by (auto simp: case_prod_beta)
next
  case (Await g)
  have "keeping f (bind (fst (g e s)) k)" for e s
    using Await(1)[of e s "fst (g e s)" "snd (g e s)"] Await(2,3) by (auto simp: case_prod_beta)
  with Await(2) show ?case by (auto simp: case_prod_beta)
qed simp_all

lemma keeping_catch: "keeping f p \<Longrightarrow> (\<And>x. keeping f (h x)) \<Longrightarrow> keeping f (catch p h)"
proof (induction p rule: prog_induct)
  case (Do g)
  have "keeping f (catch (fst (g e s)) h)" for e s
    using Do(1)[of e s "fst (g e s)" "snd (g e s)"] Do(2,3) by (auto simp: case_prod_beta)
  with Do(2) show ?case by (auto simp: case_prod_beta)
next
  case (Await g)
  have "keeping f (catch (fst (g e s)) h)" for e s
    using Await(1)[of e s "fst (g e s)" "snd (g e s)"] Await(2,3) by (auto simp: case_prod_beta)
  with Await(2) show ?case by (auto simp: case_prod_beta)
qed simp_all

lemma keeping_andThen: "keeping f p \<Longrightarrow> keeping f q \<Longrightarrow> keeping f (andThen p q)"
  unfolding andThen_def by (rule keeping_bind)

lemma keeping_seq: "list_all (keeping f) ps \<Longrightarrow> keeping f (seq ps)"
  by (induction ps rule: seq.induct) (auto simp: seq.simps intro: keeping_andThen)

lemma keeping_look:
  "(\<And>s. keeping f (k s)) \<Longrightarrow> keeping f (look k)" "(\<And>e s. keeping f (k' e s)) \<Longrightarrow> keeping f (look_env k')"
  "(\<And>a. keeping f (k'' a)) \<Longrightarrow> keeping f (try_value v k'')" "(\<And>s. f (h s) = f s) \<Longrightarrow> keeping f (modify h)"
  "keeping f sleep"
  by (auto simp: look_def look_env_def try_value_def modify_def sleep_def split: sum.split)

lemma alone_keeping: "keeping f p \<Longrightarrow> f (snd (alone p es s)) = f s"
proof (induction p arbitrary: es s rule: prog_induct)
  case (Do g)
  obtain q s1 where g: "g (es 0) s = (q, s1)" by fastforce
  from Do(2) have "keeping f q \<and> f s1 = f s" by (auto simp: g dest!: spec[of _ "es 0"] spec[of _ s])
  with Do(1)[OF g, of "\<lambda>n. es (Suc n)" s1] g show ?case by simp
next
  case (Await g)
  obtain q s1 where g: "g (es 0) s = (q, s1)" by fastforce
  from Await(2) have "keeping f q \<and> f s1 = f s" by (auto simp: g dest!: spec[of _ "es 0"] spec[of _ s])
  with Await(1)[OF g, of "\<lambda>n. es (Suc n)" s1] g show ?case by simp
qed simp_all

declare keeping.simps(3,4) [simp del]

lemma keeping_base:
  "keeping g_buffer (send_controller_command c)" "keeping g_buffer (publish_event ty extra :: gprog)"
  "keeping g_buffer (transition st kw :: gprog)" "keeping g_buffer (connect_controller cfg)"
  "keeping g_buffer disconnect_controller" "keeping g_buffer setup_rss"
proof -
  show "keeping g_buffer (send_controller_command c)" "keeping g_buffer (connect_controller cfg)"
    "keeping g_buffer setup_rss"
    unfolding send_controller_command_def connect_controller_def setup_rss_def Let_def
    by (rule keeping_Do; simp split: option.split sum.split prod.split)+
  show "keeping g_buffer disconnect_controller"
    unfolding disconnect_controller_def by (rule keeping_look) simp
  show "keeping g_buffer (publish_event ty extra :: gprog)"
    unfolding publish_event_def Let_def
    by (rule keeping_look, simp, intro impI keeping_Do conjI) (auto intro!: keeping_Do split: option.split)
  have "keeping g_buffer (persist_state :: gprog)"
    unfolding persist_state_def by (rule keeping_look, simp, intro impI keeping_Do) simp_all
  then show "keeping g_buffer (transition st kw :: gprog)"
    unfolding transition_def by (intro keeping_andThen keeping_look) simp_all
qed

lemma keeping_outputs:
  "keeping g_buffer (relay_close cfg)" "keeping g_buffer (display cfg a b)"
  "keeping g_buffer (cmd_play_audio cfg t)" "keeping g_buffer (configured_audio cfg key d)"
  by (auto simp: relay_close_def display_def cmd_play_audio_def configured_audio_def
      intro!: keeping_look keeping_base)

lemma keeping_handlers:
  "keeping g_buffer (on_vehicle_detected cfg)" "keeping g_buffer (on_vehicle_backed_up cfg)"
  "keeping g_buffer (on_reset cfg)" "keeping g_buffer (on_help_button cfg)"
  "keeping g_buffer on_ticket_button_pressed" "keeping g_buffer (on_rfid_card_read n ch)"
  "keeping g_buffer (on_vehicle_passed cfg)"
  unfolding on_vehicle_detected_def on_vehicle_backed_up_def on_reset_def on_help_button_def
    on_ticket_button_pressed_def on_rfid_card_read_def on_vehicle_passed_def
  by (rule keeping_seq; simp add: keeping_base keeping_outputs keeping_look)+

lemma keeping_ack: "(\<And>s. keeping g_buffer (k s)) \<Longrightarrow> keeping g_buffer (ack_then sig k)"
  unfolding ack_then_def by (intro keeping_andThen keeping_look keeping_base)

lemma keeping_if: "keeping f p \<Longrightarrow> keeping f q \<Longrightarrow> keeping f (if b then p else q)"
  by simp

lemma keeping_dispatch: "keeping g_buffer (dispatch_rss_message cfg msg)"
  unfolding dispatch_rss_message_def Let_def
  by (intro keeping_if keeping_ack keeping_andThen keeping_look(4) keeping_handlers keeping.simps(1)[THEN iffD2]) simp_all

text \<open>A turn that finds the link down, and a turn with a handler that raises.\<close>

lemma turn_link_down:
  assumes "g_listening s" "d_running s" "\<not> controller_ok (es 1) s"
  shows "g_buffer (snd (alone (rss_listener cfg) es s)) = []"
proof -
  let ?rest = "seq [disconnect_controller, connect_controller cfg, look_env (\<lambda>e s.
    if controller_ok e s
    then seq [setup_rss, modify (\<lambda>s. s\<lparr>g_cb_fail_count := 0, g_cb_open_until := 0, g_reconnect_delay := 1\<rparr>)]
    else seq [sleep, modify (\<lambda>s. s\<lparr>g_reconnect_delay := next_reconnect_delay (g_reconnect_delay s)\<rparr>)])]"
  have "keeping g_buffer ?rest"
    by (rule keeping_seq) (auto intro!: keeping_seq keeping_look simp: keeping_base)
  then have "keeping g_buffer (catch (andThen ?rest (Ret True)) (\<lambda>_. andThen sleep (Ret True)))"
    by (intro keeping_catch keeping_andThen keeping_look) simp_all
  from alone_keeping[OF this, of "\<lambda>n. es (Suc (Suc (Suc n)))" "s\<lparr>g_buffer := []\<rparr>"] assms show ?thesis
    unfolding rss_listener_def rss_turn_def seq.simps(3)[of "modify (\<lambda>s :: gate_in. s\<lparr>g_buffer := []\<rparr>)"]
    by (simp add: look_def look_env_def modify_def andThen_def)
qed

lemma alone_catch_raise:
  "alone p es s = (Inl x, s1) \<Longrightarrow> \<exists>es'. alone (catch p h) es s = alone (h x) es' s1"
proof (induction p arbitrary: es s rule: prog_induct)
  case (Do f)
  obtain q s2 where f: "f (es 0) s = (q, s2)" by fastforce
  from Do(2) have "alone q (\<lambda>n. es (Suc n)) s2 = (Inl x, s1)" by (simp add: f)
  from Do(1)[OF f this] show ?case by (simp add: f)
next
  case (Await f)
  obtain q s2 where f: "f (es 0) s = (q, s2)" by fastforce
  from Await(2) have "alone q (\<lambda>n. es (Suc n)) s2 = (Inl x, s1)" by (simp add: f)
  from Await(1)[OF f this] show ?case by (simp add: f)
qed auto

lemma alone_bind_raise:
  assumes "\<And>b es s. \<exists>b' s'. alone (k b) es s = (Inr b', s')"
  shows "alone (bind p k) es s = (Inl x, s1) \<Longrightarrow> alone p es s = (Inl x, s1)"
proof (induction p arbitrary: es s rule: prog_induct)
  case (Ret b)
  with assms[of b es s] show ?case by auto
next
  case (Do f)
  obtain q s2 where f: "f (es 0) s = (q, s2)" by fastforce
  from Do(2) have "alone (bind q k) (\<lambda>n. es (Suc n)) s2 = (Inl x, s1)" by (simp add: f)
  from Do(1)[OF f this] show ?case by (simp add: f)
next
  case (Await f)
  obtain q s2 where f: "f (es 0) s = (q, s2)" by fastforce
  from Await(2) have "alone (bind q k) (\<lambda>n. es (Suc n)) s2 = (Inl x, s1)" by (simp add: f)
  from Await(1)[OF f this] show ?case by (simp add: f)
qed simp

lemma alone_then_raise: "alone p es s = (Inl x, s') \<Longrightarrow> alone (andThen p q) es s = (Inl x, s')"
proof (induction p arbitrary: es s rule: prog_induct)
  case (Do f)
  obtain q s1 where f: "f (es 0) s = (q, s1)" by fastforce
  from Do(2) have "alone q (\<lambda>n. es (Suc n)) s1 = (Inl x, s')" by (simp add: f)
  from Do(1)[OF f this] show ?case by (simp add: f andThen_def)
next
  case (Await f)
  obtain q s1 where f: "f (es 0) s = (q, s1)" by fastforce
  from Await(2) have "alone q (\<lambda>n. es (Suc n)) s1 = (Inl x, s')" by (simp add: f)
  from Await(1)[OF f this] show ?case by (simp add: f andThen_def)
qed (auto simp: andThen_def)

lemma turn_raised:
  assumes "g_listening s" "d_running s" "g_controller s = Some t" "t_is_connected (e_peer (es 1)) t"
    and "fst (alone (rss_turn cfg) (\<lambda>n. es (Suc n)) s) = Inl x"
  shows "g_buffer (snd (alone (rss_listener cfg) es s)) = g_buffer s @ fst (t_recv (e_recv (es 4)) t)"
proof -
  obtain chunk t' where t': "t_recv (e_recv (es 4)) t = (chunk, t')" by fastforce
  obtain s1 where s1: "alone (rss_turn cfg) (\<lambda>n. es (Suc n)) s = (Inl x, s1)"
    using assms(5) by (metis prod.collapse)
  let ?u = "s\<lparr>g_reconnect_delay := 1, g_controller := Some t', g_buffer := g_buffer s @ chunk\<rparr>"
  obtain ms rest where sp: "split_rss (g_buffer s @ chunk) = (ms, rest)" by fastforce
  have "\<exists>es'. alone (bind (seq (map (dispatch_rss_message cfg) ms)) (\<lambda>_. modify (\<lambda>s. s\<lparr>g_buffer := rest\<rparr>))) es' ?u =
      (Inl x, s1)"
    using rss_turn_eq[of s t "\<lambda>n. es (Suc n)" chunk t' cfg] assms(3,4) t' s1
    by (auto simp: process_rss_buffer_def sp andThen_def split: if_splits)
  then obtain es' where es': "alone (bind (seq (map (dispatch_rss_message cfg) ms))
      (\<lambda>_. modify (\<lambda>s. s\<lparr>g_buffer := rest\<rparr>))) es' ?u = (Inl x, s1)" by blast
  have "alone (seq (map (dispatch_rss_message cfg) ms)) es' ?u = (Inl x, s1)"
    by (rule alone_bind_raise[OF _ es']) (auto simp: modify_def)
  moreover have "keeping g_buffer (seq (map (dispatch_rss_message cfg) ms))"
    by (rule keeping_seq) (simp add: list_all_iff keeping_dispatch)
  ultimately have "g_buffer s1 = g_buffer s @ chunk"
    using alone_keeping[of g_buffer "seq (map (dispatch_rss_message cfg) ms)" es' ?u] by simp
  moreover have "alone (andThen sleep (Ret True) :: gprog) es' s1 = (Inr True, s1)" for es'
    by (simp add: sleep_def andThen_def)
  then have "alone (rss_listener cfg) es s = (Inr True, s1)"
    using alone_catch_raise[OF alone_then_raise[OF s1, of "Ret True"], of "\<lambda>_. andThen sleep (Ret True)"] assms(1,2)
    by (simp add: rss_listener_def look_def)
  ultimately show ?thesis by (simp add: t')
qed

text \<open>
  C17. However the link cuts the pushed stream into chunks, timeouts between them included, the listener
  hands its handlers the same messages: while the link is up and no handler raises, its turns are
  exactly the handlers' runs on every frame in order, whatever noise without a start byte precedes
  it, and on nothing of a frame still incomplete. After any such turns, a turn that finds the link down
  forgets what was held of a frame, and one whose handler raises keeps the buffer whole, so that
  its frames are handed over again.
\<close>

theorem rss_stream:
  assumes "list_all (\<lambda>(noise, p). FRAME_START \<notin> set noise \<and> FRAME_END \<notin> set p) fs"
    "FRAME_END \<notin> set tail_bytes"
    "concat chunks = concat (map (\<lambda>(noise, p). noise @ build_command p) fs) @ tail_bytes"
    and "turns cfg s chunks s'" "g_buffer s = []"
  shows "handled cfg (map (\<lambda>(noise, p). build_command p) fs) s s' \<and>
    (g_listening s' \<and> d_running s' \<and> \<not> controller_ok (es 1) s' \<longrightarrow>
       g_buffer (snd (alone (rss_listener cfg) es s')) = []) \<and>
    (g_listening s' \<and> d_running s' \<and> g_controller s' = Some t \<and> t_is_connected (e_peer (es 1)) t \<and>
       fst (alone (rss_turn cfg) (\<lambda>n. es (Suc n)) s') = Inl x \<longrightarrow>
       g_buffer (snd (alone (rss_listener cfg) es s')) = g_buffer s' @ fst (t_recv (e_recv (es 4)) t))"
proof -
  have "handled cfg (fst (split_rss (g_buffer s @ concat chunks))) s s'"
    by (rule turns_handled[OF assms(4)]) (simp add: assms(5) split_rss_short)
  then have "handled cfg (map (\<lambda>(noise, p). build_command p) fs) s s'"
    by (simp add: assms(3,5) split_stream[OF assms(1,2)])
  with turn_link_down[of s' es cfg] turn_raised[of s' t es cfg x] show ?thesis by simp
qed

text \<open>Two turns: an acknowledgement and half a frame, then the rest of it.\<close>

definition example_recv :: "bytes \<Rightarrow> env" where
  "example_recv bs = example_env\<lparr>e_recv := RecvData bs\<rparr>"

lemma example_ack: "ends_with ''OK'' (rstrip_char END_CHAR (latin1_decode m)) \<Longrightarrow> dispatch_rss_message cfg m = Ret True"
  by (simp add: dispatch_rss_message_def)

lemma example_turns:
  assumes "g_listening s" "d_running s" "g_controller s = Some (TCompass Connected)" "chunk \<noteq> []"
    and "split_rss (g_buffer s @ chunk) = ([m], rest)" "dispatch_rss_message cfg m = Ret True"
    and "turns cfg (s\<lparr>g_reconnect_delay := 1, g_controller := Some (TCompass Connected), g_buffer := rest\<rparr>) chunks s'"
  shows "turns cfg s (chunk # chunks) s'"
proof -
  have ok: "t_is_connected (e_peer (example_recv chunk)) (TCompass Connected)"
    "t_recv (e_recv (example_recv chunk)) (TCompass Connected) = (chunk, TCompass Connected)"
    using assms(4) by (simp_all add: example_recv_def example_env_def compass_is_connected_def compass_recv_async_def)
  have "alone (process_rss_buffer cfg (g_buffer s @ chunk)) es u = (Inr True, u\<lparr>g_buffer := rest\<rparr>)" for es u
    by (simp add: process_rss_buffer_def assms(5,6) seq.simps andThen_def modify_def)
  with rss_turn_eq[of s _ "\<lambda>_. example_recv chunk", OF assms(3) ok, of cfg] assms(4)
  have run: "alone (rss_turn cfg) (\<lambda>_. example_recv chunk) s =
      (Inr True, s\<lparr>g_reconnect_delay := 1, g_controller := Some (TCompass Connected), g_buffer := rest\<rparr>)"
    by simp
  note turn = listener_turn[OF assms(1,2), of cfg "\<lambda>_. example_recv chunk", OF run]
  show ?thesis
    by (rule turns.next_turn[OF assms(1-3), of "\<lambda>_. example_recv chunk", OF ok(1) _ _ turn assms(7)])
      (simp_all only: ok run fst_conv)
qed

theorem rss_stream_witness:
  "\<exists>s'. handled example_config [build_command [79, 75], build_command [65, 79, 75]]
     ((linked (init_gate ''g''))\<lparr>g_listening := True, d_running := True\<rparr>) s'"
proof -
  let ?s = "(linked (init_gate ''g''))\<lparr>g_listening := True, d_running := True\<rparr>"
  let ?s1 = "?s\<lparr>g_reconnect_delay := 1, g_controller := Some (TCompass Connected), g_buffer := [0xA6]\<rparr>"
  let ?s2 = "?s1\<lparr>g_reconnect_delay := 1, g_controller := Some (TCompass Connected), g_buffer := [7]\<rparr>"
  let ?fs = "[([1], [79, 75]), ([], [65, 79, 75])]"
  have split: "split_rss [1, 0xA6, 79, 75, 0xA9, 0xA6] = ([[0xA6, 79, 75, 0xA9]], [0xA6])"
    "split_rss [0xA6, 65, 79, 75, 0xA9, 7] = ([[0xA6, 65, 79, 75, 0xA9]], [7])"
    by (simp_all add: split_rss.simps next_frame_def)
  have "dispatch_rss_message example_config [0xA6, 79, 75, 0xA9] = Ret True"
    "dispatch_rss_message example_config [0xA6, 65, 79, 75, 0xA9] = Ret True"
    by (rule example_ack, code_simp)+
  then have "turns example_config ?s [[1, 0xA6, 79, 75, 0xA9, 0xA6], [65, 79, 75, 0xA9, 7]] ?s2"
    by (intro example_turns[where m = "[0xA6, 79, 75, 0xA9]" and rest = "[0xA6]"]
        example_turns[where m = "[0xA6, 65, 79, 75, 0xA9]" and rest = "[7]"] turns.no_turn)
      (simp_all add: linked_def init_gate_def split)
  from rss_stream[OF _ _ _ this, of ?fs "[7]"] show ?thesis
    by (intro exI[of _ ?s2]) (simp add: build_command_def linked_def init_gate_def)
qed

end
