(* ===== verification/Event_Consumer.thy ===== *)
theory Event_Consumer
  imports Payment_Routes Gate_In
begin

text \<open>
  The API's side of the gate protocol: the commands it sends a daemon
  (\<open>shared/events.py\<close>, \<open>api/app/services/gate_command.py\<close>) and the consumer of the daemons' events
  (\<open>api/app/services/event_consumer.py\<close>).

  Each handler opens a session of its own: what it did not commit is rolled back when the session
  closes, and every exception ends in a log line. Outside the model, as arguments: \<open>uuid4\<close>, the
  clocks, whether each \<open>XADD\<close> succeeds, the text of a command's default timestamp, and what the
  rest of the system does to the store while a handler sleeps.
\<close>

section \<open>Commands\<close>

text \<open>
  The first argument is \<open>gate_id\<close>. Nothing ever sets \<open>display_seconds\<close>, so it is its default.
\<close>

datatype gate_command =
    OpenGateCommand string "int option" string
  | CloseGateCommand string string
  | PlayAudioCommand string int
  | DisplayTextCommand string string string int string
  | PrintTicketThenOpenCommand string string string
  | ResetGateCommand string string
  | RejectCardCommand string string string int

fun command_gate :: "gate_command \<Rightarrow> string" where
  "command_gate (OpenGateCommand g _ _) = g"
| "command_gate (CloseGateCommand g _) = g"
| "command_gate (PlayAudioCommand g _) = g"
| "command_gate (DisplayTextCommand g _ _ _ _) = g"
| "command_gate (PrintTicketThenOpenCommand g _ _) = g"
| "command_gate (ResetGateCommand g _) = g"
| "command_gate (RejectCardCommand g _ _ _) = g"

fun command_type :: "gate_command \<Rightarrow> string" where
  "command_type (OpenGateCommand _ _ _) = ''open_gate''"
| "command_type (CloseGateCommand _ _) = ''close_gate''"
| "command_type (PlayAudioCommand _ _) = ''play_audio''"
| "command_type (DisplayTextCommand _ _ _ _ _) = ''display_text''"
| "command_type (PrintTicketThenOpenCommand _ _ _) = ''print_ticket_then_open''"
| "command_type (ResetGateCommand _ _) = ''reset_gate''"
| "command_type (RejectCardCommand _ _ _ _) = ''reject_card''"

text \<open>\<open>model_dump(mode="json")\<close>: the base fields, then those of the class.\<close>

fun command_body :: "gate_command \<Rightarrow> (string \<times> json) list" where
  "command_body (OpenGateCommand _ d r) =
     [(''duration_seconds'', case d of None \<Rightarrow> JNull | Some i \<Rightarrow> JInt i), (''reason'', JStr r)]"
| "command_body (CloseGateCommand _ r) = [(''reason'', JStr r)]"
| "command_body (PlayAudioCommand _ t) = [(''track'', JInt t)]"
| "command_body (DisplayTextCommand _ l1 l2 b m) =
     [(''line1'', JStr l1), (''line2'', JStr l2), (''brightness'', JInt b), (''mode'', JStr m)]"
| "command_body (PrintTicketThenOpenCommand _ b n) = [(''barcode'', JStr b), (''gate_name'', JStr n)]"
| "command_body (ResetGateCommand _ r) = [(''reason'', JStr r)]"
| "command_body (RejectCardCommand _ l1 l2 t) =
     [(''line1'', JStr l1), (''line2'', JStr l2), (''audio_track'', JInt t),
      (''display_seconds'', JStr ''3.0'')]"

definition model_dump :: "string \<Rightarrow> gate_command \<Rightarrow> (string \<times> json) list" where
  "model_dump stamp c =
     [(''command_type'', JStr (command_type c)), (''gate_id'', JStr (command_gate c)),
      (''timestamp'', JStr stamp)] @ command_body c"

text \<open>The hash fields: \<open>None\<close> is left out, the rest is \<open>str(value)\<close>; no command has a dict.\<close>

definition command_fields :: "string \<Rightarrow> gate_command \<Rightarrow> (string \<times> string) list" where
  "command_fields stamp c =
     map (\<lambda>(k, v). (k, py_str v)) (filter (\<lambda>(k, v). v \<noteq> JNull) (model_dump stamp c))"

record site =
  sv_db :: store
  sv_streams :: "(string \<times> (string \<times> string) list) list"

record outside =
  o_uuid :: string
  o_today :: int
  o_now :: time
  o_shift :: time
  o_xadd :: "gate_command \<Rightarrow> bool"
  o_stamp :: "gate_command \<Rightarrow> string"
  o_pause :: "store \<Rightarrow> store"

type_synonym handler = "site \<Rightarrow> (py_exc + unit) \<times> site"

definition publish_command :: "outside \<Rightarrow> gate_command \<Rightarrow> handler" where
  "publish_command out c w =
     (if o_xadd out c
      then (Inr (), w\<lparr>sv_streams := sv_streams w @
              [(''parking.commands.'' @ command_gate c, command_fields (o_stamp out c) c)]\<rparr>)
      else (Inl RedisError, w))"

fun publish_all :: "outside \<Rightarrow> gate_command list \<Rightarrow> handler" where
  "publish_all out [] w = (Inr (), w)"
| "publish_all out (c # cs) w =
     (case publish_command out c w of (Inl e, w) \<Rightarrow> (Inl e, w) | (Inr _, w) \<Rightarrow> publish_all out cs w)"

section \<open>Handlers\<close>

text \<open>
  A value of the payload as the parameter of a query: text, \<open>NULL\<close>, or refused by the driver. The
  text of a datetime names no gate and no cno.
\<close>

fun text_param :: "json \<Rightarrow> py_exc + string option" where
  "text_param (JStr s) = Inr (Some s)"
| "text_param JNull = Inr None"
| "text_param (JIso t) = Inr None"
| "text_param _ = Inl TypeError"

definition payload_get :: "(string \<times> json) list \<Rightarrow> string \<Rightarrow> json" where
  "payload_get payload k = (case map_of payload k of None \<Rightarrow> JStr [] | Some v \<Rightarrow> v)"

definition lookup_gate :: "store \<Rightarrow> json \<Rightarrow> py_exc + (string \<times> gate) option" where
  "lookup_gate s gcode =
     (case text_param gcode of
        Inl e \<Rightarrow> Inl e
      | Inr None \<Rightarrow> Inr None
      | Inr (Some code) \<Rightarrow>
        (case find_gate s code of Inl e \<Rightarrow> Inl e | Inr None \<Rightarrow> Inr None
         | Inr (Some g) \<Rightarrow> Inr (Some (code, g))))"

definition ticket_entry :: "outside \<Rightarrow> json \<Rightarrow> handler" where
  "ticket_entry out gcode w =
     (case lookup_gate (sv_db w) gcode of
        Inl e \<Rightarrow> (Inl e, w)
      | Inr None \<Rightarrow> (Inr (), w)
      | Inr (Some (code, g)) \<Rightarrow>
        let barcode = upper (take 12 (o_uuid out))
        in case create_entry_transaction (Some barcode) None None None (Some (gate_id g)) ''CASH''
                  None (o_now out) (sv_db w) of
             (Inl e, s) \<Rightarrow> (Inl e, w\<lparr>sv_db := rollback (sv_db w) s\<rparr>)
           | (Inr t, s) \<Rightarrow>
             publish_command out (PrintTicketThenOpenCommand code barcode (gate_name g))
               (w\<lparr>sv_db := s\<rparr>))"

definition handle_ticket_button_pressed :: "outside \<Rightarrow> (string \<times> json) list \<Rightarrow> site \<Rightarrow> site" where
  "handle_ticket_button_pressed out payload w =
     snd (ticket_entry out (payload_get payload ''gate_id'') w)"

text \<open>An exit by card. A \<open>ValueError\<close> is shown at the gate.\<close>

definition exit_refusal :: "string \<Rightarrow> string \<Rightarrow> gate_command list" where
  "exit_refusal code msg =
     [if contains ''No active transaction'' msg
      then DisplayTextCommand code ''Tidak Ada'' ''Transaksi Aktif'' 100 ''normal''
      else DisplayTextCommand code ''Kartu Tidak'' ''Valid'' 100 ''normal'',
      PlayAudioCommand code 3]"

definition card_exit :: "outside \<Rightarrow> string \<Rightarrow> gate \<Rightarrow> string option \<Rightarrow> handler" where
  "card_exit out code g cno w =
     (case (case cno of
              None \<Rightarrow> (Inl (ValueError ''Invalid or inactive member card''), sv_db w)
            | Some c \<Rightarrow> process_rfid_payment code (gate_id g) c None (o_shift out) (o_now out) (sv_db w)) of
        (Inr _, s) \<Rightarrow> (Inr (), w\<lparr>sv_db := s\<rparr>)
      | (Inl (ValueError msg), s) \<Rightarrow>
        publish_all out (exit_refusal code msg) (w\<lparr>sv_db := rollback (sv_db w) s\<rparr>)
      | (Inl e, s) \<Rightarrow> (Inl e, w\<lparr>sv_db := rollback (sv_db w) s\<rparr>))"

text \<open>The checks of an entry by card: the command that refuses it, or the member.\<close>

definition member_check ::
  "int \<Rightarrow> string \<Rightarrow> string option \<Rightarrow> store \<Rightarrow> py_exc + gate_command + member" where
  "member_check today code cno s =
     (case scalar_one_or_none (filter (\<lambda>m. Some (mem_card_number m) = cno) (members s)) of
        Inl e \<Rightarrow> Inl e
      | Inr None \<Rightarrow> Inr (Inl (RejectCardCommand code ''Kartu Tidak'' ''Terdaftar'' 3))
      | Inr (Some m) \<Rightarrow>
        if \<not> mem_is_active m then Inr (Inl (RejectCardCommand code ''Kartu Tidak'' ''Aktif'' 4))
        else if (case mem_valid_until m of None \<Rightarrow> False | Some d \<Rightarrow> d < today)
        then Inr (Inl (RejectCardCommand code ''Kartu Expired'' '''' 3))
        else
          case scalar_one_or_none
                 (filter (\<lambda>t. tx_card_number t = cno \<and> is_active_tx t) (txs s)) of
            Inl e \<Rightarrow> Inl e
          | Inr (Some t) \<Rightarrow> Inr (Inl (RejectCardCommand code ''Transaksi'' ''Belum Selesai'' 11))
          | Inr None \<Rightarrow> Inr (Inr m))"

definition expiry_warning :: "int \<Rightarrow> string \<Rightarrow> member \<Rightarrow> gate_command list" where
  "expiry_warning today code m =
     (case mem_valid_until m of
        None \<Rightarrow> []
      | Some d \<Rightarrow>
        if d - today = 1
        then [DisplayTextCommand code ''Kartu Habis'' ''Dalam 1 Hari'' 100 ''normal'',
              PlayAudioCommand code 12]
        else if d - today = 5
        then [DisplayTextCommand code ''Kartu Habis'' ''Dalam 5 Hari'' 100 ''normal'',
              PlayAudioCommand code 11]
        else [])"

text \<open>Insert, commit, open.\<close>

definition card_admit :: "outside \<Rightarrow> string \<Rightarrow> gate \<Rightarrow> string option \<Rightarrow> member \<Rightarrow> handler" where
  "card_admit out code g cno m w =
     (case create_entry_transaction None cno (mem_plate_number m) (mem_vehicle_type_id m)
             (Some (gate_id g)) ''RFID_MEMBER'' (Some (mem_id m)) (o_now out) (sv_db w) of
        (Inl e, s) \<Rightarrow> (Inl e, w\<lparr>sv_db := rollback (sv_db w) s\<rparr>)
      | (Inr t, s) \<Rightarrow>
        publish_command out (OpenGateCommand code None ''operator'') (w\<lparr>sv_db := s\<rparr>))"

text \<open>The handler sleeps only after a warning.\<close>

definition card_entry :: "outside \<Rightarrow> string \<Rightarrow> gate \<Rightarrow> string option \<Rightarrow> handler" where
  "card_entry out code g cno w =
     (case member_check (o_today out) code cno (sv_db w) of
        Inl e \<Rightarrow> (Inl e, w)
      | Inr (Inl refusal) \<Rightarrow> publish_command out refusal w
      | Inr (Inr m) \<Rightarrow>
        let warning = expiry_warning (o_today out) code m
        in case publish_all out warning w of
             (Inl e, w) \<Rightarrow> (Inl e, w)
           | (Inr _, w) \<Rightarrow>
             card_admit out code g cno m
               (if warning = [] then w else w\<lparr>sv_db := o_pause out (sv_db w)\<rparr>))"

definition card_read :: "outside \<Rightarrow> json \<Rightarrow> json \<Rightarrow> handler" where
  "card_read out gcode card_number w =
     (case lookup_gate (sv_db w) gcode of
        Inl e \<Rightarrow> (Inl e, w)
      | Inr None \<Rightarrow> (Inr (), w)
      | Inr (Some (code, g)) \<Rightarrow>
        (case text_param card_number of
           Inl e \<Rightarrow> (Inl e, w)
         | Inr cno \<Rightarrow>
           if gate_direction g = ''OUT'' then card_exit out code g cno w
           else card_entry out code g cno w))"

definition handle_rfid_card_read :: "outside \<Rightarrow> (string \<times> json) list \<Rightarrow> site \<Rightarrow> site" where
  "handle_rfid_card_read out payload w =
     snd (card_read out (payload_get payload ''gate_id'') (payload_get payload ''card_number'') w)"

section \<open>The consumer\<close>

text \<open>
  A message's data is what \<open>json.loads\<close> gives, \<open>None\<close> for a \<open>JSONDecodeError\<close>. The other two
  events are only logged. What is not an object has no \<open>get\<close>.
\<close>

definition handle_message :: "outside \<Rightarrow> json option \<Rightarrow> handler" where
  "handle_message out data w =
     (case data of
        None \<Rightarrow> (Inr (), w)
      | Some (JObj payload) \<Rightarrow>
        (let ty = map_of payload ''event_type''
         in if ty = Some (JStr ''ticket_button_pressed'')
            then (Inr (), handle_ticket_button_pressed out payload w)
            else if ty = Some (JStr ''rfid_card_read'')
            then (Inr (), handle_rfid_card_read out payload w)
            else (Inr (), w))
      | Some _ \<Rightarrow> (Inl AttributeError, w))"

record consumer =
  ec_running :: bool
  ec_listening :: bool
  ec_site :: site

datatype consumer_op = Start | Stop | Message outside bool "json option"

text \<open>
  \<open>start\<close>, \<open>stop\<close> and one message of the loop, a published one (\<open>True\<close>) or one of Redis's own. An
  exception ends the loop, and nothing else changes.
\<close>

fun consumer_step :: "consumer_op \<Rightarrow> consumer \<Rightarrow> consumer" where
  "consumer_step Start c =
     (if ec_running c then c else c\<lparr>ec_running := True, ec_listening := True\<rparr>)"
| "consumer_step Stop c = c\<lparr>ec_running := False, ec_listening := False\<rparr>"
| "consumer_step (Message out pmessage data) c =
     (if \<not> ec_listening c then c
      else if \<not> ec_running c then c\<lparr>ec_listening := False\<rparr>
      else if \<not> pmessage then c
      else case handle_message out data (ec_site c) of
             (Inl e, w) \<Rightarrow> c\<lparr>ec_site := w, ec_listening := False\<rparr>
           | (Inr _, w) \<Rightarrow> c\<lparr>ec_site := w\<rparr>)"

section \<open>The two ends of the wire\<close>

lemma int_of_str_of_int [simp]: "int_of_str (str_of_int i) = Inr i"
proof (cases "i < 0")
  case False
  then show ?thesis
    using py_int_digits[of "str_of_nat (nat i)"] by (simp add: int_of_str_def str_of_int_def str_of_nat_digits)
next
  case True
  let ?d = "str_of_nat (nat (- i))"
  have "list_all (\<lambda>c. \<not> is_space c) (CHR ''-'' # ?d)"
    using str_of_nat_digits[of "nat (- i)"]
    by (auto simp: list_all_iff is_digit_not_space) (simp add: is_space_def)
  from strip_noop[OF this] True digits_us_digits[of ?d] show ?thesis
    by (simp add: int_of_str_def str_of_int_def py_int_def str_of_nat_digits)
qed

lemma default_seconds [simp]: "float_ok ''3.0'' = Inr ()"
  by (simp add: float_ok_def py_float_ok_def strip_def lstrip_def rstrip_def is_space_def lower_def
      unsigned_def split_once_def is_digit_def Let_def)

text \<open>
  C13. Every command the API can send is understood by the gate daemon as the operation it names with
  the arguments it was given, whatever they are: nothing is lost or mistaken between the fields
  of the Redis stream and \<open>handle_command\<close>. The duration and the reason of an opening, the reason
  of a closing or reset, and the brightness and mode of a text have no effect.
\<close>

theorem commands_understood:
  "run_command cfg (command_fields stamp c) =
     (case c of
        OpenGateCommand g d r \<Rightarrow> cmd_open_gate cfg
      | CloseGateCommand g r \<Rightarrow> relay_close cfg
      | PlayAudioCommand g t \<Rightarrow> cmd_play_audio cfg (JInt t)
      | DisplayTextCommand g l1 l2 b m \<Rightarrow> cmd_display_text cfg l1 l2
      | PrintTicketThenOpenCommand g b n \<Rightarrow> cmd_print_ticket_then_open cfg b n
      | ResetGateCommand g r \<Rightarrow> cmd_reset_gate cfg
      | RejectCardCommand g l1 l2 t \<Rightarrow> cmd_reject_card cfg l1 l2 t)"
  by (cases c) (simp_all add: command_fields_def model_dump_def run_command_def field_def
      try_value_def Let_def split: option.split)

section \<open>What a handler sends\<close>

text \<open>A command on its stream.\<close>

definition wire :: "outside \<Rightarrow> gate_command \<Rightarrow> string \<times> (string \<times> string) list" where
  "wire out c = (''parking.commands.'' @ command_gate c, command_fields (o_stamp out c) c)"

lemma publish_command_wire:
  "publish_command out c w =
     (if o_xadd out c then (Inr (), w\<lparr>sv_streams := sv_streams w @ [wire out c]\<rparr>)
      else (Inl RedisError, w))"
  by (simp add: publish_command_def wire_def)

lemma publish_all_sent:
  "publish_all out cs w = (r, w') \<Longrightarrow>
     \<exists>ds. set ds \<subseteq> set cs \<and> w' = w\<lparr>sv_streams := sv_streams w @ map (wire out) ds\<rparr>"
proof (induction cs arbitrary: w)
  case Nil
  then show ?case by (intro exI[of _ "[]"]) simp
next
  case (Cons c cs)
  show ?case
  proof (cases "o_xadd out c")
    case False
    with Cons.prems show ?thesis by (intro exI[of _ "[]"]) (simp add: publish_command_wire)
  next
    case True
    with Cons.prems Cons.IH[of "w\<lparr>sv_streams := sv_streams w @ [wire out c]\<rparr>"]
    obtain ds where "set ds \<subseteq> set cs"
      "w' = w\<lparr>sv_streams := (sv_streams w @ [wire out c]) @ map (wire out) ds\<rparr>"
      by (auto simp: publish_command_wire)
    then show ?thesis by (intro exI[of _ "c # ds"]) auto
  qed
qed

lemma publish_all_taken:
  "\<forall>c \<in> set cs. o_xadd out c \<Longrightarrow>
     publish_all out cs w = (Inr (), w\<lparr>sv_streams := sv_streams w @ map (wire out) cs\<rparr>)"
  by (induction cs arbitrary: w) (simp_all add: publish_command_wire)

definition opens :: "gate_command \<Rightarrow> bool" where
  "opens c \<longleftrightarrow> command_type c \<in> {''open_gate'', ''print_ticket_then_open''}"

lemma exit_refusal_opens: "c \<in> set (exit_refusal code msg) \<Longrightarrow> \<not> opens c"
  by (auto simp: exit_refusal_def opens_def split: if_splits)

lemma expiry_warning_opens: "c \<in> set (expiry_warning today code m) \<Longrightarrow> \<not> opens c"
  by (auto simp: expiry_warning_def opens_def split: option.splits if_splits)

text \<open>The row an entry creates.\<close>

lemma create_entry_row:
  assumes "create_entry_transaction b c p v gin k mem now s = (Inr t, s')"
  shows "txs s' = txs s @ [t] \<and> is_active_tx t \<and> tx_barcode t = b \<and> tx_card_number t = c \<and>
    tx_member_id t = mem \<and> tx_gate_in_id t = gin \<and> tx_entry_time t = now \<and>
    tx_payment_method t = Some k \<and> tx_id t = next_tx_id s \<and>
    members s' = members s \<and> gates s' = gates s"
  using assms
  by (auto simp: create_entry_transaction_def Let_def insert_tx_Inr split: sum.splits option.splits
      if_splits prod.splits)

section \<open>Cards\<close>

text \<open>The daemon's event, as \<open>publish_event\<close> builds it.\<close>

definition card_event :: "string \<Rightarrow> time \<Rightarrow> string \<Rightarrow> string \<Rightarrow> string \<Rightarrow> json" where
  "card_event gid now c ch sid =
     JObj (mk_event ''rfid_card_read'' gid now [(''card_number'', JStr c), (''channel'', JStr ch)] @
           [(''_event_id'', JStr sid)])"

lemma handle_card_event:
  "handle_message out (Some (card_event gid now c ch sid)) w =
     (Inr (), snd (card_read out (JStr gid) (JStr c) w))"
  by (simp add: handle_message_def card_event_def mk_event_def handle_rfid_card_read_def
      payload_get_def)

lemma card_read_eq:
  assumes "find_gate (sv_db w) code = Inr (Some g)"
  shows "card_read out (JStr code) (JStr c) w =
    (if gate_direction g = ''OUT'' then card_exit out code g (Some c) w
     else card_entry out code g (Some c) w)"
  by (simp add: card_read_def lookup_gate_def assms)

lemma card_exit_opens:
  assumes "card_exit out code g cno w = (r, w')"
  shows "\<exists>cs. sv_streams w' = sv_streams w @ map (wire out) cs \<and> (\<forall>c \<in> set cs. \<not> opens c)"
proof -
  have *: "\<exists>cs. sv_streams v' = sv_streams w @ map (wire out) cs \<and> (\<forall>c \<in> set cs. \<not> opens c)"
    if "publish_all out (exit_refusal code msg) (w\<lparr>sv_db := s\<rparr>) = (r, v')" for msg s v'
    using publish_all_sent[OF that] exit_refusal_opens by fastforce
  have none: "\<exists>cs. sv_streams w = sv_streams w @ map (wire out) cs \<and> (\<forall>c \<in> set cs. \<not> opens c)"
    by (intro exI[of _ "[]"]) simp
  show ?thesis
    using assms * none
    by (simp add: card_exit_def split: prod.splits sum.splits py_exc.splits option.splits) auto
qed

lemma card_entry_opens:
  assumes "card_entry out code g cno w = (r, w')"
  shows "\<exists>cs. sv_streams w' = sv_streams w @ map (wire out) cs \<and>
    ((\<exists>c \<in> set cs. opens c) \<longrightarrow>
      (\<exists>m t s. member_check (o_today out) code cno (sv_db w) = Inr (Inr m) \<and>
         (s = sv_db w \<or> s = o_pause out (sv_db w)) \<and>
         create_entry_transaction None cno (mem_plate_number m) (mem_vehicle_type_id m)
           (Some (gate_id g)) ''RFID_MEMBER'' (Some (mem_id m)) (o_now out) s = (Inr t, sv_db w')))"
    (is "\<exists>cs. _ \<and> (_ \<longrightarrow> ?admitted)")
proof (cases "member_check (o_today out) code cno (sv_db w)")
  case (Inl e)
  with assms show ?thesis by (intro exI[of _ "[]"]) (simp add: card_entry_def)
next
  case (Inr x)
  show ?thesis
  proof (cases x)
    case (Inl refusal)
    have "\<not> opens refusal"
      using Inr Inl by (auto simp: member_check_def opens_def split: sum.splits option.splits if_splits)
    then show ?thesis
      using assms Inr Inl
      by (intro exI[of _ "if o_xadd out refusal then [refusal] else []"])
        (auto simp: card_entry_def publish_command_wire)
  next
    case (Inr m)
    note m = \<open>member_check (o_today out) code cno (sv_db w) = Inr x\<close> Inr
    let ?ws = "expiry_warning (o_today out) code m"
    obtain q v where p: "publish_all out ?ws w = (q, v)" by fastforce
    from publish_all_sent[OF p] obtain ds where ds: "set ds \<subseteq> set ?ws"
      "v = w\<lparr>sv_streams := sv_streams w @ map (wire out) ds\<rparr>" by blast
    have quiet: "\<not> (\<exists>c \<in> set ds. opens c)" using ds(1) expiry_warning_opens by blast
    show ?thesis
    proof (cases q)
      case (Inl e)
      with assms m p have "w' = v" by (simp add: card_entry_def)
      with ds(2) quiet show ?thesis by (intro exI[of _ ds]) simp
    next
      case (Inr u)
      define u where "u = (if ?ws = [] then v else v\<lparr>sv_db := o_pause out (sv_db v)\<rparr>)"
      have u: "sv_streams u = sv_streams w @ map (wire out) ds"
        "sv_db u = sv_db w \<or> sv_db u = o_pause out (sv_db w)" by (simp_all add: u_def ds(2))
      from assms m p Inr have a: "card_admit out code g cno m u = (r, w')"
        by (simp add: card_entry_def u_def)
      let ?open = "OpenGateCommand code None ''operator''"
      obtain y s' where c: "create_entry_transaction None cno (mem_plate_number m)
        (mem_vehicle_type_id m) (Some (gate_id g)) ''RFID_MEMBER'' (Some (mem_id m)) (o_now out)
        (sv_db u) = (y, s')" by fastforce
      show ?thesis
      proof (cases y)
        case (Inl e)
        with a c u quiet show ?thesis
          by (intro exI[of _ ds]) (auto simp: card_admit_def)
      next
        case (Inr t)
        with a c have "w' = (if o_xadd out ?open
            then u\<lparr>sv_db := s', sv_streams := sv_streams u @ [wire out ?open]\<rparr> else u\<lparr>sv_db := s'\<rparr>)"
          by (auto simp: card_admit_def publish_command_wire split: if_splits)
        moreover have ?admitted if "sv_db w' = s'"
          using m c Inr u(2) that by blast
        ultimately show ?thesis
          using u(1) by (intro exI[of _ "ds @ (if o_xadd out ?open then [?open] else [])"]) auto
      qed
    qed
  qed
qed

lemma member_admitted:
  assumes "member_check today code (Some c) s = Inr (Inr m)"
  shows "m \<in> set (members s) \<and> mem_card_number m = c \<and> mem_is_active m \<and>
    (\<forall>d. mem_valid_until m = Some d \<longrightarrow> today \<le> d) \<and>
    (\<forall>t \<in> set (txs s). is_active_tx t \<longrightarrow> tx_card_number t \<noteq> Some c)"
proof -
  from assms have one: "filter (\<lambda>m. Some (mem_card_number m) = Some c) (members s) = [m]"
    and none: "filter (\<lambda>t. tx_card_number t = Some c \<and> is_active_tx t) (txs s) = []"
    and valid: "mem_is_active m" "\<forall>d. mem_valid_until m = Some d \<longrightarrow> today \<le> d"
    by (auto simp: member_check_def scalar_one_or_none_Some scalar_one_or_none_None
        split: sum.splits option.splits if_splits)
  have "m \<in> set (members s) \<and> mem_card_number m = c" using arg_cong[OF one, of set] by auto
  moreover have "\<forall>t \<in> set (txs s). is_active_tx t \<longrightarrow> tx_card_number t \<noteq> Some c"
    using none by (auto simp: filter_empty_conv)
  ultimately show ?thesis using valid by simp
qed

text \<open>
  C6. A card opens an entry gate only for a parked vehicle. Whatever the store holds, whatever
  Redis takes and whatever the rest of the system does meanwhile: if a card reading makes the API
  send any command that opens a gate, then the gate is not an exit, the card is that of an active
  member whose membership has not ended and who had no open transaction, and an ACTIVE transaction
  of that card, member and gate with the entry time is committed. A card at an exit gate never
  makes it open.
\<close>

theorem card_opens_only_parked:
  assumes "find_gate (sv_db w) code = Inr (Some g)"
    and "handle_message out (Some (card_event code now c ch sid)) w = (r, w')"
  shows "r = Inr () \<and> (\<exists>cs. sv_streams w' = sv_streams w @ map (wire out) cs \<and>
    ((\<exists>k \<in> set cs. opens k) \<longrightarrow>
       gate_direction g \<noteq> ''OUT'' \<and>
       (\<exists>m \<in> set (members (sv_db w)). mem_card_number m = c \<and> mem_is_active m \<and>
          (\<forall>d. mem_valid_until m = Some d \<longrightarrow> o_today out \<le> d) \<and>
          (\<forall>t \<in> set (txs (sv_db w)). is_active_tx t \<longrightarrow> tx_card_number t \<noteq> Some c) \<and>
          (\<exists>t \<in> set (txs (sv_db w')). is_active_tx t \<and> tx_card_number t = Some c \<and>
             tx_member_id t = Some (mem_id m) \<and> tx_gate_in_id t = Some (gate_id g) \<and>
             tx_entry_time t = o_now out))))"
proof -
  obtain q where cr: "card_read out (JStr code) (JStr c) w = (q, w')" and r: "r = Inr ()"
    using assms(2) by (cases "card_read out (JStr code) (JStr c) w") (simp add: handle_card_event)
  show ?thesis
  proof (cases "gate_direction g = ''OUT''")
    case True
    with cr card_exit_opens r show ?thesis by (simp add: card_read_eq[OF assms(1)])
  next
    case False
    with cr have e: "card_entry out code g (Some c) w = (q, w')" by (simp add: card_read_eq[OF assms(1)])
    from card_entry_opens[OF e] obtain cs where cs: "sv_streams w' = sv_streams w @ map (wire out) cs"
      and adm: "(\<exists>k \<in> set cs. opens k) \<longrightarrow>
        (\<exists>m t s. member_check (o_today out) code (Some c) (sv_db w) = Inr (Inr m) \<and>
         (s = sv_db w \<or> s = o_pause out (sv_db w)) \<and>
         create_entry_transaction None (Some c) (mem_plate_number m) (mem_vehicle_type_id m)
           (Some (gate_id g)) ''RFID_MEMBER'' (Some (mem_id m)) (o_now out) s = (Inr t, sv_db w'))"
      by blast
    show ?thesis
    proof (intro conjI exI[of _ cs] impI r cs False)
      assume "\<exists>k \<in> set cs. opens k"
      with adm obtain m t s where m: "member_check (o_today out) code (Some c) (sv_db w) = Inr (Inr m)"
        and t: "create_entry_transaction None (Some c) (mem_plate_number m) (mem_vehicle_type_id m)
           (Some (gate_id g)) ''RFID_MEMBER'' (Some (mem_id m)) (o_now out) s = (Inr t, sv_db w')"
        by blast
      from create_entry_row[OF t] have "t \<in> set (txs (sv_db w'))" by simp
      with create_entry_row[OF t] have "\<exists>t \<in> set (txs (sv_db w')). is_active_tx t \<and>
          tx_card_number t = Some c \<and> tx_member_id t = Some (mem_id m) \<and>
          tx_gate_in_id t = Some (gate_id g) \<and> tx_entry_time t = o_now out" by blast
      with member_admitted[OF m] show "\<exists>m \<in> set (members (sv_db w)). mem_card_number m = c \<and> mem_is_active m \<and>
          (\<forall>d. mem_valid_until m = Some d \<longrightarrow> o_today out \<le> d) \<and>
          (\<forall>t \<in> set (txs (sv_db w)). is_active_tx t \<longrightarrow> tx_card_number t \<noteq> Some c) \<and>
          (\<exists>t \<in> set (txs (sv_db w')). is_active_tx t \<and> tx_card_number t = Some c \<and>
             tx_member_id t = Some (mem_id m) \<and> tx_gate_in_id t = Some (gate_id g) \<and>
             tx_entry_time t = o_now out)" by blast
    qed
  qed
qed

text \<open>A member's card at an entry gate, its membership ending in five days.\<close>

definition example_member :: member where
  "example_member = \<lparr>mem_id = 4, mem_card_number = ''C7'', mem_plate_number = None,
     mem_vehicle_type_id = Some 2, mem_is_active = True, mem_valid_until = Some 105\<rparr>"

definition example_site :: site where
  "example_site = \<lparr>sv_db = example_store\<lparr>gates := [example_gate\<lparr>gate_direction := ''IN''\<rparr>],
     members := [example_member]\<rparr>, sv_streams = []\<rparr>"

definition example_outside :: outside where
  "example_outside = \<lparr>o_uuid = ''0123456789abcdef'', o_today = 100, o_now = 50, o_shift = 50,
     o_xadd = (\<lambda>_. True), o_stamp = (\<lambda>_. []), o_pause = (\<lambda>s. s)\<rparr>"

lemmas example_site_defs = example_site_def example_member_def example_outside_def example_defs

lemma example_site_gate:
  "find_gate (sv_db example_site) ''OUT1'' = Inr (Some (example_gate\<lparr>gate_direction := ''IN''\<rparr>))"
  by (simp add: find_gate_def example_site_defs)

theorem card_opens_only_parked_witness:
  "fst (handle_message example_outside (Some (card_event ''OUT1'' 9 ''C7'' ''W'' ''1-0'')) example_site) = Inr ()"
proof -
  obtain r w' where h: "handle_message example_outside (Some (card_event ''OUT1'' 9 ''C7'' ''W'' ''1-0''))
    example_site = (r, w')" by fastforce
  from card_opens_only_parked[OF example_site_gate h] h show ?thesis by simp
qed

section \<open>Admission\<close>

lemma create_entry_free:
  assumes "unique_active (txs s)" "b = None" "c \<notin> set (active_cards (txs s))"
  shows "\<exists>t s'. create_entry_transaction b (Some c) p v gin k mem now s = (Inr t, s')"
proof -
  define row where "row = \<lparr>tx_id = 0, tx_barcode = b, tx_card_number = Some c,
      tx_plate_number = p, tx_vehicle_type_id = v, tx_gate_in_id = gin, tx_gate_out_id = None,
      tx_entry_time = now, tx_exit_time = None, tx_payment_method = Some k, tx_fee = None,
      tx_paid_amount = None, tx_member_id = mem, tx_emoney_transaction_id = None,
      tx_status = ''ACTIVE'', tx_shift_id = None, tx_operator_id = None,
      tx_is_lost_ticket = False\<rparr>"
  define t where "t = row\<lparr>tx_id := next_tx_id s\<rparr>"
  have "is_active_tx t" "tx_barcode t = None" "tx_card_number t = Some c"
    by (simp_all add: t_def row_def assms(2))
  then have "unique_active (txs s @ [t])"
    using assms(1,3)
    by (simp add: unique_active_def active_cards_def active_barcodes_def map_filter_simps map_filter_def)
  then have "insert_tx s row = Inr (t, s\<lparr>txs := txs s @ [t], next_tx_id := next_tx_id s + 1\<rparr>)"
    by (simp add: insert_tx_Inr t_def)
  then show ?thesis
    by (auto simp: create_entry_transaction_def row_def[symmetric] Let_def split: option.splits)
qed

lemma active_card_filter:
  "c \<notin> set (active_cards ts) \<longleftrightarrow> filter (\<lambda>t. tx_card_number t = Some c \<and> is_active_tx t) ts = []"
  by (induction ts) (auto simp: active_cards_def map_filter_simps split: option.splits)

lemma member_check_valid:
  assumes "filter (\<lambda>m. mem_card_number m = c) (members s) = [m]" "mem_is_active m"
    "\<forall>d. mem_valid_until m = Some d \<longrightarrow> today \<le> d"
  shows "member_check today code (Some c) s =
    (case scalar_one_or_none (filter (\<lambda>t. tx_card_number t = Some c \<and> is_active_tx t) (txs s)) of
       Inl e \<Rightarrow> Inl e
     | Inr (Some t) \<Rightarrow> Inr (Inl (RejectCardCommand code ''Transaksi'' ''Belum Selesai'' 11))
     | Inr None \<Rightarrow> Inr (Inr m))"
  using assms by (auto simp: member_check_def split: option.splits)

text \<open>
  C15. A valid card is admitted exactly once. For a member in good standing without an open
  transaction, at an entry gate: as long as Redis takes the expiry warnings, one ACTIVE row of
  the card is committed, and the warnings and then the opening command go out. The row stays when the opening cannot be sent: the barrier is
  then still shut, and, as after any admission, the card's next reading that day is refused as
  unfinished and changes nothing.
\<close>

theorem card_admission:
  fixes m code out w
  defines "warning \<equiv> expiry_warning (o_today out) code m"
    and "admit \<equiv> OpenGateCommand code None ''operator''"
    and "refusal \<equiv> RejectCardCommand code ''Transaksi'' ''Belum Selesai'' 11"
    and "s \<equiv> if expiry_warning (o_today out) code m = [] then sv_db w else o_pause out (sv_db w)"
  assumes gate: "find_gate (sv_db w) code = Inr (Some g)" "gate_direction g \<noteq> ''OUT''"
    and mem: "filter (\<lambda>m. mem_card_number m = c) (members (sv_db w)) = [m]" "mem_is_active m"
      "\<forall>d. mem_valid_until m = Some d \<longrightarrow> o_today out \<le> d"
    and free: "c \<notin> set (active_cards (txs (sv_db w)))" "c \<notin> set (active_cards (txs s))"
    and meanwhile: "unique_active (txs s)" "members s = members (sv_db w)" "gates s = gates (sv_db w)"
    and redis: "\<forall>k \<in> set warning. o_xadd out k"
    and run: "handle_message out (Some (card_event code now c ch sid)) w = (r, w')"
    and again: "o_today outB = o_today out"
  shows "\<exists>t. txs (sv_db w') = txs s @ [t] \<and> is_active_tx t \<and> tx_card_number t = Some c \<and>
    tx_member_id t = Some (mem_id m) \<and> tx_entry_time t = o_now out \<and>
    sv_streams w' = sv_streams w @ map (wire out) warning @ (if o_xadd out admit then [wire out admit] else []) \<and>
    handle_message outB (Some (card_event code nowB c chB sidB)) w' =
      (Inr (), if o_xadd outB refusal then w'\<lparr>sv_streams := sv_streams w' @ [wire outB refusal]\<rparr> else w')"
proof -
  let ?v = "w\<lparr>sv_streams := sv_streams w @ map (wire out) warning, sv_db := s\<rparr>"
  from create_entry_free[OF meanwhile(1) refl free(2)] obtain t s' where
    t: "create_entry_transaction None (Some c) (mem_plate_number m) (mem_vehicle_type_id m)
      (Some (gate_id g)) ''RFID_MEMBER'' (Some (mem_id m)) (o_now out) s = (Inr t, s')" by metis
  note row = create_entry_row[OF t]
  have check: "member_check (o_today out) code (Some c) (sv_db w) = Inr (Inr m)"
    using free(1) by (simp add: member_check_valid[OF mem] active_card_filter)
  have "card_entry out code g (Some c) w = card_admit out code g (Some c) m ?v"
    using check publish_all_taken[OF redis, of w]
    by (cases "warning = []") (simp_all add: card_entry_def warning_def s_def)
  with run have "w' = snd (card_admit out code g (Some c) m ?v)"
    by (simp add: handle_card_event card_read_eq[OF gate(1)] gate(2))
  then have w': "w' = ?v\<lparr>sv_db := s', sv_streams := sv_streams ?v @ (if o_xadd out admit then [wire out admit] else [])\<rparr>"
    by (simp add: card_admit_def t publish_command_wire admit_def)
  have "find_gate s' code = Inr (Some g)"
    using gate(1) row meanwhile(3) by (simp add: find_gate_def)
  then have gate2: "find_gate (sv_db w') code = Inr (Some g)" by (simp add: w')
  have "filter (\<lambda>t. tx_card_number t = Some c \<and> is_active_tx t) (txs s') = [t]"
    using free(2) row by (simp add: active_card_filter)
  then have "member_check (o_today outB) code (Some c) s' = Inr (Inl refusal)"
    using mem row meanwhile(2) again by (simp add: member_check_valid[of c s' m] refusal_def)
  moreover have db: "sv_db w' = s'" by (simp add: w')
  ultimately have "card_read outB (JStr code) (JStr c) w' = publish_command outB refusal w'"
    using gate(2) by (simp add: card_read_eq[OF gate2] card_entry_def)
  then have "handle_message outB (Some (card_event code nowB c chB sidB)) w' =
      (Inr (), if o_xadd outB refusal then w'\<lparr>sv_streams := sv_streams w' @ [wire outB refusal]\<rparr> else w')"
    by (simp add: handle_card_event publish_command_wire)
  moreover have "txs (sv_db w') = txs s @ [t]" using row by (simp add: db)
  moreover have "sv_streams w' = sv_streams w @ map (wire out) warning @
      (if o_xadd out admit then [wire out admit] else [])" by (simp add: w')
  ultimately show ?thesis using row by blast
qed

theorem card_admission_witness:
  "\<exists>t. txs (sv_db (snd (handle_message example_outside
          (Some (card_event ''OUT1'' 9 ''C7'' ''W'' ''1-0'')) example_site))) = [example_tx, t] \<and>
     tx_card_number t = Some ''C7'' \<and>
     length (sv_streams (snd (handle_message example_outside
          (Some (card_event ''OUT1'' 9 ''C7'' ''W'' ''1-0'')) example_site))) = 3"
proof -
  have w: "expiry_warning (o_today example_outside) ''OUT1'' example_member =
      [DisplayTextCommand ''OUT1'' ''Kartu Habis'' ''Dalam 5 Hari'' 100 ''normal'', PlayAudioCommand ''OUT1'' 11]"
    by (simp add: expiry_warning_def example_site_defs)
  have un: "unique_active (txs (sv_db example_site))" "''C7'' \<notin> set (active_cards (txs (sv_db example_site)))"
    by (simp_all add: example_site_defs unique_active_def active_cards_def active_barcodes_def
        map_filter_simps)
  have p: "o_pause example_outside (sv_db example_site) = sv_db example_site" "o_xadd example_outside k" for k
    by (simp_all add: example_outside_def)
  obtain r w' where h: "handle_message example_outside (Some (card_event ''OUT1'' 9 ''C7'' ''W'' ''1-0''))
    example_site = (r, w')" by fastforce
  have g: "gate_direction (example_gate\<lparr>gate_direction := ''IN''\<rparr>) \<noteq> ''OUT''" by simp
  have m: "filter (\<lambda>m. mem_card_number m = ''C7'') (members (sv_db example_site)) = [example_member]"
    "mem_is_active example_member"
    "\<forall>d. mem_valid_until example_member = Some d \<longrightarrow> o_today example_outside \<le> d"
    by (simp_all add: example_site_defs)
  have "sv_streams example_site = []" "txs (sv_db example_site) = [example_tx]"
    by (simp_all add: example_site_def example_store_def)
  with card_admission[where nowB = 0 and chB = "[]" and sidB = "[]",
      OF example_site_gate g m un(2) _ _ _ _ _ h refl] h un show ?thesis
    by (auto simp: w p)
qed

section \<open>The listener\<close>

lemma not_listening: "\<not> ec_listening c \<Longrightarrow> ec_running c \<Longrightarrow> Stop \<notin> set ops \<Longrightarrow>
    \<not> ec_listening (fold consumer_step ops c) \<and> ec_site (fold consumer_step ops c) = ec_site c"
proof (induction ops arbitrary: c)
  case (Cons op ops)
  then show ?case by (cases op) auto
qed simp

text \<open>
  C36. One message can silence the API. Text that is not JSON, and any object whatever it holds, leave
  the listener running; JSON that is not an object ends it, and since \<open>start\<close> believes it is
  still running, no later event of any gate is handled until somebody calls \<open>stop\<close>.
\<close>

theorem listener_ends:
  assumes "ec_running c" "ec_listening c"
  shows "(case data of
      Some j \<Rightarrow> if \<exists>payload. j = JObj payload then ec_listening (consumer_step (Message out True data) c)
        else Stop \<notin> set ops \<longrightarrow>
          ec_site (fold consumer_step (Message out True data # ops) c) = ec_site c \<and>
          \<not> ec_listening (fold consumer_step (Message out True data # ops) c)
    | None \<Rightarrow> consumer_step (Message out True data) c = c)"
proof (cases data)
  case (Some j)
  show ?thesis
  proof (cases "\<exists>payload. j = JObj payload")
    case True
    with Some assms show ?thesis by (auto simp: handle_message_def Let_def)
  next
    case False
    with Some have "handle_message out data (ec_site c) = (Inl AttributeError, ec_site c)"
      by (cases j) (simp_all add: handle_message_def)
    with Some False assms show ?thesis
      using not_listening[of "c\<lparr>ec_listening := False\<rparr>" ops] by (simp split: option.split)
  qed
qed (use assms in \<open>simp add: handle_message_def\<close>)

theorem listener_ends_witness:
  "ec_site (fold consumer_step [Message example_outside True (Some (JList [])), Start,
       Message example_outside True (Some (card_event ''OUT1'' 9 ''C7'' ''W'' ''1-0''))]
     \<lparr>ec_running = True, ec_listening = True, ec_site = example_site\<rparr>) = example_site"
  using listener_ends[where c = "\<lparr>ec_running = True, ec_listening = True, ec_site = example_site\<rparr>" and
      data = "Some (JList [])" and out = example_outside and ops =
      "[Start, Message example_outside True (Some (card_event ''OUT1'' 9 ''C7'' ''W'' ''1-0''))]"]
  by simp

section \<open>The ledger under the handlers\<close>

lemma publish_db [simp]:
  "sv_db (snd (publish_command out c w)) = sv_db w"
  by (simp add: publish_command_wire)

lemma publish_all_db [simp]: "sv_db (snd (publish_all out cs w)) = sv_db w"
  by (induction cs arbitrary: w) (simp_all add: publish_command_wire)

text \<open>
  The same for the events of the gates: a relation that is transitive and kept by every entry.
\<close>

locale consumer_relation = service_relation +
  assumes rel_trans: "R s1 s2 \<Longrightarrow> R s2 s3 \<Longrightarrow> R s1 s3"
    and rel_entry: "k \<in> {''CASH'', ''RFID_MEMBER''} \<Longrightarrow> R s (snd (create_entry_transaction b c p v g k mem now s))"
begin

lemma entry_or_rollback:
  assumes "create_entry_transaction b c p v g k mem now s = (r, s')" "k \<in> {''CASH'', ''RFID_MEMBER''}"
  shows "R s s' \<and> R s (rollback s s')"
  using rel_entry[OF assms(2), of s b c p v g mem now] assms(1) by (simp add: rel_rollback)

lemma ticket_entry_rel: "R (sv_db w) (sv_db (snd (ticket_entry out j w)))"
  by (auto simp: ticket_entry_def Let_def rel_refl dest!: entry_or_rollback
      split: sum.splits option.splits prod.splits)

lemma card_exit_rel: "R (sv_db w) (sv_db (snd (card_exit out code g cno w)))"
proof -
  have "R (sv_db w) s \<and> R (sv_db w) (rollback (sv_db w) s)"
    if "process_rfid_payment code i c None a b (sv_db w) = (r, s)" for i c a b r s
    using rel_rfid[where s = "sv_db w" and gid = code and out = i and cno = c and op = None
        and t_shift = a and t_exit = b] that by (simp add: rel_rollback)
  then show ?thesis
    by (auto simp: card_exit_def rel_refl rel_rollback split: sum.splits option.splits prod.splits py_exc.splits)
qed

lemma card_admit_rel: "R (sv_db w) (sv_db (snd (card_admit out code g cno m w)))"
  by (auto simp: card_admit_def dest!: entry_or_rollback split: sum.splits prod.splits)

text \<open>Provided that what happens during a pause keeps it too.\<close>

lemma card_entry_rel:
  assumes "\<And>s. R s (o_pause out s)"
  shows "R (sv_db w) (sv_db (snd (card_entry out code g cno w)))"
proof (cases "member_check (o_today out) code cno (sv_db w)")
  case (Inr x)
  show ?thesis
  proof (cases x)
    case (Inr m)
    obtain q v where p: "publish_all out (expiry_warning (o_today out) code m) w = (q, v)" by fastforce
    have db: "sv_db v = sv_db w"
      using publish_all_db[of out "expiry_warning (o_today out) code m" w] p by simp
    define u where "u = (if expiry_warning (o_today out) code m = [] then v
      else v\<lparr>sv_db := o_pause out (sv_db v)\<rparr>)"
    have "R (sv_db w) (sv_db u)" using assms by (simp add: u_def db rel_refl)
    note admit = rel_trans[OF this card_admit_rel[of u out code g cno m]]
    have "card_entry out code g cno w =
        (case q of Inl e \<Rightarrow> (Inl e, v) | Inr _ \<Rightarrow> card_admit out code g cno m u)"
      using \<open>member_check (o_today out) code cno (sv_db w) = Inr x\<close> Inr
      by (cases q) (simp_all add: card_entry_def p u_def)
    with admit db show ?thesis by (cases q) (simp_all add: rel_refl)
  qed (use Inr in \<open>simp add: card_entry_def rel_refl\<close>)
qed (simp add: card_entry_def rel_refl)

lemma handle_message_rel:
  assumes "\<And>s. R s (o_pause out s)"
  shows "R (sv_db w) (sv_db (snd (handle_message out data w)))"
  using ticket_entry_rel card_exit_rel card_entry_rel[OF assms]
  by (auto simp: handle_message_def Let_def handle_ticket_button_pressed_def handle_rfid_card_read_def
      card_read_def rel_refl split: option.splits json.splits sum.splits)

lemma consumer_step_rel:
  assumes "\<And>out b d s. op = Message out b d \<Longrightarrow> R s (o_pause out s)"
  shows "R (sv_db (ec_site c)) (sv_db (ec_site (consumer_step op c)))"
proof (cases op)
  case (Message out b d)
  from handle_message_rel[OF assms[OF this], of "ec_site c" d] Message show ?thesis
    by (auto simp: rel_refl split: prod.splits sum.splits)
qed (simp_all add: rel_refl)

end

interpretation consuming: consumer_relation evolves
  by unfold_locales (auto simp: create_entry_evolves intro: evolves_trans)

end
