(* ===== verification/Settlement_File.thy ===== *)
theory Settlement_File
  imports Passti
begin

text \<open>
  The files exchanged with the bank, as pure text: the settlement file
  (\<open>workers/background/settlement_file.py\<close>) and the bank's response file
  (the parser of \<open>workers/background/settlement_uploader.py\<close>).
\<close>

section \<open>Writing the settlement file\<close>

definition NL :: char where "NL = CHR 0x0A"

definition timestamp :: "local_time \<Rightarrow> string" where
  "timestamp t = fmt0 4 (lt_year t) @ fmt0 2 (lt_month t) @ fmt0 2 (lt_day t) @
     fmt0 2 (lt_hour t) @ fmt0 2 (lt_minute t) @ fmt0 2 (lt_second t)"

definition generate_filename :: "local_time \<Rightarrow> string \<Rightarrow> string \<Rightarrow> int \<Rightarrow> string" where
  "generate_filename settlement_datetime mid tid batch_number =
     timestamp settlement_datetime @ zfill 16 mid @ zfill 8 tid @ ''01'' @ fmt0 3 batch_number @ ''.txt''"

text \<open>A transaction is its \<open>settlement_payload_hex\<close>, \<open>None\<close> when the key is missing or \<open>None\<close>.\<close>

definition body_line :: "string option \<Rightarrow> string" where
  "body_line tx = upper (case tx of None \<Rightarrow> [] | Some p \<Rightarrow> p) @ [NL]"

definition build_settlement_content :: "string option list \<Rightarrow> int \<Rightarrow> py_exc + string" where
  "build_settlement_content transactions total_amount =
     (let trx_count = length transactions
      in if 999 < trx_count
         then Inl (ValueError (''Multibank v1.3 I: max 999 transactions per file, got '' @
                str_of_nat trx_count @ ''. Caller must split into multiple batches.''))
         else if total_amount < 0 \<or> 9999999999 < total_amount
         then Inl (ValueError (''Total amount '' @ str_of_int total_amount @
                '' out of range for 10-digit field.''))
         else Inr (fmt0 3 (int trx_count) @ fmt0 10 total_amount @ [NL] @
                concat (map body_line transactions)))"

section \<open>Reading the response file\<close>

definition RESPONSE_STATUS_CODES :: "(string \<times> string) list" where
  "RESPONSE_STATUS_CODES =
     [(''00'', ''Accepted''), (''01'', ''Invalid Format''), (''02'', ''Duplicate Data''),
      (''03'', ''Transaction count mismatch''), (''04'', ''Transaction amount mismatch''),
      (''05'', ''Invalid Merchant Terminal''), (''07'', ''Data Corrupt''),
      (''08'', ''Invalid Device SN''), (''09'', ''Invalid Bank Log''),
      (''10'', ''Invalid Filename Format''), (''11'', ''Invalid Header Format'')]"

record bank_result =
  br_settlement_payload_hex :: string
  br_status :: string
  br_status_description :: string

record bank_response =
  bk_trx_type :: string
  bk_trx_count :: int
  bk_results :: "bank_result list"

definition parse_result_line :: "string \<Rightarrow> bank_result option" where
  "parse_result_line line =
     (if length line < 2 then None
      else let status = drop (length line - 2) line
           in Some \<lparr>br_settlement_payload_hex = upper (take (length line - 2) line),
                br_status = status,
                br_status_description = (case map_of RESPONSE_STATUS_CODES status of
                   Some d \<Rightarrow> d | None \<Rightarrow> ''Unknown'')\<rparr>)"

definition parse_ok_response :: "string \<Rightarrow> bank_response" where
  "parse_ok_response content =
     (let lines = split_char NL (strip content)
      in if length (hd lines) < 5 then \<lparr>bk_trx_type = [], bk_trx_count = 0, bk_results = []\<rparr>
         else
           let header = hd lines
           in \<lparr>bk_trx_type = take 2 header,
               bk_trx_count = (case py_int (take 3 (drop 2 header)) of Some n \<Rightarrow> n | None \<Rightarrow> 0),
               bk_results = List.map_filter parse_result_line (tl lines)\<rparr>)"

definition parse_nok_response :: "string \<Rightarrow> bank_response" where
  "parse_nok_response content = parse_ok_response content"

section \<open>What the files say\<close>

text \<open>A response file as the bank's specification describes it, one line for each payload.\<close>

definition response_file :: "string \<Rightarrow> (string \<times> string) list \<Rightarrow> string" where
  "response_file trx_type rs =
     trx_type @ fmt0 3 (int (length rs)) @ [NL] @ concat (map (\<lambda>(p, st). p @ st @ [NL]) rs)"

lemma NL_space [simp]: "is_space NL"
  by (simp add: NL_def is_space_def)

lemma upper_char_NL: "upper_char c = NL \<longleftrightarrow> c = NL"
proof (cases "97 \<le> (of_char c :: nat) \<and> (of_char c :: nat) \<le> 122")
  case True
  then have "(of_char (upper_char c) :: nat) = ((of_char c :: nat) - 32) mod 256"
    by (simp add: upper_char_def Let_def)
  also have "\<dots> = (of_char c :: nat) - 32" using True by (intro mod_less) linarith
  finally have "upper_char c \<noteq> NL" using True by (auto simp: NL_def)
  moreover have "c \<noteq> NL" using True by (auto simp: NL_def)
  ultimately show ?thesis by simp
qed (auto simp: upper_char_def Let_def)

lemma NL_upper [simp]: "NL \<in> set (upper p) \<longleftrightarrow> NL \<in> set p"
  by (auto simp: upper_def image_iff upper_char_NL eq_commute[of NL])

lemma NL_fmt0: "0 \<le> i \<Longrightarrow> NL \<notin> set (fmt0 w i)"
  using fmt0_digits[of i w] by (auto simp: list_all_iff NL_def is_digit_def)

lemma split_lines:
  assumes "\<forall>l \<in> set ls. NL \<notin> set l"
  shows "split_char NL (concat (map (\<lambda>l. l @ [NL]) ls)) = ls @ [[]]"
  using assms by (induction ls) (simp_all add: split_char_append)

lemma split_lines_last:
  assumes "\<forall>l \<in> set ls. NL \<notin> set l" "ls \<noteq> []"
  shows "split_char NL (concat (map (\<lambda>l. l @ [NL]) (butlast ls)) @ last ls) = ls"
  using assms by (induction ls) (auto simp: split_char_append split_char_no_sep)

lemma concat_butlast:
  "ls \<noteq> [] \<Longrightarrow> concat (map (\<lambda>l. l @ [NL]) ls) = concat (map (\<lambda>l. l @ [NL]) (butlast ls)) @ last ls @ [NL]"
  by (induction ls) auto

lemma strip_snoc:
  assumes "b \<noteq> []" "\<not> is_space (hd b)" "\<not> is_space (last b)"
  shows "strip (b @ [NL]) = b"
proof -
  have "dropWhile is_space (rev b) = rev b" using assms(1,3) by (cases b rule: rev_cases) auto
  then have "rstrip (b @ [NL]) = b" by (simp add: rstrip_def)
  moreover have "lstrip b = b" using assms(1,2) by (cases b) (auto simp: lstrip_def)
  ultimately show ?thesis by (simp add: strip_def)
qed

text \<open>
  The settlement file read back: it is written exactly when there are at most 999 transactions
  and the total fits ten digits; its first line is thirteen characters, the count and the total in
  decimal, then each transaction's payload in upper case on a line of its own, and nothing else.
\<close>

theorem settlement_file_format:
  assumes "\<forall>t \<in> set ts. NL \<notin> set (case t of None \<Rightarrow> [] | Some p \<Rightarrow> p)"
  shows "case build_settlement_content ts amount of
      Inl e \<Rightarrow> 999 < length ts \<or> amount < 0 \<or> 9999999999 < amount
    | Inr c \<Rightarrow> length ts \<le> 999 \<and> 0 \<le> amount \<and> amount \<le> 9999999999 \<and>
        (\<exists>header. split_char NL c = header # map (\<lambda>t. upper (case t of None \<Rightarrow> [] | Some p \<Rightarrow> p)) ts @ [[]] \<and>
           length header = 13 \<and> int (dec_val (take 3 header)) = int (length ts) \<and>
           int (dec_val (drop 3 header)) = amount)"
proof (cases "999 < length ts \<or> amount < 0 \<or> 9999999999 < amount")
  case True
  then show ?thesis by (auto simp: build_settlement_content_def Let_def)
next
  case False
  let ?h = "fmt0 3 (int (length ts)) @ fmt0 10 amount"
  let ?ls = "map (\<lambda>t. upper (case t of None \<Rightarrow> [] | Some p \<Rightarrow> p)) ts"
  have len: "length (fmt0 3 (int (length ts))) = 3" "length (fmt0 10 amount) = 10"
    using False by (auto intro!: length_fmt0)
  have c: "build_settlement_content ts amount = Inr (?h @ NL # concat (map (\<lambda>l. l @ [NL]) ?ls))"
    using False by (simp add: build_settlement_content_def body_line_def[abs_def] o_def)
  have "NL \<notin> set ?h" using False by (simp add: NL_fmt0)
  moreover have "\<forall>l \<in> set ?ls. NL \<notin> set l" using assms by simp
  ultimately have "split_char NL (?h @ NL # concat (map (\<lambda>l. l @ [NL]) ?ls)) = ?h # ?ls @ [[]]"
    using split_lines[of ?ls] split_char_append[of NL ?h "concat (map (\<lambda>l. l @ [NL]) ?ls)"] by argo
  moreover have "int (dec_val (fmt0 3 (int (length ts)))) = int (length ts)"
    "int (dec_val (fmt0 10 amount)) = amount" using False dec_val_fmt0[of amount 10] dec_val_fmt0[of "int (length ts)" 3] by linarith+
  ultimately show ?thesis using c len False by simp
qed

theorem settlement_file_format_witness:
  "\<exists>c header. build_settlement_content [Some ''0a1b'', None] 25000 = Inr c \<and>
     split_char NL c = header # [upper ''0a1b'', [], []] \<and> length header = 13 \<and>
     int (dec_val (take 3 header)) = 2 \<and> int (dec_val (drop 3 header)) = 25000"
  using settlement_file_format[of "[Some ''0a1b'', None]" 25000]
  by (auto simp: NL_def upper_def split: sum.splits)

text \<open>The lines of a response file, and the results the parser makes of them.\<close>

lemma parse_result_line_append:
  "length st = 2 \<Longrightarrow> parse_result_line (p @ st) =
     Some \<lparr>br_settlement_payload_hex = upper p, br_status = st,
           br_status_description = (case map_of RESPONSE_STATUS_CODES st of
              Some d \<Rightarrow> d | None \<Rightarrow> ''Unknown'')\<rparr>"
  by (simp add: parse_result_line_def)

lemma map_filter_all:
  "(\<And>x. x \<in> set xs \<Longrightarrow> f (h x) = Some (g x)) \<Longrightarrow> List.map_filter f (map h xs) = map g xs"
  by (induction xs) (simp_all add: map_filter_simps)

lemma strip_lines:
  assumes "ls \<noteq> []" "hd ls \<noteq> []" "\<not> is_space (hd (hd ls))" "last ls \<noteq> []" "\<not> is_space (last (last ls))"
    "\<forall>l \<in> set ls. NL \<notin> set l"
  shows "split_char NL (strip (concat (map (\<lambda>l. l @ [NL]) ls))) = ls"
proof -
  let ?body = "concat (map (\<lambda>l. l @ [NL]) (butlast ls)) @ last ls"
  have "concat (map (\<lambda>l. l @ [NL]) ls) = ?body @ [NL]"
    using concat_butlast[OF assms(1)] by simp
  moreover have "hd ?body = hd (hd ls)" "?body \<noteq> []"
    using assms(1,2,4) by (cases ls; auto simp: hd_append)+
  moreover have "last ?body = last (last ls)" using assms(4) by simp
  ultimately have "strip (concat (map (\<lambda>l. l @ [NL]) ls)) = ?body"
    using assms(3,5) strip_snoc[of ?body] by simp
  then show ?thesis using split_lines_last[OF assms(6,1)] by simp
qed

lemma parse_response_file:
  assumes "length ty = 2" "list_all (\<lambda>c. \<not> is_space c) ty" "length rs \<le> 999"
    "\<forall>(p, st) \<in> set rs. NL \<notin> set p \<and> length st = 2 \<and> list_all (\<lambda>c. \<not> is_space c) st"
  shows "parse_ok_response (response_file ty rs) =
    \<lparr>bk_trx_type = ty, bk_trx_count = int (length rs),
     bk_results = map (\<lambda>(p, st). \<lparr>br_settlement_payload_hex = upper p, br_status = st,
       br_status_description = (case map_of RESPONSE_STATUS_CODES st of
          Some d \<Rightarrow> d | None \<Rightarrow> ''Unknown'')\<rparr>) rs\<rparr>"
proof -
  let ?h = "ty @ fmt0 3 (int (length rs))"
  let ?ls = "?h # map (\<lambda>(p, st). p @ st) rs"
  have len: "length (fmt0 3 (int (length rs))) = 3" using assms(3) by (auto intro!: length_fmt0)
  then have d: "fmt0 3 (int (length rs)) \<noteq> []" by auto
  obtain a b where ty: "ty = [a, b]" using assms(1) by (auto simp: length_Suc_conv numeral_2_eq_2)
  have dig: "list_all is_digit (fmt0 3 (int (length rs)))" by (simp add: fmt0_digits)
  have "NL \<notin> set st" if "list_all (\<lambda>c. \<not> is_space c) st" for st
    using that by (auto simp: list_all_iff)
  then have no_nl: "\<forall>l \<in> set ?ls. NL \<notin> set l"
    using assms(2,4) by (fastforce simp: NL_fmt0)
  have "last ?ls \<noteq> [] \<and> \<not> is_space (last (last ?ls))"
  proof (cases rs rule: rev_cases)
    case Nil
    then show ?thesis using d dig by (auto simp: list_all_iff is_digit_not_space)
  next
    case (snoc xs x)
    obtain p st where x: "x = (p, st)" by (cases x)
    with snoc assms(4) have "length st = 2" "list_all (\<lambda>c. \<not> is_space c) st" by auto
    then have "st \<noteq> [] \<and> \<not> is_space (last st)" by (cases st rule: rev_cases) auto
    with snoc x show ?thesis by simp
  qed
  moreover have "response_file ty rs = concat (map (\<lambda>l. l @ [NL]) ?ls)"
    by (simp add: response_file_def o_def split_def)
  ultimately have lines: "split_char NL (strip (response_file ty rs)) = ?ls"
    using strip_lines[of ?ls] no_nl assms(2) ty by simp
  have "parse_result_line (case x of (p, st) \<Rightarrow> p @ st) = Some (case x of (p, st) \<Rightarrow>
      \<lparr>br_settlement_payload_hex = upper p, br_status = st, br_status_description =
        (case map_of RESPONSE_STATUS_CODES st of Some d \<Rightarrow> d | None \<Rightarrow> ''Unknown'')\<rparr>)"
    if "x \<in> set rs" for x
    using that assms(4) by (cases x) (auto simp: parse_result_line_append)
  then have "List.map_filter parse_result_line (map (\<lambda>(p, st). p @ st) rs) =
      map (\<lambda>(p, st). \<lparr>br_settlement_payload_hex = upper p, br_status = st, br_status_description =
        (case map_of RESPONSE_STATUS_CODES st of Some d \<Rightarrow> d | None \<Rightarrow> ''Unknown'')\<rparr>) rs"
    by (intro map_filter_all) simp
  moreover have "py_int (fmt0 3 (int (length rs))) = Some (int (length rs))"
    using d dig by (simp add: py_int_digits dec_val_fmt0)
  ultimately show ?thesis
    using lines len ty by (simp add: parse_ok_response_def Let_def)
qed

text \<open>
  C27. The bank's response read back: for a file that gives each payload with its two-character
  status, one a line under the header, the parser returns the type, the count and every payload
  (in upper case) with its status and description, in order.
\<close>

theorem response_file_roundtrip:
  assumes "length ty = 2" "list_all (\<lambda>c. \<not> is_space c) ty" "length rs \<le> 999"
    "\<forall>(p, st) \<in> set rs. NL \<notin> set p \<and> length st = 2 \<and> list_all (\<lambda>c. \<not> is_space c) st"
  shows "parse_ok_response (response_file ty rs) =
    \<lparr>bk_trx_type = ty, bk_trx_count = int (length rs),
     bk_results = map (\<lambda>(p, st). \<lparr>br_settlement_payload_hex = upper p, br_status = st,
       br_status_description = (case map_of RESPONSE_STATUS_CODES st of
          Some d \<Rightarrow> d | None \<Rightarrow> ''Unknown'')\<rparr>) rs\<rparr>"
  using assms by (rule parse_response_file)

theorem response_file_roundtrip_witness:
  "map br_status (bk_results (parse_ok_response (response_file ''01'' [(''ab'', ''00''), (''cd'', ''07'')]))) =
     [''00'', ''07'']"
  using response_file_roundtrip[of "''01''" "[(''ab'', ''00''), (''cd'', ''07'')]"]
  by (simp add: is_space_def NL_def)

end
