(* ===== verification/Settlement.thy ===== *)
theory Settlement
  imports Settlement_File Schema "HOL-Library.Multiset"
begin

text \<open>
  The settlement jobs: the daily generation of the files
  (\<open>workers/background/settlement_worker.py\<close>), the upload to the bank and the reconciliation
  of its responses (\<open>workers/background/settlement_uploader.py\<close>).

  Outside the model, as arguments: the hash of the standard library (\<open>sha\<close>), the local clock,
  the order in which \<open>SELECT DISTINCT\<close> returns its rows (\<open>ord\<close>), what each SFTP call does and
  what the bank's directory holds. The disk accepts every write. The 48-hour expiry of a batch
  counter is left out: its key names the day it is used on.
\<close>

section \<open>State\<close>

record emoney_reader =
  rd_id :: int
  rd_mid :: "string option"
  rd_tid :: "string option"

record settlement =
  st_id :: int
  st_filename :: string
  st_file_path :: "string option"
  st_batch_date :: "int \<times> int \<times> int"
  st_batch_number :: int
  st_total_transactions :: nat
  st_total_amount :: int
  st_status :: string
  st_uploaded_at :: "time option"
  st_response_received_at :: "time option"
  st_response_extension :: "string option"
  st_file_content_hash :: "string option"

record bank_world =
  bw_core :: store
  bw_readers :: "emoney_reader list"
  bw_settlements :: "settlement list"
  bw_next_id :: int
  bw_files :: "string \<Rightarrow> string option"
  bw_locks :: "string \<Rightarrow> time option"
  bw_counters :: "string \<Rightarrow> int"
  bw_uploads :: "int list"
  bw_remote :: "string \<Rightarrow> string option"

type_synonym 'a job_run = "bank_world \<Rightarrow> (py_exc + 'a) \<times> bank_world"

text \<open>The job's context: \<open>None\<close>, a dictionary without \<open>redis\<close> (the manual trigger), or ARQ's.\<close>

datatype arq_ctx = NoContext | PlainContext | ArqContext

section \<open>Generation\<close>

definition SETTLEMENT_DIR :: string where "SETTLEMENT_DIR = ''/var/lib/parking/settlements''"
definition MAX_TRX_PER_FILE :: nat where "MAX_TRX_PER_FILE = 999"
definition QR_CARD_TYPE_CODE :: int where "QR_CARD_TYPE_CODE = 9"

definition date_iso :: "local_time \<Rightarrow> string" where
  "date_iso t = fmt0 4 (lt_year t) @ ''-'' @ fmt0 2 (lt_month t) @ ''-'' @ fmt0 2 (lt_day t)"

definition day_key :: "local_time \<Rightarrow> string" where
  "day_key t = fmt0 4 (lt_year t) @ fmt0 2 (lt_month t) @ fmt0 2 (lt_day t)"

text \<open>The \<open>WHERE\<close> clause both queries share.\<close>

definition eligible :: "emtx \<Rightarrow> bool" where
  "eligible e \<longleftrightarrow> em_settlement_batch_id e = None \<and> em_status e = ''SUCCESS'' \<and>
     em_card_type_code e \<noteq> Some QR_CARD_TYPE_CODE"

definition unsettled_readers :: "bank_world \<Rightarrow> int list" where
  "unsettled_readers w =
     remdups (List.map_filter em_emoney_reader_id (filter eligible (emoney_txs (bw_core w))))"

definition reader_transactions :: "bank_world \<Rightarrow> int \<Rightarrow> emtx list" where
  "reader_transactions w rid =
     sort_key em_created_at
       (filter (\<lambda>e. eligible e \<and> em_emoney_reader_id e = Some rid) (emoney_txs (bw_core w)))"

definition batch_key :: "int \<Rightarrow> string \<Rightarrow> string" where
  "batch_key rid d = ''settlement:batch:'' @ str_of_int rid @ '':'' @ d"

definition next_batch_number :: "arq_ctx \<Rightarrow> int \<Rightarrow> string \<Rightarrow> bank_world \<Rightarrow> int \<times> bank_world" where
  "next_batch_number ctx rid d w =
     (if ctx \<noteq> ArqContext \<or> \<not> redis_up (bw_core w) then (1, w)
      else let n = bw_counters w (batch_key rid d) + 1
           in (n, w\<lparr>bw_counters := (bw_counters w)(batch_key rid d := n)\<rparr>))"

definition enqueue_upload :: "arq_ctx \<Rightarrow> int \<Rightarrow> bank_world \<Rightarrow> bank_world" where
  "enqueue_upload ctx sid w =
     (if ctx = ArqContext \<and> redis_up (bw_core w) then w\<lparr>bw_uploads := bw_uploads w @ [sid]\<rparr> else w)"

text \<open>\<open>range(0, len, n)\<close> and the slices it starts.\<close>

function chunks :: "nat \<Rightarrow> 'a list \<Rightarrow> 'a list list" where
  "chunks n xs = (if xs = [] \<or> n = 0 then [] else take n xs # chunks n (drop n xs))"
  by pat_completeness auto
termination by (relation "measure (length \<circ> snd)") auto

declare chunks.simps [simp del]

definition link_rows :: "int list \<Rightarrow> int \<Rightarrow> emtx list \<Rightarrow> emtx list" where
  "link_rows ids sid es =
     map (\<lambda>e. if em_id e \<in> set ids then e\<lparr>em_settlement_batch_id := Some sid\<rparr> else e) es"

text \<open>One chunk: number, name, content, file, row, links, commit, hand-off.\<close>

definition settlement_row ::
  "(string \<Rightarrow> string) \<Rightarrow> local_time \<Rightarrow> int \<Rightarrow> string \<Rightarrow> string \<Rightarrow> emtx list \<Rightarrow> string \<Rightarrow> int \<Rightarrow> settlement" where
  "settlement_row sha now batch_number filename file_path chunk content sid =
     \<lparr>st_id = sid, st_filename = filename, st_file_path = Some file_path,
      st_batch_date = (lt_year now, lt_month now, lt_day now), st_batch_number = batch_number,
      st_total_transactions = length chunk,
      st_total_amount = sum_list (map em_amount_deducted chunk), st_status = ''GENERATED'',
      st_uploaded_at = None, st_response_received_at = None, st_response_extension = None,
      st_file_content_hash = Some (sha content)\<rparr>"

definition commit_chunk :: "settlement \<Rightarrow> string \<Rightarrow> string \<Rightarrow> emtx list \<Rightarrow> bank_world \<Rightarrow> bank_world" where
  "commit_chunk row file_path content chunk w =
     w\<lparr>bw_files := (bw_files w)(file_path \<mapsto> content),
       bw_settlements := bw_settlements w @ [row], bw_next_id := bw_next_id w + 1,
       bw_core := (bw_core w)\<lparr>emoney_txs :=
         link_rows (map em_id chunk) (st_id row) (emoney_txs (bw_core w))\<rparr>\<rparr>"

definition settle_chunk ::
  "(string \<Rightarrow> string) \<Rightarrow> arq_ctx \<Rightarrow> local_time \<Rightarrow> int \<Rightarrow> string \<Rightarrow> string \<Rightarrow> emtx list \<Rightarrow> unit job_run" where
  "settle_chunk sha ctx now rid mid tid chunk w =
     (case next_batch_number ctx rid (date_iso now) w of (batch_number, w) \<Rightarrow>
        let chunk_total = sum_list (map em_amount_deducted chunk);
            filename = generate_filename now mid tid batch_number;
            file_path = SETTLEMENT_DIR @ ''/'' @ filename
        in case build_settlement_content (map em_settlement_payload_hex chunk) chunk_total of
             Inl e \<Rightarrow> (Inl e, w)
           | Inr content \<Rightarrow>
             if \<not> ascii content
             then (Inl UnicodeEncodeError, w\<lparr>bw_files := (bw_files w)(file_path \<mapsto> [])\<rparr>)
             else
               let row = settlement_row sha now batch_number filename file_path chunk content
                     (bw_next_id w)
               in (Inr (), enqueue_upload ctx (st_id row) (commit_chunk row file_path content chunk w)))"

text \<open>The loops, counting files and transactions.\<close>

fun settle_chunks ::
  "(string \<Rightarrow> string) \<Rightarrow> arq_ctx \<Rightarrow> local_time \<Rightarrow> int \<Rightarrow> string \<Rightarrow> string \<Rightarrow> emtx list list \<Rightarrow>
   nat \<times> nat \<Rightarrow> (nat \<times> nat) job_run" where
  "settle_chunks sha ctx now rid mid tid [] n w = (Inr n, w)"
| "settle_chunks sha ctx now rid mid tid (c # cs) (files, trxs) w =
     (case settle_chunk sha ctx now rid mid tid c w of
        (Inl e, w) \<Rightarrow> (Inl e, w)
      | (Inr _, w) \<Rightarrow>
        settle_chunks sha ctx now rid mid tid cs (Suc files, trxs + length c) w)"

definition settle_reader ::
  "(string \<Rightarrow> string) \<Rightarrow> arq_ctx \<Rightarrow> local_time \<Rightarrow> int \<Rightarrow> nat \<times> nat \<Rightarrow> (nat \<times> nat) job_run" where
  "settle_reader sha ctx now rid n w =
     (case find (\<lambda>r. rd_id r = rid) (bw_readers w) of
        None \<Rightarrow> (Inr n, w)
      | Some r \<Rightarrow>
        if \<not> truthy_str (rd_mid r) \<or> \<not> truthy_str (rd_tid r) then (Inr n, w)
        else
          let ts = reader_transactions w rid
          in if ts = [] then (Inr n, w)
             else if ctx = NoContext then (Inl AttributeError, w)
             else settle_chunks sha ctx now rid (the (rd_mid r)) (the (rd_tid r))
                    (chunks MAX_TRX_PER_FILE ts) n w)"

fun settle_readers ::
  "(string \<Rightarrow> string) \<Rightarrow> arq_ctx \<Rightarrow> local_time \<Rightarrow> int list \<Rightarrow> nat \<times> nat \<Rightarrow> (nat \<times> nat) job_run" where
  "settle_readers sha ctx now [] n w = (Inr n, w)"
| "settle_readers sha ctx now (r # rs) n w =
     (case settle_reader sha ctx now r n w of
        (Inl e, w) \<Rightarrow> (Inl e, w)
      | (Inr n, w) \<Rightarrow> settle_readers sha ctx now rs n w)"

datatype settle_result = SkippedLocked | Settled nat nat

text \<open>The lease: \<open>SET key 1 NX EX 3600\<close>; a Redis error counts as held.\<close>

definition lock_key :: "local_time \<Rightarrow> string" where
  "lock_key t = ''lock:settlement:'' @ day_key t"

definition acquire_lock :: "local_time \<Rightarrow> time \<Rightarrow> bank_world \<Rightarrow> bool \<times> bank_world" where
  "acquire_lock t_local now w =
     (if \<not> redis_up (bw_core w) then (False, w)
      else if (case bw_locks w (lock_key t_local) of None \<Rightarrow> False | Some ex \<Rightarrow> now < ex) then (False, w)
      else (True, w\<lparr>bw_locks := (bw_locks w)(lock_key t_local \<mapsto> now + 3600 * us_per_second)\<rparr>))"

definition generate_settlement_file ::
  "(string \<Rightarrow> string) \<Rightarrow> (int list \<Rightarrow> int list) \<Rightarrow> arq_ctx \<Rightarrow> local_time \<Rightarrow> time \<Rightarrow> local_time \<Rightarrow>
   settle_result job_run" where
  "generate_settlement_file sha ord ctx t_lock t_now now w =
     (case (if ctx = ArqContext then acquire_lock t_lock t_now w else (True, w)) of (got, w) \<Rightarrow>
        if \<not> got then (Inr SkippedLocked, w)
        else if unsettled_readers w = [] then (Inr (Settled 0 0), w)
        else case settle_readers sha ctx now (ord (unsettled_readers w)) (0, 0) w of
               (Inl e, w) \<Rightarrow> (Inl e, w)
             | (Inr (files, trxs), w) \<Rightarrow> (Inr (Settled files trxs), w))"

section \<open>Upload\<close>

text \<open>
  What the SFTP calls of one session do: whether the library is there, the connection, the put and
  the rename succeed.
\<close>

record sftp =
  sf_asyncssh :: bool
  sf_connect :: bool
  sf_put :: bool
  sf_rename :: bool

record sftp_settings =
  ss_host :: string
  ss_remote_dir :: string
  ss_response_dir :: string

definition basename :: "string \<Rightarrow> string" where
  "basename p = rev (takeWhile (\<lambda>c. c \<noteq> CHR ''/'') (rev p))"

definition clean_dir :: "string \<Rightarrow> string" where
  "clean_dir d = (let d = rstrip_char (CHR ''/'') d in if d = [] then ''/'' else d)"

definition upload_settlement_file ::
  "sftp \<Rightarrow> string \<Rightarrow> string option \<Rightarrow> bool job_run" where
  "upload_settlement_file sf remote_dir file_path w =
     (case file_path of
        None \<Rightarrow> (Inl TypeError, w)
      | Some path \<Rightarrow>
        case bw_files w path of
          None \<Rightarrow> (Inr False, w)
        | Some content \<Rightarrow>
          if \<not> sf_asyncssh sf then (Inl (RuntimeError ''asyncssh is required for SFTP upload''), w)
          else
            let final_remote = clean_dir remote_dir @ ''/'' @ basename path;
                tmp_remote = final_remote @ ''.partial''
            in if \<not> sf_connect sf then (Inl OSError, w)
               else
                 let w = w\<lparr>bw_remote := (bw_remote w)(tmp_remote := None)\<rparr>
                 in if \<not> sf_put sf then (Inl OSError, w)
                    else
                      let w = w\<lparr>bw_remote := (bw_remote w)(tmp_remote \<mapsto> content)\<rparr>
                      in if \<not> sf_rename sf then (Inl OSError, w)
                         else (Inr True, w\<lparr>bw_remote := (bw_remote w)
                                 (tmp_remote := None, final_remote \<mapsto> content)\<rparr>))"

definition get_settlement :: "bank_world \<Rightarrow> int \<Rightarrow> settlement option" where
  "get_settlement w sid = find (\<lambda>r. st_id r = sid) (bw_settlements w)"

definition put_settlement :: "settlement \<Rightarrow> bank_world \<Rightarrow> bank_world" where
  "put_settlement r w =
     w\<lparr>bw_settlements := map (\<lambda>x. if st_id x = st_id r then r else x) (bw_settlements w)\<rparr>"

datatype upload_result = NoHost | NotFound | WrongState string | Uploaded int

definition upload_settlement_job ::
  "sftp_settings \<Rightarrow> sftp \<Rightarrow> time \<Rightarrow> int \<Rightarrow> upload_result job_run" where
  "upload_settlement_job cfg sf now sid w =
     (if ss_host cfg = [] then (Inr NoHost, w)
      else case get_settlement w sid of
        None \<Rightarrow> (Inr NotFound, w)
      | Some r \<Rightarrow>
        if st_status r \<notin> {''GENERATED'', ''FAILED''} then (Inr (WrongState (st_status r)), w)
        else case upload_settlement_file sf (ss_remote_dir cfg) (st_file_path r) w of
               (Inl e, w) \<Rightarrow> (Inl e, put_settlement (r\<lparr>st_status := ''FAILED''\<rparr>) w)
             | (Inr _, w) \<Rightarrow>
               (Inr (Uploaded sid),
                put_settlement (r\<lparr>st_status := ''UPLOADED'', st_uploaded_at := Some now\<rparr>) w))"

section \<open>Responses\<close>

text \<open>
  What the bank's directory gives for a path: the text, nothing (an \<open>OSError\<close> is taken for that too), or
  another error of the transport.
\<close>

datatype fetched = Content string | Missing | Broken

text \<open>Reading a file in text mode turns the other line ends into newlines.\<close>

fun universal_newlines :: "string \<Rightarrow> string" where
  "universal_newlines (a # b # cs) =
     (if a = CHR 0x0D \<and> b = NL then NL # universal_newlines cs
      else (if a = CHR 0x0D then NL else a) # universal_newlines (b # cs))"
| "universal_newlines [a] = [if a = CHR 0x0D then NL else a]"
| "universal_newlines [] = []"

definition response_base :: "string \<Rightarrow> string" where
  "response_base f = (if ends_with ''.txt'' (lower f) then take (length f - 4) f else f)"

fun try_extensions ::
  "(string \<Rightarrow> fetched) \<Rightarrow> string \<Rightarrow> string \<Rightarrow> string list \<Rightarrow> py_exc + (string \<times> string) option" where
  "try_extensions bank d base [] = Inr None"
| "try_extensions bank d base (ext # exts) =
     (case bank (d @ ''/'' @ base @ ''.'' @ ext) of
        Missing \<Rightarrow> try_extensions bank d base exts
      | Broken \<Rightarrow> Inl (RuntimeError ''sftp'')
      | Content c \<Rightarrow>
        if \<not> ascii c then Inl (ValueError ''ascii'') else Inr (Some (ext, universal_newlines c)))"

definition fetch_response_file ::
  "(string \<Rightarrow> fetched) \<Rightarrow> bool \<Rightarrow> string \<Rightarrow> string \<Rightarrow> py_exc + (string \<times> string) option" where
  "fetch_response_file bank connect response_dir filename =
     (if \<not> connect then Inl OSError
      else try_extensions bank (clean_dir response_dir) (response_base filename) [''OK'', ''NOK''])"

text \<open>The rows of one settlement against the bank's answer; the dictionary keeps the last status.\<close>

definition bank_code :: "bank_result list \<Rightarrow> emtx \<Rightarrow> string" where
  "bank_code results e =
     (let key = upper (case em_settlement_payload_hex e of None \<Rightarrow> [] | Some p \<Rightarrow> p)
      in case map_of (rev (map (\<lambda>r. (br_settlement_payload_hex r, br_status r)) results)) key of
           None \<Rightarrow> ''??'' | Some c \<Rightarrow> c)"

definition mark_row :: "bank_result list \<Rightarrow> time \<Rightarrow> emtx \<Rightarrow> emtx" where
  "mark_row results now e =
     e\<lparr>em_bank_response_status := Some (bank_code results e), em_bank_response_at := Some now\<rparr>"

definition final_status :: "string \<Rightarrow> nat \<Rightarrow> nat \<Rightarrow> string" where
  "final_status ext ok_count nok_count =
     (if ext = ''NOK'' \<or> ok_count = 0 then ''ACKED_NOK''
      else if nok_count = 0 then ''ACKED_OK'' else ''PARTIAL'')"

definition response_results :: "string \<Rightarrow> string \<Rightarrow> bank_result list" where
  "response_results ext content =
     bk_results (if ext = ''OK'' then parse_ok_response content else parse_nok_response content)"

definition reconcile :: "string \<Rightarrow> string \<Rightarrow> time \<Rightarrow> settlement \<Rightarrow> bank_world \<Rightarrow> string \<times> bank_world" where
  "reconcile ext content now r w =
     (let results = response_results ext content;
          rows = filter (\<lambda>e. em_settlement_batch_id e = Some (st_id r)) (emoney_txs (bw_core w));
          ok_count = length (filter (\<lambda>e. bank_code results e = ''00'') rows);
          nok_count = length (filter (\<lambda>e. bank_code results e \<noteq> ''00'') rows);
          st = final_status ext ok_count nok_count;
          w = w\<lparr>bw_core := (bw_core w)\<lparr>emoney_txs :=
            map (\<lambda>e. if em_settlement_batch_id e = Some (st_id r) then mark_row results now e else e)
              (emoney_txs (bw_core w))\<rparr>\<rparr>
      in (st, put_settlement (r\<lparr>st_status := st, st_response_received_at := Some now,
               st_response_extension := Some ext\<rparr>) w))"

record poll_counts =
  pc_processed :: nat
  pc_acked_ok :: nat
  pc_acked_nok :: nat
  pc_partial :: nat

definition count_status :: "string \<Rightarrow> poll_counts \<Rightarrow> poll_counts" where
  "count_status st n =
     (let n = n\<lparr>pc_processed := Suc (pc_processed n)\<rparr>
      in if st = ''ACKED_NOK'' then n\<lparr>pc_acked_nok := Suc (pc_acked_nok n)\<rparr>
         else if st = ''ACKED_OK'' then n\<lparr>pc_acked_ok := Suc (pc_acked_ok n)\<rparr>
         else n\<lparr>pc_partial := Suc (pc_partial n)\<rparr>)"

fun poll_loop ::
  "sftp_settings \<Rightarrow> (settlement \<Rightarrow> bool) \<Rightarrow> (string \<Rightarrow> fetched) \<Rightarrow> time \<Rightarrow> settlement list \<Rightarrow>
   poll_counts \<Rightarrow> bank_world \<Rightarrow> poll_counts \<times> bank_world" where
  "poll_loop cfg connect bank now [] n w = (n, w)"
| "poll_loop cfg connect bank now (r # rs) n w =
     (case fetch_response_file bank (connect r) (ss_response_dir cfg) (st_filename r) of
        Inl e \<Rightarrow> poll_loop cfg connect bank now rs n w
      | Inr None \<Rightarrow> poll_loop cfg connect bank now rs n w
      | Inr (Some (ext, content)) \<Rightarrow>
        (case reconcile ext content now r w of
           (st, w) \<Rightarrow> poll_loop cfg connect bank now rs (count_status st n) w))"

definition seven_days :: time where "seven_days = 7 * us_per_day"

definition pending_settlements :: "time \<Rightarrow> bank_world \<Rightarrow> settlement list" where
  "pending_settlements now w =
     sort_key (\<lambda>r. the (st_uploaded_at r))
       (filter (\<lambda>r. st_status r = ''UPLOADED'' \<and>
          (case st_uploaded_at r of None \<Rightarrow> False | Some t \<Rightarrow> now - seven_days \<le> t)) (bw_settlements w))"

definition poll_settlement_responses ::
  "sftp_settings \<Rightarrow> (settlement \<Rightarrow> bool) \<Rightarrow> (string \<Rightarrow> fetched) \<Rightarrow> time \<Rightarrow> bank_world \<Rightarrow>
   poll_counts option \<times> bank_world" where
  "poll_settlement_responses cfg connect bank now w =
     (if ss_host cfg = [] then (None, w)
      else case poll_loop cfg connect bank now (pending_settlements now w)
             \<lparr>pc_processed = 0, pc_acked_ok = 0, pc_acked_nok = 0, pc_partial = 0\<rparr> w of
        (n, w) \<Rightarrow> (Some n, w))"

section \<open>What every job keeps\<close>

abbreviation rows :: "bank_world \<Rightarrow> emtx list" where "rows w \<equiv> emoney_txs (bw_core w)"

definition batch_rows :: "int \<Rightarrow> emtx list \<Rightarrow> emtx list" where
  "batch_rows sid es = filter (\<lambda>e. em_settlement_batch_id e = Some sid) es"

text \<open>
  Identifiers are distinct, a linked row names an existing settlement, and every settlement's count
  and total are those of the rows linked to it.
\<close>

definition bank_ok :: "bank_world \<Rightarrow> bool" where
  "bank_ok w \<longleftrightarrow>
     distinct (map em_id (rows w)) \<and> distinct (map st_id (bw_settlements w)) \<and>
     (\<forall>r \<in> set (bw_settlements w). st_id r < bw_next_id w \<and>
        st_total_transactions r = length (batch_rows (st_id r) (rows w)) \<and>
        st_total_transactions r \<le> MAX_TRX_PER_FILE \<and>
        st_total_amount r = sum_list (map em_amount_deducted (batch_rows (st_id r) (rows w)))) \<and>
     (\<forall>e \<in> set (rows w). \<forall>i. em_settlement_batch_id e = Some i \<longrightarrow> i \<in> st_id ` set (bw_settlements w))"

text \<open>The life of a settlement.\<close>

inductive settlement_moves :: "string \<Rightarrow> string \<Rightarrow> bool" where
  uploaded: "st \<in> {''GENERATED'', ''FAILED''} \<Longrightarrow> settlement_moves st ''UPLOADED''"
| upload_failed: "st \<in> {''GENERATED'', ''FAILED''} \<Longrightarrow> settlement_moves st ''FAILED''"
| acked: "st' \<in> {''ACKED_OK'', ''ACKED_NOK'', ''PARTIAL''} \<Longrightarrow> settlement_moves ''UPLOADED'' st'"

definition row_kept :: "emtx \<Rightarrow> emtx \<Rightarrow> bool" where
  "row_kept e e' \<longleftrightarrow> em_id e' = em_id e \<and> em_amount_deducted e' = em_amount_deducted e \<and>
     em_settlement_payload_hex e' = em_settlement_payload_hex e \<and>
     (em_settlement_batch_id e \<noteq> None \<longrightarrow> em_settlement_batch_id e' = em_settlement_batch_id e)"

definition bank_follows :: "bank_world \<Rightarrow> bank_world \<Rightarrow> bool" where
  "bank_follows w w' \<longleftrightarrow>
     list_all2 row_kept (rows w) (rows w') \<and>
     (\<forall>r \<in> set (bw_settlements w). \<exists>r' \<in> set (bw_settlements w'). st_id r' = st_id r \<and>
        st_filename r' = st_filename r \<and> st_total_amount r' = st_total_amount r \<and>
        st_total_transactions r' = st_total_transactions r \<and>
        settlement_moves\<^sup>*\<^sup>* (st_status r) (st_status r'))"

lemma row_kept_refl [simp]: "row_kept e e"
  by (simp add: row_kept_def)

lemma row_kept_trans: "row_kept a b \<Longrightarrow> row_kept b c \<Longrightarrow> row_kept a c"
  by (auto simp: row_kept_def)

lemma rows_kept_trans:
  "list_all2 row_kept xs ys \<Longrightarrow> list_all2 row_kept ys zs \<Longrightarrow> list_all2 row_kept xs zs"
  using list_all2_trans[of row_kept row_kept row_kept xs ys zs] row_kept_trans by blast

lemma bank_follows_refl [simp]: "bank_follows w w"
  by (auto simp: bank_follows_def list_all2_refl)

lemma bank_follows_trans:
  assumes "bank_follows a b" "bank_follows b c"
  shows "bank_follows a c"
  unfolding bank_follows_def
proof
  show "list_all2 row_kept (rows a) (rows c)"
    using assms rows_kept_trans by (auto simp: bank_follows_def)
  show "\<forall>r \<in> set (bw_settlements a). \<exists>r' \<in> set (bw_settlements c). st_id r' = st_id r \<and>
        st_filename r' = st_filename r \<and> st_total_amount r' = st_total_amount r \<and>
        st_total_transactions r' = st_total_transactions r \<and>
        settlement_moves\<^sup>*\<^sup>* (st_status r) (st_status r')"
  proof
    fix r assume "r \<in> set (bw_settlements a)"
    with assms(1) obtain q where q: "q \<in> set (bw_settlements b)" "st_id q = st_id r"
      "st_filename q = st_filename r" "st_total_amount q = st_total_amount r"
      "st_total_transactions q = st_total_transactions r" "settlement_moves\<^sup>*\<^sup>* (st_status r) (st_status q)"
      unfolding bank_follows_def by blast
    from assms(2) q(1) obtain p where "p \<in> set (bw_settlements c)" "st_id p = st_id q"
      "st_filename p = st_filename q" "st_total_amount p = st_total_amount q"
      "st_total_transactions p = st_total_transactions q" "settlement_moves\<^sup>*\<^sup>* (st_status q) (st_status p)"
      unfolding bank_follows_def by blast
    moreover from q(6) this(6) have "settlement_moves\<^sup>*\<^sup>* (st_status r) (st_status p)"
      by (rule rtranclp_trans)
    ultimately show "\<exists>r' \<in> set (bw_settlements c). st_id r' = st_id r \<and>
        st_filename r' = st_filename r \<and> st_total_amount r' = st_total_amount r \<and>
        st_total_transactions r' = st_total_transactions r \<and>
        settlement_moves\<^sup>*\<^sup>* (st_status r) (st_status r')"
      using q(2-5) by (intro bexI[of _ p]) simp_all
  qed
qed

text \<open>Both only look at the two tables.\<close>

definition same_tables :: "bank_world \<Rightarrow> bank_world \<Rightarrow> bool" where
  "same_tables w w' \<longleftrightarrow> rows w' = rows w \<and> bw_settlements w' = bw_settlements w \<and> bw_next_id w' = bw_next_id w"

lemma same_tables_ok: "same_tables w w' \<Longrightarrow> bank_ok w' = bank_ok w"
  by (simp add: same_tables_def bank_ok_def)

lemma same_tables_follows: "same_tables w w' \<Longrightarrow> bank_follows w w'"
  by (auto simp: same_tables_def bank_follows_def list_all2_refl)

lemma next_batch_tables: "next_batch_number ctx rid d w = (n, w') \<Longrightarrow> same_tables w w'"
  by (auto simp: next_batch_number_def same_tables_def Let_def split: if_splits)

section \<open>A contract for the jobs\<close>

locale settlement_job =
  fixes step :: "'op \<Rightarrow> bank_world \<Rightarrow> bank_world"
  assumes job_ok: "bank_ok w \<Longrightarrow> bank_ok (step op w)"
    and job_follows: "bank_ok w \<Longrightarrow> bank_follows w (step op w)"
begin

lemma jobs_ok: "bank_ok w \<Longrightarrow> bank_ok (fold step ops w)"
  by (induction ops arbitrary: w) (simp_all add: job_ok)

lemma jobs_follow: "bank_ok w \<Longrightarrow> bank_follows w (fold step ops w)"
proof (induction ops arbitrary: w)
  case (Cons op ops)
  from bank_follows_trans[OF job_follows[OF Cons.prems] Cons.IH[OF job_ok[OF Cons.prems]]]
  show ?case by simp
qed simp

end

section \<open>Linking a chunk\<close>

text \<open>Rows waiting to be settled.\<close>

definition ready :: "bank_world \<Rightarrow> emtx list \<Rightarrow> bool" where
  "ready w es \<longleftrightarrow> distinct (map em_id es) \<and> (\<forall>e \<in> set es. e \<in> set (rows w) \<and> em_settlement_batch_id e = None)"

lemma ready_append: "ready w (as @ bs) \<Longrightarrow> ready w as \<and> ready w bs"
  by (auto simp: ready_def)

lemma link_rows_simps [simp]:
  "map em_id (link_rows ids sid es) = map em_id es"
  "map em_amount_deducted (link_rows ids sid es) = map em_amount_deducted es"
  by (simp_all add: link_rows_def)

lemma link_rows_kept:
  assumes "\<forall>e \<in> set es. em_id e \<in> set ids \<longrightarrow> em_settlement_batch_id e = None"
  shows "list_all2 row_kept es (link_rows ids sid es)"
  unfolding link_rows_def list.rel_map
  by (rule list.rel_refl_strong) (use assms in \<open>simp add: row_kept_def\<close>)

lemma batch_rows_old:
  assumes "\<forall>e \<in> set es. em_id e \<in> set ids \<longrightarrow> em_settlement_batch_id e = None" "i \<noteq> sid"
  shows "batch_rows i (link_rows ids sid es) = batch_rows i es"
proof -
  let ?f = "\<lambda>e. if em_id e \<in> set ids then e\<lparr>em_settlement_batch_id := Some sid\<rparr> else e"
  have "filter (\<lambda>e. em_settlement_batch_id (?f e) = Some i) es = batch_rows i es"
    unfolding batch_rows_def by (rule filter_cong) (use assms in auto)
  moreover have "map ?f (batch_rows i es) = batch_rows i es"
    by (rule map_idI) (use assms in \<open>auto simp: batch_rows_def\<close>)
  ultimately show ?thesis by (simp add: batch_rows_def link_rows_def filter_map o_def)
qed

lemma batch_rows_new:
  assumes "\<forall>e \<in> set es. em_settlement_batch_id e \<noteq> Some sid"
  shows "batch_rows sid (link_rows ids sid es) =
    map (\<lambda>e. e\<lparr>em_settlement_batch_id := Some sid\<rparr>) (filter (\<lambda>e. em_id e \<in> set ids) es)"
proof -
  let ?f = "\<lambda>e. if em_id e \<in> set ids then e\<lparr>em_settlement_batch_id := Some sid\<rparr> else e"
  have "filter (\<lambda>e. em_settlement_batch_id (?f e) = Some sid) es = filter (\<lambda>e. em_id e \<in> set ids) es"
    by (rule filter_cong) (use assms in auto)
  moreover have "map ?f (filter (\<lambda>e. em_id e \<in> set ids) es) =
      map (\<lambda>e. e\<lparr>em_settlement_batch_id := Some sid\<rparr>) (filter (\<lambda>e. em_id e \<in> set ids) es)"
    by (rule map_cong) auto
  ultimately show ?thesis by (simp add: batch_rows_def link_rows_def filter_map o_def)
qed

lemma ready_mset:
  assumes "distinct (map em_id (rows w))" "ready w c"
  shows "mset (filter (\<lambda>e. em_id e \<in> set (map em_id c)) (rows w)) = mset c"
proof -
  have "e \<in> set c" if "e \<in> set (rows w)" "em_id e = em_id x" "x \<in> set c" for e x
  proof -
    from that(3) assms(2) have "x \<in> set (rows w)" by (simp add: ready_def)
    with that(1,2) assms(1) have "e = x" by (auto simp: distinct_map inj_on_def)
    with that(3) show ?thesis by simp
  qed
  then have "set (filter (\<lambda>e. em_id e \<in> set (map em_id c)) (rows w)) = set c"
    using assms(2) by (auto simp: ready_def)
  moreover have "distinct c" "distinct (rows w)"
    using assms by (simp_all add: ready_def distinct_map)
  ultimately show ?thesis using set_eq_iff_mset_eq_distinct[of "filter (\<lambda>e. em_id e \<in> set (map em_id c)) (rows w)" c] distinct_filter by blast
qed

lemma ready_ids_free:
  assumes "distinct (map em_id (rows w))" "ready w c"
  shows "\<forall>e \<in> set (rows w). em_id e \<in> set (map em_id c) \<longrightarrow> em_settlement_batch_id e = None"
proof (intro ballI impI)
  fix e assume "e \<in> set (rows w)" "em_id e \<in> set (map em_id c)"
  then have "e \<in> set (filter (\<lambda>e. em_id e \<in> set (map em_id c)) (rows w))" by simp
  then have "e \<in> set c" using mset_eq_setD[OF ready_mset[OF assms]] by blast
  with assms(2) show "em_settlement_batch_id e = None" by (simp add: ready_def)
qed

lemma link_table_ok:
  assumes ok: "bank_ok w" and c: "ready w c" "length c \<le> MAX_TRX_PER_FILE"
    and r: "st_id r = bw_next_id w" "st_total_transactions r = length c"
      "st_total_amount r = sum_list (map em_amount_deducted c)"
    and w': "rows w' = link_rows (map em_id c) (bw_next_id w) (rows w)"
      "bw_settlements w' = bw_settlements w @ [r]" "bw_next_id w' = bw_next_id w + 1"
  shows "bank_ok w'" "bank_follows w w'"
proof -
  let ?sid = "bw_next_id w"
  have ids: "distinct (map em_id (rows w))" using ok by (simp add: bank_ok_def)
  have new: "\<forall>x \<in> set (bw_settlements w). st_id x < ?sid" using ok by (simp add: bank_ok_def)
  have old: "\<forall>e \<in> set (rows w). em_settlement_batch_id e \<noteq> Some ?sid"
    using ok new by (fastforce simp: bank_ok_def)
  have sub: "mset (batch_rows ?sid (rows w')) =
      image_mset (\<lambda>e. e\<lparr>em_settlement_batch_id := Some ?sid\<rparr>) (mset c)"
    by (simp only: w' batch_rows_new[OF old] mset_map ready_mset[OF ids c(1)])
  have len: "length (batch_rows ?sid (rows w')) = length c"
    using arg_cong[OF sub, of size] by simp
  have amount: "sum_list (map em_amount_deducted (batch_rows ?sid (rows w'))) =
      sum_list (map em_amount_deducted c)"
    using arg_cong[OF sub, of "\<lambda>m. sum_mset (image_mset em_amount_deducted m)"]
    by (simp add: multiset.map_comp o_def flip: sum_mset_sum_list mset_map)
  have rest: "batch_rows (st_id x) (rows w') = batch_rows (st_id x) (rows w)"
    if "x \<in> set (bw_settlements w)" for x
    using that new unfolding w' by (intro batch_rows_old ready_ids_free ids c(1)) auto
  have ref: "\<forall>e \<in> set (rows w'). \<forall>i. em_settlement_batch_id e = Some i \<longrightarrow>
      i = ?sid \<or> i \<in> st_id ` set (bw_settlements w)"
    using ok unfolding w' by (auto simp: bank_ok_def link_rows_def split: if_splits)
  show "bank_ok w'"
    unfolding bank_ok_def
  proof (intro conjI)
    show "distinct (map em_id (rows w'))" using ids by (simp add: w')
    show "distinct (map st_id (bw_settlements w'))"
      using ok new by (auto simp: w' r bank_ok_def)
    show "\<forall>x \<in> set (bw_settlements w'). st_id x < bw_next_id w' \<and>
        st_total_transactions x = length (batch_rows (st_id x) (rows w')) \<and>
        st_total_transactions x \<le> MAX_TRX_PER_FILE \<and>
        st_total_amount x = sum_list (map em_amount_deducted (batch_rows (st_id x) (rows w')))"
      using ok len amount rest c(2) new r by (fastforce simp: w'(2,3) bank_ok_def)
    show "\<forall>e \<in> set (rows w'). \<forall>i. em_settlement_batch_id e = Some i \<longrightarrow> i \<in> st_id ` set (bw_settlements w')"
      using ref by (auto simp: w'(2) r)
  qed
  show "bank_follows w w'"
    unfolding bank_follows_def
    using link_rows_kept[OF ready_ids_free[OF ids c(1)]] by (auto simp: w')
qed

lemma settle_chunk_step:
  assumes "bank_ok w" "ready w (c @ rest)" "length c \<le> MAX_TRX_PER_FILE"
    and "settle_chunk sha ctx now rid mid tid c w = (res, w')"
  shows "bank_ok w' \<and> bank_follows w w' \<and> (\<not> isl res \<longrightarrow> ready w' rest \<and>
     rows w' = link_rows (map em_id c) (bw_next_id w) (rows w))"
proof -
  obtain n v where v: "next_batch_number ctx rid (date_iso now) w = (n, v)" by fastforce
  note tab = next_batch_tables[OF v]
  have ok: "bank_ok v" "bank_follows w v"
    using assms(1) tab by (simp_all add: same_tables_ok same_tables_follows)
  have rd: "ready v c" using assms(2) tab ready_append by (auto simp: ready_def same_tables_def)
  show ?thesis
  proof (cases "isl res")
    case True
    then have "same_tables v w'"
      using assms(4) by (auto simp: settle_chunk_def v Let_def same_tables_def split: sum.splits if_splits)
    with ok True show ?thesis
      using same_tables_ok same_tables_follows bank_follows_trans by blast
  next
    case False
    have up: "same_tables u (enqueue_upload ctx i u)" for u i
      by (simp add: enqueue_upload_def same_tables_def)
    from False assms(4) obtain fname path content where w': "w' = enqueue_upload ctx (bw_next_id v)
        (commit_chunk (settlement_row sha now n fname path c content (bw_next_id v)) path content c v)"
      by (auto simp: settle_chunk_def v Let_def settlement_row_def split: sum.splits if_splits)
    define r where "r = settlement_row sha now n fname path c content (bw_next_id v)"
    define u where "u = commit_chunk r path content c v"
    have u: "st_id r = bw_next_id v" "st_total_transactions r = length c"
        "st_total_amount r = sum_list (map em_amount_deducted c)"
        "rows u = link_rows (map em_id c) (bw_next_id v) (rows v)"
        "bw_settlements u = bw_settlements v @ [r]" "bw_next_id u = bw_next_id v + 1"
        "same_tables u w'"
      by (simp_all add: u_def r_def commit_chunk_def settlement_row_def w' up)
    note new = link_table_ok[OF ok(1) rd assms(3) u(1-6)]
    have "set (map em_id rest) \<inter> set (map em_id c) = {}"
      using assms(2) by (auto simp: ready_def)
    then have "ready w' rest"
      using assms(2) u(4,7) tab unfolding ready_def same_tables_def link_rows_def
      by (fastforce simp: image_iff)
    with new u(4,7) tab ok(2) bank_follows_trans[OF bank_follows_trans[OF ok(2) new(2)] same_tables_follows[OF u(7)]]
    show ?thesis by (simp add: same_tables_ok) (simp add: same_tables_def)
  qed
qed

section \<open>Which rows a run links\<close>

text \<open>Exactly the rows with these identifiers were linked, and nothing else of the table changed.\<close>

definition touched :: "(emtx \<Rightarrow> bool) \<Rightarrow> emtx list \<Rightarrow> emtx list \<Rightarrow> bool" where
  "touched P es es' \<longleftrightarrow>
     list_all2 (\<lambda>e e'. if P e then \<exists>i. e' = e\<lparr>em_settlement_batch_id := Some i\<rparr> else e' = e) es es'"

lemma touched_none: "(\<And>e. e \<in> set es \<Longrightarrow> \<not> P e) \<Longrightarrow> touched P es es"
  unfolding touched_def by (rule list.rel_refl_strong) simp

lemma touched_cong:
  "touched P es es' \<Longrightarrow> (\<And>e. e \<in> set es \<Longrightarrow> P e = Q e) \<Longrightarrow> touched Q es es'"
  unfolding touched_def by (erule list.rel_mono_strong) auto

lemma touched_trans:
  assumes "touched P es es'" "touched Q es' es''"
    and "\<And>e. e \<in> set es \<Longrightarrow> R e = (P e \<or> Q e)"
    and "\<And>e i. e \<in> set es \<Longrightarrow> P e \<Longrightarrow> \<not> Q (e\<lparr>em_settlement_batch_id := Some i\<rparr>)"
  shows "touched R es es''"
  using assms unfolding touched_def
proof (induction es es' arbitrary: es'' rule: list_all2_induct)
  case (Cons e es e' es')
  from Cons.prems(1) obtain f fs where f: "es'' = f # fs"
    "if Q e' then \<exists>i. f = e'\<lparr>em_settlement_batch_id := Some i\<rparr> else f = e'"
    "list_all2 (\<lambda>e e'. if Q e then \<exists>i. e' = e\<lparr>em_settlement_batch_id := Some i\<rparr> else e' = e) es' fs"
    by (auto simp: list_all2_Cons1)
  have "if R e then \<exists>i. f = e\<lparr>em_settlement_batch_id := Some i\<rparr> else f = e"
  proof (cases "P e")
    case True
    with Cons.hyps(1) obtain i where "e' = e\<lparr>em_settlement_batch_id := Some i\<rparr>" by auto
    moreover from this Cons.prems(3)[of e i] True have "\<not> Q e'" by simp
    ultimately show ?thesis using f(2) Cons.prems(2)[of e] True by auto
  next
    case False
    with Cons.hyps(1) f(2) Cons.prems(2)[of e] show ?thesis by auto
  qed
  moreover have "list_all2 (\<lambda>e e'. if R e then \<exists>i. e' = e\<lparr>em_settlement_batch_id := Some i\<rparr> else e' = e) es fs"
    by (rule Cons.IH[OF f(3)]) (use Cons.prems(2,3) in simp_all)
  ultimately show ?case by (simp add: f(1))
qed simp

lemma touched_length_filter:
  assumes "touched P es es'"
    and "\<And>e. e \<in> set es \<Longrightarrow> \<not> P e \<Longrightarrow> Q e = R e"
    and "\<And>e i. e \<in> set es \<Longrightarrow> P e \<Longrightarrow> \<not> R e \<and> \<not> Q (e\<lparr>em_settlement_batch_id := Some i\<rparr>)"
  shows "length (filter Q es') = length (filter R es)"
  using assms unfolding touched_def
proof (induction es es' rule: list_all2_induct)
  case (Cons e es e' es')
  then show ?case by (fastforce split: if_splits)
qed simp

lemma touched_link:
  assumes "\<forall>e \<in> set es. (em_id e \<in> set ids) = P e"
  shows "touched P es (link_rows ids sid es)"
  unfolding touched_def link_rows_def list.rel_map
  by (rule list.rel_refl_strong) (use assms in auto)

lemma settle_chunk_readers:
  "settle_chunk sha ctx now rid mid tid c w = (res, w') \<Longrightarrow> bw_readers w' = bw_readers w"
  by (auto simp: settle_chunk_def next_batch_number_def commit_chunk_def enqueue_upload_def Let_def
      split: sum.splits if_splits prod.splits)

lemma settle_chunks_step:
  assumes "bank_ok w" "ready w (concat cs)" "\<forall>c \<in> set cs. length c \<le> MAX_TRX_PER_FILE"
    and "settle_chunks sha ctx now rid mid tid cs n w = (res, w')"
  shows "bank_ok w' \<and> bank_follows w w' \<and> bw_readers w' = bw_readers w \<and>
    (\<forall>m. res = Inr m \<longrightarrow> touched (\<lambda>e. em_id e \<in> em_id ` set (concat cs)) (rows w) (rows w') \<and>
       m = (fst n + length cs, snd n + length (concat cs)))"
  using assms
proof (induction cs arbitrary: n w)
  case Nil
  then show ?case by (auto intro: touched_none)
next
  case (Cons c cs)
  obtain r v where v: "settle_chunk sha ctx now rid mid tid c w = (r, v)" by fastforce
  obtain files trxs where n: "n = (files, trxs)" by (cases n)
  have c: "ready w (c @ concat cs)" "length c \<le> MAX_TRX_PER_FILE" using Cons.prems(2,3) by auto
  note step = settle_chunk_step[OF Cons.prems(1) c v]
  show ?case
  proof (cases r)
    case (Inl e)
    with step Cons.prems(4) v n settle_chunk_readers[OF v] show ?thesis by auto
  next
    case (Inr u)
    with step have s: "bank_ok v" "bank_follows w v" "ready v (concat cs)"
      "rows v = link_rows (map em_id c) (bw_next_id w) (rows w)" by auto
    have run: "settle_chunks sha ctx now rid mid tid cs (Suc files, trxs + length c) v = (res, w')"
      using Cons.prems(4) v n Inr by simp
    have "\<forall>c \<in> set cs. length c \<le> MAX_TRX_PER_FILE" using Cons.prems(3) by simp
    note IH = Cons.IH[OF s(1,3) this run]
    have t: "touched (\<lambda>e. em_id e \<in> em_id ` set c) (rows w) (rows v)"
      unfolding s(4) by (rule touched_link) simp
    have "em_id ` set c \<inter> em_id ` set (concat cs) = {}" using c(1) by (auto simp: ready_def)
    then have "touched (\<lambda>e. em_id e \<in> em_id ` set (concat (c # cs))) (rows w) (rows w')"
      if "touched (\<lambda>e. em_id e \<in> em_id ` set (concat cs)) (rows v) (rows w')"
      by (intro touched_trans[OF t that]) auto
    with IH s(2) bank_follows_trans settle_chunk_readers[OF v] n show ?thesis
      by (auto intro: bank_follows_trans)
  qed
qed

lemma concat_chunks: "0 < n \<Longrightarrow> concat (chunks n xs) = xs"
  by (induction n xs rule: chunks.induct) (subst chunks.simps, simp)

lemma chunks_short: "c \<in> set (chunks n xs) \<Longrightarrow> length c \<le> n \<and> c \<noteq> []"
  by (induction n xs rule: chunks.induct) (subst (asm) chunks.simps, auto split: if_splits)

text \<open>The rows a run of the job is meant to settle: eligible ones of a reader that has both numbers.\<close>

definition usable :: "emoney_reader list \<Rightarrow> int \<Rightarrow> bool" where
  "usable rds rid \<longleftrightarrow> (case find (\<lambda>r. rd_id r = rid) rds of None \<Rightarrow> False
     | Some r \<Rightarrow> truthy_str (rd_mid r) \<and> truthy_str (rd_tid r))"

definition due :: "emoney_reader list \<Rightarrow> int list \<Rightarrow> emtx \<Rightarrow> bool" where
  "due rds ids e \<longleftrightarrow> eligible e \<and> (\<exists>rid \<in> set ids. em_emoney_reader_id e = Some rid \<and> usable rds rid)"

lemma not_due_linked [simp]: "\<not> due rds ids (e\<lparr>em_settlement_batch_id := Some i\<rparr>)"
  by (simp add: due_def eligible_def)

lemma due_Cons: "due rds (r # rs) e \<longleftrightarrow> due rds [r] e \<or> due rds rs e"
  by (auto simp: due_def)

lemma due_append_length:
  assumes "touched (due rds [r]) es es'"
  shows "length (filter (due rds (r # rs)) es) = length (filter (due rds [r]) es) + length (filter (due rds rs) es')"
proof -
  have "length (filter (due rds rs) es') = length (filter (\<lambda>e. \<not> due rds [r] e \<and> due rds rs e) es)"
    by (rule touched_length_filter[OF assms]) simp_all
  moreover have "length (filter (due rds (r # rs)) es) =
      length (filter (due rds [r]) es) + length (filter (\<lambda>e. \<not> due rds [r] e \<and> due rds rs e) es)"
    by (induction es) (auto simp: due_Cons[of rds r rs])
  ultimately show ?thesis by simp
qed

lemma settle_reader_step:
  assumes "bank_ok w" "settle_reader sha ctx now rid n w = (res, w')"
  shows "bank_ok w' \<and> bank_follows w w' \<and> bw_readers w' = bw_readers w \<and>
    (\<forall>m. res = Inr m \<longrightarrow> touched (due (bw_readers w) [rid]) (rows w) (rows w') \<and>
       snd m = snd n + length (filter (due (bw_readers w) [rid]) (rows w)))"
proof (cases "usable (bw_readers w) rid")
  case False
  then have "w' = w" "res = Inr n" "\<And>e. \<not> due (bw_readers w) [rid] e"
    using assms(2) by (auto simp: settle_reader_def usable_def due_def split: option.splits)
  with assms(1) show ?thesis by (auto intro: touched_none)
next
  case True
  let ?ts = "reader_transactions w rid"
  have due: "due (bw_readers w) [rid] e \<longleftrightarrow> eligible e \<and> em_emoney_reader_id e = Some rid" for e
    using True by (auto simp: due_def)
  have set_ts: "set ?ts = {e \<in> set (rows w). due (bw_readers w) [rid] e}"
    by (auto simp: reader_transactions_def due)
  have len: "length ?ts = length (filter (due (bw_readers w) [rid]) (rows w))"
    by (simp add: reader_transactions_def due[abs_def])
  show ?thesis
  proof (cases "?ts = [] \<or> ctx = NoContext")
    case t: True
    then have "w' = w" "?ts = [] \<longrightarrow> res = Inr n" "?ts \<noteq> [] \<longrightarrow> isl res"
      using assms(2) True t by (auto simp: settle_reader_def usable_def Let_def split: option.splits if_splits)
    moreover have "touched (due (bw_readers w) [rid]) (rows w) (rows w)" if "?ts = []"
      using set_ts that by (intro touched_none) auto
    ultimately show ?thesis using assms(1) len by auto
  next
    case t: False
    with True assms(2) obtain mid tid where run:
      "settle_chunks sha ctx now rid mid tid (chunks MAX_TRX_PER_FILE ?ts) n w = (res, w')"
      by (auto simp: settle_reader_def usable_def Let_def split: option.splits)
    have cc: "concat (chunks MAX_TRX_PER_FILE ?ts) = ?ts"
      by (rule concat_chunks) (simp add: MAX_TRX_PER_FILE_def)
    have ids: "distinct (map em_id (rows w))" using assms(1) by (simp add: bank_ok_def)
    then have "distinct (map em_id ?ts)"
      unfolding reader_transactions_def distinct_map by (auto intro: inj_on_subset)
    then have rd: "ready w (concat (chunks MAX_TRX_PER_FILE ?ts))"
      using set_ts by (auto simp: ready_def cc due eligible_def)
    have mem: "em_id e \<in> em_id ` set ?ts \<longleftrightarrow> due (bw_readers w) [rid] e" if "e \<in> set (rows w)" for e
      using that ids set_ts by (auto simp: distinct_map inj_on_def)
    from settle_chunks_step[OF assms(1) rd _ run] chunks_short show ?thesis
      unfolding cc len using touched_cong[OF _ mem] by force
  qed
qed

lemma settle_readers_step:
  assumes "bank_ok w" "settle_readers sha ctx now rs n w = (res, w')"
  shows "bank_ok w' \<and> bank_follows w w' \<and>
    (\<forall>m. res = Inr m \<longrightarrow> touched (due (bw_readers w) rs) (rows w) (rows w') \<and>
       snd m = snd n + length (filter (due (bw_readers w) rs) (rows w)))"
  using assms
proof (induction rs arbitrary: n w)
  case Nil
  then show ?case by (auto simp: due_def intro: touched_none)
next
  case (Cons r rs)
  obtain q v where v: "settle_reader sha ctx now r n w = (q, v)" by fastforce
  note step = settle_reader_step[OF Cons.prems(1) v]
  show ?case
  proof (cases q)
    case (Inl e)
    with step Cons.prems(2) v show ?thesis by auto
  next
    case (Inr m)
    with Cons.prems(2) v have run: "settle_readers sha ctx now rs m v = (res, w')" by simp
    have t: "touched (due (bw_readers w) [r]) (rows w) (rows v)"
      "snd m = snd n + length (filter (due (bw_readers w) [r]) (rows w))"
      using step Inr by auto
    note IH = Cons.IH[OF _ run]
    have "touched (due (bw_readers w) (r # rs)) (rows w) (rows w')"
      if "touched (due (bw_readers w) rs) (rows v) (rows w')"
      by (rule touched_trans[OF t(1) that]) (simp_all add: due_Cons[of _ r rs])
    with IH step t(2) due_append_length[OF t(1), of rs] show ?thesis
      using bank_follows_trans by fastforce
  qed
qed

lemma acquire_lock_tables: "acquire_lock t now w = (b, w') \<Longrightarrow> same_tables w w' \<and> bw_readers w' = bw_readers w"
  by (auto simp: acquire_lock_def same_tables_def split: if_splits)

lemma unsettled_due:
  assumes "set ids = set (unsettled_readers w)" "e \<in> set (rows w)"
  shows "due rds ids e \<longleftrightarrow> eligible e \<and> (\<exists>rid. em_emoney_reader_id e = Some rid \<and> usable rds rid)"
proof -
  have "rid \<in> set (unsettled_readers w)" if "eligible e" "em_emoney_reader_id e = Some rid" for rid
    using that assms(2) by (force simp: unsettled_readers_def map_filter_def)
  with assms(1) show ?thesis by (auto simp: due_def)
qed

lemma generate_step:
  assumes "bank_ok w" "generate_settlement_file sha ord ctx t_lock t_now now w = (res, w')"
  shows "bank_ok w' \<and> bank_follows w w' \<and>
    (\<forall>f n. res = Inr (Settled f n) \<and> set (ord (unsettled_readers w)) = set (unsettled_readers w) \<longrightarrow>
       touched (\<lambda>e. eligible e \<and> (\<exists>rid. em_emoney_reader_id e = Some rid \<and> usable (bw_readers w) rid))
         (rows w) (rows w') \<and>
       n = length (filter (\<lambda>e. eligible e \<and> (\<exists>rid. em_emoney_reader_id e = Some rid \<and> usable (bw_readers w) rid)) (rows w)))"
proof -
  obtain got v where v: "(if ctx = ArqContext then acquire_lock t_lock t_now w else (True, w)) = (got, v)"
    by fastforce
  have tab: "same_tables w v" "bw_readers v = bw_readers w"
    using v acquire_lock_tables by (auto simp: same_tables_def split: if_splits)
  have ok: "bank_ok v" "bank_follows w v"
    using assms(1) tab same_tables_ok same_tables_follows by auto
  have ur: "unsettled_readers v = unsettled_readers w" "rows v = rows w"
    using tab by (simp_all add: unsettled_readers_def same_tables_def)
  let ?due = "\<lambda>e. eligible e \<and> (\<exists>rid. em_emoney_reader_id e = Some rid \<and> usable (bw_readers w) rid)"
  show ?thesis
  proof (cases "\<not> got \<or> unsettled_readers v = []")
    case True
    then have w': "w' = v" "\<not> got \<Longrightarrow> res = Inr SkippedLocked" "got \<Longrightarrow> res = Inr (Settled 0 0)"
      using assms(2) v by (auto simp: generate_settlement_file_def split: if_splits)
    have "\<not> ?due e" if "got" "e \<in> set (rows w)" for e
      using True that unsettled_due[of "[]" w e "bw_readers w"] ur by (auto simp: due_def)
    then have "touched ?due (rows w) (rows v) \<and> length (filter ?due (rows w)) = 0" if "got"
      using that ur touched_none[of "rows w" ?due] by (auto simp: filter_empty_conv)
    with w' ok show ?thesis by (cases got) auto
  next
    case False
    obtain q u where u: "settle_readers sha ctx now (ord (unsettled_readers v)) (0, 0) v = (q, u)" by fastforce
    from False assms(2) v u have w': "w' = u"
      "res = (case q of Inl e \<Rightarrow> Inl e | Inr m \<Rightarrow> Inr (Settled (fst m) (snd m)))"
      by (auto simp: generate_settlement_file_def split: if_splits sum.splits prod.splits)
    note step = settle_readers_step[OF ok(1) u]
    have "touched ?due (rows w) (rows u) \<and> snd m = length (filter ?due (rows w))"
      if "q = Inr m" "set (ord (unsettled_readers w)) = set (unsettled_readers w)" for m
    proof -
      have cong: "due (bw_readers v) (ord (unsettled_readers v)) e = ?due e" if "e \<in> set (rows w)" for e
        using unsettled_due[OF \<open>set (ord (unsettled_readers w)) = _\<close> that] ur(1) tab(2) by simp
      with step that(1) have "touched (due (bw_readers v) (ord (unsettled_readers v))) (rows w) (rows u)"
        "snd m = length (filter (due (bw_readers v) (ord (unsettled_readers v))) (rows w))"
        by (auto simp: ur(2))
      moreover have "filter (due (bw_readers v) (ord (unsettled_readers v))) (rows w) = filter ?due (rows w)"
        using cong by (rule filter_cong[OF refl])
      ultimately show ?thesis using touched_cong[OF _ cong] by simp
    qed
    with step w' ok(2) bank_follows_trans show ?thesis by (auto split: sum.splits)
  qed
qed

section \<open>The other jobs\<close>

text \<open>A row replaced by one that differs in columns the invariant does not read.\<close>

lemma put_settlement_step:
  assumes "bank_ok w" "r \<in> set (bw_settlements w)"
    and "st_id r' = st_id r" "st_filename r' = st_filename r"
      "st_total_amount r' = st_total_amount r" "st_total_transactions r' = st_total_transactions r"
      "settlement_moves\<^sup>*\<^sup>* (st_status r) (st_status r')"
  shows "bank_ok (put_settlement r' w) \<and> bank_follows w (put_settlement r' w)"
proof -
  have ids: "map st_id (bw_settlements (put_settlement r' w)) = map st_id (bw_settlements w)"
    by (auto simp: put_settlement_def)
  have tabs: "rows (put_settlement r' w) = rows w" "bw_next_id (put_settlement r' w) = bw_next_id w"
    by (simp_all add: put_settlement_def)
  have mem: "x \<in> set (bw_settlements (put_settlement r' w)) \<Longrightarrow> x = r' \<or> x \<in> set (bw_settlements w)" for x
    by (auto simp: put_settlement_def)
  have uniq: "x = r" if "x \<in> set (bw_settlements w)" "st_id x = st_id r" for x
    using assms(1,2) that by (auto simp: bank_ok_def distinct_map inj_on_def)
  have "bank_ok (put_settlement r' w)"
    using assms(1) unfolding bank_ok_def tabs
  proof (elim conjE, intro conjI)
    assume "distinct (map st_id (bw_settlements w))"
    then show "distinct (map st_id (bw_settlements (put_settlement r' w)))" by (simp only: ids)
    assume a: "\<forall>x \<in> set (bw_settlements w). st_id x < bw_next_id w \<and>
        st_total_transactions x = length (batch_rows (st_id x) (rows w)) \<and>
        st_total_transactions x \<le> MAX_TRX_PER_FILE \<and>
        st_total_amount x = sum_list (map em_amount_deducted (batch_rows (st_id x) (rows w)))"
    then show "\<forall>x \<in> set (bw_settlements (put_settlement r' w)). st_id x < bw_next_id w \<and>
        st_total_transactions x = length (batch_rows (st_id x) (rows w)) \<and>
        st_total_transactions x \<le> MAX_TRX_PER_FILE \<and>
        st_total_amount x = sum_list (map em_amount_deducted (batch_rows (st_id x) (rows w)))"
    proof (intro ballI)
      fix x assume "x \<in> set (bw_settlements (put_settlement r' w))"
      from mem[OF this] show "st_id x < bw_next_id w \<and>
        st_total_transactions x = length (batch_rows (st_id x) (rows w)) \<and>
        st_total_transactions x \<le> MAX_TRX_PER_FILE \<and>
        st_total_amount x = sum_list (map em_amount_deducted (batch_rows (st_id x) (rows w)))"
        using bspec[OF a assms(2)] bspec[OF a, of x] assms(3,5,6) by (elim disjE) simp_all
    qed
    assume "\<forall>e \<in> set (rows w). \<forall>i. em_settlement_batch_id e = Some i \<longrightarrow> i \<in> st_id ` set (bw_settlements w)"
    then show "\<forall>e \<in> set (rows w). \<forall>i. em_settlement_batch_id e = Some i \<longrightarrow>
        i \<in> st_id ` set (bw_settlements (put_settlement r' w))"
      using arg_cong[OF ids, of set] by (simp add: image_set[symmetric])
  qed
  moreover have "\<exists>y \<in> set (bw_settlements (put_settlement r' w)). st_id y = st_id x \<and>
      st_filename y = st_filename x \<and> st_total_amount y = st_total_amount x \<and>
      st_total_transactions y = st_total_transactions x \<and> settlement_moves\<^sup>*\<^sup>* (st_status x) (st_status y)"
    if x: "x \<in> set (bw_settlements w)" for x
  proof (cases "st_id x = st_id r")
    case True
    with uniq x have "x = r" by simp
    moreover have "r' \<in> set (bw_settlements (put_settlement r' w))"
      using assms(2,3) by (auto simp: put_settlement_def image_iff intro!: bexI[of _ r])
    ultimately show ?thesis using assms(3-7) by blast
  next
    case False
    with x assms(3) have "x \<in> set (bw_settlements (put_settlement r' w))"
      by (auto simp: put_settlement_def image_iff intro!: bexI[of _ x])
    then show ?thesis by blast
  qed
  ultimately show ?thesis by (auto simp: bank_follows_def tabs list_all2_refl)
qed

lemma get_settlement_in: "get_settlement w i = Some r \<Longrightarrow> r \<in> set (bw_settlements w) \<and> st_id r = i"
  by (auto simp: get_settlement_def find_Some_iff)

lemma upload_file_tables: "upload_settlement_file sf d path w = (res, w') \<Longrightarrow> same_tables w w'"
  by (auto simp: upload_settlement_file_def same_tables_def Let_def split: option.splits if_splits)

lemma upload_step:
  assumes "bank_ok w"
  shows "bank_ok (snd (upload_settlement_job cfg sf now sid w)) \<and>
    bank_follows w (snd (upload_settlement_job cfg sf now sid w))"
proof (cases "ss_host cfg = [] \<or> get_settlement w sid = None \<or>
    st_status (the (get_settlement w sid)) \<notin> {''GENERATED'', ''FAILED''}")
  case True
  with assms show ?thesis by (auto simp: upload_settlement_job_def split: option.splits)
next
  case False
  then obtain r where r: "get_settlement w sid = Some r" "st_status r \<in> {''GENERATED'', ''FAILED''}" by auto
  obtain q v where v: "upload_settlement_file sf (ss_remote_dir cfg) (st_file_path r) w = (q, v)" by fastforce
  note tab = upload_file_tables[OF v]
  have ok: "bank_ok v" "bank_follows w v" using assms tab same_tables_ok same_tables_follows by auto
  have "r \<in> set (bw_settlements v)" using get_settlement_in[OF r(1)] tab by (simp add: same_tables_def)
  note put = put_settlement_step[OF ok(1) this]
  have "settlement_moves\<^sup>*\<^sup>* (st_status r) ''FAILED''" "settlement_moves\<^sup>*\<^sup>* (st_status r) ''UPLOADED''"
    using r(2) by (auto intro: settlement_moves.intros)
  with put[of "r\<lparr>st_status := ''FAILED''\<rparr>"]
    put[of "r\<lparr>st_status := ''UPLOADED'', st_uploaded_at := Some now\<rparr>"] False r v
  show ?thesis
    using bank_follows_trans[OF ok(2)] by (auto simp: upload_settlement_job_def split: sum.splits)
qed

lemma final_status_move: "settlement_moves ''UPLOADED'' (final_status ext m n)"
  by (auto simp: final_status_def intro!: settlement_moves.acked)

lemma mark_simps [simp]:
  "em_id (mark_row rs now e) = em_id e" "em_amount_deducted (mark_row rs now e) = em_amount_deducted e"
  "em_settlement_batch_id (mark_row rs now e) = em_settlement_batch_id e"
  "em_settlement_payload_hex (mark_row rs now e) = em_settlement_payload_hex e"
  by (simp_all add: mark_row_def)

text \<open>Marking rows leaves every batch what it was.\<close>

lemma mark_rows_step:
  assumes "bank_ok w" "\<And>e. f e = e \<or> f e = mark_row rs now e"
    and "w' = w\<lparr>bw_core := (bw_core w)\<lparr>emoney_txs := map f (rows w)\<rparr>\<rparr>"
  shows "bank_ok w' \<and> bank_follows w w' \<and> bw_settlements w' = bw_settlements w"
proof -
  have f: "em_id (f e) = em_id e" "em_amount_deducted (f e) = em_amount_deducted e"
    "em_settlement_batch_id (f e) = em_settlement_batch_id e"
    "em_settlement_payload_hex (f e) = em_settlement_payload_hex e" for e
    using assms(2)[of e] by (metis mark_simps)+
  have batch: "batch_rows i (map f es) = map f (batch_rows i es)" for i es
    by (simp add: batch_rows_def filter_map o_def f)
  have "list_all2 row_kept (rows w) (map f (rows w))"
    unfolding list.rel_map by (rule list.rel_refl_strong) (simp add: row_kept_def f)
  moreover have "bank_ok w'"
    using assms(1) by (simp add: bank_ok_def assms(3) batch o_def f) (metis)
  ultimately show ?thesis by (auto simp: bank_follows_def assms(3))
qed

lemma reconcile_step:
  assumes "bank_ok w" "r \<in> set (bw_settlements w)" "st_status r = ''UPLOADED''"
    and "reconcile ext content now r w = (st, w')"
  shows "bank_ok w' \<and> bank_follows w w' \<and>
    (\<forall>x \<in> set (bw_settlements w). st_id x \<noteq> st_id r \<longrightarrow> x \<in> set (bw_settlements w'))"
proof -
  define f where "f = (\<lambda>e. if em_settlement_batch_id e = Some (st_id r)
    then mark_row (response_results ext content) now e else e)"
  define v where "v = w\<lparr>bw_core := (bw_core w)\<lparr>emoney_txs := map f (rows w)\<rparr>\<rparr>"
  obtain r' where w': "w' = put_settlement r' v" "st_id r' = st_id r" "st_filename r' = st_filename r"
      "st_total_amount r' = st_total_amount r" "st_total_transactions r' = st_total_transactions r"
      "settlement_moves\<^sup>*\<^sup>* (st_status r) (st_status r')"
  proof
    show "w' = put_settlement (r\<lparr>st_status := st, st_response_received_at := Some now,
        st_response_extension := Some ext\<rparr>) v"
      using assms(4) by (auto simp: reconcile_def f_def v_def Let_def)
  qed (use assms(3,4) final_status_move in \<open>auto simp: reconcile_def Let_def\<close>)
  have mark: "bank_ok v" "bank_follows w v" "bw_settlements v = bw_settlements w"
    using mark_rows_step[OF assms(1) _ v_def, of "response_results ext content" now] by (auto simp: f_def)
  from put_settlement_step[OF mark(1) _ w'(2-6)] assms(2) mark(3)
  have "bank_ok w'" "bank_follows v w'" by (simp_all add: w'(1))
  moreover have "x \<in> set (bw_settlements w')" if "x \<in> set (bw_settlements w)" "st_id x \<noteq> st_id r" for x
    using that w'(2) mark(3) by (auto simp: w'(1) put_settlement_def image_iff intro!: bexI[of _ x])
  ultimately show ?thesis using bank_follows_trans[OF mark(2)] by blast
qed

lemma poll_loop_step:
  assumes "bank_ok w" "distinct (map st_id rs)"
    and "\<forall>r \<in> set rs. r \<in> set (bw_settlements w) \<and> st_status r = ''UPLOADED''"
  shows "bank_ok (snd (poll_loop cfg con bank now rs n w)) \<and>
    bank_follows w (snd (poll_loop cfg con bank now rs n w))"
  using assms
proof (induction rs arbitrary: n w)
  case (Cons r rs)
  show ?case
  proof (cases "\<exists>ext c. fetch_response_file bank (con r) (ss_response_dir cfg) (st_filename r) = Inr (Some (ext, c))")
    case False
    then have "poll_loop cfg con bank now (r # rs) n w = poll_loop cfg con bank now rs n w"
      by (auto split: sum.splits option.splits)
    with Cons show ?thesis by simp
  next
    case True
    then obtain ext c where fetch:
      "fetch_response_file bank (con r) (ss_response_dir cfg) (st_filename r) = Inr (Some (ext, c))" by blast
    obtain st v where v: "reconcile ext c now r w = (st, v)" by fastforce
    from Cons.prems(3) have "r \<in> set (bw_settlements w)" "st_status r = ''UPLOADED''" by simp_all
    note step = reconcile_step[OF Cons.prems(1) this v]
    have "\<forall>x \<in> set rs. x \<in> set (bw_settlements v) \<and> st_status x = ''UPLOADED''"
      using step Cons.prems(2,3) by (auto simp: image_iff)
    with Cons.IH[of v "count_status st n"] step Cons.prems(2) bank_follows_trans show ?thesis
      by (auto simp: fetch v)
  qed
qed simp

lemma poll_step:
  assumes "bank_ok w"
  shows "bank_ok (snd (poll_settlement_responses cfg con bank now w)) \<and>
    bank_follows w (snd (poll_settlement_responses cfg con bank now w))"
proof -
  have "distinct (map st_id (pending_settlements now w))"
    using assms unfolding pending_settlements_def distinct_map bank_ok_def by (auto intro: inj_on_subset)
  moreover have "\<forall>r \<in> set (pending_settlements now w). r \<in> set (bw_settlements w) \<and> st_status r = ''UPLOADED''"
    by (simp add: pending_settlements_def)
  ultimately show ?thesis
    using poll_loop_step[OF assms, of "pending_settlements now w" cfg con bank now
        "\<lparr>pc_processed = 0, pc_acked_ok = 0, pc_acked_nok = 0, pc_partial = 0\<rparr>"] assms
    by (simp add: poll_settlement_responses_def case_prod_beta)
qed

section \<open>The jobs together\<close>

datatype settle_op =
    Generate "int list \<Rightarrow> int list" arq_ctx local_time time local_time
  | Upload sftp_settings sftp time int
  | Poll sftp_settings "settlement \<Rightarrow> bool" "string \<Rightarrow> fetched" time

fun run_job :: "(string \<Rightarrow> string) \<Rightarrow> settle_op \<Rightarrow> bank_world \<Rightarrow> bank_world" where
  "run_job sha (Generate ord ctx t_lock t_now now) w =
     snd (generate_settlement_file sha ord ctx t_lock t_now now w)"
| "run_job sha (Upload cfg sf now sid) w = snd (upload_settlement_job cfg sf now sid w)"
| "run_job sha (Poll cfg con bank now) w = snd (poll_settlement_responses cfg con bank now w)"

interpretation jobs: settlement_job "run_job sha" for sha
proof
  fix w op assume ok: "bank_ok w"
  have "bank_ok (run_job sha op w) \<and> bank_follows w (run_job sha op w)"
  proof (cases op)
    case (Generate ord ctx t_lock t_now now)
    with generate_step[OF ok, of sha ord ctx t_lock t_now now] show ?thesis
      by (cases "generate_settlement_file sha ord ctx t_lock t_now now w") auto
  qed (use upload_step[OF ok] poll_step[OF ok] in simp_all)
  then show "bank_ok (run_job sha op w)" "bank_follows w (run_job sha op w)" by simp_all
qed

section \<open>Properties\<close>

text \<open>
  C5. Money is conserved through every sequence of generations, uploads and polls: each settlement's
  count and total are those of the rows linked to it, never more than 999; a linked row stays
  linked to the same settlement and no row's amount changes; a settlement keeps its file and its
  totals and only moves forward along its life cycle.
\<close>

theorem settlement_conservation:
  assumes "bank_ok w"
  shows "(\<forall>r \<in> set (bw_settlements (fold (run_job sha) ops w)).
      st_total_transactions r = length (batch_rows (st_id r) (rows (fold (run_job sha) ops w))) \<and>
      st_total_transactions r \<le> 999 \<and>
      st_total_amount r =
        sum_list (map em_amount_deducted (batch_rows (st_id r) (rows (fold (run_job sha) ops w))))) \<and>
    bank_follows w (fold (run_job sha) ops w)"
  using jobs.jobs_ok[OF assms, of sha ops] jobs.jobs_follow[OF assms, of sha ops]
  unfolding bank_ok_def MAX_TRX_PER_FILE_def by blast

text \<open>Linking a row makes its batch longer, so a row is never linked to a settlement that was there before.\<close>

lemma touched_batch_le:
  assumes "touched P es es'" "\<forall>e \<in> set es. P e \<longrightarrow> em_settlement_batch_id e = None"
  shows "length (batch_rows i es) \<le> length (batch_rows i es')"
  using assms unfolding touched_def
proof (induction es es' rule: list_all2_induct)
  case (Cons e es e' es')
  then show ?case by (cases "P e") (auto simp: batch_rows_def)
qed simp

lemma touched_batch:
  assumes "touched P es es'" "\<forall>e \<in> set es. P e \<longrightarrow> em_settlement_batch_id e = None"
    and "k < length es" "P (es ! k)" "em_settlement_batch_id (es' ! k) = Some i"
  shows "length (batch_rows i es) < length (batch_rows i es')"
  using assms unfolding touched_def
proof (induction es es' arbitrary: k rule: list_all2_induct)
  case (Cons e es e' es')
  have le: "length (batch_rows i es) \<le> length (batch_rows i es')"
    using Cons.hyps(2) Cons.prems(1) by (intro touched_batch_le[where P = P]) (simp_all add: touched_def)
  show ?case
  proof (cases k)
    case 0
    with Cons.prems le show ?thesis by (auto simp: batch_rows_def)
  next
    case (Suc j)
    with Cons.prems Cons.IH[of j] have "length (batch_rows i es) < length (batch_rows i es')" by simp
    with Cons.hyps(1) Cons.prems(1) show ?thesis by (cases "P e") (auto simp: batch_rows_def)
  qed
qed simp

lemma touched_new_settlement:
  assumes ok: "bank_ok w" "bank_ok w'" "bank_follows w w'"
    and t: "touched P (rows w) (rows w')" "\<forall>e \<in> set (rows w). P e \<longrightarrow> em_settlement_batch_id e = None"
  shows "list_all2 (\<lambda>e e'. if P e
      then \<exists>r \<in> set (bw_settlements w'). e' = e\<lparr>em_settlement_batch_id := Some (st_id r)\<rparr> \<and>
        st_id r \<notin> st_id ` set (bw_settlements w) \<and> length (batch_rows (st_id r) (rows w')) \<le> 999
      else e' = e) (rows w) (rows w')"
  unfolding list_all2_conv_all_nth
proof (intro conjI allI impI)
  show len: "length (rows w) = length (rows w')" using t(1) by (auto simp: touched_def dest: list_all2_lengthD)
  fix k assume k: "k < length (rows w)"
  let ?e = "rows w ! k" and ?e' = "rows w' ! k"
  have step: "if P ?e then \<exists>i. ?e' = ?e\<lparr>em_settlement_batch_id := Some i\<rparr> else ?e' = ?e"
    using t(1) k by (simp add: touched_def list_all2_conv_all_nth)
  show "if P ?e
      then \<exists>r \<in> set (bw_settlements w'). ?e' = ?e\<lparr>em_settlement_batch_id := Some (st_id r)\<rparr> \<and>
        st_id r \<notin> st_id ` set (bw_settlements w) \<and> length (batch_rows (st_id r) (rows w')) \<le> 999
      else ?e' = ?e"
  proof (cases "P ?e")
    case True
    with step obtain i where i: "?e' = ?e\<lparr>em_settlement_batch_id := Some i\<rparr>" by auto
    have "?e' \<in> set (rows w')" using k len by simp
    with ok(2) i obtain r where r: "r \<in> set (bw_settlements w')" "st_id r = i"
      by (fastforce simp: bank_ok_def)
    have longer: "length (batch_rows i (rows w)) < length (batch_rows i (rows w'))"
      using touched_batch[OF t k True] i by simp
    have "st_id x \<noteq> i" if "x \<in> set (bw_settlements w)" for x
    proof
      assume x: "st_id x = i"
      from ok(3) that obtain x' where x': "x' \<in> set (bw_settlements w')" "st_id x' = st_id x"
        "st_total_transactions x' = st_total_transactions x" unfolding bank_follows_def by blast
      with ok(1,2) that x longer show False by (simp add: bank_ok_def)
    qed
    then have "st_id r \<notin> st_id ` set (bw_settlements w)" unfolding r(2) by blast
    moreover have "length (batch_rows (st_id r) (rows w')) \<le> 999"
    proof -
      from ok(2) r(1) have "st_total_transactions r = length (batch_rows (st_id r) (rows w'))"
        "st_total_transactions r \<le> MAX_TRX_PER_FILE" unfolding bank_ok_def by blast+
      then show ?thesis by (simp add: MAX_TRX_PER_FILE_def)
    qed
    moreover have "?e' = ?e\<lparr>em_settlement_batch_id := Some (st_id r)\<rparr>" unfolding r(2) by (rule i)
    ultimately show ?thesis unfolding if_P[OF True] using r by blast
  qed (use step in simp)
qed

text \<open>
  C14. A run settles exactly what it should: when it ends normally, the rows that got linked are the
  successful, unsettled, non-QR ones whose reader has both numbers, in whatever order the
  database lists the readers; each is linked to a settlement this run has made, none of which holds more
  than 999 rows; every other row is untouched, and the reported count is theirs.
\<close>

theorem settlement_exact:
  assumes "bank_ok w" "generate_settlement_file sha ord ctx t_lock t_now now w = (Inr (Settled f n), w')"
    and "set (ord (unsettled_readers w)) = set (unsettled_readers w)"
  shows "list_all2 (\<lambda>e e'.
      if eligible e \<and> (\<exists>rid. em_emoney_reader_id e = Some rid \<and> usable (bw_readers w) rid)
      then \<exists>r \<in> set (bw_settlements w'). e' = e\<lparr>em_settlement_batch_id := Some (st_id r)\<rparr> \<and>
        st_id r \<notin> st_id ` set (bw_settlements w) \<and> length (batch_rows (st_id r) (rows w')) \<le> 999
      else e' = e) (rows w) (rows w') \<and>
    n = length (filter (\<lambda>e. eligible e \<and>
          (\<exists>rid. em_emoney_reader_id e = Some rid \<and> usable (bw_readers w) rid)) (rows w))"
proof -
  note step = generate_step[OF assms(1,2)]
  show ?thesis
    using step assms(3) touched_new_settlement[OF assms(1), of w'
        "\<lambda>e. eligible e \<and> (\<exists>rid. em_emoney_reader_id e = Some rid \<and> usable (bw_readers w) rid)"]
    by (simp add: eligible_def)
qed

text \<open>
  One run an hour and day: after a run of the worker that took the lease, another one of the same
  day within the hour does nothing, as long as Redis keeps the lease.
\<close>

theorem settlement_lease:
  assumes "redis_up (bw_core w)" "bw_locks w (lock_key t_lock) = None"
    and "generate_settlement_file sha ord ArqContext t_lock t_now now w = (r, w')"
    and "redis_up (bw_core v)" "bw_locks v = bw_locks w'"
    and "day_key t_lock' = day_key t_lock" "t_now' < t_now + 3600 * us_per_second"
  shows "generate_settlement_file sha ord' ArqContext t_lock' t_now' now' v = (Inr SkippedLocked, v)"
proof -
  have chunk: "bw_locks b = bw_locks a" if "settle_chunk sha ctx now rid mid tid c a = (x, b)" for ctx rid mid tid c a b x
    using that by (auto simp: settle_chunk_def next_batch_number_def commit_chunk_def enqueue_upload_def
        Let_def split: sum.splits if_splits prod.splits)
  have chunks: "bw_locks b = bw_locks a" if "settle_chunks sha ctx now rid mid tid cs m a = (x, b)"
    for ctx rid mid tid cs m a b x
    using that by (induction cs arbitrary: m a) (auto dest: chunk split: sum.splits prod.splits)
  have reader: "bw_locks b = bw_locks a" if "settle_reader sha ctx now rid m a = (x, b)" for ctx rid m a b x
    using that by (auto simp: settle_reader_def Let_def dest: chunks split: option.splits if_splits)
  have readers: "bw_locks b = bw_locks a" if "settle_readers sha ctx now rs m a = (x, b)" for ctx rs m a b x
    using that by (induction rs arbitrary: m a) (auto dest: reader split: sum.splits prod.splits)
  have "bw_locks w' (lock_key t_lock) = Some (t_now + 3600 * us_per_second)"
    using assms(1-3) by (auto simp: generate_settlement_file_def acquire_lock_def dest!: readers
        split: if_splits sum.splits prod.splits)
  then have "acquire_lock t_lock' t_now' v = (False, v)"
    using assms(4-7) by (simp add: acquire_lock_def lock_key_def)
  then show ?thesis by (simp add: generate_settlement_file_def)
qed

text \<open>A day with one deduct by a reader that has its numbers and one by none.\<close>

definition example_row :: emtx where
  "example_row = \<lparr>em_id = 1, em_parking_transaction_id = Some 1, em_emoney_reader_id = Some 4,
     em_card_number = ''6032'', em_card_type = None, em_card_type_code = Some 2,
     em_amount_deducted = 5000, em_balance_before = None, em_balance_after = None,
     em_transaction_counter = None, em_status = ''SUCCESS'', em_raw_response_hex = None,
     em_settlement_payload_hex = Some ''02A7'', em_settlement_batch_id = None,
     em_bank_response_status = None, em_bank_response_at = None, em_created_at = 0\<rparr>"

definition example_bank :: bank_world where
  "example_bank = \<lparr>bw_core = \<lparr>txs = [], emoney_txs = [example_row,
       example_row\<lparr>em_id := 2, em_emoney_reader_id := None\<rparr>],
       gates = [], members = [], vtypes = [], shifts = [], next_tx_id = 1, next_em_id = 3,
       pending = Map.empty, jobs = [], redis_up = True\<rparr>,
     bw_readers = [\<lparr>rd_id = 4, rd_mid = Some ''1'', rd_tid = Some ''2''\<rparr>],
     bw_settlements = [], bw_next_id = 1, bw_files = Map.empty, bw_locks = Map.empty,
     bw_counters = (\<lambda>_. 0), bw_uploads = [], bw_remote = Map.empty\<rparr>"

definition example_day :: local_time where
  "example_day = \<lparr>lt_year = 2026, lt_month = 5, lt_day = 14, lt_hour = 2, lt_minute = 0, lt_second = 0\<rparr>"

lemma example_bank_ok: "bank_ok example_bank"
  by (simp add: bank_ok_def example_bank_def example_row_def)

lemma ascii_digits: "list_all is_digit s \<Longrightarrow> ascii s"
  by (fastforce simp: ascii_def list_all_iff is_digit_def Let_def)

lemma example_chunk: "fst (settle_chunk sha ctx now rid mid tid [example_row] w) = Inr ()"
proof -
  have "ascii (fmt0 3 1)" "ascii (fmt0 10 5000)"
    by (simp_all add: ascii_digits fmt0_digits)
  then have "ascii (fmt0 3 1 @ fmt0 10 5000 @ [NL] @ body_line (Some ''02A7''))"
    by (simp add: ascii_def body_line_def NL_def upper_def upper_char_def)
  then show ?thesis
    by (simp add: settle_chunk_def case_prod_beta build_settlement_content_def example_row_def Let_def)
qed

lemma example_run:
  "\<exists>w'. generate_settlement_file id id ArqContext example_day 0 example_day example_bank = (Inr (Settled 1 1), w')"
proof -
  obtain v where v: "acquire_lock example_day 0 example_bank = (True, v)"
    "rows v = rows example_bank" "bw_readers v = bw_readers example_bank"
    by (simp add: acquire_lock_def example_bank_def)
  have ts: "unsettled_readers v = [4]" "reader_transactions v 4 = [example_row]"
    using v(2) by (simp_all add: unsettled_readers_def reader_transactions_def example_bank_def
        example_row_def eligible_def QR_CARD_TYPE_CODE_def map_filter_simps)
  have ch: "chunks MAX_TRX_PER_FILE [example_row] = [[example_row]]"
    by (simp add: MAX_TRX_PER_FILE_def chunks.simps)
  obtain u where "settle_chunk id ArqContext example_day 4 ''1'' ''2'' [example_row] v = (Inr (), u)"
    using example_chunk[of id ArqContext example_day 4 "''1''" "''2''" v]
    by (cases "settle_chunk id ArqContext example_day 4 ''1'' ''2'' [example_row] v") auto
  then show ?thesis
    using v ts ch by (simp add: generate_settlement_file_def settle_reader_def example_bank_def)
qed

theorem settlement_conservation_witness:
  "list_all (\<lambda>r. st_total_transactions r \<le> 999) (bw_settlements (fold (run_job id)
       [Generate id ArqContext example_day 0 example_day, Poll \<lparr>ss_host = ''h'', ss_remote_dir = ''/'',
          ss_response_dir = ''/''\<rparr> (\<lambda>_. True) (\<lambda>_. Missing) 0] example_bank))"
  unfolding list_all_iff using settlement_conservation[OF example_bank_ok] by blast

theorem settlement_exact_witness:
  "\<exists>w' i. generate_settlement_file id id ArqContext example_day 0 example_day example_bank =
      (Inr (Settled 1 1), w') \<and>
    rows w' = [example_row\<lparr>em_settlement_batch_id := Some i\<rparr>, example_row\<lparr>em_id := 2, em_emoney_reader_id := None\<rparr>]"
proof -
  obtain w' where w': "generate_settlement_file id id ArqContext example_day 0 example_day example_bank =
      (Inr (Settled 1 1), w')" using example_run by blast
  from settlement_exact[OF example_bank_ok w'] show ?thesis
    using w' by (auto simp: list_all2_Cons1 example_bank_def eligible_def example_row_def usable_def
        QR_CARD_TYPE_CODE_def)
qed

theorem settlement_lease_witness:
  "generate_settlement_file id id ArqContext example_day 60000000 example_day
     (snd (generate_settlement_file id id ArqContext example_day 0 example_day example_bank)\<lparr>bw_core := bw_core example_bank\<rparr>) =
   (Inr SkippedLocked,
     snd (generate_settlement_file id id ArqContext example_day 0 example_day example_bank)\<lparr>bw_core := bw_core example_bank\<rparr>)"
  by (rule settlement_lease[of example_bank example_day id id 0 example_day
        "fst (generate_settlement_file id id ArqContext example_day 0 example_day example_bank)"
        "snd (generate_settlement_file id id ArqContext example_day 0 example_day example_bank)"])
     (simp_all add: example_bank_def)

text \<open>
  The upload. A settlement whose file is gone is marked UPLOADED although nothing is sent; with
  the file there, success leaves the whole file under its final name and no partial one, and any
  failure marks the settlement FAILED, raises, and leaves the final name as it was, so the bank
  never sees half a file.
\<close>

theorem upload_outcomes:
  assumes "ss_host cfg \<noteq> []" "get_settlement w sid = Some r" "st_status r \<in> {''GENERATED'', ''FAILED''}"
    and "st_file_path r = Some path" "upload_settlement_job cfg sf now sid w = (res, w')"
  defines "target \<equiv> clean_dir (ss_remote_dir cfg) @ ''/'' @ basename path"
  shows "case bw_files w path of
      None \<Rightarrow> res = Inr (Uploaded sid) \<and> bw_remote w' = bw_remote w \<and>
        get_settlement w' sid = Some (r\<lparr>st_status := ''UPLOADED'', st_uploaded_at := Some now\<rparr>)
    | Some content \<Rightarrow>
        if sf_asyncssh sf \<and> sf_connect sf \<and> sf_put sf \<and> sf_rename sf
        then res = Inr (Uploaded sid) \<and> bw_remote w' target = Some content \<and>
             bw_remote w' (target @ ''.partial'') = None \<and>
             get_settlement w' sid = Some (r\<lparr>st_status := ''UPLOADED'', st_uploaded_at := Some now\<rparr>)
        else isl res \<and> bw_remote w' target = bw_remote w target \<and>
             get_settlement w' sid = Some (r\<lparr>st_status := ''FAILED''\<rparr>)"
proof -
  have id: "st_id r = sid" using get_settlement_in[OF assms(2)] by simp
  have put: "get_settlement (put_settlement r' v) (st_id r) = Some r'"
    if "st_id r' = st_id r" "bw_settlements v = bw_settlements w" for r' v
  proof -
    have "find (\<lambda>x. st_id x = st_id r) (map (\<lambda>x. if st_id x = st_id r then r' else x) xs) = Some r'"
      if "find (\<lambda>x. st_id x = st_id r) xs = Some r" for xs
      using that \<open>st_id r' = st_id r\<close> by (induction xs) (auto split: if_splits)
    with assms(2) id that show ?thesis by (simp add: get_settlement_def put_settlement_def)
  qed
  have remote: "bw_remote (put_settlement r' v) = bw_remote v" for r' v by (simp add: put_settlement_def)
  show ?thesis
    using assms(1-5) id
    by (auto simp: upload_settlement_job_def upload_settlement_file_def target_def Let_def put remote
        split: option.splits if_splits)
qed

theorem upload_outcomes_witness:
  "\<exists>w'. upload_settlement_job \<lparr>ss_host = ''h'', ss_remote_dir = ''/in/'', ss_response_dir = ''/out''\<rparr>
     \<lparr>sf_asyncssh = True, sf_connect = True, sf_put = True, sf_rename = True\<rparr> 9 1
     (example_bank\<lparr>bw_settlements := [settlement_row id example_day 1 ''f'' ''/d/f'' [] [] 1]\<rparr>) =
       (Inr (Uploaded 1), w') \<and> bw_remote w' = Map.empty"
proof -
  let ?w = "example_bank\<lparr>bw_settlements := [settlement_row id example_day 1 ''f'' ''/d/f'' [] [] 1]\<rparr>"
  let ?cfg = "\<lparr>ss_host = ''h'', ss_remote_dir = ''/in/'', ss_response_dir = ''/out''\<rparr>"
  let ?sf = "\<lparr>sf_asyncssh = True, sf_connect = True, sf_put = True, sf_rename = True\<rparr>"
  obtain res w' where run: "upload_settlement_job ?cfg ?sf 9 1 ?w = (res, w')" by fastforce
  from upload_outcomes[OF _ _ _ _ run, of "settlement_row id example_day 1 ''f'' ''/d/f'' [] [] 1" "''/d/f''"]
  have "res = Inr (Uploaded 1) \<and> bw_remote w' = Map.empty"
    by (simp add: get_settlement_def settlement_row_def example_bank_def)
  with run show ?thesis by blast
qed

text \<open>
  Without Redis every file of a run gets batch number 1: two chunks of one reader (more than 999
  rows) become two settlements with the same file name and path, and the second overwrites the
  first one's file.
\<close>

theorem settlement_overwrite:
  assumes "ctx \<noteq> ArqContext \<or> \<not> redis_up (bw_core w)"
    and "settle_chunks sha ctx now rid mid tid [c1, c2] n w = (Inr m, w')"
  shows "\<exists>r1 r2 content. bw_settlements w' = bw_settlements w @ [r1, r2] \<and> st_id r1 \<noteq> st_id r2 \<and>
    st_filename r1 = st_filename r2 \<and> st_file_path r1 = st_file_path r2 \<and>
    bw_files w' (the (st_file_path r1)) = Some content \<and>
    build_settlement_content (map em_settlement_payload_hex c2)
      (sum_list (map em_amount_deducted c2)) = Inr content"
proof -
  let ?name = "generate_filename now mid tid 1"
  let ?path = "SETTLEMENT_DIR @ ''/'' @ ?name"
  have chunk: "\<exists>content. build_settlement_content (map em_settlement_payload_hex c)
        (sum_list (map em_amount_deducted c)) = Inr content \<and>
      b = enqueue_upload ctx (bw_next_id a) (commit_chunk
            (settlement_row sha now 1 ?name ?path c content (bw_next_id a)) ?path content c a)"
    if "settle_chunk sha ctx now rid mid tid c a = (Inr u, b)" "ctx \<noteq> ArqContext \<or> \<not> redis_up (bw_core a)"
    for c a b u
    using that by (auto simp: settle_chunk_def next_batch_number_def settlement_row_def Let_def
        split: sum.splits if_splits)
  have same: "redis_up (bw_core (enqueue_upload ctx i (commit_chunk r p k c a))) = redis_up (bw_core a)"
    for i r p k c a by (simp add: enqueue_upload_def commit_chunk_def)
  obtain f t where n: "n = (f, t)" by (cases n)
  from assms(2) obtain v u u' where 1: "settle_chunk sha ctx now rid mid tid c1 w = (Inr u, v)"
    and 2: "settle_chunk sha ctx now rid mid tid c2 v = (Inr u', w')"
    by (auto simp: n split: sum.splits prod.splits)
  from chunk[OF 1 assms(1)] obtain k1 where k1: "v = enqueue_upload ctx (bw_next_id w) (commit_chunk
      (settlement_row sha now 1 ?name ?path c1 k1 (bw_next_id w)) ?path k1 c1 w)" by blast
  with assms(1) have "ctx \<noteq> ArqContext \<or> \<not> redis_up (bw_core v)" by (simp add: same)
  from chunk[OF 2 this] obtain k2 where k2: "build_settlement_content (map em_settlement_payload_hex c2)
        (sum_list (map em_amount_deducted c2)) = Inr k2"
      "w' = enqueue_upload ctx (bw_next_id v) (commit_chunk
        (settlement_row sha now 1 ?name ?path c2 k2 (bw_next_id v)) ?path k2 c2 v)" by blast
  show ?thesis
    by (rule exI[of _ "settlement_row sha now 1 ?name ?path c1 k1 (bw_next_id w)"],
        rule exI[of _ "settlement_row sha now 1 ?name ?path c2 k2 (bw_next_id v)"], rule exI[of _ k2])
      (simp add: k1 k2 enqueue_upload_def commit_chunk_def settlement_row_def)
qed

theorem settlement_overwrite_witness:
  "\<exists>w' r1 r2. bw_settlements w' = [r1, r2] \<and> st_id r1 \<noteq> st_id r2 \<and> st_filename r1 = st_filename r2 \<and>
     w' = snd (settle_chunks id PlainContext example_day 4 ''1'' ''2'' [[example_row], [example_row]] (0, 0) example_bank)"
proof -
  have "\<exists>m. fst (settle_chunks id PlainContext example_day 4 ''1'' ''2'' [[example_row], [example_row]] (0, 0) w) = Inr m"
    for w using example_chunk[of id PlainContext example_day 4 "''1''" "''2''"]
    by (simp split: prod.splits sum.splits) (metis fst_conv old.sum.distinct(1) sum.distinct(1))
  then obtain m w' where "settle_chunks id PlainContext example_day 4 ''1'' ''2''
      [[example_row], [example_row]] (0, 0) example_bank = (Inr m, w')" by (metis prod.collapse)
  from settlement_overwrite[OF _ this] this show ?thesis by (auto simp: example_bank_def)
qed

text \<open>Polling treats every settlement by itself: its own rows and its own record.\<close>

lemma get_put_settlement:
  "get_settlement (put_settlement r w) i =
     (if i = st_id r then map_option (\<lambda>_. r) (get_settlement w i) else get_settlement w i)"
proof -
  have "find (\<lambda>x. st_id x = i) (map (\<lambda>x. if st_id x = st_id r then r else x) xs) =
      (if i = st_id r then map_option (\<lambda>_. r) (find (\<lambda>x. st_id x = i) xs) else find (\<lambda>x. st_id x = i) xs)" for xs
    by (induction xs) auto
  then show ?thesis by (simp add: get_settlement_def put_settlement_def)
qed

lemma reconcile_own:
  assumes "reconcile ext c now r w = (st, w')"
  defines "own \<equiv> batch_rows (st_id r) (rows w)" and "code \<equiv> bank_code (response_results ext c)"
  shows "batch_rows (st_id r) (rows w') = map (mark_row (response_results ext c) now) own"
    "get_settlement w' (st_id r) = map_option (\<lambda>_. r\<lparr>st_status := final_status ext
        (length (filter (\<lambda>e. code e = ''00'') own)) (length (filter (\<lambda>e. code e \<noteq> ''00'') own)),
        st_response_received_at := Some now, st_response_extension := Some ext\<rparr>) (get_settlement w (st_id r))"
    "i \<noteq> st_id r \<Longrightarrow> batch_rows i (rows w') = batch_rows i (rows w)"
    "i \<noteq> st_id r \<Longrightarrow> get_settlement w' i = get_settlement w i"
proof -
  let ?f = "\<lambda>e. if em_settlement_batch_id e = Some (st_id r) then mark_row (response_results ext c) now e else e"
  have w': "rows w' = map ?f (rows w)"
    using assms(1) by (auto simp: reconcile_def Let_def put_settlement_def)
  have "batch_rows (st_id r) (map ?f es) = map (mark_row (response_results ext c) now) (batch_rows (st_id r) es)"
    "i \<noteq> st_id r \<Longrightarrow> batch_rows i (map ?f es) = batch_rows i es" for es
    by (induction es) (auto simp: batch_rows_def)
  then show "batch_rows (st_id r) (rows w') = map (mark_row (response_results ext c) now) own"
    "i \<noteq> st_id r \<Longrightarrow> batch_rows i (rows w') = batch_rows i (rows w)" by (simp_all add: w' own_def)
  have g: "get_settlement (w\<lparr>bw_core := x\<rparr>) k = get_settlement w k" for x k by (simp add: get_settlement_def)
  from assms(1) show "get_settlement w' (st_id r) = map_option (\<lambda>_. r\<lparr>st_status := final_status ext
        (length (filter (\<lambda>e. code e = ''00'') own)) (length (filter (\<lambda>e. code e \<noteq> ''00'') own)),
        st_response_received_at := Some now, st_response_extension := Some ext\<rparr>) (get_settlement w (st_id r))"
    "i \<noteq> st_id r \<Longrightarrow> get_settlement w' i = get_settlement w i"
    by (auto simp: reconcile_def Let_def get_put_settlement g own_def code_def batch_rows_def)
qed

lemma poll_loop_others:
  "i \<notin> st_id ` set rs \<Longrightarrow> poll_loop cfg con bank now rs n w = (m, w') \<Longrightarrow>
     batch_rows i (rows w') = batch_rows i (rows w) \<and> get_settlement w' i = get_settlement w i"
proof (induction rs arbitrary: n w)
  case (Cons r rs)
  show ?case
  proof (cases "fetch_response_file bank (con r) (ss_response_dir cfg) (st_filename r)")
    case (Inr x)
    show ?thesis
    proof (cases x)
      case (Some p)
      obtain ext c where p: "p = (ext, c)" by (cases p)
      obtain st v where v: "reconcile ext c now r w = (st, v)" by fastforce
      from Cons.prems Inr Some p v have "poll_loop cfg con bank now rs (count_status st n) v = (m, w')" by simp
      with Cons.IH[OF _ this] Cons.prems(1) reconcile_own(3,4)[OF v, of i] show ?thesis by auto
    qed (use Cons Inr in simp)
  qed (use Cons in simp)
qed simp

lemma poll_loop_own:
  assumes "r \<in> set rs" "distinct (map st_id rs)" "poll_loop cfg con bank now rs n w = (m, w')"
    and "fetch_response_file bank (con r) (ss_response_dir cfg) (st_filename r) = Inr (Some (ext, c))"
  shows "\<exists>v. batch_rows (st_id r) (rows w') = batch_rows (st_id r) (rows (snd (reconcile ext c now r v))) \<and>
    get_settlement w' (st_id r) = get_settlement (snd (reconcile ext c now r v)) (st_id r) \<and>
    batch_rows (st_id r) (rows v) = batch_rows (st_id r) (rows w) \<and> get_settlement v (st_id r) = get_settlement w (st_id r)"
  using assms(1-3)
proof (induction rs arbitrary: n w)
  case (Cons x rs)
  show ?case
  proof (cases "x = r")
    case True
    obtain st v where v: "reconcile ext c now r w = (st, v)" by fastforce
    with Cons.prems(3) assms(4) True have "poll_loop cfg con bank now rs (count_status st n) v = (m, w')" by simp
    from poll_loop_others[OF _ this, of "st_id r"] Cons.prems(2) True v show ?thesis
      by (intro exI[of _ w]) simp
  next
    case False
    with Cons.prems(1,2) have r: "r \<in> set rs" "distinct (map st_id rs)" "st_id x \<noteq> st_id r" by auto
    show ?thesis
    proof (cases "\<exists>e d. fetch_response_file bank (con x) (ss_response_dir cfg) (st_filename x) = Inr (Some (e, d))")
      case True
      then obtain e d where f: "fetch_response_file bank (con x) (ss_response_dir cfg) (st_filename x) = Inr (Some (e, d))" by blast
      obtain st u where u: "reconcile e d now x w = (st, u)" by fastforce
      from Cons.prems(3) f u have "poll_loop cfg con bank now rs (count_status st n) u = (m, w')" by simp
      from Cons.IH[OF r(1,2) this] reconcile_own(3,4)[OF u, of "st_id r"] r(3) show ?thesis by auto
    next
      case False
      then have "poll_loop cfg con bank now (x # rs) n w = poll_loop cfg con bank now rs n w"
        by (auto split: sum.splits option.splits)
      with Cons.IH[OF r(1,2)] Cons.prems(3) show ?thesis by simp
    qed
  qed
qed simp

lemma pending_distinct: "bank_ok w \<Longrightarrow> distinct (map st_id (pending_settlements now w))"
  unfolding pending_settlements_def distinct_map bank_ok_def by (auto intro: inj_on_subset)

lemma pending_found: "bank_ok w \<Longrightarrow> r \<in> set (pending_settlements now w) \<Longrightarrow> get_settlement w (st_id r) = Some r"
  by (auto simp: bank_ok_def pending_settlements_def get_settlement_def intro: unique_find)

text \<open>
  C22. The bank's answer applied. When a run of the poll finds for a settlement it waits for a response file that lists
  payloads with their status, each row of the settlement gets the status of its payload (the last line counts when a
  payload is listed twice, \<open>??\<close> when it is not listed), and the stored settlement becomes ACKED_NOK when no row was
  accepted or the file is a NOK, ACKED_OK when all were, PARTIAL otherwise, whatever the other settlements' answers are.
\<close>

theorem bank_response_applied:
  assumes "length ty = 2" "list_all (\<lambda>c. \<not> is_space c) ty" "length rs \<le> 999"
    "\<forall>(p, st) \<in> set rs. NL \<notin> set p \<and> length st = 2 \<and> list_all (\<lambda>c. \<not> is_space c) st"
    and run: "ss_host cfg \<noteq> []" "bank_ok w" "poll_settlement_responses cfg connect bank now w = (res, w')"
    and r: "r \<in> set (pending_settlements now w)"
      "fetch_response_file bank (connect r) (ss_response_dir cfg) (st_filename r) = Inr (Some (ext, response_file ty rs))"
  defines "code \<equiv> \<lambda>e. case map_of (rev (map (\<lambda>(p, st). (upper p, st)) rs))
      (upper (case em_settlement_payload_hex e of None \<Rightarrow> [] | Some p \<Rightarrow> p)) of None \<Rightarrow> ''??'' | Some c \<Rightarrow> c"
    and "own \<equiv> batch_rows (st_id r) (rows w)"
  shows "batch_rows (st_id r) (rows w') =
      map (\<lambda>e. e\<lparr>em_bank_response_status := Some (code e), em_bank_response_at := Some now\<rparr>) own \<and>
    get_settlement w' (st_id r) = Some (r\<lparr>st_status :=
        (if ext = ''NOK'' \<or> (\<forall>e \<in> set own. code e \<noteq> ''00'') then ''ACKED_NOK''
         else if \<forall>e \<in> set own. code e = ''00'' then ''ACKED_OK'' else ''PARTIAL''),
        st_response_received_at := Some now, st_response_extension := Some ext\<rparr>)"
proof -
  have "map (\<lambda>r. (br_settlement_payload_hex r, br_status r)) (response_results ext (response_file ty rs)) =
      map (\<lambda>(p, st). (upper p, st)) rs"
    using parse_response_file[OF assms(1-4)]
    by (simp add: response_results_def parse_nok_response_def split_def)
  then have code: "bank_code (response_results ext (response_file ty rs)) = code"
    by (simp add: bank_code_def code_def Let_def fun_eq_iff)
  obtain n m where "poll_loop cfg connect bank now (pending_settlements now w) n w = (m, w')"
    using run(1,3) by (auto simp: poll_settlement_responses_def split: prod.splits)
  from poll_loop_own[OF r(1) pending_distinct[OF run(2)] this r(2)] obtain v where v:
    "batch_rows (st_id r) (rows w') = batch_rows (st_id r) (rows (snd (reconcile ext (response_file ty rs) now r v)))"
    "get_settlement w' (st_id r) = get_settlement (snd (reconcile ext (response_file ty rs) now r v)) (st_id r)"
    "batch_rows (st_id r) (rows v) = own" "get_settlement v (st_id r) = Some r"
    using pending_found[OF run(2) r(1)] by (auto simp: own_def)
  note rec = reconcile_own(1,2)[OF prod.collapse[symmetric, of "reconcile ext (response_file ty rs) now r v"]]
  have len0: "length (filter P xs) = 0 \<longleftrightarrow> (\<forall>x \<in> set xs. \<not> P x)" for P and xs :: "emtx list"
    by (simp add: filter_empty_conv)
  show ?thesis
    unfolding v(1,2) rec v(3,4) code by (simp add: mark_row_def code final_status_def len0 del: length_0_conv)
qed

definition example_sent :: bank_world where
  "example_sent = example_bank\<lparr>bw_core := (bw_core example_bank)\<lparr>emoney_txs :=
       [example_row\<lparr>em_settlement_batch_id := Some 1\<rparr>,
        example_row\<lparr>em_id := 2, em_settlement_batch_id := Some 1, em_settlement_payload_hex := Some ''03''\<rparr>]\<rparr>,
     bw_next_id := 2,
     bw_settlements := [(settlement_row id example_day 1 ''f'' ''/d/f''
         [example_row, example_row\<lparr>em_id := 2, em_settlement_payload_hex := Some ''03''\<rparr>] [] 1)
       \<lparr>st_status := ''UPLOADED'', st_uploaded_at := Some 3\<rparr>]\<rparr>"

definition example_bank_dir :: "string \<Rightarrow> fetched" where
  "example_bank_dir path = (if path = ''/r/f.OK'' then Content (response_file ''01'' [(''02A7'', ''00''), (''03'', ''07'')]) else Missing)"

theorem bank_response_applied_witness:
  "map_option st_status (get_settlement (snd (poll_settlement_responses \<lparr>ss_host = ''h'', ss_remote_dir = ''/'', ss_response_dir = ''/r''\<rparr>
     (\<lambda>_. True) example_bank_dir 5 example_sent)) 1) = Some ''PARTIAL''"
proof -
  let ?cfg = "\<lparr>ss_host = ''h'', ss_remote_dir = ''/'', ss_response_dir = ''/r''\<rparr>"
  let ?r = "hd (bw_settlements example_sent)"
  obtain res w' where run: "poll_settlement_responses ?cfg (\<lambda>_. True) example_bank_dir 5 example_sent = (res, w')" by fastforce
  have ok: "bank_ok example_sent"
    by (simp add: bank_ok_def example_sent_def example_bank_def settlement_row_def batch_rows_def example_row_def
        MAX_TRX_PER_FILE_def)
  have p: "?r \<in> set (pending_settlements 5 example_sent)" "st_filename ?r = ''f''" "st_id ?r = 1"
    by (simp_all add: pending_settlements_def example_sent_def settlement_row_def seven_days_def)
  have f: "fetch_response_file example_bank_dir True ''/r'' ''f'' =
      Inr (Some (''OK'', response_file ''01'' [(''02A7'', ''00''), (''03'', ''07'')]))"
    by code_simp
  have u: "upper ''03'' \<noteq> upper ''02A7''" by (simp add: upper_def)
  have "batch_rows 1 (rows example_sent) = rows example_sent"
    by (simp add: batch_rows_def example_sent_def)
  moreover have "rows example_sent = [example_row\<lparr>em_settlement_batch_id := Some 1\<rparr>,
      example_row\<lparr>em_id := 2, em_settlement_batch_id := Some 1, em_settlement_payload_hex := Some ''03''\<rparr>]"
    by (simp add: example_sent_def)
  moreover have "em_settlement_payload_hex example_row = Some ''02A7''" by (simp add: example_row_def)
  ultimately have "\<exists>x. get_settlement w' 1 = Some x \<and> st_status x = ''PARTIAL''"
    using bank_response_applied[OF _ _ _ _ _ ok run p(1), of "''01''" "[(''02A7'', ''00''), (''03'', ''07'')]" "''OK''"] f p(2,3) u
    by (simp add: is_space_def NL_def)
  with run show ?thesis by auto
qed

end
