(* ===== verification/Composition.thy ===== *)
theory Composition
  imports Event_Consumer Settlement
begin

text \<open>
  The parts that share the database together: the payment endpoints, the consumer of gate events
  and the settlement jobs, as operations on one state; the parking ledger under all of them; and
  the rows the payment endpoints write, followed through the jobs that are meant to settle them.
\<close>

section \<open>What the endpoints do to the e-money rows\<close>

text \<open>The rows of a store grow at the end, by rows with neither a reader nor a settlement.\<close>

definition grows :: "store \<Rightarrow> store \<Rightarrow> bool" where
  "grows s s' \<longleftrightarrow> (\<exists>es. emoney_txs s' = emoney_txs s @ es \<and> 
     (\<forall>e \<in> set es. em_emoney_reader_id e = None \<and> em_settlement_batch_id e = None))"

lemma grows_same: "emoney_txs s' = emoney_txs s \<Longrightarrow> grows s s'"
  by (auto simp: grows_def)

lemma service_rows:
  "emoney_txs (snd (override_vehicle_type t v s)) = emoney_txs s"
  "emoney_txs (snd (complete_exit_transaction t g m f p mem em op sh x s)) = emoney_txs s"
  "emoney_txs (snd (save_card_number t c s)) = emoney_txs s"
  "emoney_txs (snd (set_emoney_pending gid pd now s)) = emoney_txs s"
  "emoney_txs (snd (clear_emoney_pending gid s)) = emoney_txs s"
  by (auto simp: override_vehicle_type_def complete_exit_transaction_def save_card_number_def
      set_emoney_pending_def clear_emoney_pending_def flush_tx_Inr Let_def split: sum.splits option.splits)

lemma service_rowsD:
  "override_vehicle_type t v s = (r, s') \<Longrightarrow> emoney_txs s' = emoney_txs s"
  "complete_exit_transaction t g m f p mem em op sh x s = (r', s') \<Longrightarrow> emoney_txs s' = emoney_txs s"
  "save_card_number t c s = (r'', s') \<Longrightarrow> emoney_txs s' = emoney_txs s"
  "set_emoney_pending gid pd now s = (q, s') \<Longrightarrow> emoney_txs s' = emoney_txs s"
  "clear_emoney_pending gid s = (q', s') \<Longrightarrow> emoney_txs s' = emoney_txs s"
  using service_rows by (metis snd_conv)+

lemma cash_rows: "grows s (snd (process_cash_payment gid out b c p paid op v t_fee t_shift t_exit s))"
  by (rule grows_same) (auto simp: process_cash_payment_def Let_def dest!: service_rowsD
      split: option.splits prod.splits sum.splits)

lemma rfid_rows: "grows s (snd (process_rfid_payment gid out c op t_shift t_exit s))"
  by (rule grows_same) (auto simp: process_rfid_payment_def Let_def dest!: service_rowsD
      split: option.splits prod.splits sum.splits)

lemma deduct_rows: "grows s (snd (process_emoney_deduct gid out b v t_fee t_arm s))"
  by (rule grows_same) (auto simp: process_emoney_deduct_def dest!: service_rowsD
      split: option.splits prod.splits sum.splits)

lemma add_row_grows: "add_emoney_tx i r now s = (eid, s') \<Longrightarrow> grows s s'"
  by (auto simp: add_emoney_tx_def grows_def Let_def)

lemma result_rows: "grows s (snd (process_emoney_result gid out r op t_get t_row t_shift t_exit s))"
  unfolding process_emoney_result_def Let_def
  by (auto dest!: service_rowsD add_row_grows intro: grows_same
      split: option.splits prod.splits sum.splits if_splits simp: grows_def service_rows)

lemma grows_trans: "grows a b \<Longrightarrow> grows b c \<Longrightarrow> grows a c"
  by (fastforce simp: grows_def)

interpretation growing: service_relation grows
  by unfold_locales (simp_all add: cash_rows rfid_rows deduct_rows result_rows grows_same rollback_def)

lemma run_rows: "grows (db a) (db (fold serve_step rs a))"
proof (induction rs arbitrary: a)
  case (Cons r rs)
  from grows_trans[OF growing.serve_rel[of a r] Cons.IH[of "serve_step r a", unfolded serve_step_def]]
  show ?case by (simp add: serve_step_def)
qed (simp add: grows_same)

section \<open>The settlement jobs leave the parking transactions alone\<close>

definition same_ledger :: "bank_world \<Rightarrow> bank_world \<Rightarrow> bool" where
  "same_ledger w w' \<longleftrightarrow> txs (bw_core w') = txs (bw_core w) \<and> next_tx_id (bw_core w') = next_tx_id (bw_core w)"

lemma same_ledger_refl [simp]: "same_ledger w w"
  by (simp add: same_ledger_def)

lemma same_ledger_trans: "same_ledger a b \<Longrightarrow> same_ledger b c \<Longrightarrow> same_ledger a c"
  by (simp add: same_ledger_def)

lemma chunk_ledger: "same_ledger w (snd (settle_chunk sha ctx now rid mid tid c w))"
  by (auto simp: settle_chunk_def next_batch_number_def commit_chunk_def enqueue_upload_def same_ledger_def
      Let_def split: prod.splits sum.splits)

lemma chunks_ledger: "same_ledger w (snd (settle_chunks sha ctx now rid mid tid cs n w))"
proof (induction cs arbitrary: n w)
  case (Cons c cs)
  from chunk_ledger[of w sha ctx now rid mid tid c] Cons.IH same_ledger_trans show ?case
    by (cases n) (fastforce split: prod.splits sum.splits)
qed simp

lemma reader_ledger: "same_ledger w (snd (settle_reader sha ctx now rid n w))"
  by (auto simp: settle_reader_def Let_def chunks_ledger split: option.splits)

lemma readers_ledger: "same_ledger w (snd (settle_readers sha ctx now rs n w))"
proof (induction rs arbitrary: n w)
  case (Cons r rs)
  from reader_ledger[of w sha ctx now r n] Cons.IH same_ledger_trans show ?case
    by (fastforce split: prod.splits sum.splits)
qed simp

lemma lock_ledger: "acquire_lock l t w = (got, w') \<Longrightarrow> bw_core w' = bw_core w"
  by (auto simp: acquire_lock_def split: if_splits)

lemma generate_ledger: "same_ledger w (snd (generate_settlement_file sha ord ctx l t now w))"
proof -
  obtain got v where g: "(if ctx = ArqContext then acquire_lock l t w else (True, w)) = (got, v)" by fastforce
  then have "bw_core v = bw_core w" by (auto split: if_splits dest: lock_ledger)
  then have v: "same_ledger w v" by (simp add: same_ledger_def)
  from same_ledger_trans[OF v readers_ledger[of v sha ctx now "ord (unsettled_readers v)" "(0, 0)"]] v
  show ?thesis by (auto simp: generate_settlement_file_def g split: prod.splits sum.splits)
qed

lemma upload_ledger: "same_ledger w (snd (upload_settlement_job cfg sf now sid w))"
  by (auto simp: upload_settlement_job_def upload_settlement_file_def put_settlement_def same_ledger_def
      Let_def split: option.splits prod.splits sum.splits if_splits)

lemma reconcile_ledger: "reconcile ext content now r w = (st, v) \<Longrightarrow> same_ledger w v"
  by (auto simp: reconcile_def put_settlement_def same_ledger_def Let_def)

lemma poll_loop_ledger: "same_ledger w (snd (poll_loop cfg connect bank now rs n w))"
proof (induction rs arbitrary: n w)
  case (Cons r rs)
  show ?case
  proof (cases "fetch_response_file bank (connect r) (ss_response_dir cfg) (st_filename r)")
    case (Inr x)
    show ?thesis
    proof (cases x)
      case (Some p)
      obtain ext content where p: "p = (ext, content)" by fastforce
      obtain st v where v: "reconcile ext content now r w = (st, v)" by fastforce
      from same_ledger_trans[OF reconcile_ledger[OF v] Cons.IH] Inr Some show ?thesis
        by (simp add: p v)
    qed (use Inr Cons.IH in simp)
  qed (use Cons.IH in simp)
qed simp

lemma job_ledger: "same_ledger w (run_job sha op w)"
  by (cases op) (simp_all add: generate_ledger upload_ledger poll_settlement_responses_def
      case_prod_beta poll_loop_ledger)

section \<open>The whole system\<close>

text \<open>
  The endpoints' state, the consumer's streams and flags, and the settlement jobs' world; the
  database of the three is the endpoints' \<open>db\<close>. While an event handler sleeps the endpoints may
  serve requests.
\<close>

record system =
  sy_api :: api
  sy_streams :: "(string \<times> (string \<times> string) list) list"
  sy_running :: bool
  sy_listening :: bool
  sy_bank :: bank_world

datatype system_op =
    Serve request
  | Consume consumer_op "request list"
  | Job "string \<Rightarrow> string" settle_op

definition during :: "request list \<Rightarrow> api \<Rightarrow> consumer_op \<Rightarrow> consumer_op" where
  "during reqs a op =
     (case op of
        Message out b d \<Rightarrow>
          Message (out\<lparr>o_pause := (\<lambda>s. db (fold serve_step reqs (a\<lparr>db := s\<rparr>)))\<rparr>) b d
      | _ \<Rightarrow> op)"

fun system_step :: "system_op \<Rightarrow> system \<Rightarrow> system" where
  "system_step (Serve r) y = y\<lparr>sy_api := serve_step r (sy_api y)\<rparr>"
| "system_step (Consume op reqs) y =
     (let c = consumer_step (during reqs (sy_api y) op)
            \<lparr>ec_running = sy_running y, ec_listening = sy_listening y,
             ec_site = \<lparr>sv_db = db (sy_api y), sv_streams = sy_streams y\<rparr>\<rparr>
      in y\<lparr>sy_api := (sy_api y)\<lparr>db := sv_db (ec_site c)\<rparr>, sy_streams := sv_streams (ec_site c),
           sy_running := ec_running c, sy_listening := ec_listening c\<rparr>)"
| "system_step (Job sha op) y =
     (let w = run_job sha op ((sy_bank y)\<lparr>bw_core := db (sy_api y)\<rparr>)
      in y\<lparr>sy_api := (sy_api y)\<lparr>db := bw_core w\<rparr>, sy_bank := w\<rparr>)"

text \<open>A relation the settlement jobs keep too is kept by the whole system.\<close>

locale system_relation = consumer_relation +
  assumes rel_job: "R (bw_core w) (bw_core (run_job sha op w))"
begin

lemma serve_run_rel: "R (db a) (db (fold serve_step reqs a))"
proof (induction reqs arbitrary: a)
  case (Cons r rs)
  from rel_trans[OF serve_rel[of a r] Cons.IH[of "serve_step r a", unfolded serve_step_def]] show ?case
    by (simp add: serve_step_def)
qed (simp add: rel_refl)

lemma system_step_rel: "R (db (sy_api y)) (db (sy_api (system_step op y)))"
proof (cases op)
  case (Serve r)
  then show ?thesis by (simp add: serve_step_def serve_rel)
next
  case (Consume o1 reqs)
  have "R s (db (fold serve_step reqs ((sy_api y)\<lparr>db := s\<rparr>)))" for s
    using serve_run_rel[of "(sy_api y)\<lparr>db := s\<rparr>" reqs] by simp
  then have pause: "R s (o_pause out s)" if "during reqs (sy_api y) o1 = Message out b d" for out b d s
    using that by (cases o1) (auto simp: during_def)
  have "R (sv_db (ec_site c)) (sv_db (ec_site (consumer_step (during reqs (sy_api y) o1) c)))" for c
    by (rule consumer_step_rel) (rule pause)
  from this[of "\<lparr>ec_running = sy_running y, ec_listening = sy_listening y,
      ec_site = \<lparr>sv_db = db (sy_api y), sv_streams = sy_streams y\<rparr>\<rparr>"] Consume show ?thesis
    by (simp add: Let_def)
next
  case (Job sha o1)
  from rel_job[of "(sy_bank y)\<lparr>bw_core := db (sy_api y)\<rparr>" sha o1] Job show ?thesis
    by (simp add: Let_def)
qed

lemma system_run_rel: "R (db (sy_api y)) (db (sy_api (fold system_step ops y)))"
proof (induction ops arbitrary: y)
  case (Cons op ops)
  from rel_trans[OF system_step_rel[of y op] Cons.IH[of "system_step op y"]] show ?case by simp
qed (simp add: rel_refl)

end

interpretation ledger: system_relation evolves
proof unfold_locales
  show "evolves (bw_core w) (bw_core (run_job sha op w))" for w sha op
    using job_ledger[of w sha op] by (simp add: same_ledger_def evolves_frame)
qed

interpretation parking: exit_service "\<lambda>y. db (sy_api y)" system_step
  by unfold_locales (rule ledger.system_step_rel)

text \<open>
  C3. The ledger of the whole system. Whatever requests, gate events and settlement jobs follow one
  another, events pausing for requests included: every ticket and every card has at most one open
  transaction, every finished transaction has its exit, fee and gate recorded, and a transaction
  once finished keeps every column forever.
\<close>

theorem parking_ledger:
  assumes "store_ok (db (sy_api y))"
    and "y' = fold system_step ops y"
  shows "distinct (active_cards (txs (db (sy_api y')))) \<and> distinct (active_barcodes (txs (db (sy_api y')))) \<and>
    (\<forall>t \<in> set (txs (db (sy_api y'))). \<not> is_active_tx t \<longrightarrow>
       tx_exit_time t \<noteq> None \<and> tx_fee t \<noteq> None \<and> tx_gate_out_id t \<noteq> None) \<and>
    (\<forall>t. get_tx (db (sy_api y)) i = Some t \<and> \<not> is_active_tx t \<longrightarrow> get_tx (db (sy_api y')) i = Some t)"
proof -
  have "store_ok (db (sy_api y'))" unfolding assms(2) using parking.run_ok[OF assms(1)] .
  then show ?thesis
    using parking.run_get_completed[OF assms(1), of i _ ops]
    by (auto simp: store_ok_def unique_active_def row_ok_def assms(2))
qed

theorem parking_ledger_witness:
  "distinct (active_barcodes (txs (db (sy_api (fold system_step
      [Consume (Message example_outside True (Some (card_event ''OUT1'' 9 ''C7'' ''W'' ''1-0''))) [],
       Serve (Cash example_cash None None example_clock)]
      \<lparr>sy_api = example_api, sy_streams = [], sy_running = True, sy_listening = True,
       sy_bank = example_bank\<rparr>)))))"
proof -
  have "store_ok (db (sy_api \<lparr>sy_api = example_api, sy_streams = [], sy_running = True,
      sy_listening = True, sy_bank = example_bank\<rparr>))"
    using example_store_ok by (simp add: example_api_def)
  from parking_ledger[OF this refl] show ?thesis by blast
qed

section \<open>Methods and statuses\<close>

text \<open>The payment methods and statuses the system ever writes.\<close>

definition row_sound :: "ptx \<Rightarrow> bool" where
  "row_sound t \<longleftrightarrow> tx_status t \<in> {''ACTIVE'', ''COMPLETED''} \<and>
     tx_payment_method t \<in> Some ` {''CASH'', ''RFID_MEMBER'', ''EMONEY''}"

definition rows_sound :: "store \<Rightarrow> bool" where
  "rows_sound s \<longleftrightarrow> list_all row_sound (txs s)"

lemma sound_frame [simp]:
  "rows_sound (enqueue_snapshots_for_gate c i k s) = rows_sound s"
  "rows_sound (enqueue_print_receipt g i d s) = rows_sound s"
  "rows_sound (rollback s s') = rows_sound s"
  "rows_sound (s\<lparr>pending := p\<rparr>) = rows_sound s"
  "rows_sound (s\<lparr>jobs := j\<rparr>) = rows_sound s"
  by (simp_all add: rows_sound_def rollback_def)

lemma flush_sound: "flush_tx s t = Inr s' \<Longrightarrow> rows_sound s \<Longrightarrow> row_sound t \<Longrightarrow> rows_sound s'"
  by (auto simp: flush_tx_Inr rows_sound_def list_all_iff dest!: set_replace_tx)

lemma override_sound:
  "override_vehicle_type t v s = (r, s') \<Longrightarrow> rows_sound s \<and> row_sound t \<longrightarrow>
     rows_sound s' \<and> (\<forall>t'. r = Inr t' \<longrightarrow> row_sound t')"
  by (auto simp: override_vehicle_type_def Let_def row_sound_def split: option.splits sum.splits
      dest: flush_sound)

lemma save_card_sound:
  "save_card_number t c s = (r, s') \<Longrightarrow> rows_sound s \<and> row_sound t \<longrightarrow>
     rows_sound s' \<and> (\<forall>t'. r = Inr t' \<longrightarrow> row_sound t')"
  by (auto simp: save_card_number_def Let_def row_sound_def split: if_splits sum.splits dest: flush_sound)

lemma complete_sound:
  "complete_exit_transaction t g k f p mem em op sh x s = (r, s') \<Longrightarrow> rows_sound s \<and> k \<in> {''CASH'', ''RFID_MEMBER'', ''EMONEY''} \<longrightarrow>
     rows_sound s'"
  by (auto simp: complete_exit_transaction_def Let_def row_sound_def completed_tx_def split: sum.splits
      dest: flush_sound)

lemma create_sound:
  "create_entry_transaction b c p v g k mem now s = (r, s') \<Longrightarrow> rows_sound s \<and> k \<in> {''CASH'', ''RFID_MEMBER'', ''EMONEY''} \<longrightarrow>
     rows_sound s'"
  by (auto simp: create_entry_transaction_def Let_def rows_sound_def row_sound_def insert_tx_Inr
      split: sum.splits option.splits if_splits prod.splits)

lemma arm_sound:
  "set_emoney_pending gid pd now s = (q, s') \<Longrightarrow> rows_sound s' = rows_sound s"
  "clear_emoney_pending gid s = (q', s') \<Longrightarrow> rows_sound s' = rows_sound s"
  "add_emoney_tx i r now s = (eid, s') \<Longrightarrow> rows_sound s' = rows_sound s"
  by (auto simp: set_emoney_pending_def clear_emoney_pending_def add_emoney_tx_def Let_def rows_sound_def
      split: if_splits)

lemma arm_frame [simp]:
  "rows_sound (snd (set_emoney_pending gid pd now s)) = rows_sound s"
  "rows_sound (snd (clear_emoney_pending gid s)) = rows_sound s"
  by (auto simp: set_emoney_pending_def clear_emoney_pending_def)

lemma found_sound: "rows_sound s \<Longrightarrow> find_active_transaction s b c p = Some t \<Longrightarrow> row_sound t"
  by (auto simp: rows_sound_def list_all_iff dest: find_active_Some)

lemma got_sound: "rows_sound s \<Longrightarrow> get_tx s i = Some t \<Longrightarrow> row_sound t"
  by (auto simp: rows_sound_def list_all_iff dest: get_tx_Some)

lemmas service_sound = override_sound save_card_sound complete_sound create_sound arm_sound

lemma cash_sound:
  assumes "rows_sound s"
  shows "rows_sound (snd (process_cash_payment gid out b c p paid op v t1 t2 t3 s))"
  using assms by (auto simp: process_cash_payment_def Let_def dest!: service_sound found_sound[OF assms]
      split: option.splits prod.splits sum.splits)

lemma rfid_sound:
  assumes "rows_sound s"
  shows "rows_sound (snd (process_rfid_payment gid out c op t1 t2 s))"
  using assms by (auto simp: process_rfid_payment_def Let_def dest!: service_sound
      split: option.splits prod.splits sum.splits)

lemma deduct_sound:
  assumes "rows_sound s"
  shows "rows_sound (snd (process_emoney_deduct gid out b v t1 t2 s))"
  using assms by (auto simp: process_emoney_deduct_def dest!: service_sound found_sound[OF assms]
      split: option.splits prod.splits sum.splits)

lemma result_sound:
  assumes "rows_sound s"
  shows "rows_sound (snd (process_emoney_result gid out r op t1 t2 t3 t4 s))"
  using assms unfolding process_emoney_result_def Let_def
  by (auto dest!: got_sound[OF assms] service_sound
      split: option.splits prod.splits sum.splits if_splits)

interpretation sound: system_relation "\<lambda>s s'. rows_sound s \<longrightarrow> rows_sound s'"
proof unfold_locales
  fix k b c p v g mem now s
  assume "k \<in> {''CASH'', ''RFID_MEMBER''}"
  then show "rows_sound s \<longrightarrow> rows_sound (snd (create_entry_transaction b c p v g k mem now s))"
    by (cases "create_entry_transaction b c p v g k mem now s") (auto dest!: create_sound)
next
  fix w sha op
  show "rows_sound (bw_core w) \<longrightarrow> rows_sound (bw_core (run_job sha op w))"
    using job_ledger[of w sha op] by (simp add: same_ledger_def rows_sound_def)
qed (simp_all add: cash_sound rfid_sound deduct_sound result_sound)

section \<open>The rows of the payments and the settlement jobs\<close>

text \<open>
  The rows that are not among some old ones have neither a reader nor a settlement. The payment
  endpoints add only such rows, and a settlement job links only rows that have a reader.
\<close>

definition new_plain :: "int set \<Rightarrow> store \<Rightarrow> bool" where
  "new_plain old s \<longleftrightarrow> (\<forall>e \<in> set (emoney_txs s). em_id e \<notin> old \<longrightarrow>
     em_emoney_reader_id e = None \<and> em_settlement_batch_id e = None)"

lemma grows_plain: "grows s s' \<Longrightarrow> new_plain old s \<longrightarrow> new_plain old s'"
  by (auto simp: grows_def new_plain_def)

lemma create_rows: "emoney_txs (snd (create_entry_transaction b c p v g k mem now s)) = emoney_txs s"
  by (auto simp: create_entry_transaction_def Let_def insert_tx_Inr split: sum.splits option.splits if_splits prod.splits)

lemma link_plain:
  assumes "set ids \<subseteq> old" "\<forall>e \<in> set es. em_id e \<notin> old \<longrightarrow> em_emoney_reader_id e = None \<and> em_settlement_batch_id e = None"
  shows "\<forall>e \<in> set (link_rows ids sid es). em_id e \<notin> old \<longrightarrow>
    em_emoney_reader_id e = None \<and> em_settlement_batch_id e = None"
  using assms by (auto simp: link_rows_def)

lemma chunk_plain:
  assumes "em_id ` set c \<subseteq> old" "new_plain old (bw_core w)"
  shows "new_plain old (bw_core (snd (settle_chunk sha ctx now rid mid tid c w)))"
  using assms link_plain[of "map em_id c" old "emoney_txs (bw_core w)"]
  by (auto simp: settle_chunk_def next_batch_number_def commit_chunk_def enqueue_upload_def new_plain_def
      Let_def split: prod.splits sum.splits)

lemma chunks_plain:
  assumes "em_id ` set (concat cs) \<subseteq> old" "new_plain old (bw_core w)"
  shows "new_plain old (bw_core (snd (settle_chunks sha ctx now rid mid tid cs n w)))"
  using assms
proof (induction cs arbitrary: n w)
  case (Cons c cs)
  obtain r v where v: "settle_chunk sha ctx now rid mid tid c w = (r, v)" by fastforce
  have plain: "new_plain old (bw_core v)"
    using chunk_plain[of c old w sha ctx now rid mid tid] Cons.prems v by auto
  have "em_id ` set (concat cs) \<subseteq> old" using Cons.prems(1) by auto
  from Cons.IH[OF this plain] plain v show ?case by (cases n) (auto split: sum.splits)
qed simp

text \<open>The rows the job takes for a reader are old ones.\<close>

lemma reader_old: "new_plain old (bw_core w) \<Longrightarrow> em_id ` set (reader_transactions w rid) \<subseteq> old"
  by (auto simp: reader_transactions_def new_plain_def)

lemma reader_plain:
  assumes "new_plain old (bw_core w)"
  shows "new_plain old (bw_core (snd (settle_reader sha ctx now rid n w)))"
  using chunks_plain[of "chunks MAX_TRX_PER_FILE (reader_transactions w rid)" old w] assms reader_old[OF assms]
  by (auto simp: settle_reader_def Let_def concat_chunks MAX_TRX_PER_FILE_def simp del: set_concat split: option.splits)

lemma readers_plain:
  "new_plain old (bw_core w) \<Longrightarrow> new_plain old (bw_core (snd (settle_readers sha ctx now rs n w)))"
proof (induction rs arbitrary: n w)
  case (Cons r rs)
  obtain x v where v: "settle_reader sha ctx now r n w = (x, v)" by fastforce
  with reader_plain[OF Cons.prems, of sha ctx now r n] have "new_plain old (bw_core v)" by simp
  with Cons.IH v show ?case by (auto split: sum.splits)
qed simp

lemma generate_plain:
  assumes "new_plain old (bw_core w)"
  shows "new_plain old (bw_core (snd (generate_settlement_file sha ord ctx l t now w)))"
proof -
  obtain got v where g: "(if ctx = ArqContext then acquire_lock l t w else (True, w)) = (got, v)" by fastforce
  then have "bw_core v = bw_core w" by (auto split: if_splits dest: lock_ledger)
  with assms have v: "new_plain old (bw_core v)" by simp
  obtain x u where u: "settle_readers sha ctx now (ord (unsettled_readers v)) (0, 0) v = (x, u)" by fastforce
  with readers_plain[OF v, of sha ctx now "ord (unsettled_readers v)" "(0, 0)"] have "new_plain old (bw_core u)"
    by simp
  with v show ?thesis by (auto simp: generate_settlement_file_def g u split: sum.splits)
qed

lemma upload_rows: "bw_core (snd (upload_settlement_job cfg sf now sid w)) = bw_core w"
  by (auto simp: upload_settlement_job_def upload_settlement_file_def put_settlement_def
      Let_def split: option.splits prod.splits sum.splits if_splits)

lemma reconcile_plain:
  "reconcile ext content now r w = (st, v) \<Longrightarrow> new_plain old (bw_core w) \<Longrightarrow> new_plain old (bw_core v)"
  by (auto simp: reconcile_def put_settlement_def mark_row_def new_plain_def Let_def)

lemma poll_loop_plain:
  "new_plain old (bw_core w) \<Longrightarrow> new_plain old (bw_core (snd (poll_loop cfg connect bank now rs n w)))"
proof (induction rs arbitrary: n w)
  case (Cons r rs)
  then show ?case
    by (auto split: sum.splits option.splits prod.splits dest!: reconcile_plain[OF _ Cons.prems])
qed simp

lemma job_plain: "new_plain old (bw_core w) \<Longrightarrow> new_plain old (bw_core (run_job sha op w))"
  by (cases op) (simp_all add: generate_plain upload_rows poll_settlement_responses_def
      case_prod_beta poll_loop_plain)

lemma plain_frame:
  "new_plain old (rollback s s') = new_plain old s"
  "new_plain old (snd (create_entry_transaction b c p v g k mem now s)) = new_plain old s"
  by (simp_all add: new_plain_def rollback_def create_rows)

interpretation plain: system_relation "\<lambda>s s'. \<forall>old. new_plain old s \<longrightarrow> new_plain old s'"
  by unfold_locales (simp_all add: plain_frame job_plain grows_plain[OF cash_rows]
      grows_plain[OF rfid_rows] grows_plain[OF deduct_rows] grows_plain[OF result_rows])

text \<open>
  C26. No e-money payment taken by the system is ever settled. Whatever requests, gate events and
  settlement jobs follow one another, uploads and the bank's answers included, and whatever rows the
  store held before: every e-money row that was not there at the start has neither a reader nor a
  settlement, since the endpoints leave the reader out and the jobs link only rows that have one.
\<close>

theorem payments_never_settle:
  assumes "e \<in> set (emoney_txs (db (sy_api (fold system_step ops y))))"
    and "em_id e \<notin> em_id ` set (emoney_txs (db (sy_api y)))"
  shows "em_settlement_batch_id e = None \<and> em_emoney_reader_id e = None"
proof -
  have "new_plain (em_id ` set (emoney_txs (db (sy_api y)))) (db (sy_api y))"
    by (simp add: new_plain_def)
  with plain.system_run_rel[of y ops] have
    "new_plain (em_id ` set (emoney_txs (db (sy_api y)))) (db (sy_api (fold system_step ops y)))"
    by blast
  with assms show ?thesis by (simp add: new_plain_def)
qed

text \<open>
  A store with a row of a reader, which a run settles, and the report of a deduct before the run.
\<close>

definition example_mixed :: system where
  "example_mixed = \<lparr>sy_api = example_api\<lparr>db := example_armed\<lparr>emoney_txs := [example_row], next_em_id := 9\<rparr>\<rparr>,
     sy_streams = [], sy_running = True, sy_listening = True, sy_bank = example_bank\<rparr>"

definition example_result :: result_request where
  "example_result = \<lparr>eq_gate_id = ''OUT1'', eq_gate_out_id = 7, eq_card_number = ''6032981000000001'',
     eq_card_type = None, eq_card_type_code = None, eq_status = ''SUCCESS'', eq_deduct_amount = 10000,
     eq_balance_before = 50000, eq_balance_after = 40000, eq_transaction_counter = 12,
     eq_raw_response_hex = [], eq_settlement_payload_hex = ''02A7''\<rparr>"

lemma example_report_row:
  fixes k :: clock
  assumes "k_check k = 5"
  shows "\<exists>e. emoney_txs (db (snd (serve (Report example_result None k) (sy_api example_mixed)))) = [example_row, e] \<and>
    em_id e = 9 \<and> em_settlement_batch_id e = None"
proof -
  let ?s = "example_armed\<lparr>emoney_txs := [example_row], next_em_id := 9\<rparr>"
  let ?r = "report_of example_result SUCCESS"
  have ok: "store_ok ?s" using example_store_ok by (simp add: example_armed_def store_ok_def)
  have pl: "get_emoney_pending ''OUT1'' (k_check k) ?s =
      Inr (Some \<lparr>pd_transaction_id = 1, pd_gate_out_id = 7, pd_fee = 10000\<rparr>)"
    using assms by (simp add: pending_lookup example_armed_def example_defs)
  have t: "get_tx ?s (pd_transaction_id \<lparr>pd_transaction_id = 1, pd_gate_out_id = 7, pd_fee = 10000\<rparr>) = Some example_tx"
    "is_active_tx example_tx"
    by (simp_all add: example_armed_def example_defs get_tx_def)
  have u: "unique_active (replace_tx (with_card example_tx (rp_card_number ?r)) (txs ?s))"
    by (simp add: unique_active_def active_cards_def active_barcodes_def example_armed_def report_of_def
        example_result_def example_defs replace_tx_def with_card_def map_filter_simps)
  have st: "rp_status ?r = SUCCESS" by (simp add: report_of_def)
  have b: "em_settlement_batch_id (emoney_row 9 (tx_id example_tx) ?r now) = None" for now
    by (simp add: emoney_row_def add_emoney_tx_def)
  obtain res s' where p: "process_emoney_result ''OUT1'' 7 ?r None (k_check k) (k_fee k) (k_shift k) (k_exit k) ?s =
      (Inr res, s')" "emoney_txs s' = [example_row, emoney_row 9 (tx_id example_tx) ?r (k_fee k)]"
    by (simp add: emoney_result_eq[OF ok pl t u] deduct_success_def st)
  have q: "eq_gate_id example_result = ''OUT1''" "eq_gate_out_id example_result = 7"
    "eq_status example_result = ''SUCCESS''" by (simp_all add: example_result_def)
  have db: "sy_api example_mixed = example_api\<lparr>db := ?s\<rparr>" by (simp add: example_mixed_def)
  have "db (snd (emoney_result example_result None k (example_api\<lparr>db := ?s\<rparr>))) = s'"
    using p(1) by (simp add: emoney_result_def deduct_status_of_def settle_def with_operator_def
        get_operator_id_def q)
  with p(2) b show ?thesis by (simp add: db)
qed

theorem payments_never_settle_witness:
  "\<exists>e \<in> set (emoney_txs (db (sy_api (fold system_step
      [Serve (Report example_result None (example_clock\<lparr>k_check := 5\<rparr>)),
       Job id (Generate id PlainContext example_day 0 example_day)] example_mixed)))).
     em_id e = 9 \<and> em_settlement_batch_id e = None"
proof -
  define k where "k = example_clock\<lparr>k_check := 5\<rparr>"
  define y1 where "y1 = system_step (Serve (Report example_result None k)) example_mixed"
  define w where "w = (sy_bank y1)\<lparr>bw_core := db (sy_api y1)\<rparr>"
  obtain e where e: "rows w = [example_row, e]" "em_id e = 9" "em_settlement_batch_id e = None"
    using example_report_row[of k] by (auto simp: y1_def w_def k_def serve_step_def)
  have "bank_ok w"
    using e by (simp add: bank_ok_def) (simp add: w_def y1_def example_mixed_def example_bank_def example_row_def)
  from jobs.job_follows[OF this, of id "Generate id PlainContext example_day 0 example_day"]
  have "list_all2 row_kept [example_row, e] (rows (run_job id (Generate id PlainContext example_day 0 example_day) w))"
    using e(1) by (simp only: bank_follows_def)
  then obtain z e' where kept: "rows (run_job id (Generate id PlainContext example_day 0 example_day) w) = [z, e']"
    "row_kept e e'" by (auto simp only: list_all2_Cons1 list_all2_Nil)
  then have e': "e' \<in> set (rows (run_job id (Generate id PlainContext example_day 0 example_day) w))" "em_id e' = 9"
    using e(2) by (simp_all add: row_kept_def)
  let ?ops = "[Serve (Report example_result None k), Job id (Generate id PlainContext example_day 0 example_day)]"
  have "e' \<in> set (emoney_txs (db (sy_api (fold system_step ?ops example_mixed))))"
    using e'(1) by (simp add: y1_def w_def Let_def)
  moreover have "em_id e' \<notin> em_id ` set (emoney_txs (db (sy_api example_mixed)))"
    using e'(2) by (simp add: example_mixed_def example_row_def)
  ultimately have "em_settlement_batch_id e' = None \<and> em_emoney_reader_id e' = None"
    by (rule payments_never_settle)
  with e'(2) \<open>e' \<in> set (emoney_txs (db (sy_api (fold system_step ?ops example_mixed))))\<close> show ?thesis
    unfolding k_def by blast
qed

end
