(* ===== verification/Booth_Devices.thy ===== *)
theory Booth_Devices
  imports Prelude
begin

text \<open>
  The devices of the booth PC: the serial peripherals with their reconnection
  (\<open>booth_bridge/serial_manager.py\<close>) and the relay of the barrier
  (\<open>booth_bridge/gate_opener.py\<close>).

  What the operating system does with each open, reset, write and read is an argument. The locks
  need no counterpart: an operation is one step.
\<close>

section \<open>Serial peripherals\<close>

text \<open>
  A connection is \<open>Some\<close> of its \<open>is_open\<close>. The wire keeps the bytes that each write gave to the port
  of a peripheral, those of a write that failed half-way included.
\<close>

record serial_manager =
  sm_peripherals :: "(string \<times> (string \<times> json) list) list"
  sm_connections :: "string \<Rightarrow> bool option"
  sm_running :: bool
  sm_wire :: "(string \<times> bytes) list"

text \<open>One attempt: a failing write (\<open>Some n\<close>) has sent \<open>n\<close> bytes.\<close>

record port_io =
  io_open :: bool
  io_reset :: bool
  io_write :: "nat option"
  io_read :: "bytes option"

definition init_manager :: "(string \<times> (string \<times> json) list) list \<Rightarrow> serial_manager" where
  "init_manager ps = \<lparr>sm_peripherals = ps, sm_connections = (\<lambda>_. None), sm_running = False, sm_wire = []\<rparr>"

text \<open>\<open>start\<close>: an exception, a missing \<open>device\<close> included, leaves the peripheral unconnected.\<close>

definition start_port :: "(string \<Rightarrow> bool) \<Rightarrow> string \<times> (string \<times> json) list \<Rightarrow> serial_manager \<Rightarrow> serial_manager" where
  "start_port opens p s =
     (case p of (name, cfg) \<Rightarrow>
        if (case map_of cfg ''enabled'' of None \<Rightarrow> True | Some v \<Rightarrow> \<not> truthy v) then s
        else if map_of cfg ''device'' \<noteq> None \<and> opens name
        then s\<lparr>sm_connections := (sm_connections s)(name \<mapsto> True)\<rparr> else s)"

definition start_manager :: "(string \<Rightarrow> bool) \<Rightarrow> serial_manager \<Rightarrow> serial_manager" where
  "start_manager opens s = fold (start_port opens) (sm_peripherals s) (s\<lparr>sm_running := True\<rparr>)"

definition stop_manager :: "serial_manager \<Rightarrow> serial_manager" where
  "stop_manager s = s\<lparr>sm_running := False, sm_connections := (\<lambda>_. None)\<rparr>"

definition reconnect_port :: "string \<Rightarrow> bool \<Rightarrow> serial_manager \<Rightarrow> (py_exc + unit) \<times> serial_manager" where
  "reconnect_port name opens s =
     (case map_of (sm_peripherals s) name of
        None \<Rightarrow> (Inl (RuntimeError (''No config for peripheral: '' @ name)), s)
      | Some cfg \<Rightarrow>
        if cfg = [] then (Inl (RuntimeError (''No config for peripheral: '' @ name)), s)
        else
          let s = s\<lparr>sm_connections := (sm_connections s)(name := None)\<rparr>
          in if map_of cfg ''device'' = None then (Inl (KeyError ''device''), s)
             else if \<not> opens then (Inl OSError, s)
             else (Inr (), s\<lparr>sm_connections := (sm_connections s)(name \<mapsto> True)\<rparr>))"

text \<open>\<open>conn is None or not conn.is_open\<close>.\<close>

definition ensure_open :: "string \<Rightarrow> bool \<Rightarrow> serial_manager \<Rightarrow> (py_exc + unit) \<times> serial_manager" where
  "ensure_open name opens s =
     (if sm_connections s name = Some True then (Inr (), s) else reconnect_port name opens s)"

definition put_wire :: "string \<Rightarrow> bytes \<Rightarrow> serial_manager \<Rightarrow> serial_manager" where
  "put_wire name data s = s\<lparr>sm_wire := sm_wire s @ [(name, data)]\<rparr>"

definition port_write :: "string \<Rightarrow> port_io \<Rightarrow> bytes \<Rightarrow> serial_manager \<Rightarrow> (py_exc + nat) \<times> serial_manager" where
  "port_write name io data s =
     (case io_write io of
        None \<Rightarrow> (Inr (length data), put_wire name data s)
      | Some n \<Rightarrow> (Inl OSError, put_wire name (take n data) s))"

definition exchange :: "string \<Rightarrow> port_io \<Rightarrow> bytes \<Rightarrow> serial_manager \<Rightarrow> (py_exc + bytes) \<times> serial_manager" where
  "exchange name io data s =
     (if \<not> io_reset io then (Inl OSError, s)
      else case port_write name io data s of
             (Inl e, s) \<Rightarrow> (Inl e, s)
           | (Inr _, s) \<Rightarrow>
             (case io_read io of None \<Rightarrow> (Inl OSError, s) | Some r \<Rightarrow> (Inr (take 1024 r), s)))"

text \<open>An operation, and once more after reopening the port when it failed.\<close>

definition with_retry ::
  "(port_io \<Rightarrow> serial_manager \<Rightarrow> (py_exc + 'a) \<times> serial_manager) \<Rightarrow> string \<Rightarrow> port_io \<Rightarrow> port_io \<Rightarrow>
   serial_manager \<Rightarrow> (py_exc + 'a) \<times> serial_manager" where
  "with_retry f name a b s =
     (case ensure_open name (io_open a) s of
        (Inl e, s) \<Rightarrow> (Inl e, s)
      | (Inr _, s) \<Rightarrow>
        (case f a s of
           (Inr r, s) \<Rightarrow> (Inr r, s)
         | (Inl _, s) \<Rightarrow>
           (case reconnect_port name (io_open b) s of
              (Inl e, s) \<Rightarrow> (Inl e, s)
            | (Inr _, s) \<Rightarrow> f b s)))"

definition serial_send_data ::
  "string \<Rightarrow> bytes \<Rightarrow> port_io \<Rightarrow> port_io \<Rightarrow> serial_manager \<Rightarrow> (py_exc + bytes) \<times> serial_manager" where
  "serial_send_data name data = with_retry (\<lambda>io. exchange name io data) name"

definition write_only ::
  "string \<Rightarrow> bytes \<Rightarrow> port_io \<Rightarrow> port_io \<Rightarrow> serial_manager \<Rightarrow> (py_exc + nat) \<times> serial_manager" where
  "write_only name data = with_retry (\<lambda>io. port_write name io data) name"

definition port_connected :: "serial_manager \<Rightarrow> string \<Rightarrow> bool" where
  "port_connected s name \<longleftrightarrow> sm_connections s name = Some True"

section \<open>The relay\<close>

record gate_opener =
  go_gate_id :: string
  go_gate_db_id :: int
  go_device :: string
  go_baudrate :: int
  go_open_bytes :: bytes
  go_close_bytes :: bytes
  go_close_delay :: rat

text \<open>\<open>value.replace("\x", "")\<close>.\<close>

fun remove_escapes :: "string \<Rightarrow> string" where
  "remove_escapes (c # d # cs) =
     (if c = CHR 0x5C \<and> d = CHR ''x'' then remove_escapes cs else c # remove_escapes (d # cs))"
| "remove_escapes cs = cs"

text \<open>The suspicions the boot log shows.\<close>

datatype decode_warning = OddLength nat | MixedHex

definition decode_command :: "string \<Rightarrow> bytes \<times> string \<times> decode_warning option" where
  "decode_command value =
     (if value = [] then ([], ''empty'', None)
      else
        let stripped = remove_escapes (filter (\<lambda>c. c \<noteq> CHR '' '') value);
            hex_chars = length (filter is_hex stripped);
            non_hex_chars = length stripped - hex_chars
        in if non_hex_chars = 0 \<and> 0 < length stripped \<and> even (length stripped)
           then (bytes_of_hex stripped, ''hex'', None)
           else (encode value, ''ascii'',
             if non_hex_chars = 0 \<and> 0 < length stripped \<and> odd (length stripped)
             then Some (OddLength (length stripped))
             else if 0 < hex_chars \<and> 0 < non_hex_chars \<and>
               \<not> (take 1 value \<in> {''*'', ''O'', ''C''} \<and> ascii value)
             then Some MixedHex else None))"

text \<open>The fields of the gate row the constructor reads, those of \<open>hardware_config\<close> as \<open>hw\<close>.\<close>

record opener_config =
  oc_code :: string
  oc_id :: int
  oc_controller_device :: "string option"
  oc_hw_device :: "string option"
  oc_controller_baudrate :: "int option"
  oc_hw_baudrate :: "int option"
  oc_hw_open :: "string option"
  oc_open :: "string option"
  oc_hw_close :: "string option"
  oc_close :: "string option"
  oc_close_delay :: "rat option"

definition str_or :: "string option \<Rightarrow> string option \<Rightarrow> string \<Rightarrow> string" where
  "str_or x y d = (if truthy_str x then the x else case y of None \<Rightarrow> d | Some s \<Rightarrow> s)"

definition init_opener :: "opener_config \<Rightarrow> gate_opener" where
  "init_opener g =
     \<lparr>go_gate_id = oc_code g, go_gate_db_id = oc_id g,
      go_device = str_or (oc_controller_device g) (oc_hw_device g) ''/dev/ttyUSB0'',
      go_baudrate = (case oc_controller_baudrate g of
          Some b \<Rightarrow> if b = 0 then (case oc_hw_baudrate g of None \<Rightarrow> 9600 | Some h \<Rightarrow> h) else b
        | None \<Rightarrow> (case oc_hw_baudrate g of None \<Rightarrow> 9600 | Some h \<Rightarrow> h)),
      go_open_bytes = fst (decode_command (str_or (oc_hw_open g) (oc_open g) [])),
      go_close_bytes = fst (decode_command (str_or (oc_hw_close g) (oc_close g) [])),
      go_close_delay = (case oc_close_delay g of None \<Rightarrow> 3 | Some d \<Rightarrow> d)\<rparr>"

text \<open>What the system answers: the port, the first and the second write.\<close>

record relay_io =
  ri_open :: bool
  ri_first :: "nat option"
  ri_second :: "nat option"

text \<open>\<open>_open_sync\<close>: the result and what was written.\<close>

definition open_sync :: "relay_io \<Rightarrow> gate_opener \<Rightarrow> bool \<times> bytes list" where
  "open_sync io g =
     (if go_open_bytes g = [] then (False, [])
      else if \<not> ri_open io then (False, [])
      else case ri_first io of
        Some n \<Rightarrow> (False, [take n (go_open_bytes g)])
      | None \<Rightarrow>
        if go_close_bytes g \<noteq> [] \<and> 0 < go_close_delay g
        then (case ri_second io of
                None \<Rightarrow> (True, [go_open_bytes g, go_close_bytes g])
              | Some n \<Rightarrow> (False, [go_open_bytes g, take n (go_close_bytes g)]))
        else (True, [go_open_bytes g]))"

text \<open>\<open>is_present\<close>: does the path resolve, exist, open?\<close>

definition is_present :: "bool \<Rightarrow> bool \<Rightarrow> bool \<Rightarrow> gate_opener \<Rightarrow> bool" where
  "is_present resolves exists opens g \<longleftrightarrow> go_device g \<noteq> [] \<and> resolves \<and> exists \<and> opens"

section \<open>Sending\<close>

lemma reconnect_frame:
  "reconnect_port name opens s = (r, s') \<Longrightarrow>
     sm_wire s' = sm_wire s \<and> sm_peripherals s' = sm_peripherals s \<and>
     (\<forall>u. r = Inr u \<longrightarrow> sm_connections s' name = Some True)"
  by (auto simp: reconnect_port_def Let_def split: option.splits if_splits)

lemma ensure_frame:
  "ensure_open name opens s = (r, s') \<Longrightarrow>
     sm_wire s' = sm_wire s \<and> sm_peripherals s' = sm_peripherals s \<and>
     (\<forall>u. r = Inr u \<longrightarrow> sm_connections s' name = Some True)"
  by (auto simp: ensure_open_def dest: reconnect_frame split: if_splits)

lemma exchange_wire:
  assumes "exchange name io data s = (r, s')"
  shows "\<exists>parts. sm_wire s' = sm_wire s @ map (Pair name) parts \<and> length parts \<le> 1 \<and>
    (\<forall>p \<in> set parts. \<exists>n. p = take n data) \<and> (\<forall>x. r = Inr x \<longrightarrow> parts = [data])"
proof (cases "io_reset io")
  case False
  with assms show ?thesis by (intro exI[of _ "[]"]) (auto simp: exchange_def)
next
  case True
  let ?p = "case io_write io of None \<Rightarrow> data | Some n \<Rightarrow> take n data"
  have "sm_wire s' = sm_wire s @ map (Pair name) [?p]" "\<forall>x. r = Inr x \<longrightarrow> ?p = data"
    using assms True by (auto simp: exchange_def port_write_def put_wire_def split: option.splits)
  moreover have "\<exists>n. ?p = take n data"
    by (cases "io_write io") (auto intro: exI[of _ "length data"])
  ultimately show ?thesis by (intro exI[of _ "[?p]"]) simp
qed

text \<open>
  What a command to a peripheral puts on its wire: the command or the beginning of it, at most
  twice, on no other wire; when an answer is returned the last thing sent was the whole command.
  The retry does not ask why the first attempt failed: with the port open, when the command went
  out whole and only the reading of its answer failed, the same command is sent a second time.
\<close>

theorem command_sent_twice:
  assumes "serial_send_data name data a b s = (r, s')"
  shows "(\<exists>parts. sm_wire s' = sm_wire s @ map (Pair name) parts \<and> length parts \<le> 2 \<and>
       (\<forall>p \<in> set parts. \<exists>n. p = take n data) \<and> (\<forall>x. r = Inr x \<longrightarrow> parts \<noteq> [] \<and> last parts = data)) \<and>
    (sm_connections s name = Some True \<and> map_of (sm_peripherals s) name = Some cfg \<and>
       map_of cfg ''device'' \<noteq> None \<and> io_reset a \<and> io_write a = None \<and> io_read a = None \<and>
       io_open b \<and> io_reset b \<and> io_write b = None \<longrightarrow>
     sm_wire s' = sm_wire s @ [(name, data), (name, data)])"
proof
  obtain q t where e: "ensure_open name (io_open a) s = (q, t)" by fastforce
  note t = ensure_frame[OF e]
  show "\<exists>parts. sm_wire s' = sm_wire s @ map (Pair name) parts \<and> length parts \<le> 2 \<and>
       (\<forall>p \<in> set parts. \<exists>n. p = take n data) \<and> (\<forall>x. r = Inr x \<longrightarrow> parts \<noteq> [] \<and> last parts = data)"
  proof (cases q)
    case (Inl x)
    with assms e t show ?thesis
      by (intro exI[of _ "[]"]) (auto simp: serial_send_data_def with_retry_def)
  next
    case (Inr u)
    obtain r1 s1 where x1: "exchange name a data t = (r1, s1)" by fastforce
    from exchange_wire[OF x1] t obtain p1 where p1: "sm_wire s1 = sm_wire s @ map (Pair name) p1"
      "length p1 \<le> 1" "\<forall>p \<in> set p1. \<exists>n. p = take n data" "\<forall>x. r1 = Inr x \<longrightarrow> p1 = [data]" by auto
    show ?thesis
    proof (cases r1)
      case (Inr x)
      with assms e \<open>q = Inr u\<close> x1 p1 show ?thesis
        by (intro exI[of _ p1]) (auto simp: serial_send_data_def with_retry_def)
    next
      case (Inl x)
      obtain r2 s2 where c2: "reconnect_port name (io_open b) s1 = (r2, s2)" by fastforce
      note f2 = reconnect_frame[OF c2]
      show ?thesis
      proof (cases r2)
        case (Inl y)
        with assms e \<open>q = Inr u\<close> x1 \<open>r1 = Inl x\<close> c2 f2 p1 show ?thesis
          by (intro exI[of _ p1]) (auto simp: serial_send_data_def with_retry_def)
      next
        case (Inr y)
        with assms e \<open>q = Inr u\<close> x1 \<open>r1 = Inl x\<close> c2 have x2: "exchange name b data s2 = (r, s')"
          by (simp add: serial_send_data_def with_retry_def)
        from exchange_wire[OF x2] f2 p1 obtain p2 where "sm_wire s' = sm_wire s @ map (Pair name) (p1 @ p2)"
          "length p2 \<le> 1" "\<forall>p \<in> set p2. \<exists>n. p = take n data" "\<forall>x. r = Inr x \<longrightarrow> p2 = [data]" by auto
        with p1 show ?thesis by (intro exI[of _ "p1 @ p2"]) auto
      qed
    qed
  qed
  show "sm_connections s name = Some True \<and> map_of (sm_peripherals s) name = Some cfg \<and>
       map_of cfg ''device'' \<noteq> None \<and> io_reset a \<and> io_write a = None \<and> io_read a = None \<and>
       io_open b \<and> io_reset b \<and> io_write b = None \<longrightarrow>
     sm_wire s' = sm_wire s @ [(name, data), (name, data)]"
    using assms
    by (auto simp: serial_send_data_def with_retry_def ensure_open_def exchange_def port_write_def
        put_wire_def reconnect_port_def Let_def split: option.splits if_splits)
qed

definition example_manager :: serial_manager where
  "example_manager = \<lparr>sm_peripherals = [(''emoney_reader'', [(''device'', JStr ''/dev/ttyS0'')])],
     sm_connections = (\<lambda>_. Some True), sm_running = True, sm_wire = []\<rparr>"

definition answer_lost :: port_io where
  "answer_lost = \<lparr>io_open = True, io_reset = True, io_write = None, io_read = None\<rparr>"

theorem command_sent_twice_witness:
  "sm_wire (snd (serial_send_data ''emoney_reader'' [1, 2] answer_lost
       (answer_lost\<lparr>io_read := Some [3]\<rparr>) example_manager)) =
     [(''emoney_reader'', [1, 2]), (''emoney_reader'', [1, 2])]"
proof -
  obtain r s' where h: "serial_send_data ''emoney_reader'' [1, 2] answer_lost
      (answer_lost\<lparr>io_read := Some [3]\<rparr>) example_manager = (r, s')" by fastforce
  from command_sent_twice[OF h, of "[(''device'', JStr ''/dev/ttyS0'')]"] h show ?thesis
    by (simp add: example_manager_def answer_lost_def)
qed

section \<open>Relay commands\<close>

lemma is_hex_plain: "is_hex c \<Longrightarrow> c \<noteq> CHR '' '' \<and> c \<noteq> CHR 0x5C"
  by (auto simp: is_hex_def Let_def)

lemma hex_digit_cases:
  assumes "n < 16"
  shows "hex_val (upper_char (hex_digit n)) = n \<and> is_hex (upper_char (hex_digit n)) \<and>
    hex_val (hex_digit n) = n \<and> is_hex (hex_digit n)"
proof -
  let ?P = "\<lambda>n. hex_val (upper_char (hex_digit n)) = n \<and> is_hex (upper_char (hex_digit n)) \<and>
    hex_val (hex_digit n) = n \<and> is_hex (hex_digit n)"
  have "list_all ?P [0..<16]"
    by (simp add: upt_rec hex_digit_def upper_char_def hex_val_def is_hex_def Let_def)
  with assms show ?thesis by (simp add: list_all_iff)
qed

text \<open>A byte as two digits in either case.\<close>

definition hex_pair :: "(char \<Rightarrow> char) \<Rightarrow> byte \<Rightarrow> string" where
  "hex_pair f b = [f (hex_digit (unat b div 16)), f (hex_digit (unat b mod 16))]"

lemma hex_pair_clean:
  assumes "f = id \<or> f = upper_char"
  shows "list_all (\<lambda>c. is_hex c \<and> c \<noteq> CHR '' '' \<and> c \<noteq> CHR 0x5C) (hex_pair f b)"
  using assms hex_digit_cases[of "unat b div 16"] hex_digit_cases[of "unat b mod 16"] unat_byte_bound[of b]
  by (auto simp: hex_pair_def less_mult_imp_div_less dest: is_hex_plain)

lemma hex_pair_value:
  assumes "f = id \<or> f = upper_char"
  shows "bytes_of_hex (hex_pair f b @ cs) = b # bytes_of_hex cs"
proof -
  have n: "unat b div 16 < 16" "unat b mod 16 < 16" using unat_byte_bound[of b] by simp_all
  have "hex_val (f (hex_digit (unat b div 16))) = unat b div 16"
    "hex_val (f (hex_digit (unat b mod 16))) = unat b mod 16"
    using assms hex_digit_cases[OF n(1)] hex_digit_cases[OF n(2)] by auto
  moreover have "16 * (unat b div 16) + unat b mod 16 = unat b" by simp
  ultimately show ?thesis by (simp add: hex_pair_def del: mult_div_mod_eq)
qed

lemma remove_escapes_Cons: "c \<noteq> CHR 0x5C \<Longrightarrow> remove_escapes (c # cs) = c # remove_escapes cs"
  by (cases cs) auto

lemma remove_escapes_clean:
  "list_all (\<lambda>c. c \<noteq> CHR 0x5C) p \<Longrightarrow> remove_escapes (p @ cs) = p @ remove_escapes cs"
  by (induction p) (auto simp: remove_escapes_Cons)

text \<open>
  A relay command written in hexadecimal, in either case, with nothing, a space or a backslash
  and an x before each byte, is decoded to exactly those bytes, without a warning.
\<close>

theorem relay_command_decoding:
  assumes "bs \<noteq> []" "f = id \<or> f = upper_char" "pre \<in> {[], '' '', [CHR 0x5C, CHR ''x'']}"
  shows "decode_command (concat (map (\<lambda>b. pre @ hex_pair f b) bs)) = (bs, ''hex'', None)"
proof -
  let ?v = "concat (map (\<lambda>b. pre @ hex_pair f b) bs)" and ?h = "concat (map (hex_pair f) bs)"
  have clean: "list_all (\<lambda>c. is_hex c \<and> c \<noteq> CHR '' '' \<and> c \<noteq> CHR 0x5C) (hex_pair f b)" for b
    by (rule hex_pair_clean[OF assms(2)])
  have f1: "filter (\<lambda>c. c \<noteq> CHR '' '') (hex_pair f b) = hex_pair f b" for b
    using clean[of b] by (simp add: list_all_iff filter_id_conv)
  have f2: "filter is_hex (hex_pair f b) = hex_pair f b" for b
    using clean[of b] by (simp add: list_all_iff filter_id_conv)
  have f3: "remove_escapes (hex_pair f b @ cs) = hex_pair f b @ remove_escapes cs" for b cs
    by (rule remove_escapes_clean) (use clean[of b] in \<open>simp add: list_all_iff\<close>)
  have "remove_escapes (filter (\<lambda>c. c \<noteq> CHR '' '') ?v) = ?h"
    using assms(3) by (induction bs) (auto simp: f1 f3)
  moreover have "filter is_hex ?h = ?h" by (induction bs) (simp_all add: f2)
  moreover have "bytes_of_hex ?h = bs" by (induction bs) (simp_all add: hex_pair_value[OF assms(2)])
  moreover have "length ?h = 2 * length bs" by (induction bs) (simp_all add: hex_pair_def)
  moreover have "?v \<noteq> []" using assms(1) by (cases bs) (simp_all add: hex_pair_def)
  moreover have "hex_pair f b \<noteq> []" for b by (simp add: hex_pair_def)
  ultimately show ?thesis using assms(1) by (simp add: decode_command_def Let_def)
qed

theorem relay_command_decoding_witness:
  "decode_command (concat (map (\<lambda>b. '' '' @ hex_pair upper_char b) [0xA0, 0x01])) =
     ([0xA0, 0x01], ''hex'', None)"
  by (rule relay_command_decoding) simp_all

text \<open>
  Opening the barrier: True means that the whole opening command was written, and after it the
  closing one where there is one and a delay; nothing else is ever written. False means that some
  write failed, which may be the closing one: the barrier is then open although the caller is told
  that it is not.
\<close>

theorem relay_open_result:
  assumes "open_sync io g = (ok, written)"
  shows "(ok \<longleftrightarrow> go_open_bytes g \<noteq> [] \<and> ri_open io \<and> ri_first io = None \<and>
        (go_close_bytes g \<noteq> [] \<and> 0 < go_close_delay g \<longrightarrow> ri_second io = None)) \<and>
    (ok \<longrightarrow> written = go_open_bytes g #
        (if go_close_bytes g \<noteq> [] \<and> 0 < go_close_delay g then [go_close_bytes g] else [])) \<and>
    (go_open_bytes g \<noteq> [] \<and> ri_open io \<and> ri_first io = None \<longrightarrow> hd written = go_open_bytes g)"
  using assms by (auto simp: open_sync_def split: option.splits if_splits)

theorem relay_open_result_witness:
  "hd (snd (open_sync \<lparr>ri_open = True, ri_first = None, ri_second = Some 0\<rparr>
      \<lparr>go_gate_id = ''OUT1'', go_gate_db_id = 7, go_device = ''/dev/ttyUSB0'', go_baudrate = 9600,
       go_open_bytes = [0xA0], go_close_bytes = [0xA1], go_close_delay = 3\<rparr>)) = [0xA0]"
proof -
  let ?io = "\<lparr>ri_open = True, ri_first = None, ri_second = Some 0\<rparr>"
  let ?g = "\<lparr>go_gate_id = ''OUT1'', go_gate_db_id = 7, go_device = ''/dev/ttyUSB0'', go_baudrate = 9600,
       go_open_bytes = [0xA0], go_close_bytes = [0xA1], go_close_delay = 3\<rparr>"
  obtain ok written where h: "open_sync ?io ?g = (ok, written)" by fastforce
  from relay_open_result[OF h] h show ?thesis by simp
qed

end
