(* ===== verification/Booth_Client.thy ===== *)
theory Booth_Client
  imports Prelude
begin

text \<open>
  The booth's HTTP client with its retry policy (\<open>booth_bridge/api_client.py\<close>).

  \<open>urllib\<close> is outside: what each attempt meets is an argument. An exception is told apart as far
  as the code tells it apart: its class, or the class of the \<open>reason\<close> of a \<open>URLError\<close>.
\<close>

section \<open>Exceptions\<close>

datatype net_error =
    ConnectionRefusedError
  | Gaierror
  | TimeoutErr
  | ConnectionResetError
  | BrokenPipeError
  | OtherOSError
  | NoOSError

datatype http_exc = HTTPError int | URLError net_error | Bare net_error

datatype http_outcome = Reply json | Failed http_exc

definition MAX_ATTEMPTS :: nat where "MAX_ATTEMPTS = 3"

fun post_safe :: "net_error \<Rightarrow> bool" where
  "post_safe ConnectionRefusedError = True"
| "post_safe Gaierror = True"
| "post_safe _ = False"

fun get_transient :: "net_error \<Rightarrow> bool" where
  "get_transient NoOSError = False"
| "get_transient _ = True"

fun is_retryable_post :: "http_exc \<Rightarrow> bool" where
  "is_retryable_post (HTTPError code) = False"
| "is_retryable_post (URLError reason) = post_safe reason"
| "is_retryable_post (Bare e) = post_safe e"

fun is_retryable_get :: "http_exc \<Rightarrow> bool" where
  "is_retryable_get (HTTPError code) = False"
| "is_retryable_get (URLError reason) = get_transient reason"
| "is_retryable_get (Bare e) = get_transient e"

section \<open>The attempts\<close>

text \<open>
  \<open>for attempt in range(1, _MAX_ATTEMPTS + 1)\<close>, from \<open>attempt\<close> on: the result, and what each
  attempt made met. \<open>k\<close> attempts are left.
\<close>

fun attempts_from ::
  "(http_exc \<Rightarrow> bool) \<Rightarrow> (nat \<Rightarrow> http_outcome) \<Rightarrow> nat \<Rightarrow> nat \<Rightarrow> (http_exc + json) \<times> http_outcome list" where
  "attempts_from retryable net attempt 0 = (Inl (Bare NoOSError), [])"
| "attempts_from retryable net attempt (Suc k) =
     (case net attempt of
        Reply j \<Rightarrow> (Inr j, [Reply j])
      | Failed e \<Rightarrow>
        if attempt < MAX_ATTEMPTS \<and> retryable e
        then (case attempts_from retryable net (Suc attempt) k of
                (r, tr) \<Rightarrow> (r, Failed e # tr))
        else (Inl e, [Failed e]))"

definition get_sync :: "(nat \<Rightarrow> http_outcome) \<Rightarrow> (http_exc + json) \<times> http_outcome list" where
  "get_sync net = attempts_from is_retryable_get net 1 MAX_ATTEMPTS"

definition post_sync :: "(nat \<Rightarrow> http_outcome) \<Rightarrow> (http_exc + json) \<times> http_outcome list" where
  "post_sync net = attempts_from is_retryable_post net 1 MAX_ATTEMPTS"

text \<open>The three calls: none of them raises. \<open>text\<close> is \<open>str(e)\<close>.\<close>

definition fetch_gate :: "(nat \<Rightarrow> http_outcome) \<Rightarrow> json option" where
  "fetch_gate net = (case fst (get_sync net) of Inl e \<Rightarrow> None | Inr j \<Rightarrow> Some j)"

definition rfid_exit :: "(http_exc \<Rightarrow> string) \<Rightarrow> (nat \<Rightarrow> http_outcome) \<Rightarrow> json" where
  "rfid_exit text net =
     (case fst (post_sync net) of
        Inr j \<Rightarrow> j
      | Inl e \<Rightarrow> JObj [(''success'', JBool False), (''message'', JStr (text e))])"

definition send_heartbeat :: "(nat \<Rightarrow> http_outcome) \<Rightarrow> json option" where
  "send_heartbeat net = (case fst (post_sync net) of Inl e \<Rightarrow> None | Inr j \<Rightarrow> Some j)"

section \<open>What was tried\<close>

text \<open>The loop always ends in one of its two ways out.\<close>

lemma attempts_shape:
  assumes "attempt + k = Suc MAX_ATTEMPTS" "0 < k" "attempts_from retryable net attempt k = (r, tr)"
  shows "tr = map net [attempt..<attempt + length tr] \<and> tr \<noteq> [] \<and> length tr \<le> k \<and>
    (\<forall>i < length tr - 1. \<exists>e. tr ! i = Failed e \<and> retryable e) \<and>
    (case last tr of Reply j \<Rightarrow> r = Inr j
     | Failed e \<Rightarrow> r = Inl e \<and> (attempt + length tr = Suc MAX_ATTEMPTS \<or> \<not> retryable e))"
  using assms
proof (induction k arbitrary: attempt r tr)
  case (Suc k)
  show ?case
  proof (cases "net attempt")
    case (Reply j)
    with Suc.prems show ?thesis by auto
  next
    case (Failed e)
    show ?thesis
    proof (cases "attempt < MAX_ATTEMPTS \<and> retryable e")
      case False
      with Suc.prems Failed show ?thesis by auto
    next
      case True
      obtain r1 t1 where t1: "attempts_from retryable net (Suc attempt) k = (r1, t1)" by fastforce
      have k: "Suc attempt + k = Suc MAX_ATTEMPTS" "0 < k" using Suc.prems(1) True by simp_all
      note ih = Suc.IH[OF k t1]
      from Suc.prems Failed True t1 have tr: "tr = Failed e # t1" "r = r1" by auto
      have "[attempt..<attempt + length tr] = attempt # [Suc attempt..<Suc attempt + length t1]"
        using upt_conv_Cons[of attempt "attempt + length tr"] by (simp add: tr(1) del: upt_Suc)
      then have "tr = map net [attempt..<attempt + length tr]"
        using ih Failed tr(1) by (simp del: upt_Suc) 
      moreover have "\<exists>e. tr ! i = Failed e \<and> retryable e" if "i < length tr - 1" for i
        using ih that True by (cases i) (auto simp: tr)
      moreover have "last tr = last t1" "tr \<noteq> []" "length tr \<le> Suc k"
        "attempt + length tr = Suc attempt + length t1" using ih by (simp_all add: tr(1))
      ultimately show ?thesis using ih tr(2) by metis
    qed
  qed
qed simp

text \<open>An attempt that may have reached the server: anything but a refused connection or a failed lookup.\<close>

fun may_have_arrived :: "http_outcome \<Rightarrow> bool" where
  "may_have_arrived (Reply j) = True"
| "may_have_arrived (Failed (HTTPError c)) = True"
| "may_have_arrived (Failed (URLError e)) = (e \<noteq> ConnectionRefusedError \<and> e \<noteq> Gaierror)"
| "may_have_arrived (Failed (Bare e)) = (e \<noteq> ConnectionRefusedError \<and> e \<noteq> Gaierror)"

lemma retryable_post_arrived: "is_retryable_post e \<longleftrightarrow> \<not> may_have_arrived (Failed e)"
proof -
  have "post_safe x \<longleftrightarrow> x = ConnectionRefusedError \<or> x = Gaierror" for x by (cases x) simp_all
  then show ?thesis by (cases e) simp_all
qed

text \<open>
  C16. A payment is posted at most once to a server that may have seen it. Of the at most three
  attempts of a POST, in order, only the last can have reached the server, all before it met a
  refused connection or a failed name lookup; a reply is returned as soon as there is one, and
  an error is returned only after an attempt that may have arrived or after the third.
\<close>

theorem post_at_most_once:
  assumes "post_sync net = (r, tr)"
  shows "tr = map net [1..<Suc (length tr)] \<and> 0 < length tr \<and> length tr \<le> 3 \<and>
    (\<forall>i < length tr - 1. \<not> may_have_arrived (tr ! i)) \<and>
    (case r of Inr j \<Rightarrow> last tr = Reply j
     | Inl e \<Rightarrow> last tr = Failed e \<and> (may_have_arrived (last tr) \<or> length tr = 3))"
proof -
  have k: "1 + MAX_ATTEMPTS = Suc MAX_ATTEMPTS" "0 < MAX_ATTEMPTS" by (simp_all add: MAX_ATTEMPTS_def)
  from attempts_shape[OF k assms[unfolded post_sync_def]]
  show ?thesis
    by (auto simp: MAX_ATTEMPTS_def retryable_post_arrived split: http_outcome.splits sum.splits)
qed

theorem post_at_most_once_witness:
  "(case post_sync (\<lambda>n. if n = 1 then Failed (URLError ConnectionRefusedError) else Failed (Bare TimeoutErr)) of
      (r, tr) \<Rightarrow> length tr \<le> 3 \<and> tr = map (\<lambda>n. if n = 1 then Failed (URLError ConnectionRefusedError)
        else Failed (Bare TimeoutErr)) [1..<Suc (length tr)])"
proof -
  let ?net = "\<lambda>n::nat. if n = 1 then Failed (URLError ConnectionRefusedError) else Failed (Bare TimeoutErr)"
  obtain r tr where h: "post_sync ?net = (r, tr)" by fastforce
  from post_at_most_once[OF h] show ?thesis unfolding h prod.case by blast
qed

end
