(* ===== verification/Booth_Bridge.thy ===== *)
theory Booth_Bridge
  imports Booth_Devices Booth_Client Payment_Routes Gate_In
begin

text \<open>
  The booth bridge on top of its devices and its client: the commands of the POS frontend
  (\<open>booth_bridge/websocket_server.py\<close>), the reader of member cards
  (\<open>booth_bridge/omnikey_poller.py\<close>), the refresh of the gate's configuration and the supervision of
  its tasks (\<open>booth_bridge/main.py\<close>).

  Background tasks are recorded in the order they are spawned and run one at a time; no client
  joins or leaves while a broadcast is under way. \<open>str(e)\<close> of an exception is an argument.
\<close>

section \<open>The commands of the POS\<close>

datatype bg_task =
    PostBoothResult "(string \<times> json) list"
  | OpenRelay
  | Broadcast json

record bridge =
  br_serial :: serial_manager
  br_opener :: "gate_opener option"
  br_api :: bool
  br_clients :: "nat list"
  br_max_clients :: nat
  br_tasks :: "bg_task list"
  br_relay :: "bytes list"

text \<open>What one message meets: the clock, the two attempts on the serial port, the relay.\<close>

record wire_env =
  we_local :: local_time
  we_first :: port_io
  we_second :: port_io
  we_relay :: relay_io

type_synonym 'a bridge_run = "bridge \<Rightarrow> (py_exc + 'a) \<times> bridge"

definition bg_spawn :: "bg_task \<Rightarrow> bridge \<Rightarrow> bridge" where
  "bg_spawn t b = b\<lparr>br_tasks := br_tasks b @ [t]\<rparr>"

definition open_relay :: "relay_io \<Rightarrow> gate_opener \<Rightarrow> bridge \<Rightarrow> bool \<times> bridge" where
  "open_relay io g b = (case open_sync io g of (ok, ws) \<Rightarrow> (ok, b\<lparr>br_relay := br_relay b @ ws\<rparr>))"

text \<open>The task \<open>OpenRelay\<close> when the event loop gets to it: \<open>self.gate_opener.open()\<close>.\<close>

definition run_open_relay :: "relay_io \<Rightarrow> bridge \<Rightarrow> bool \<times> bridge" where
  "run_open_relay io b = (case br_opener b of None \<Rightarrow> (False, b) | Some g \<Rightarrow> open_relay io g b)"

definition failure_reply :: "string \<Rightarrow> json" where
  "failure_reply e = JObj [(''status'', JBool False), (''error'', JStr e)]"

definition ws_open_gate :: "wire_env \<Rightarrow> json \<Rightarrow> json bridge_run" where
  "ws_open_gate env requested b =
     (case br_opener b of
        None \<Rightarrow> (Inr (failure_reply ''gate_opener not configured for this booth''), b)
      | Some g \<Rightarrow>
        if truthy requested \<and> requested \<noteq> JStr (go_gate_id g)
        then (Inr (failure_reply (''gate '' @ py_str requested @ '' not bound to this booth'')), b)
        else case open_relay (we_relay env) g b of
          (opened, b) \<Rightarrow>
            (Inr (JObj [(''status'', JBool opened),
               (''message'', JStr (if opened then ''Gate opened'' else ''Gate open failed''))]), b))"

definition reader_send :: "wire_env \<Rightarrow> bytes \<Rightarrow> bytes bridge_run" where
  "reader_send env frame b =
     (case serial_send_data ''emoney_reader'' frame (we_first env) (we_second env) (br_serial b) of
        (r, s) \<Rightarrow> (r, b\<lparr>br_serial := s\<rparr>))"

definition ws_check_balance :: "wire_env \<Rightarrow> json bridge_run" where
  "ws_check_balance env b =
     (case cmd_check_balance (we_local env) 10 of
        Inl e \<Rightarrow> (Inl e, b)
      | Inr frame \<Rightarrow>
        (case reader_send env frame b of
           (Inl e, b) \<Rightarrow> (Inl e, b)
         | (Inr response, b) \<Rightarrow>
           (Inr (JObj [(''status'', JBool True), (''data'', JStr (hex_of_bytes response))]), b)))"

definition reader_status :: "bytes \<Rightarrow> string" where
  "reader_status st =
     (if st = [0x00, 0x00, 0x00] then ''SUCCESS''
      else if st = [0x01, 0x10, 0x05] then ''LOST_CONTACT''
      else if st = [0x01, 0x10, 0x04] then ''INSUFFICIENT_BALANCE''
      else if st = [0x01, 0x10, 0x06] then ''WRONG_CARD''
      else if st = [0x01, 0x10, 0x02] then ''TIMEOUT''
      else ''FAILED'')"

text \<open>The answer of the reader was not understood.\<close>

definition deduct_failed :: "string \<Rightarrow> bytes \<Rightarrow> json" where
  "deduct_failed e raw =
     JObj [(''action'', JStr ''emoney_deduct_result''), (''status'', JStr ''FAILED''), (''error'', JStr e),
       (''raw_response_hex'', JStr (hex_of_bytes raw))]"

fun reply_fields :: "deduct_reply \<Rightarrow> deduct_fields" where
  "reply_fields (Prepaid f) = f"
| "reply_fields (QR q) = deduct_fields.truncate q"

definition result_payload :: "string \<Rightarrow> deduct_fields \<Rightarrow> bytes \<Rightarrow> json \<Rightarrow> json \<Rightarrow> (string \<times> json) list" where
  "result_payload st f raw gid out =
     [(''action'', JStr ''emoney_deduct_result''), (''status'', JStr st),
      (''card_number'', JStr (df_card_number f)), (''deduct_amount'', JInt (df_deducted f)),
      (''balance_before'', JInt (df_remaining f + df_deducted f)),
      (''balance_after'', JInt (df_remaining f)),
      (''transaction_counter'', JInt (df_trans_counter f)),
      (''raw_response_hex'', JStr (hex_of_bytes raw)), (''gate_id'', gid), (''gate_out_id'', out)]"

text \<open>The body \<open>_call_api_booth_result\<close> posts.\<close>

definition api_payload :: "string \<Rightarrow> deduct_fields \<Rightarrow> bytes \<Rightarrow> json \<Rightarrow> json \<Rightarrow> (string \<times> json) list" where
  "api_payload st f raw gid out =
     [(''gate_id'', gid), (''gate_out_id'', out), (''card_number'', JStr (df_card_number f)),
      (''status'', JStr st), (''deduct_amount'', JInt (df_deducted f)),
      (''balance_before'', JInt (df_remaining f + df_deducted f)),
      (''balance_after'', JInt (df_remaining f)),
      (''transaction_counter'', JInt (df_trans_counter f)),
      (''raw_response_hex'', JStr (hex_of_bytes raw))]"

definition payment_event :: "string \<Rightarrow> deduct_fields \<Rightarrow> json \<Rightarrow> json" where
  "payment_event st f gid =
     JObj [(''event'', JStr (if st = ''SUCCESS'' then ''emoney_payment_completed'' else ''emoney_payment_failed'')),
       (''status'', JStr st), (''card_number'', JStr (df_card_number f)),
       (''deduct_amount'', JInt (df_deducted f)), (''balance_after'', JInt (df_remaining f)),
       (''gate_id'', gid)]"

text \<open>The answer of the reader: the reply, and the background tasks it starts.\<close>

definition deduct_answer :: "bytes \<Rightarrow> json \<Rightarrow> json \<Rightarrow> json bridge_run" where
  "deduct_answer raw gid out b =
     (case parse_response raw of
        Inl e \<Rightarrow> (Inl e, b)
      | Inr (BadFrame e x) \<Rightarrow> (Inr (deduct_failed e raw), b)
      | Inr (Parsed rs) \<Rightarrow>
        let st = reader_status (rs_status rs)
        in case parse_deduct_response (rs_body rs) of
             Inl e \<Rightarrow> (Inr (deduct_failed e raw), b)
           | Inr d \<Rightarrow>
             let f = reply_fields d;
                 b = (if br_api b then bg_spawn (PostBoothResult (api_payload st f raw gid out)) b else b);
                 b = (if st = ''SUCCESS'' \<and> br_opener b \<noteq> None then bg_spawn OpenRelay b else b);
                 b = bg_spawn (Broadcast (payment_event st f gid)) b
             in (Inr (JObj (result_payload st f raw gid out)), b))"

text \<open>\<open>amount.to_bytes\<close> exists for integers only.\<close>

fun int_amount :: "json \<Rightarrow> py_exc + int" where
  "int_amount (JInt i) = Inr i"
| "int_amount (JBool x) = Inr (if x then 1 else 0)"
| "int_amount _ = Inl AttributeError"

definition ws_deduct :: "wire_env \<Rightarrow> json \<Rightarrow> json \<Rightarrow> json \<Rightarrow> json bridge_run" where
  "ws_deduct env amount gid out b =
     (case int_amount amount of
        Inl e \<Rightarrow> (Inl e, b)
      | Inr n \<Rightarrow>
        (case cmd_deduct (we_local env) n 30 of
           Inl e \<Rightarrow> (Inl e, b)
         | Inr frame \<Rightarrow>
           (case reader_send env frame b of
              (Inl e, b) \<Rightarrow> (Inl e, b)
            | (Inr raw, b) \<Rightarrow> deduct_answer raw gid out b)))"

text \<open>A text is encoded; anything else is no buffer for \<open>write\<close>.\<close>

definition ws_print :: "wire_env \<Rightarrow> json \<Rightarrow> json bridge_run" where
  "ws_print env data b =
     (case data of
        JStr s \<Rightarrow>
          (case write_only ''receipt_printer'' (encode s) (we_first env) (we_second env) (br_serial b) of
             (Inl e, s) \<Rightarrow> (Inl e, b\<lparr>br_serial := s\<rparr>)
           | (Inr n, s) \<Rightarrow>
             (Inr (JObj [(''status'', JBool True), (''message'', JStr ''Printed'')]), b\<lparr>br_serial := s\<rparr>))
      | _ \<Rightarrow> (Inl TypeError, b))"

text \<open>\<open>cmd.get(key, default)\<close> of the decoded message, \<open>None\<close> when it is no JSON.\<close>

definition process_message :: "wire_env \<Rightarrow> json option \<Rightarrow> json bridge_run" where
  "process_message env message b =
     (case message of
        None \<Rightarrow> (Inl (ValueError ''JSONDecodeError''), b)
      | Some (JObj cmd) \<Rightarrow>
        (let get = (\<lambda>k d. case map_of cmd k of None \<Rightarrow> d | Some v \<Rightarrow> v);
             action = get ''action'' JNull
         in if action = JStr ''open_gate'' then ws_open_gate env (get ''gate_code'' JNull) b
            else if action = JStr ''emoney_check_balance'' then ws_check_balance env b
            else if action = JStr ''emoney_deduct''
            then ws_deduct env (get ''amount'' (JInt 0)) (get ''gate_id'' (JStr [])) (get ''gate_out_id'' (JInt 0)) b
            else if action = JStr ''print_receipt'' then ws_print env (get ''data'' (JStr [])) b
            else if action = JStr ''running_text''
            then (Inr (JObj [(''status'', JBool True), (''message'', JStr ''Display updated'')]), b)
            else (Inr (failure_reply (''Unknown action: '' @ py_str action)), b))
      | Some _ \<Rightarrow> (Inl AttributeError, b))"

text \<open>A message of a client: every exception becomes a reply.\<close>

definition handle_ws_message :: "(py_exc \<Rightarrow> string) \<Rightarrow> wire_env \<Rightarrow> json option \<Rightarrow> bridge \<Rightarrow> json \<times> bridge" where
  "handle_ws_message str_of env message b =
     (case process_message env message b of
        (Inl e, b) \<Rightarrow> (failure_reply (str_of e), b)
      | (Inr r, b) \<Rightarrow> (r, b))"

text \<open>Clients come, up to the limit, and go; a broadcast drops those that do not take it.\<close>

definition client_joins :: "nat \<Rightarrow> bridge \<Rightarrow> bool \<times> bridge" where
  "client_joins c b =
     (if br_max_clients b \<le> length (br_clients b) then (False, b)
      else (True, b\<lparr>br_clients := br_clients b @ [c]\<rparr>))"

definition client_leaves :: "nat \<Rightarrow> bridge \<Rightarrow> bridge" where
  "client_leaves c b = b\<lparr>br_clients := filter (\<lambda>x. x \<noteq> c) (br_clients b)\<rparr>"

definition broadcast_to :: "(nat \<Rightarrow> bool) \<Rightarrow> bridge \<Rightarrow> nat list \<times> bridge" where
  "broadcast_to takes b =
     (filter takes (br_clients b), b\<lparr>br_clients := filter takes (br_clients b)\<rparr>)"

section \<open>Member cards\<close>

definition DIGIT_KEYS :: "(string \<times> char) list" where
  "DIGIT_KEYS =
     [(''KEY_0'', CHR ''0''), (''KEY_1'', CHR ''1''), (''KEY_2'', CHR ''2''), (''KEY_3'', CHR ''3''),
      (''KEY_4'', CHR ''4''), (''KEY_5'', CHR ''5''), (''KEY_6'', CHR ''6''), (''KEY_7'', CHR ''7''),
      (''KEY_8'', CHR ''8''), (''KEY_9'', CHR ''9''), (''KEY_KP0'', CHR ''0''), (''KEY_KP1'', CHR ''1''),
      (''KEY_KP2'', CHR ''2''), (''KEY_KP3'', CHR ''3''), (''KEY_KP4'', CHR ''4''), (''KEY_KP5'', CHR ''5''),
      (''KEY_KP6'', CHR ''6''), (''KEY_KP7'', CHR ''7''), (''KEY_KP8'', CHR ''8''), (''KEY_KP9'', CHR ''9'')]"

definition ENTER_KEYS :: "string list" where
  "ENTER_KEYS = [''KEY_ENTER'', ''KEY_KPENTER'']"

record poller =
  pl_gate_id :: string
  pl_cooldown :: time
  pl_min_card_len :: nat
  pl_min_invalid_feedback_len :: nat
  pl_last_card :: "string option"
  pl_last_card_at :: time
  pl_connected :: bool
  pl_buffer :: string
  pl_posts :: "(time \<times> string) list"
  pl_broadcasts :: "json list"
  pl_opened :: nat

text \<open>
  What a card reading meets: the clock and the API's reply. The posts, the broadcasts and the
  openings attempted are recorded.
\<close>

record tap =
  tp_now :: time
  tp_reply :: json

definition scan_event :: "string \<Rightarrow> string \<Rightarrow> bool \<Rightarrow> json \<Rightarrow> json \<Rightarrow> json \<Rightarrow> json" where
  "scan_event gid card_number success message reason tid =
     JObj [(''event'', JStr ''member_card_scanned''), (''gate_id'', JStr gid),
       (''card_number'', JStr card_number), (''success'', JBool success), (''message'', message),
       (''reason'', reason), (''transaction_id'', tid)]"

definition handle_card :: "tap \<Rightarrow> string \<Rightarrow> poller \<Rightarrow> (py_exc + unit) \<times> poller" where
  "handle_card t cno p =
     (if pl_last_card p = Some cno \<and> tp_now t - pl_last_card_at p < pl_cooldown p then (Inr (), p)
      else
        let p = p\<lparr>pl_last_card := Some cno, pl_last_card_at := tp_now t,
                  pl_posts := pl_posts p @ [(tp_now t, cno)]\<rparr>
        in case (jget (tp_reply t) ''success'' JNull, jget (tp_reply t) ''message'' (JStr []),
                 jget (tp_reply t) ''reason'' JNull, jget (tp_reply t) ''transaction_id'' JNull) of
             (Inr ok, Inr message, Inr reason, Inr tid) \<Rightarrow>
               let p = p\<lparr>pl_broadcasts := pl_broadcasts p @ [scan_event (pl_gate_id p) cno (truthy ok) message
                     (if truthy ok then JNull else if truthy reason then reason else JStr ''api_rejected'') tid]\<rparr>
               in (Inr (), if truthy ok then p\<lparr>pl_opened := Suc (pl_opened p)\<rparr> else p)
           | _ \<Rightarrow> (Inl AttributeError, p))"

text \<open>The dash of the message is not a character of the model and written as a hyphen.\<close>

definition short_read :: "string \<Rightarrow> poller \<Rightarrow> json" where
  "short_read partial p =
     scan_event (pl_gate_id p) partial False
       (JStr (''Kartu tidak terbaca penuh ('' @ str_of_nat (length partial) @ '' digit) - coba tap ulang.''))
       (JStr ''card_too_short'') JNull"

definition flush_buffer :: "tap \<Rightarrow> poller \<Rightarrow> (py_exc + unit) \<times> poller" where
  "flush_buffer t p =
     (if length (pl_buffer p) < pl_min_card_len p
      then (Inr (), if pl_min_invalid_feedback_len p \<le> length (pl_buffer p)
        then p\<lparr>pl_broadcasts := pl_broadcasts p @ [short_read (pl_buffer p) p]\<rparr> else p)
      else handle_card t (pl_buffer p) p)"

text \<open>
  What the inner loop waits for: an event of the device (is it a key, is it going down, its code),
  the pause after the last digit, an error of the device.
\<close>

datatype key_input = KeyEvent bool bool string | IdlePause | DeviceError

text \<open>One turn: \<open>False\<close> ends the loop, by an exception of the device or of a handler.\<close>

definition flush_and_clear :: "tap \<Rightarrow> poller \<Rightarrow> bool \<times> poller" where
  "flush_and_clear t p =
     (if pl_buffer p = [] then (True, p)
      else case flush_buffer t p of
             (Inl e, p) \<Rightarrow> (False, p\<lparr>pl_connected := False, pl_buffer := []\<rparr>)
           | (Inr _, p) \<Rightarrow> (True, p\<lparr>pl_buffer := []\<rparr>))"

fun key_turn :: "key_input \<Rightarrow> tap \<Rightarrow> poller \<Rightarrow> bool \<times> poller" where
  "key_turn DeviceError t p = (False, p\<lparr>pl_connected := False, pl_buffer := []\<rparr>)"
| "key_turn IdlePause t p = flush_and_clear t p"
| "key_turn (KeyEvent is_key down code) t p =
     (if \<not> is_key \<or> \<not> down then (True, p)
      else case map_of DIGIT_KEYS code of
             Some d \<Rightarrow> (True, p\<lparr>pl_buffer := pl_buffer p @ [d]\<rparr>)
           | None \<Rightarrow> if code \<in> set ENTER_KEYS then flush_and_clear t p else (True, p))"

text \<open>A run of the reader: turns, the device found again after an error.\<close>

fun key_run :: "(key_input \<times> tap) list \<Rightarrow> poller \<Rightarrow> poller" where
  "key_run [] p = p"
| "key_run ((k, t) # ks) p =
     (case key_turn k t p of
        (True, p) \<Rightarrow> key_run ks p
      | (False, p) \<Rightarrow> key_run ks (p\<lparr>pl_connected := True\<rparr>))"

text \<open>The pauses between attempts to find and grab the device, in seconds.\<close>

definition next_find_delay :: "int \<Rightarrow> int" where
  "next_find_delay d = min (d * 2) 30"

interpretation find_device: capped_backoff next_find_delay 3 30
  by unfold_locales (simp_all add: next_find_delay_def)

section \<open>Supervision\<close>

text \<open>How a run of a task ended, and after how many seconds.\<close>

datatype task_end = Returned | Crashed int

definition next_backoff :: "int \<Rightarrow> int" where
  "next_backoff backoff = min (backoff * 2) 30"

interpretation restart: capped_backoff next_backoff 1 30
  by unfold_locales (simp_all add: next_backoff_def)

text \<open>The pauses before each restart; a task that returns is restarted without one.\<close>

fun supervise :: "int \<Rightarrow> task_end list \<Rightarrow> int option list" where
  "supervise backoff [] = []"
| "supervise backoff (Returned # es) = None # supervise backoff es"
| "supervise backoff (Crashed ran_for # es) =
     (let backoff = (if 60 \<le> ran_for then 1 else backoff)
      in Some backoff # supervise (next_backoff backoff) es)"

section \<open>Configuration\<close>

text \<open>\<open>_gate_signature\<close>, and one successful turn of the refresher.\<close>

definition gate_signature :: "opener_config \<Rightarrow> string \<times> string \<times> int \<times> string \<times> string \<times> rat" where
  "gate_signature g =
     (oc_code g, str_or (oc_controller_device g) (oc_hw_device g) [],
      (case oc_controller_baudrate g of
         Some b \<Rightarrow> if b = 0 then (case oc_hw_baudrate g of None \<Rightarrow> 0 | Some h \<Rightarrow> h) else b
       | None \<Rightarrow> (case oc_hw_baudrate g of None \<Rightarrow> 0 | Some h \<Rightarrow> h)),
      str_or (oc_hw_open g) (oc_open g) [], str_or (oc_hw_close g) (oc_close g) [],
      (case oc_close_delay g of None \<Rightarrow> 3 | Some d \<Rightarrow> d))"

record live_gate =
  lg_opener :: "gate_opener option"
  lg_signature :: "(string \<times> string \<times> int \<times> string \<times> string \<times> rat) option"

definition refresh_gate :: "opener_config option \<Rightarrow> live_gate \<Rightarrow> live_gate" where
  "refresh_gate fetched l =
     (case fetched of
        None \<Rightarrow> l
      | Some g \<Rightarrow>
        if lg_signature l \<noteq> Some (gate_signature g) \<or> lg_opener l = None
        then \<lparr>lg_opener = Some (init_opener g), lg_signature = Some (gate_signature g)\<rparr>
        else l)"

section \<open>A deduct at the booth and at the API\<close>

text \<open>
  The body as \<open>EmoneyResultRequest\<close> takes it: its fields, their types, bounds and defaults. Values of
  another type are refused; that a number may also be written as a string is left out.
\<close>

fun opt_str :: "json option \<Rightarrow> string option" where
  "opt_str (Some (JStr s)) = Some s"
| "opt_str _ = None"

fun opt_int :: "json option \<Rightarrow> int option" where
  "opt_int (Some (JInt i)) = Some i"
| "opt_int _ = None"

fun text_or_empty :: "json option \<Rightarrow> string option" where
  "text_or_empty None = Some []"
| "text_or_empty v = opt_str v"

fun nullable_text :: "json option \<Rightarrow> string option option" where
  "nullable_text (Some (JStr s)) = Some (Some s)"
| "nullable_text v = (if v = None \<or> v = Some JNull then Some None else None)"

fun nullable_byte :: "json option \<Rightarrow> int option option" where
  "nullable_byte (Some (JInt i)) = (if 0 \<le> i \<and> i \<le> 255 then Some (Some i) else None)"
| "nullable_byte v = (if v = None \<or> v = Some JNull then Some None else None)"

definition booth_request :: "(string \<times> json) list \<Rightarrow> result_request option" where
  "booth_request bd =
     (let str = (\<lambda>k. opt_str (map_of bd k)); num = (\<lambda>k. opt_int (map_of bd k));
          counts = map num [''deduct_amount'', ''balance_before'', ''balance_after'', ''transaction_counter''];
          ty = nullable_text (map_of bd ''card_type''); code = nullable_byte (map_of bd ''card_type_code'');
          raw = text_or_empty (map_of bd ''raw_response_hex'');
          payload = text_or_empty (map_of bd ''settlement_payload_hex'')
      in if str ''gate_id'' = None \<or> num ''gate_out_id'' = None \<or> str ''card_number'' = None \<or>
           str ''status'' = None \<or> ty = None \<or> code = None \<or> raw = None \<or> payload = None \<or>
           \<not> list_all (\<lambda>n. case n of None \<Rightarrow> False | Some i \<Rightarrow> 0 \<le> i) counts \<or>
           \<not> (4 \<le> length (the (str ''card_number'')) \<and> length (the (str ''card_number'')) \<le> 32)
         then None
         else Some
           \<lparr>eq_gate_id = the (str ''gate_id''), eq_gate_out_id = the (num ''gate_out_id''),
            eq_card_number = the (str ''card_number''), eq_card_type = the ty, eq_card_type_code = the code,
            eq_status = the (str ''status''), eq_deduct_amount = the (num ''deduct_amount''),
            eq_balance_before = the (num ''balance_before''),
            eq_balance_after = the (num ''balance_after''),
            eq_transaction_counter = the (num ''transaction_counter''),
            eq_raw_response_hex = the raw, eq_settlement_payload_hex = the payload\<rparr>)"

definition deduct_message :: "int \<Rightarrow> string \<Rightarrow> int \<Rightarrow> json" where
  "deduct_message amount gid out =
     JObj [(''action'', JStr ''emoney_deduct''), (''amount'', JInt amount), (''gate_id'', JStr gid),
       (''gate_out_id'', JInt out)]"

lemma process_deduct:
  assumes "cmd_deduct (we_local env) n 30 = Inr frame"
    and "serial_send_data ''emoney_reader'' frame (we_first env) (we_second env) (br_serial b) = (Inr raw, sm)"
  shows "process_message env (Some (deduct_message n gid out)) b =
    deduct_answer raw (JStr gid) (JInt out) (b\<lparr>br_serial := sm\<rparr>)"
  using assms by (simp add: process_message_def deduct_message_def ws_deduct_def reader_send_def)

text \<open>What a successful answer starts.\<close>

definition success_tasks :: "deduct_fields \<Rightarrow> bytes \<Rightarrow> json \<Rightarrow> json \<Rightarrow> bridge \<Rightarrow> bg_task list" where
  "success_tasks f raw gid out b =
     (if br_api b then [PostBoothResult (api_payload ''SUCCESS'' f raw gid out)] else []) @
     (if br_opener b \<noteq> None then [OpenRelay] else []) @ [Broadcast (payment_event ''SUCCESS'' f gid)]"

lemma answer_success:
  assumes "length bd < 65000" "2 \<le> length bd" "parse_deduct_response bd = Inr d"
    and "raw = frame_of ([rc, 0, 0, 0] @ bd) @ noise"
  shows "deduct_answer raw gid out b =
    (Inr (JObj (result_payload ''SUCCESS'' (reply_fields d) raw gid out)),
     b\<lparr>br_tasks := br_tasks b @ success_tasks (reply_fields d) raw gid out b\<rparr>)"
proof -
  have "parse_response raw = Inr (Parsed (response_of ([rc, 0, 0, 0] @ bd)))"
    unfolding assms(4) by (rule parse_frame) (use assms(1,2) in \<open>simp_all add: frame_of_def Let_def\<close>)
  with assms(3) show ?thesis
    by (simp add: deduct_answer_def response_of_def reader_status_def Let_def bg_spawn_def success_tasks_def)
qed

lemma request_of_payload:
  assumes "f = \<lparr>df_card_type_code = ct, df_card_type = ty, df_mid = mi, df_tid = ti, df_datetime_bcd = dt,
      df_card_number = c, df_deducted = d, df_remaining = r, df_trans_counter = n\<rparr>"
    and "0 \<le> d" "0 \<le> r" "0 \<le> n"
  shows "booth_request (api_payload st f raw (JStr gid) (JInt out)) =
    (if 4 \<le> length c \<and> length c \<le> 32
     then Some \<lparr>eq_gate_id = gid, eq_gate_out_id = out, eq_card_number = c, eq_card_type = None,
       eq_card_type_code = None, eq_status = st, eq_deduct_amount = d, eq_balance_before = r + d,
       eq_balance_after = r, eq_transaction_counter = n, eq_raw_response_hex = hex_of_bytes raw,
       eq_settlement_payload_hex = []\<rparr>
     else None)"
  using assms by (simp add: booth_request_def api_payload_def Let_def)

lemma to_bytes4_nonneg: "to_bytes4 n = Inr bs \<Longrightarrow> 0 \<le> n"
  by (auto simp: to_bytes4_def split: if_splits)

lemma from_bytes_nonneg: "0 \<le> from_bytes bs"
proof -
  have "0 \<le> acc \<Longrightarrow> 0 \<le> fold (\<lambda>b acc. 256 * acc + uint b) bs acc" for acc :: int
    by (induction bs arbitrary: acc) simp_all
  then show ?thesis by (simp add: from_bytes_def)
qed

text \<open>The part of the API: a posted success completes the armed transaction at the amount it reports.\<close>

lemma success_completes:
  assumes "store_ok (db a)" "eq_status q = ''SUCCESS''"
      "get_emoney_pending (eq_gate_id q) (k_check k) (db a) = Inr (Some pd)"
      "get_tx (db a) (pd_transaction_id pd) = Some t" "is_active_tx t"
      "unique_active (replace_tx (with_card t (eq_card_number q)) (txs (db a)))"
      "enforce_booth_rate_limit m (eq_gate_id q) (k_check k) (booth_z a) = (None, z)"
      "eq_settlement_payload_hex q = []"
  shows "\<exists>resp a' t' e. emoney_booth_result m q k a = (Inr resp, a') \<and>
    pr_success resp \<and> pr_fee resp = Some (eq_deduct_amount q) \<and>
    t' \<in> set (txs (db a')) \<and> tx_id t' = tx_id t \<and> tx_status t' = ''COMPLETED'' \<and> tx_fee t' = Some (eq_deduct_amount q) \<and>
    e \<in> set (emoney_txs (db a')) \<and> em_parking_transaction_id e = Some (tx_id t) \<and>
    em_amount_deducted e = eq_deduct_amount q \<and> em_card_number e = eq_card_number q \<and> em_settlement_payload_hex e = None"
proof -
  let ?rep = "report_of q SUCCESS" and ?d = "eq_deduct_amount q"
  have rep: "rp_card_number ?rep = eq_card_number q" "rp_status ?rep = SUCCESS" "rp_deduct_amount ?rep = ?d"
    by (simp_all add: report_of_def)
  have u: "unique_active (replace_tx (with_card t (rp_card_number ?rep)) (txs (db a)))"
    unfolding rep by (rule assms(6))
  define t2 where "t2 = completed_tx (with_card t (eq_card_number q)) (int_or (pd_gate_out_id pd) (eq_gate_out_id q))
     ''EMONEY'' ?d (Some ?d) None (Some (next_em_id (db a))) None
     (map_option sh_id (get_current_shift (db a) (k_shift k))) (k_exit k)"
  define e where "e = emoney_row (next_em_id (db a)) (tx_id t) ?rep (k_fee k)"
  obtain s' where run: "process_emoney_result (eq_gate_id q) (eq_gate_out_id q) ?rep None (k_check k) (k_fee k) (k_shift k)
      (k_exit k) (db a) = (Inr (t2, next_em_id (db a), True, SUCCESS, False), s')"
      "txs s' = replace_tx t2 (txs (db a))" "emoney_txs s' = emoney_txs (db a) @ [e]"
    using emoney_result_eq[OF assms(1,3,4,5) u, of "eq_gate_out_id q" None "k_fee k" "k_shift k" "k_exit k"]
    by (simp add: rep deduct_success_def t2_def e_def)
  have "emoney_booth_result m q k a = (Inr (result_response ?d (t2, next_em_id (db a), True, SUCCESS, False)),
      a\<lparr>booth_z := z, db := s'\<rparr>)"
    using assms(2,7) run(1)
    by (simp add: emoney_booth_result_def booth_guard_def emoney_result_def deduct_status_of_def
        settle_def with_operator_def get_operator_id_def)
  moreover have "t2 \<in> set (txs s')"
    unfolding run(2)
    by (rule replace_tx_same[of t]) (use get_tx_Some[OF assms(4)] in \<open>simp_all add: t2_def\<close>)
  moreover have "em_parking_transaction_id e = Some (tx_id t)" "em_amount_deducted e = ?d"
    "em_card_number e = eq_card_number q" "em_settlement_payload_hex e = None"
    using assms(8) by (simp_all add: e_def report_of_def emoney_row_def add_emoney_tx_def)
  ultimately show ?thesis
    using run(3)
    by (intro exI[of _ "result_response ?d (t2, next_em_id (db a), True, SUCCESS, False)"]
        exI[of _ "a\<lparr>booth_z := z, db := s'\<rparr>"] exI[of _ t2] exI[of _ e] conjI)
      (simp_all add: result_response_def t2_def)
qed

text \<open>The opening command goes on the relay first.\<close>

lemma opening_first:
  assumes "br_opener b = Some g" "go_open_bytes g \<noteq> []" "ri_open io" "ri_first io = None"
  shows "\<exists>after. br_relay (snd (run_open_relay io (b\<lparr>br_serial := sm, br_tasks := ts\<rparr>))) =
    br_relay b @ go_open_bytes g # after"
  using assms by (simp add: run_open_relay_def open_relay_def open_sync_def split: option.splits)

text \<open>
  C4. A prepaid card paid at the booth is paid at the API. When the reader answers a deduct with
  success and a complete body, noise behind it included, the bridge starts three tasks: it posts a
  report, opens the relay and tells the POS. Whatever the port answers once it is open and takes the first
  write, the second task puts the whole opening command of the gate on the relay first; the report is
  one the endpoint accepts, and with the gate armed the endpoint completes the armed transaction with
  exactly the amount the reader took, and records card and amount. The record has no settlement
  payload: the bridge sends none.
\<close>

theorem booth_deduct_completes:
  assumes bd: "bd = [ct] @ mid @ tid @ dt @ cno @ dbs @ rbs @ nbs @ lg" "length mid = 8" "length tid = 4"
      "length dt = 7" "length cno = 8" "ct \<noteq> 0x09" "length lg < 60000"
      "to_bytes4 d = Inr dbs" "to_bytes4 r = Inr rbs" "to_bytes4 n = Inr nbs"
    and reader: "cmd_deduct (we_local env) amount 30 = Inr frame"
      "serial_send_data ''emoney_reader'' frame (we_first env) (we_second env) (br_serial b) =
         (Inr (frame_of ([rc, 0, 0, 0] @ bd) @ noise), sm)"
    and booth: "br_api b" "br_opener b = Some g" "go_open_bytes g \<noteq> []"
    and armed: "store_ok (db a)" "get_emoney_pending gid (k_check k) (db a) = Inr (Some pd)"
      "get_tx (db a) (pd_transaction_id pd) = Some t" "is_active_tx t"
      "unique_active (replace_tx (with_card t (hex_up cno)) (txs (db a)))"
    and budget: "enforce_booth_rate_limit m gid (k_check k) (booth_z a) = (None, z)"
  shows "\<exists>reply b' post note q resp a' t' e.
    process_message env (Some (deduct_message amount gid out)) b = (Inr reply, b') \<and>
    br_tasks b' = br_tasks b @ [PostBoothResult post, OpenRelay, Broadcast note] \<and>
    (\<forall>io. ri_open io \<and> ri_first io = None \<longrightarrow>
       (\<exists>after. br_relay (snd (run_open_relay io b')) = br_relay b @ go_open_bytes g # after)) \<and>
    booth_request post = Some q \<and> emoney_booth_result m q k a = (Inr resp, a') \<and>
    pr_success resp \<and> pr_fee resp = Some d \<and>
    t' \<in> set (txs (db a')) \<and> tx_id t' = tx_id t \<and> tx_status t' = ''COMPLETED'' \<and> tx_fee t' = Some d \<and>
    e \<in> set (emoney_txs (db a')) \<and> em_parking_transaction_id e = Some (tx_id t) \<and>
    em_amount_deducted e = d \<and> em_card_number e = hex_up cno \<and> em_settlement_payload_hex e = None"
proof -
  define raw where raw: "raw = frame_of ([rc, 0, 0, 0] @ bd) @ noise"
  note msg = process_deduct[OF reader, folded raw]
  let ?f = "\<lparr>df_card_type_code = ct, df_card_type = card_type_of ct, df_mid = hex_up mid,
        df_tid = hex_up tid, df_datetime_bcd = hex_of_bytes dt, df_card_number = hex_up cno,
        df_deducted = d, df_remaining = r, df_trans_counter = n\<rparr>"
  have parse: "parse_deduct_response bd = Inr (Prepaid ?f)"
    unfolding bd(1) by (rule parse_prepaid) (use bd in simp_all)
  have four: "length bs = 4" if "to_bytes4 i = Inr bs" for i bs
    using that by (auto simp: to_bytes4_def split: if_splits)
  have len: "length bd < 65000" "2 \<le> length bd"
    using bd four[OF bd(8)] four[OF bd(9)] four[OF bd(10)] by simp_all
  let ?post = "api_payload ''SUCCESS'' ?f raw (JStr gid) (JInt out)"
  let ?q = "\<lparr>eq_gate_id = gid, eq_gate_out_id = out, eq_card_number = hex_up cno, eq_card_type = None,
       eq_card_type_code = None, eq_status = ''SUCCESS'', eq_deduct_amount = d, eq_balance_before = r + d,
       eq_balance_after = r, eq_transaction_counter = n, eq_raw_response_hex = hex_of_bytes raw,
       eq_settlement_payload_hex = []\<rparr>"
  have "length (hex_up cno) = 16" using bd(5) by (simp add: hex_up_def)
  then have q: "booth_request ?post = Some ?q"
    by (subst request_of_payload[OF refl to_bytes4_nonneg[OF bd(8)] to_bytes4_nonneg[OF bd(9)]
        to_bytes4_nonneg[OF bd(10)]]) simp
  obtain resp a' t' e where api: "emoney_booth_result m ?q k a = (Inr resp, a')" "pr_success resp" "pr_fee resp = Some d"
      "t' \<in> set (txs (db a'))" "tx_id t' = tx_id t" "tx_status t' = ''COMPLETED''" "tx_fee t' = Some d"
      "e \<in> set (emoney_txs (db a'))" "em_parking_transaction_id e = Some (tx_id t)" "em_amount_deducted e = d"
      "em_card_number e = hex_up cno" "em_settlement_payload_hex e = None"
    using success_completes[of a ?q k pd t m z] armed budget by auto
  have "process_message env (Some (deduct_message amount gid out)) b =
      (Inr (JObj (result_payload ''SUCCESS'' ?f raw (JStr gid) (JInt out))),
       b\<lparr>br_serial := sm, br_tasks := br_tasks b @ success_tasks ?f raw (JStr gid) (JInt out) b\<rparr>)"
    using answer_success[OF len parse raw, of "JStr gid" "JInt out" "b\<lparr>br_serial := sm\<rparr>"]
    by (simp add: msg success_tasks_def)
  then show ?thesis using q api booth opening_first[OF booth(2,3)]
    by (intro exI[of _ "JObj (result_payload ''SUCCESS'' ?f raw (JStr gid) (JInt out))"]
        exI[of _ "b\<lparr>br_serial := sm, br_tasks := br_tasks b @ success_tasks ?f raw (JStr gid) (JInt out) b\<rparr>"]
        exI[of _ ?post] exI[of _ "payment_event ''SUCCESS'' ?f (JStr gid)"] exI[of _ ?q] exI[of _ resp]
        exI[of _ a'] exI[of _ t'] exI[of _ e] conjI)
      (simp_all add: success_tasks_def)
qed

definition example_body :: bytes where
  "example_body = [0x03] @ replicate 8 1 @ replicate 4 2 @ replicate 7 3 @ replicate 8 4 @ [0, 0, 19, 136] @
     [0, 0, 39, 16] @ [0, 0, 0, 12] @ [99]"

definition answering :: "bytes \<Rightarrow> wire_env" where
  "answering raw = \<lparr>we_local = example_time,
     we_first = \<lparr>io_open = True, io_reset = True, io_write = None, io_read = Some raw\<rparr>,
     we_second = \<lparr>io_open = True, io_reset = True, io_write = None, io_read = Some raw\<rparr>,
     we_relay = \<lparr>ri_open = True, ri_first = None, ri_second = None\<rparr>\<rparr>"

definition example_bridge :: bridge where
  "example_bridge = \<lparr>br_serial = example_manager,
     br_opener = Some \<lparr>go_gate_id = ''OUT1'', go_gate_db_id = 7, go_device = ''/dev/ttyUSB0'', go_baudrate = 9600,
       go_open_bytes = [0xA0], go_close_bytes = [], go_close_delay = 3\<rparr>,
     br_api = True, br_clients = [], br_max_clients = 8, br_tasks = [], br_relay = []\<rparr>"

lemma example_answer:
  "length raw \<le> 1024 \<Longrightarrow> \<exists>sm. serial_send_data ''emoney_reader'' frame (we_first (answering raw))
     (we_second (answering raw)) (br_serial example_bridge) = (Inr raw, sm)"
  by (simp add: serial_send_data_def with_retry_def ensure_open_def exchange_def port_write_def
      answering_def example_bridge_def example_manager_def)

lemma example_frame: "\<exists>f. cmd_deduct (we_local (answering raw)) 5000 30 = Inr f"
  by (simp add: cmd_deduct_def to_bytes4_def bcd_timeout_def answering_def)

theorem booth_deduct_completes_witness:
  "\<exists>raw reply b' resp a' q t'.
     process_message (answering raw) (Some (deduct_message 5000 ''OUT1'' 7)) example_bridge = (Inr reply, b') \<and>
     emoney_booth_result 0 q (example_clock\<lparr>k_check := 5\<rparr>) (example_api\<lparr>db := example_armed\<rparr>) = (Inr resp, a') \<and>
     pr_success resp \<and> t' \<in> set (txs (db a')) \<and> tx_status t' = ''COMPLETED'' \<and> tx_fee t' = Some 5000"
proof -
  define raw where "raw = frame_of ([0xEF, 0, 0, 0] @ example_body) @ [7]"
  have raw: "length raw \<le> 1024" by (simp add: raw_def frame_of_def Let_def example_body_def)
  obtain frame sm where r: "cmd_deduct (we_local (answering raw)) 5000 30 = Inr frame"
    "serial_send_data ''emoney_reader'' frame (we_first (answering raw)) (we_second (answering raw))
       (br_serial example_bridge) = (Inr (frame_of ([0xEF, 0, 0, 0] @ example_body) @ [7]), sm)"
    using example_frame[of raw] example_answer[OF raw] by (metis raw_def)
  have n: "to_bytes4 5000 = Inr [0, 0, 19, 136]" "to_bytes4 10000 = Inr [0, 0, 39, 16]"
    "to_bytes4 12 = Inr [0, 0, 0, 12]" by (simp_all add: to_bytes4_def)
  let ?a = "example_api\<lparr>db := example_armed\<rparr>"
  have a0: "store_ok (db ?a)" using example_store_ok by (simp add: example_armed_def store_ok_def)
  have a1: "get_emoney_pending ''OUT1'' (k_check (example_clock\<lparr>k_check := 5\<rparr>)) (db ?a) =
      Inr (Some \<lparr>pd_transaction_id = 1, pd_gate_out_id = 7, pd_fee = 10000\<rparr>)"
    by (simp add: example_armed_def example_store_def pending_lookup)
  have a2: "get_tx (db ?a) 1 = Some example_tx" "is_active_tx example_tx"
    by (simp_all add: example_armed_def get_tx_def example_store_def example_tx_def)
  have u: "unique_active (replace_tx (with_card example_tx c) (txs (db ?a)))" for c
    by (simp add: unique_active_def active_cards_def active_barcodes_def example_armed_def
        example_defs replace_tx_def with_card_def map_filter_simps)
  have b: "br_api example_bridge" "br_opener example_bridge = Some (the (br_opener example_bridge))"
    "go_open_bytes (the (br_opener example_bridge)) \<noteq> []"
    by (simp_all add: example_bridge_def)
  have m: "enforce_booth_rate_limit 0 ''OUT1'' (k_check (example_clock\<lparr>k_check := 5\<rparr>)) (booth_z ?a) = (None, booth_z ?a)"
    by (simp add: enforce_booth_rate_limit_def)
  from booth_deduct_completes[OF example_body_def _ _ _ _ _ _ n r b a0 a1 _ a2(2) u m, of 7] a2(1)
  show ?thesis by (simp, metis)
qed

text \<open>
  C31. A QR payment at the booth opens the barrier and is lost to the API. When the reader answers a
  deduct with success and the body of a QR payment, the bridge answers success and starts the task that
  puts the gate's opening command on the relay, but its report carries no card number, which the
  endpoint's request model refuses: no endpoint runs on it, so nothing records the payment although
  the reader took the money.
\<close>

theorem qr_payment_unrecorded:
  assumes bd: "bd = 0x09 # rest" "84 \<le> length bd" "length bd < 65000"
    and reader: "cmd_deduct (we_local env) amount 30 = Inr frame"
      "serial_send_data ''emoney_reader'' frame (we_first env) (we_second env) (br_serial b) =
         (Inr (frame_of ([rc, 0, 0, 0] @ bd) @ noise), sm)"
    and booth: "br_api b" "br_opener b = Some g" "go_open_bytes g \<noteq> []"
  shows "\<exists>flds b' post note. process_message env (Some (deduct_message amount gid out)) b = (Inr (JObj flds), b') \<and>
    map_of flds ''status'' = Some (JStr ''SUCCESS'') \<and>
    br_tasks b' = br_tasks b @ [PostBoothResult post, OpenRelay, Broadcast note] \<and>
    (\<forall>io. ri_open io \<and> ri_first io = None \<longrightarrow>
       (\<exists>after. br_relay (snd (run_open_relay io b')) = br_relay b @ go_open_bytes g # after)) \<and>
    booth_request post = None"
proof -
  define raw where raw: "raw = frame_of ([rc, 0, 0, 0] @ bd) @ noise"
  note msg = process_deduct[OF reader, folded raw]
  obtain qr where qr: "parse_qr_deduct_response bd = Inr qr" "df_card_number qr = []"
    using bd(2) by (simp add: parse_qr_deduct_response_def Let_def)
  have "bd \<noteq> []" "bd ! 0 = 0x09" using bd(1) by simp_all
  then have parse: "parse_deduct_response bd = Inr (QR qr)"
    using qr(1) by (simp add: parse_deduct_response_def Suc_le_eq)
  let ?f = "reply_fields (QR qr)"
  have c: "df_card_number ?f = []" using qr(2) by (simp add: deduct_fields.truncate_def)
  have "process_message env (Some (deduct_message amount gid out)) b =
      (Inr (JObj (result_payload ''SUCCESS'' ?f raw (JStr gid) (JInt out))),
       b\<lparr>br_serial := sm, br_tasks := br_tasks b @ success_tasks ?f raw (JStr gid) (JInt out) b\<rparr>)"
    using answer_success[OF bd(3) _ parse raw, of "JStr gid" "JInt out" "b\<lparr>br_serial := sm\<rparr>"] bd(2)
    by (simp add: msg success_tasks_def)
  moreover have "booth_request (api_payload ''SUCCESS'' ?f raw (JStr gid) (JInt out)) = None"
    using c by (simp add: booth_request_def api_payload_def Let_def)
  moreover have "map_of (result_payload ''SUCCESS'' ?f raw (JStr gid) (JInt out)) ''status'' = Some (JStr ''SUCCESS'')"
    by (simp add: result_payload_def)
  ultimately show ?thesis using booth opening_first[OF booth(2,3)] by (simp add: success_tasks_def)
qed

theorem qr_payment_unrecorded_witness:
  "\<exists>raw flds b' post note.
     process_message (answering raw) (Some (deduct_message 5000 ''OUT1'' 7)) example_bridge = (Inr (JObj flds), b') \<and>
     br_tasks b' = [PostBoothResult post, OpenRelay, Broadcast note] \<and> booth_request post = None"
proof -
  let ?bd = "0x09 # replicate 83 (0 :: byte)"
  define raw where "raw = frame_of ([0xEF, 0, 0, 0] @ ?bd) @ []"
  have raw: "length raw \<le> 1024" by (simp add: raw_def frame_of_def Let_def)
  obtain frame sm where r: "cmd_deduct (we_local (answering raw)) 5000 30 = Inr frame"
    "serial_send_data ''emoney_reader'' frame (we_first (answering raw)) (we_second (answering raw))
       (br_serial example_bridge) = (Inr (frame_of ([0xEF, 0, 0, 0] @ ?bd) @ []), sm)"
    using example_frame[of raw] example_answer[OF raw] by (metis raw_def)
  have b: "br_api example_bridge" "br_opener example_bridge = Some (the (br_opener example_bridge))"
    "go_open_bytes (the (br_opener example_bridge)) \<noteq> []" "br_tasks example_bridge = []"
    by (simp_all add: example_bridge_def)
  from qr_payment_unrecorded[OF refl _ _ r b(1-3), of "''OUT1''" 7] b(4) show ?thesis
    by (simp, metis)
qed

section \<open>Member cards are posted with a pause between them\<close>

text \<open>The posts so far: a repeated card waited, each has its digits, the last one is remembered.\<close>

definition far_apart :: "time \<Rightarrow> time \<times> string \<Rightarrow> time \<times> string \<Rightarrow> bool" where
  "far_apart cooldown x y \<longleftrightarrow> (snd x = snd y \<longrightarrow> cooldown \<le> fst y - fst x)"

definition tap_inv :: "time \<Rightarrow> nat \<Rightarrow> poller \<Rightarrow> bool" where
  "tap_inv cooldown n p \<longleftrightarrow>
     pl_cooldown p = cooldown \<and> pl_min_card_len p = n \<and>
     successively (far_apart cooldown) (pl_posts p) \<and>
     (pl_posts p \<noteq> [] \<longrightarrow> pl_last_card p = Some (snd (last (pl_posts p))) \<and>
        pl_last_card_at p = fst (last (pl_posts p))) \<and>
     (\<forall>x \<in> set (pl_posts p). n \<le> length (snd x) \<and> list_all is_digit (snd x)) \<and>
     list_all is_digit (pl_buffer p)"

lemma handle_card_inv:
  assumes "tap_inv cd n p" "n \<le> length cno" "list_all is_digit cno" "handle_card t cno p = (r, p')"
  shows "tap_inv cd n p'"
proof (cases "pl_last_card p = Some cno \<and> tp_now t - pl_last_card_at p < pl_cooldown p")
  case True
  with assms show ?thesis by (simp add: handle_card_def)
next
  case False
  let ?q = "p\<lparr>pl_last_card := Some cno, pl_last_card_at := tp_now t, pl_posts := pl_posts p @ [(tp_now t, cno)]\<rparr>"
  have q: "tap_inv cd n ?q"
    using assms(1-3) False by (auto simp: tap_inv_def successively_append_iff far_apart_def)
  have cong: "tap_inv cd n (?q\<lparr>pl_broadcasts := bs\<rparr>)"
    "tap_inv cd n (?q\<lparr>pl_broadcasts := bs, pl_opened := k\<rparr>)" for bs k
    using q by (simp_all add: tap_inv_def)
  show ?thesis
    using assms(4) False q cong
    by (auto simp: handle_card_def Let_def simp del: fun_upd_apply split: sum.splits if_splits)
qed

lemma flush_inv:
  assumes "tap_inv cd n p" "flush_and_clear t p = (r, p')"
  shows "tap_inv cd n p'"
proof -
  have clear: "tap_inv cd n (q\<lparr>pl_buffer := []\<rparr>)" "tap_inv cd n (q\<lparr>pl_connected := c, pl_buffer := []\<rparr>)"
    if "tap_inv cd n q" for q c
    using that by (simp_all add: tap_inv_def)
  have "tap_inv cd n q" if f: "flush_buffer t p = (x, q)" for x q
  proof (cases "length (pl_buffer p) < pl_min_card_len p")
    case True
    have "tap_inv cd n (p\<lparr>pl_broadcasts := bs\<rparr>)" for bs using assms(1) by (simp add: tap_inv_def)
    with True f assms(1) show ?thesis by (auto simp: flush_buffer_def split: if_splits)
  next
    case False
    with f have "handle_card t (pl_buffer p) p = (x, q)" by (simp add: flush_buffer_def)
    moreover from assms(1) False have "n \<le> length (pl_buffer p)" "list_all is_digit (pl_buffer p)"
      by (simp_all add: tap_inv_def)
    ultimately show ?thesis by (meson handle_card_inv assms(1))
  qed
  with assms clear show ?thesis
    by (auto simp: flush_and_clear_def split: if_splits prod.splits sum.splits)
qed

lemma digit_keys: "map_of DIGIT_KEYS code = Some d \<Longrightarrow> is_digit d"
  by (auto simp: DIGIT_KEYS_def is_digit_def split: if_splits)

lemma key_turn_inv:
  assumes "tap_inv cd n p" "key_turn k t p = (r, p')"
  shows "tap_inv cd n p'"
proof (cases k)
  case (KeyEvent is_key down code)
  have "tap_inv cd n (p\<lparr>pl_buffer := pl_buffer p @ [d]\<rparr>)" if "map_of DIGIT_KEYS code = Some d" for d
    using assms(1) digit_keys[OF that] by (simp add: tap_inv_def)
  with KeyEvent assms show ?thesis
    by (auto split: if_splits option.splits intro: flush_inv)
next
  case IdlePause
  with assms show ?thesis by (auto intro: flush_inv)
next
  case DeviceError
  with assms show ?thesis by (auto simp: tap_inv_def)
qed

lemma key_run_inv: "tap_inv cd n p \<Longrightarrow> tap_inv cd n (key_run ks p)"
proof (induction ks arbitrary: p)
  case (Cons x ks)
  obtain k t where x: "x = (k, t)" by fastforce
  obtain r q where q: "key_turn k t p = (r, q)" by fastforce
  from key_turn_inv[OF Cons.prems q] have "tap_inv cd n q" "tap_inv cd n (q\<lparr>pl_connected := True\<rparr>)"
    by (simp_all add: tap_inv_def)
  with Cons.IH x q show ?case by (cases r) simp_all
qed simp

text \<open>
  Whatever keys the reader types, errors of the device and of the API's replies included: two
  posts in a row of the same card are at least the cooldown apart, and only numbers of the
  configured length are ever posted.
\<close>

theorem card_posts_spaced:
  assumes "pl_posts p = []" "pl_buffer p = []"
  shows "(\<forall>i. Suc i < length (pl_posts (key_run ks p)) \<longrightarrow>
      snd (pl_posts (key_run ks p) ! i) = snd (pl_posts (key_run ks p) ! Suc i) \<longrightarrow>
      pl_cooldown p \<le> fst (pl_posts (key_run ks p) ! Suc i) - fst (pl_posts (key_run ks p) ! i)) \<and>
    (\<forall>x \<in> set (pl_posts (key_run ks p)). pl_min_card_len p \<le> length (snd x) \<and> list_all is_digit (snd x))"
proof -
  have "tap_inv (pl_cooldown p) (pl_min_card_len p) p" using assms by (simp add: tap_inv_def)
  from key_run_inv[OF this, of ks] show ?thesis
    by (auto simp: tap_inv_def successively_conv_nth far_apart_def)
qed

definition example_poller :: poller where
  "example_poller = \<lparr>pl_gate_id = ''OUT1'', pl_cooldown = 3 * us_per_second, pl_min_card_len = 2,
     pl_min_invalid_feedback_len = 1, pl_last_card = None, pl_last_card_at = 0, pl_connected = True,
     pl_buffer = [], pl_posts = [], pl_broadcasts = [], pl_opened = 0\<rparr>"

definition example_tap :: "time \<Rightarrow> tap" where
  "example_tap t = \<lparr>tp_now = t, tp_reply = JObj [(''success'', JBool True)]\<rparr>"

theorem card_posts_spaced_witness:
  "list_all (\<lambda>x. 2 \<le> length (snd x)) (pl_posts (key_run
     [(KeyEvent True True ''KEY_4'', example_tap 0), (KeyEvent True True ''KEY_KP2'', example_tap 0),
      (KeyEvent True True ''KEY_ENTER'', example_tap 5), (IdlePause, example_tap 6)] example_poller))"
  using card_posts_spaced[of example_poller] by (simp add: list_all_iff example_poller_def del: key_run.simps)

section \<open>Supervision and configuration\<close>

lemma supervise_range:
  assumes "backoff = (next_backoff ^^ n) 1" "Some d \<in> set (supervise backoff es)"
  shows "1 \<le> d \<and> d \<le> 30"
  using assms
proof (induction backoff es arbitrary: n rule: supervise.induct)
  case (3 backoff ran_for es)
  define b where "b = (if 60 \<le> ran_for then 1 else backoff)"
  obtain m where m: "b = (next_backoff ^^ m) 1"
    using 3(2) by (cases "60 \<le> ran_for") (auto simp: b_def intro: that[of 0])
  have "next_backoff b = (next_backoff ^^ Suc m) 1" by (simp add: m)
  with 3(1)[OF b_def, of "Suc m"] 3(3) restart.delay_bounds[of m] m show ?case
    by (auto simp: Let_def b_def[symmetric])
qed auto

text \<open>
  A crashed task is restarted after 1 to 30 seconds; a task that returns is restarted at once, every
  time: one that returns immediately is restarted in a loop without any pause.
\<close>

theorem supervise_pauses:
  "(Some d \<in> set (supervise 1 es) \<longrightarrow> 1 \<le> d \<and> d \<le> 30) \<and>
   supervise 1 (replicate n Returned) = replicate n None"
  using supervise_range[of 1 0 d es] by (induction n) auto

text \<open>The refresher keeps the opener that of the configuration its signature names.\<close>

definition live_ok :: "live_gate \<Rightarrow> bool" where
  "live_ok l \<longleftrightarrow> (\<forall>sig. lg_signature l = Some sig \<longrightarrow>
     (\<exists>g. gate_signature g = sig \<and> lg_opener l = Some (init_opener g)))"

lemma refresh_gate_ok: "live_ok l \<Longrightarrow> live_ok (refresh_gate fetched l)"
  by (auto simp: refresh_gate_def live_ok_def split: option.splits)

lemma str_or_default: "str_or x y [] \<noteq> [] \<Longrightarrow> str_or x y d = str_or x y []"
  by (auto simp: str_or_def split: option.splits)

lemma signature_opener:
  assumes "gate_signature g = gate_signature h" "str_or (oc_controller_device g) (oc_hw_device g) [] \<noteq> []"
  shows "go_gate_id (init_opener g) = go_gate_id (init_opener h) \<and>
    go_device (init_opener g) = go_device (init_opener h) \<and>
    go_open_bytes (init_opener g) = go_open_bytes (init_opener h) \<and>
    go_close_bytes (init_opener g) = go_close_bytes (init_opener h) \<and>
    go_close_delay (init_opener g) = go_close_delay (init_opener h)"
  using assms str_or_default[OF assms(2)]
    str_or_default[of "oc_controller_device h" "oc_hw_device h" "''/dev/ttyUSB0''"]
  by (simp add: gate_signature_def init_opener_def)

text \<open>After a refresh the opener drives the device, with the commands, of the fetched row.\<close>

theorem refresh_current:
  assumes "live_ok l" "str_or (oc_controller_device g) (oc_hw_device g) [] \<noteq> []"
  shows "\<exists>o'. lg_opener (refresh_gate (Some g) l) = Some o' \<and> go_device o' = go_device (init_opener g) \<and>
    go_open_bytes o' = go_open_bytes (init_opener g) \<and> go_close_bytes o' = go_close_bytes (init_opener g) \<and>
    go_close_delay o' = go_close_delay (init_opener g)"
proof (cases "lg_signature l \<noteq> Some (gate_signature g) \<or> lg_opener l = None")
  case True
  then show ?thesis by (simp add: refresh_gate_def)
next
  case False
  then have "lg_signature l = Some (gate_signature g)" by simp
  with assms(1) obtain h where h: "gate_signature h = gate_signature g" "lg_opener l = Some (init_opener h)"
    unfolding live_ok_def by metis
  from signature_opener[OF h(1)[symmetric] assms(2)] False h show ?thesis
    by (simp add: refresh_gate_def)
qed

end
