(* ===== verification/Accounts.thy ===== *)
theory Accounts
  imports Sessions
begin

text \<open>
  Accounts and their tokens: login, rotation and revocation (\<open>api/app/services/auth.py\<close>,
  \<open>api/app/utils/jwt.py\<close>), the guards of the endpoints (\<open>api/app/middleware/auth.py\<close>), the routes of
  \<open>api/app/routes/auth.py\<close> and the administration of users (\<open>api/app/services/user.py\<close>,
  \<open>api/app/routes/users.py\<close>).

  PyJWT, bcrypt and SHA-256 are a record of functions, the argument \<open>lib\<close>; \<open>lib_ok\<close> states what they
  document. The claims of a token are a record, its custom claims being strings because the tokens
  are the program's own. Redis expires a key by the clock the program reads.
\<close>

section \<open>The libraries\<close>

record claims =
  cl_sub :: "string option"
  cl_username :: "string option"
  cl_role :: "string option"
  cl_type :: "string option"
  cl_jti :: "string option"
  cl_exp :: "int option"

record lib =
  lb_encode :: "claims \<Rightarrow> string"
  lb_decode :: "time \<Rightarrow> string \<Rightarrow> claims option"
  lb_hashpw :: "string \<Rightarrow> string \<Rightarrow> string"
  lb_checkpw :: "string \<Rightarrow> string \<Rightarrow> bool"
  lb_sha256 :: "string \<Rightarrow> string"

record auth_config =
  cf_access_minutes :: int
  cf_refresh_days :: int
  cf_production :: bool

text \<open>What one pair of tokens is made with: the two readings of the clock, the two \<open>uuid4\<close>.\<close>

record mint =
  mt_access_at :: time
  mt_access_jti :: string
  mt_refresh_at :: time
  mt_refresh_jti :: string

text \<open>When a handler decodes a token, looks it up and writes it to the denylist.\<close>

record auth_times =
  ti_decode :: time
  ti_check :: time
  ti_revoke :: time

section \<open>State\<close>

record account = user +
  ac_username :: string
  ac_email :: "string option"
  ac_password_hash :: string
  ac_full_name :: "string option"
  ac_role :: string
  ac_phone :: "string option"

record account_db =
  au_users :: "account list"
  au_next_id :: int
  au_denied :: "string \<rightharpoonup> time"
  au_redis_up :: bool

type_synonym 'a auth = "account_db \<Rightarrow> (py_exc + 'a) \<times> account_db"

section \<open>Tokens\<close>

definition create_access_token :: "auth_config \<Rightarrow> lib \<Rightarrow> time \<Rightarrow> string \<Rightarrow> claims \<Rightarrow> string" where
  "create_access_token cfg lib now jti data =
     (let expire = now + cf_access_minutes cfg * us_per_minute
      in lb_encode lib (data\<lparr>cl_exp := Some (expire div us_per_second), cl_type := Some ''access'',
           cl_jti := Some jti\<rparr>))"

definition create_refresh_token :: "auth_config \<Rightarrow> lib \<Rightarrow> time \<Rightarrow> string \<Rightarrow> claims \<Rightarrow> string" where
  "create_refresh_token cfg lib now jti data =
     (let expire = now + cf_refresh_days cfg * us_per_day
      in lb_encode lib (data\<lparr>cl_exp := Some (expire div us_per_second), cl_type := Some ''refresh'',
           cl_jti := Some jti\<rparr>))"

definition decode_token :: "lib \<Rightarrow> time \<Rightarrow> string \<Rightarrow> claims option" where
  "decode_token lib now token = lb_decode lib now token"

definition mint_pair :: "auth_config \<Rightarrow> lib \<Rightarrow> mint \<Rightarrow> claims \<Rightarrow> string \<times> string" where
  "mint_pair cfg lib m data =
     (create_access_token cfg lib (mt_access_at m) (mt_access_jti m) data,
      create_refresh_token cfg lib (mt_refresh_at m) (mt_refresh_jti m) data)"

definition identity_of :: "string \<Rightarrow> string \<Rightarrow> string \<Rightarrow> claims" where
  "identity_of sub username role =
     \<lparr>cl_sub = Some sub, cl_username = Some username, cl_role = Some role, cl_type = None,
      cl_jti = None, cl_exp = None\<rparr>"

definition create_tokens :: "auth_config \<Rightarrow> lib \<Rightarrow> mint \<Rightarrow> account \<Rightarrow> string \<times> string" where
  "create_tokens cfg lib m u =
     mint_pair cfg lib m (identity_of (str_of_int (us_id u)) (ac_username u) (ac_role u))"

section \<open>The denylist\<close>

definition denylist_key :: "string \<Rightarrow> string" where
  "denylist_key jti = ''jwt:denylist:'' @ jti"

definition redis_put :: "string \<Rightarrow> time \<Rightarrow> account_db \<Rightarrow> account_db" where
  "redis_put key expires s = s\<lparr>au_denied := (au_denied s)(key \<mapsto> expires)\<rparr>"

definition redis_alive :: "string \<Rightarrow> time \<Rightarrow> account_db \<Rightarrow> bool" where
  "redis_alive key now s \<longleftrightarrow>
     (case au_denied s key of None \<Rightarrow> False | Some expires \<Rightarrow> now < expires)"

definition revoke_jti :: "string \<Rightarrow> int \<Rightarrow> time \<Rightarrow> unit auth" where
  "revoke_jti jti until now s =
     (let ttl = max 0 (until - now div us_per_second)
      in if ttl \<le> 0 then (Inr (), s)
         else if \<not> au_redis_up s then (Inl RedisError, s)
         else (Inr (), redis_put (denylist_key jti) (now + ttl * us_per_second) s))"

definition is_token_revoked :: "string \<Rightarrow> time \<Rightarrow> account_db \<Rightarrow> py_exc + bool" where
  "is_token_revoked jti now s =
     (if au_redis_up s then Inr (redis_alive (denylist_key jti) now s) else Inl RedisError)"

text \<open>\<open>if jti and await _is_token_revoked(jti)\<close>.\<close>

definition jti_revoked :: "claims \<Rightarrow> time \<Rightarrow> account_db \<Rightarrow> py_exc + bool" where
  "jti_revoked c now s =
     (if truthy_str (cl_jti c) then is_token_revoked (the (cl_jti c)) now s else Inr False)"

definition exp_of :: "claims \<Rightarrow> int" where
  "exp_of c = (case cl_exp c of None \<Rightarrow> 0 | Some e \<Rightarrow> e)"

section \<open>The service\<close>

definition authenticate_user :: "lib \<Rightarrow> string \<Rightarrow> string \<Rightarrow> account_db \<Rightarrow> py_exc + account option" where
  "authenticate_user lib username password s =
     (case scalar_one_or_none (filter (\<lambda>u. ac_username u = username) (au_users s)) of
        Inl e \<Rightarrow> Inl e
      | Inr None \<Rightarrow> Inr None
      | Inr (Some u) \<Rightarrow>
          if \<not> us_is_active u then Inr None
          else if \<not> lb_checkpw lib password (ac_password_hash u) then Inr None
          else Inr (Some u))"

text \<open>\<open>refresh_tokens\<close>, in the two parts between which another request can run.\<close>

definition refresh_check :: "lib \<Rightarrow> auth_times \<Rightarrow> string \<Rightarrow> account_db \<Rightarrow> py_exc + claims option" where
  "refresh_check lib t token s =
     (case decode_token lib (ti_decode t) token of
        None \<Rightarrow> Inr None
      | Some c \<Rightarrow>
          if cl_type c \<noteq> Some ''refresh'' then Inr None
          else case jti_revoked c (ti_check t) s of
                 Inl e \<Rightarrow> Inl e
               | Inr revoked \<Rightarrow> Inr (if revoked then None else Some c))"

definition refresh_commit :: "auth_config \<Rightarrow> lib \<Rightarrow> auth_times \<Rightarrow> mint \<Rightarrow> claims \<Rightarrow> (string \<times> string) option auth" where
  "refresh_commit cfg lib t m c s =
     (case (if truthy_str (cl_jti c) then revoke_jti (the (cl_jti c)) (exp_of c) (ti_revoke t) s
            else (Inr (), s)) of
        (Inl e, s) \<Rightarrow> (Inl e, s)
      | (Inr _, s) \<Rightarrow>
          (case cl_sub c of
             None \<Rightarrow> (Inl (KeyError ''sub''), s)
           | Some sub \<Rightarrow>
               (Inr (Some (mint_pair cfg lib m (identity_of sub
                  (case cl_username c of None \<Rightarrow> [] | Some u \<Rightarrow> u)
                  (case cl_role c of None \<Rightarrow> ''operator'' | Some r \<Rightarrow> r)))), s)))"

definition refresh_tokens :: "auth_config \<Rightarrow> lib \<Rightarrow> auth_times \<Rightarrow> mint \<Rightarrow> string \<Rightarrow> (string \<times> string) option auth" where
  "refresh_tokens cfg lib t m token s =
     (case refresh_check lib t token s of
        Inl e \<Rightarrow> (Inl e, s)
      | Inr None \<Rightarrow> (Inr None, s)
      | Inr (Some c) \<Rightarrow> refresh_commit cfg lib t m c s)"

definition effective_jti :: "lib \<Rightarrow> string \<Rightarrow> claims \<Rightarrow> string" where
  "effective_jti lib token c = (case cl_jti c of None \<Rightarrow> take 32 (lb_sha256 lib token) | Some j \<Rightarrow> j)"

definition revoke_token :: "lib \<Rightarrow> auth_times \<Rightarrow> string \<Rightarrow> bool auth" where
  "revoke_token lib t token s =
     (case decode_token lib (ti_decode t) token of
        None \<Rightarrow> (Inr False, s)
      | Some c \<Rightarrow>
          (case revoke_jti (effective_jti lib token c) (exp_of c) (ti_revoke t) s of
             (Inl e, s) \<Rightarrow> (Inl e, s)
           | (Inr _, s) \<Rightarrow> (Inr True, s)))"

definition is_token_valid :: "lib \<Rightarrow> auth_times \<Rightarrow> string \<Rightarrow> account_db \<Rightarrow> py_exc + claims option" where
  "is_token_valid lib t token s =
     (case decode_token lib (ti_decode t) token of
        None \<Rightarrow> Inr None
      | Some c \<Rightarrow>
          if cl_type c \<noteq> Some ''access'' then Inr None
          else case jti_revoked c (ti_check t) s of
                 Inl e \<Rightarrow> Inl e
               | Inr revoked \<Rightarrow> Inr (if revoked then None else Some c))"

section \<open>The guards of the endpoints\<close>

type_synonym cookies = "string \<rightharpoonup> string"

definition ACCESS_COOKIE_NAME :: string where "ACCESS_COOKIE_NAME = ''access_token''"
definition REFRESH_COOKIE_NAME :: string where "REFRESH_COOKIE_NAME = ''refresh_token''"

definition get_current_user :: "lib \<Rightarrow> auth_times \<Rightarrow> cookies \<Rightarrow> account_db \<Rightarrow> py_exc + claims option" where
  "get_current_user lib t cs s =
     (if \<not> truthy_str (cs ACCESS_COOKIE_NAME) then Inr None
      else is_token_valid lib t (the (cs ACCESS_COOKIE_NAME)) s)"

definition require_auth :: "lib \<Rightarrow> auth_times \<Rightarrow> cookies \<Rightarrow> account_db \<Rightarrow> py_exc + claims" where
  "require_auth lib t cs s =
     (case get_current_user lib t cs s of
        Inl e \<Rightarrow> Inl e
      | Inr None \<Rightarrow> Inl (HTTPException 401 ''Invalid authentication credentials'')
      | Inr (Some c) \<Rightarrow> Inr c)"

definition role_of :: "claims \<Rightarrow> string" where
  "role_of c = (case cl_role c of None \<Rightarrow> ''operator'' | Some r \<Rightarrow> r)"

definition require_role :: "lib \<Rightarrow> auth_times \<Rightarrow> cookies \<Rightarrow> string list \<Rightarrow> account_db \<Rightarrow> py_exc + claims" where
  "require_role lib t cs allowed s =
     (case require_auth lib t cs s of
        Inl e \<Rightarrow> Inl e
      | Inr c \<Rightarrow>
          if role_of c \<notin> set allowed then Inl (HTTPException 403 ''Insufficient permissions'')
          else Inr c)"

definition require_admin :: "lib \<Rightarrow> auth_times \<Rightarrow> cookies \<Rightarrow> account_db \<Rightarrow> py_exc + claims" where
  "require_admin lib t cs s = require_role lib t cs [''admin''] s"

definition require_operator :: "lib \<Rightarrow> auth_times \<Rightarrow> cookies \<Rightarrow> account_db \<Rightarrow> py_exc + claims" where
  "require_operator lib t cs s = require_role lib t cs [''admin'', ''operator'', ''supervisor''] s"

section \<open>The routes of the tokens\<close>

text \<open>A cookie that is set; one that is deleted is set empty with age 0.\<close>

record cookie =
  ck_name :: string
  ck_value :: string
  ck_secure :: bool
  ck_max_age :: int

record auth_response =
  ar_status :: nat
  ar_message :: string
  ar_cookies :: "cookie list"

definition set_auth_cookies :: "auth_config \<Rightarrow> string \<times> string \<Rightarrow> cookie list" where
  "set_auth_cookies cfg p =
     [\<lparr>ck_name = ACCESS_COOKIE_NAME, ck_value = fst p, ck_secure = cf_production cfg, ck_max_age = 1800\<rparr>,
      \<lparr>ck_name = REFRESH_COOKIE_NAME, ck_value = snd p, ck_secure = cf_production cfg, ck_max_age = 604800\<rparr>]"

definition clear_auth_cookies :: "cookie list" where
  "clear_auth_cookies =
     map (\<lambda>n. \<lparr>ck_name = n, ck_value = [], ck_secure = False, ck_max_age = 0\<rparr>)
       [ACCESS_COOKIE_NAME, REFRESH_COOKIE_NAME]"

definition unauthorized :: "string \<Rightarrow> auth_response" where
  "unauthorized msg = \<lparr>ar_status = 401, ar_message = msg, ar_cookies = []\<rparr>"

definition login_route ::
  "auth_config \<Rightarrow> lib \<Rightarrow> mint \<Rightarrow> string \<Rightarrow> string \<Rightarrow> account_db \<Rightarrow> py_exc + auth_response" where
  "login_route cfg lib m username password s =
     (if length username < 1 \<or> 50 < length username \<or> length password < 1
      then Inl (HTTPException 422 ''login'')
      else case authenticate_user lib username password s of
             Inl e \<Rightarrow> Inl e
           | Inr None \<Rightarrow> Inr (unauthorized ''Invalid username or password'')
           | Inr (Some u) \<Rightarrow>
               Inr \<lparr>ar_status = 200, ar_message = ''Login successful'',
                    ar_cookies = set_auth_cookies cfg (create_tokens cfg lib m u)\<rparr>)"

definition revoke_cookie :: "lib \<Rightarrow> auth_times \<Rightarrow> cookies \<Rightarrow> string \<Rightarrow> unit auth" where
  "revoke_cookie lib t cs name s =
     (if truthy_str (cs name)
      then (case revoke_token lib t (the (cs name)) s of
              (Inl e, s) \<Rightarrow> (Inl e, s) | (Inr _, s) \<Rightarrow> (Inr (), s))
      else (Inr (), s))"

definition logout_route :: "lib \<Rightarrow> auth_times \<Rightarrow> auth_times \<Rightarrow> cookies \<Rightarrow> auth_response auth" where
  "logout_route lib t1 t2 cs s =
     (case revoke_cookie lib t1 cs ACCESS_COOKIE_NAME s of
        (Inl e, s) \<Rightarrow> (Inl e, s)
      | (Inr _, s) \<Rightarrow>
          (case revoke_cookie lib t2 cs REFRESH_COOKIE_NAME s of
             (Inl e, s) \<Rightarrow> (Inl e, s)
           | (Inr _, s) \<Rightarrow>
               (Inr \<lparr>ar_status = 200, ar_message = ''Logout successful'',
                     ar_cookies = clear_auth_cookies\<rparr>, s)))"

definition refresh_route ::
  "auth_config \<Rightarrow> lib \<Rightarrow> auth_times \<Rightarrow> mint \<Rightarrow> cookies \<Rightarrow> auth_response auth" where
  "refresh_route cfg lib t m cs s =
     (if \<not> truthy_str (cs REFRESH_COOKIE_NAME) then (Inr (unauthorized ''Refresh token missing''), s)
      else case refresh_tokens cfg lib t m (the (cs REFRESH_COOKIE_NAME)) s of
             (Inl e, s) \<Rightarrow> (Inl e, s)
           | (Inr None, s) \<Rightarrow> (Inr (unauthorized ''Invalid or expired refresh token''), s)
           | (Inr (Some p), s) \<Rightarrow>
               (Inr \<lparr>ar_status = 200, ar_message = ''Token refreshed'',
                     ar_cookies = set_auth_cookies cfg p\<rparr>, s))"

definition get_user_by_id :: "int \<Rightarrow> account_db \<Rightarrow> account option" where
  "get_user_by_id i s = find (\<lambda>u. us_id u = i) (au_users s)"

definition me_route :: "lib \<Rightarrow> auth_times \<Rightarrow> cookies \<Rightarrow> account_db \<Rightarrow> py_exc + account" where
  "me_route lib t cs s =
     (case get_current_user lib t cs s of
        Inl e \<Rightarrow> Inl e
      | Inr None \<Rightarrow> Inl (HTTPException 401 ''Not authenticated'')
      | Inr (Some c) \<Rightarrow>
          (case Option.bind (cl_sub c) py_int of
             None \<Rightarrow> Inl (HTTPException 401 ''Invalid token payload'')
           | Some i \<Rightarrow>
               (case get_user_by_id i s of
                  None \<Rightarrow> Inl (HTTPException 401 ''User not found'')
                | Some u \<Rightarrow> Inr u)))"

section \<open>The administration of users\<close>

record user_create =
  uc_username :: string
  uc_email :: "string option"
  uc_full_name :: "string option"
  uc_role :: string
  uc_is_active :: bool
  uc_phone :: "string option"
  uc_password :: string

text \<open>
  A field of the update that the request leaves out is \<open>None\<close>, one that it sets to null
  \<open>Some None\<close> (\<open>model_dump(exclude_unset=True)\<close>).
\<close>

record user_update =
  uu_username :: "string option option"
  uu_email :: "string option option"
  uu_full_name :: "string option option"
  uu_role :: "string option option"
  uu_is_active :: "bool option option"
  uu_phone :: "string option option"
  uu_password :: "string option option"

definition ROLES :: "string list" where
  "ROLES = [''admin'', ''operator'', ''supervisor'']"

definition len_ok :: "nat \<Rightarrow> nat \<Rightarrow> string \<Rightarrow> bool" where
  "len_ok lo hi x \<longleftrightarrow> lo \<le> length x \<and> length x \<le> hi"

text \<open>The schemas; \<open>mail\<close> is the validator of e-mail addresses.\<close>

definition create_ok :: "(string \<Rightarrow> bool) \<Rightarrow> user_create \<Rightarrow> bool" where
  "create_ok mail d \<longleftrightarrow>
     len_ok 3 50 (uc_username d) \<and> pred_option mail (uc_email d) \<and>
     pred_option (len_ok 0 100) (uc_full_name d) \<and> uc_role d \<in> set ROLES \<and>
     pred_option (len_ok 0 20) (uc_phone d) \<and> len_ok 6 128 (uc_password d)"

definition update_ok :: "(string \<Rightarrow> bool) \<Rightarrow> user_update \<Rightarrow> bool" where
  "update_ok mail d \<longleftrightarrow>
     pred_option (pred_option (len_ok 3 50)) (uu_username d) \<and>
     pred_option (pred_option mail) (uu_email d) \<and>
     pred_option (pred_option (len_ok 0 100)) (uu_full_name d) \<and>
     pred_option (pred_option (\<lambda>r. r \<in> set ROLES)) (uu_role d) \<and>
     pred_option (pred_option (len_ok 0 20)) (uu_phone d) \<and>
     pred_option (pred_option (len_ok 6 128)) (uu_password d)"

text \<open>The unique columns.\<close>

definition clashes :: "account \<Rightarrow> account \<Rightarrow> bool" where
  "clashes u v \<longleftrightarrow> ac_username u = ac_username v \<or> (ac_email u \<noteq> None \<and> ac_email u = ac_email v)"

definition create_user :: "lib \<Rightarrow> string \<Rightarrow> user_create \<Rightarrow> account auth" where
  "create_user lib salt d s =
     (let u = \<lparr>us_id = au_next_id s, us_is_active = uc_is_active d, us_worker_pin = None,
               ac_username = uc_username d, ac_email = uc_email d,
               ac_password_hash = lb_hashpw lib salt (uc_password d), ac_full_name = uc_full_name d,
               ac_role = uc_role d, ac_phone = uc_phone d\<rparr>
      in if list_ex (clashes u) (au_users s) then (Inl (IntegrityError ''users''), s)
         else (Inr u, s\<lparr>au_users := au_users s @ [u], au_next_id := au_next_id s + 1\<rparr>))"

definition put_user :: "account \<Rightarrow> account_db \<Rightarrow> account_db" where
  "put_user u s = s\<lparr>au_users := map (\<lambda>v. if us_id v = us_id u then u else v) (au_users s)\<rparr>"

text \<open>\<open>setattr\<close> of a field that was given.\<close>

fun given :: "'a \<Rightarrow> 'a option \<Rightarrow> 'a" where
  "given old None = old"
| "given old (Some new) = new"

text \<open>
  \<open>update_user\<close>: the password is hashed when one is given that is not empty; a null one is set as an
  attribute the table does not have. A null in a column that must not be null is refused by the
  database, as is a duplicate.
\<close>

definition update_user :: "lib \<Rightarrow> string \<Rightarrow> account \<Rightarrow> user_update \<Rightarrow> account auth" where
  "update_user lib salt u d s =
     (if uu_username d = Some None \<or> uu_role d = Some None \<or> uu_is_active d = Some None
      then (Inl (IntegrityError ''users''), s)
      else
        let u' = u\<lparr>ac_username := given (ac_username u) (map_option the (uu_username d)),
                   ac_email := given (ac_email u) (uu_email d),
                   ac_full_name := given (ac_full_name u) (uu_full_name d),
                   ac_role := given (ac_role u) (map_option the (uu_role d)),
                   us_is_active := given (us_is_active u) (map_option the (uu_is_active d)),
                   ac_phone := given (ac_phone u) (uu_phone d),
                   ac_password_hash := (case uu_password d of
                       Some (Some p) \<Rightarrow> if p = [] then ac_password_hash u else lb_hashpw lib salt p
                     | _ \<Rightarrow> ac_password_hash u)\<rparr>
        in if list_ex (\<lambda>v. us_id v \<noteq> us_id u \<and> clashes u' v) (au_users s)
           then (Inl (IntegrityError ''users''), s)
           else (Inr u', put_user u' s))"

text \<open>\<open>referenced i\<close>: another table has a row of user \<open>i\<close>, so that the database keeps it.\<close>

definition delete_user :: "(int \<Rightarrow> bool) \<Rightarrow> account \<Rightarrow> unit auth" where
  "delete_user referenced u s =
     (if referenced (us_id u) then (Inl (IntegrityError ''users''), s)
      else (Inr (), s\<lparr>au_users := filter (\<lambda>v. us_id v \<noteq> us_id u) (au_users s)\<rparr>))"

datatype user_op =
    CreateUser user_create
  | GetUser int
  | UpdateUser int user_update
  | DeleteUser int
  | SetPin int string
  | RemovePin int

text \<open>The admin's routes, given the e-mail validator, the salt and the references.\<close>

record admin_env =
  ae_mail :: "string \<Rightarrow> bool"
  ae_salt :: string
  ae_referenced :: "int \<Rightarrow> bool"

definition with_user :: "int \<Rightarrow> (account \<Rightarrow> account option auth) \<Rightarrow> account option auth" where
  "with_user i f s =
     (case get_user_by_id i s of
        None \<Rightarrow> (Inl (HTTPException 404 ''User not found''), s)
      | Some u \<Rightarrow> f u s)"

definition some_account :: "(py_exc + account) \<times> account_db \<Rightarrow> (py_exc + account option) \<times> account_db" where
  "some_account r = (case r of (Inl e, s) \<Rightarrow> (Inl e, s) | (Inr u, s) \<Rightarrow> (Inr (Some u), s))"

fun user_route :: "lib \<Rightarrow> admin_env \<Rightarrow> user_op \<Rightarrow> account option auth" where
  "user_route lib v (CreateUser d) s =
     (if create_ok (ae_mail v) d then some_account (create_user lib (ae_salt v) d s)
      else (Inl (HTTPException 422 ''UserCreate''), s))"
| "user_route lib v (GetUser i) s = with_user i (\<lambda>u s. (Inr (Some u), s)) s"
| "user_route lib v (UpdateUser i d) s =
     (if update_ok (ae_mail v) d
      then with_user i (\<lambda>u s. some_account (update_user lib (ae_salt v) u d s)) s
      else (Inl (HTTPException 422 ''UserUpdate''), s))"
| "user_route lib v (DeleteUser i) s =
     with_user i (\<lambda>u s. case delete_user (ae_referenced v) u s of
                           (Inl e, s) \<Rightarrow> (Inl e, s) | (Inr _, s) \<Rightarrow> (Inr None, s)) s"
| "user_route lib v (SetPin i pin) s =
     (if length pin = 4 \<and> list_all is_digit pin
      then with_user i (\<lambda>u s. (Inr None, put_user (u\<lparr>us_worker_pin := Some (lb_hashpw lib (ae_salt v) pin)\<rparr>) s)) s
      else (Inl (HTTPException 422 ''SetWorkerPinRequest''), s))"
| "user_route lib v (RemovePin i) s =
     with_user i (\<lambda>u s. (Inr None, put_user (u\<lparr>us_worker_pin := None\<rparr>) s)) s"

definition admin_request ::
  "lib \<Rightarrow> auth_times \<Rightarrow> admin_env \<Rightarrow> cookies \<Rightarrow> user_op \<Rightarrow> account option auth" where
  "admin_request lib t v cs f s =
     (case require_admin lib t cs s of
        Inl e \<Rightarrow> (Inl e, s)
      | Inr _ \<Rightarrow> user_route lib v f s)"

end
