(* ===== verification/Access.thy ===== *)
theory Access
  imports Accounts
begin

text \<open>
  What the accounts and tokens of the theory \<open>Accounts\<close> guarantee: who can change an account, how long
  a token is accepted, that a revoked one stays refused, and the limits of the rotation.
\<close>

section \<open>The libraries' documented behaviour\<close>

definition expired :: "claims \<Rightarrow> time \<Rightarrow> bool" where
  "expired c now \<longleftrightarrow> (case cl_exp c of None \<Rightarrow> False | Some e \<Rightarrow> e * us_per_second \<le> now)"

text \<open>
  PyJWT gives back the claims that were signed, until their expiry and whenever it is asked; bcrypt
  accepts the password a hash was made of.
\<close>

definition lib_ok :: "lib \<Rightarrow> bool" where
  "lib_ok lib \<longleftrightarrow>
     (\<forall>c now. lb_decode lib now (lb_encode lib c) = (if expired c now then None else Some c)) \<and>
     (\<forall>token c now now'. lb_decode lib now token = Some c \<longrightarrow>
        \<not> expired c now \<and> lb_decode lib now' token = (if expired c now' then None else Some c)) \<and>
     (\<forall>salt p. lb_checkpw lib p (lb_hashpw lib salt p))"

lemma decode_encode: "lib_ok lib \<Longrightarrow> decode_token lib now (lb_encode lib c) = (if expired c now then None else Some c)"
  by (simp add: lib_ok_def decode_token_def)

lemma decode_again:
  "\<lbrakk>lib_ok lib; decode_token lib now token = Some c\<rbrakk>
    \<Longrightarrow> decode_token lib now' token = (if expired c now' then None else Some c)"
  by (simp add: lib_ok_def decode_token_def)

lemma decode_fresh: "\<lbrakk>lib_ok lib; decode_token lib now token = Some c\<rbrakk> \<Longrightarrow> \<not> expired c now"
  by (auto simp: lib_ok_def decode_token_def)

section \<open>Keys that expire\<close>

text \<open>A key that was set stays until its expiry, whatever other keys are set.\<close>

locale expiring =
  fixes put :: "'k \<Rightarrow> time \<Rightarrow> 's \<Rightarrow> 's" and alive :: "'k \<Rightarrow> time \<Rightarrow> 's \<Rightarrow> bool"
  assumes alive_put: "alive k now (put k' e s) \<longleftrightarrow> (if k = k' then now < e else alive k now s)"
begin

lemma put_holds: "\<lbrakk>E \<le> e; now < E\<rbrakk> \<Longrightarrow> alive k now (put k e s)"
  by (simp add: alive_put)

lemma put_keeps:
  "\<lbrakk>\<forall>now < E. alive k now s; k = k' \<Longrightarrow> E \<le> e\<rbrakk> \<Longrightarrow> \<forall>now < E. alive k now (put k' e s)"
  by (auto simp: alive_put)

end

interpretation denylist: expiring redis_put redis_alive
  by unfold_locales (simp add: redis_put_def redis_alive_def)

lemma denylist_key_inj [simp]: "denylist_key i = denylist_key j \<longleftrightarrow> i = j"
  by (simp add: denylist_key_def)

text \<open>The token of identifier \<open>j\<close> is on the denylist up to second \<open>e\<close>.\<close>

definition denied :: "string \<Rightarrow> int \<Rightarrow> account_db \<Rightarrow> bool" where
  "denied j e s \<longleftrightarrow> (\<forall>now < e * us_per_second. redis_alive (denylist_key j) now s)"

lemma ttl_covers: "e * us_per_second \<le> now + (e - now div us_per_second) * us_per_second"
  by (simp add: left_diff_distrib)

lemma revoke_denies:
  "\<lbrakk>revoke_jti j e now s = (Inr u, s'); now < e * us_per_second\<rbrakk> \<Longrightarrow> denied j e s'"
  using ttl_covers[of e now] denylist.put_holds[of "e * us_per_second"]
  by (auto simp: revoke_jti_def Let_def denied_def split: if_splits)

lemma revoke_keeps:
  "\<lbrakk>denied j e s; revoke_jti i e' now s = (r, s'); i = j \<Longrightarrow> e' = e\<rbrakk> \<Longrightarrow> denied j e s'"
  using denylist.put_keeps[of "e * us_per_second" "denylist_key j" s "denylist_key i"] ttl_covers[of e now]
  by (auto simp: revoke_jti_def Let_def denied_def split: if_splits)

text \<open>The table of users, with its sequence.\<close>

definition accounts :: "account_db \<Rightarrow> account list \<times> int" where
  "accounts s = (au_users s, au_next_id s)"

lemma revoke_frame:
  "revoke_jti i e now s = (r, s') \<Longrightarrow> accounts s' = accounts s"
  by (auto simp: revoke_jti_def Let_def redis_put_def accounts_def split: if_splits)

section \<open>Requests\<close>

datatype auth_request =
    Login mint string string
  | Refresh auth_times mint cookies
  | Logout auth_times auth_times cookies
  | Admin auth_times admin_env cookies user_op
  | RedisState bool

fun auth_step :: "auth_config \<Rightarrow> lib \<Rightarrow> auth_request \<Rightarrow> account_db \<Rightarrow> account_db" where
  "auth_step cfg lib (Login m n p) s = s"
| "auth_step cfg lib (Refresh t m cs) s = snd (refresh_route cfg lib t m cs s)"
| "auth_step cfg lib (Logout t1 t2 cs) s = snd (logout_route lib t1 t2 cs s)"
| "auth_step cfg lib (Admin t v cs f) s = snd (admin_request lib t v cs f s)"
| "auth_step cfg lib (RedisState up) s = s\<lparr>au_redis_up := up\<rparr>"

text \<open>
  \<open>uuid4\<close> and SHA-256 do not repeat: a presented token \<open>v\<close> with the identifier of token \<open>a\<close> has
  its expiry.
\<close>

definition same_expiry :: "lib \<Rightarrow> string \<Rightarrow> claims \<Rightarrow> string \<Rightarrow> bool" where
  "same_expiry lib a c v \<longleftrightarrow>
     (\<forall>t d. decode_token lib t v = Some d \<and> effective_jti lib v d = effective_jti lib a c \<longrightarrow>
        exp_of d = exp_of c)"

fun presented :: "auth_request \<Rightarrow> string set" where
  "presented (Refresh t m cs) = ran cs"
| "presented (Logout t1 t2 cs) = ran cs"
| "presented r = {}"

definition token_denied :: "lib \<Rightarrow> string \<Rightarrow> claims \<Rightarrow> account_db \<Rightarrow> bool" where
  "token_denied lib token c s \<longleftrightarrow> denied (effective_jti lib token c) (exp_of c) s"

lemma truthy_jti: "truthy_str (cl_jti c) \<Longrightarrow> effective_jti lib token c = the (cl_jti c)"
  by (auto simp: effective_jti_def elim: truthy_strE)

lemma refresh_check_Some:
  "refresh_check lib t token s = Inr (Some c) \<Longrightarrow>
     decode_token lib (ti_decode t) token = Some c \<and> cl_type c = Some ''refresh'' \<and>
     jti_revoked c (ti_check t) s = Inr False"
  by (auto simp: refresh_check_def split: option.splits if_splits sum.splits)

lemma token_valid_Some:
  "is_token_valid lib t token s = Inr (Some c) \<Longrightarrow>
     decode_token lib (ti_decode t) token = Some c \<and> cl_type c = Some ''access'' \<and>
     jti_revoked c (ti_check t) s = Inr False"
  by (auto simp: is_token_valid_def split: option.splits if_splits sum.splits)

text \<open>Whatever is revoked or rotated, an entry of the denylist is not shortened.\<close>

lemma revoke_token_keeps:
  assumes "same_expiry lib a c v" "token_denied lib a c s" "revoke_token lib t v s = (r, s')"
  shows "token_denied lib a c s'"
proof (cases "decode_token lib (ti_decode t) v")
  case (Some d)
  with assms(1) have "effective_jti lib v d = effective_jti lib a c \<Longrightarrow> exp_of d = exp_of c"
    by (auto simp: same_expiry_def)
  with Some assms(2,3) show ?thesis
    by (auto simp: revoke_token_def token_denied_def split: prod.splits sum.splits intro: revoke_keeps)
qed (use assms in \<open>simp add: revoke_token_def\<close>)

lemma revoke_cookie_keeps:
  assumes "\<forall>v \<in> ran cs. same_expiry lib a c v" "token_denied lib a c s" "revoke_cookie lib t cs n s = (r, s')"
  shows "token_denied lib a c s'"
  using assms revoke_token_keeps[of lib a c "the (cs n)" s t]
  by (auto simp: revoke_cookie_def ranI elim!: truthy_strE split: if_splits prod.splits sum.splits)

lemma refresh_keeps:
  assumes "same_expiry lib a c v" "token_denied lib a c s" "refresh_tokens cfg lib t m v s = (r, s')"
  shows "token_denied lib a c s'"
proof (cases "\<exists>d. refresh_check lib t v s = Inr (Some d)")
  case True
  then obtain d where d: "refresh_check lib t v s = Inr (Some d)" ..
  note dec = refresh_check_Some[OF d]
  have "exp_of d = exp_of c" if "truthy_str (cl_jti d)" "the (cl_jti d) = effective_jti lib a c"
    using assms(1) dec truthy_jti[OF that(1), of lib v] that(2) by (auto simp: same_expiry_def)
  with assms(2,3) d show ?thesis
    by (auto simp: refresh_tokens_def refresh_commit_def token_denied_def
        split: if_splits prod.splits sum.splits option.splits intro: revoke_keeps)
next
  case False
  with assms(2,3) show ?thesis
    by (auto simp: refresh_tokens_def split: sum.splits option.splits)
qed

lemma refresh_route_snd:
  "snd (refresh_route cfg lib t m cs s) =
     (if truthy_str (cs REFRESH_COOKIE_NAME)
      then snd (refresh_tokens cfg lib t m (the (cs REFRESH_COOKIE_NAME)) s) else s)"
  by (auto simp: refresh_route_def split: prod.splits sum.splits option.splits)

lemma user_route_frame:
  "au_denied (snd (user_route lib v f s)) = au_denied s \<and>
   au_redis_up (snd (user_route lib v f s)) = au_redis_up s"
  by (cases f) (auto simp: with_user_def some_account_def create_user_def update_user_def
      delete_user_def put_user_def Let_def split: option.splits prod.splits sum.splits if_splits)

lemma admin_request_frame:
  "au_denied (snd (admin_request lib t v cs f s)) = au_denied s \<and>
   au_redis_up (snd (admin_request lib t v cs f s)) = au_redis_up s"
  by (simp add: admin_request_def user_route_frame split: sum.splits)

lemma denied_cong: "au_denied s' = au_denied s \<Longrightarrow> denied j e s' = denied j e s"
  by (simp add: denied_def redis_alive_def)

lemma logout_keeps:
  assumes "\<forall>v \<in> ran cs. same_expiry lib a c v" "token_denied lib a c s"
  shows "token_denied lib a c (snd (logout_route lib t1 t2 cs s))"
  using assms(2)
  by (auto simp: logout_route_def split: prod.splits sum.splits
      dest: revoke_cookie_keeps[OF assms(1)])

lemma auth_step_keeps:
  assumes "\<forall>v \<in> presented r. same_expiry lib a c v" "token_denied lib a c s"
  shows "token_denied lib a c (auth_step cfg lib r s)"
proof (cases r)
  case (Refresh t m cs)
  have "token_denied lib a c (snd (refresh_tokens cfg lib t m (the (cs REFRESH_COOKIE_NAME)) s))"
    if "truthy_str (cs REFRESH_COOKIE_NAME)"
  proof -
    from that Refresh assms(1) have "same_expiry lib a c (the (cs REFRESH_COOKIE_NAME))"
      by (auto simp: ranI elim!: truthy_strE)
    from refresh_keeps[OF this assms(2) prod.collapse[symmetric]] show ?thesis .
  qed
  with Refresh assms(2) show ?thesis by (simp add: refresh_route_snd)
next
  case (Admin t v cs f)
  with assms(2) show ?thesis
    using denied_cong[OF conjunct1[OF admin_request_frame]] by (simp add: token_denied_def)
next
  case (RedisState up)
  with assms(2) show ?thesis using denied_cong[of "s\<lparr>au_redis_up := up\<rparr>" s] by (simp add: token_denied_def)
qed (use assms logout_keeps in auto)

lemma auth_steps_keep:
  assumes "\<forall>v \<in> \<Union> (presented ` set rs). same_expiry lib a c v" "token_denied lib a c s"
  shows "token_denied lib a c (fold (auth_step cfg lib) rs s)"
  using assms by (induction rs arbitrary: s) (simp_all add: auth_step_keeps)

text \<open>A token on the denylist is refused, as an access token and as a refresh token.\<close>

lemma denied_refused:
  assumes "lib_ok lib" "decode_token lib t0 a = Some c" "truthy_str (cl_jti c)" "cl_exp c = Some e"
    "token_denied lib a c s"
  shows "is_token_valid lib t a s = Inr (Some d) \<Longrightarrow> e * us_per_second \<le> ti_check t"
    and "refresh_check lib t a s = Inr (Some d) \<Longrightarrow> e * us_per_second \<le> ti_check t"
proof -
  have c: "d = c" if "decode_token lib (ti_decode t) a = Some d"
    using decode_again[OF assms(1,2), of "ti_decode t"] that by (simp split: if_splits)
  have "e * us_per_second \<le> ti_check t" if "jti_revoked c (ti_check t) s = Inr False"
    using that assms(3-5)
    by (rule_tac ccontr) (auto simp: jti_revoked_def is_token_revoked_def token_denied_def denied_def truthy_jti exp_of_def
        split: if_splits)
  with c show "is_token_valid lib t a s = Inr (Some d) \<Longrightarrow> e * us_per_second \<le> ti_check t"
    and "refresh_check lib t a s = Inr (Some d) \<Longrightarrow> e * us_per_second \<le> ti_check t"
    by (auto dest: token_valid_Some refresh_check_Some)
qed

lemma refresh_tokens_Some:
  "refresh_tokens cfg lib t m a s = (Inr (Some p), s') \<Longrightarrow>
     \<exists>c. refresh_check lib t a s = Inr (Some c) \<and> refresh_commit cfg lib t m c s = (Inr (Some p), s')"
  by (auto simp: refresh_tokens_def split: sum.splits option.splits)

text \<open>
  C12. Logging out, or rotating, ends a token: whatever requests follow, it is never accepted again,
  neither for a request nor for a refresh, up to the expiry it was signed with (a request whose
  lookup runs after the expiry it was decoded before is the only exception).
\<close>

theorem revoked_for_good:
  assumes lib: "lib_ok lib" "\<forall>v \<in> \<Union> (presented ` set rs). same_expiry lib a c v"
    and token: "decode_token lib (ti_decode t) a = Some c" "truthy_str (cl_jti c)" "cl_exp c = Some e"
    and ended: "ti_revoke t < e * us_per_second"
      "revoke_token lib t a s = (Inr True, s') \<or> (\<exists>p. refresh_tokens cfg lib t m a s = (Inr (Some p), s'))"
    and later: "ti_check t' < e * us_per_second"
  shows "is_token_valid lib t' a (fold (auth_step cfg lib) rs s') \<noteq> Inr (Some d) \<and>
    fst (refresh_tokens cfg lib t' m' a (fold (auth_step cfg lib) rs s')) \<noteq> Inr (Some p')"
proof -
  have e: "exp_of c = e" using token(3) by (simp add: exp_of_def)
  have "token_denied lib a c s'" using ended(2)
  proof
    assume "revoke_token lib t a s = (Inr True, s')"
    with token(1) e ended(1) show ?thesis
      by (auto simp: revoke_token_def token_denied_def split: prod.splits sum.splits intro: revoke_denies)
  next
    assume "\<exists>p. refresh_tokens cfg lib t m a s = (Inr (Some p), s')"
    then obtain p c' where c': "refresh_check lib t a s = Inr (Some c')"
      "refresh_commit cfg lib t m c' s = (Inr (Some p), s')" using refresh_tokens_Some by blast
    then have "c' = c" using token(1) refresh_check_Some[OF c'(1)] by simp
    with c'(2) token(2) e ended(1) truthy_jti[OF token(2), of lib a] show ?thesis
      by (auto simp: refresh_commit_def token_denied_def split: prod.splits sum.splits option.splits
          intro: revoke_denies)
  qed
  note refused = denied_refused[OF lib(1) token auth_steps_keep[OF lib(2) this]]
  show ?thesis
  proof
    show "is_token_valid lib t' a (fold (auth_step cfg lib) rs s') \<noteq> Inr (Some d)"
      using refused(1) later by fastforce
    show "fst (refresh_tokens cfg lib t' m' a (fold (auth_step cfg lib) rs s')) \<noteq> Inr (Some p')"
    proof
      assume "fst (refresh_tokens cfg lib t' m' a (fold (auth_step cfg lib) rs s')) = Inr (Some p')"
      then obtain d where "refresh_check lib t' a (fold (auth_step cfg lib) rs s') = Inr (Some d)"
        using refresh_tokens_Some prod.collapse by metis
      with refused(2) later show False by fastforce
    qed
  qed
qed

section \<open>How long a pair of tokens is accepted, and for what\<close>

lemma mint_claims:
  assumes "lib_ok lib" "mint_pair cfg lib m d = (a, r)"
  shows "decode_token lib now a =
      (let c = d\<lparr>cl_exp := Some ((mt_access_at m + cf_access_minutes cfg * us_per_minute) div us_per_second),
                 cl_type := Some ''access'', cl_jti := Some (mt_access_jti m)\<rparr>
       in if expired c now then None else Some c)"
    and "decode_token lib now r =
      (let c = d\<lparr>cl_exp := Some ((mt_refresh_at m + cf_refresh_days cfg * us_per_day) div us_per_second),
                 cl_type := Some ''refresh'', cl_jti := Some (mt_refresh_jti m)\<rparr>
       in if expired c now then None else Some c)"
  using assms by (auto simp: mint_pair_def create_access_token_def create_refresh_token_def decode_encode Let_def)

definition access_expiry :: "auth_config \<Rightarrow> mint \<Rightarrow> time" where
  "access_expiry cfg m = (mt_access_at m + cf_access_minutes cfg * us_per_minute) div us_per_second * us_per_second"

definition refresh_expiry :: "auth_config \<Rightarrow> mint \<Rightarrow> time" where
  "refresh_expiry cfg m = (mt_refresh_at m + cf_refresh_days cfg * us_per_day) div us_per_second * us_per_second"

text \<open>
  What the guard of an endpoint answers to a freshly made pair, at every time and in every state
  of the denylist: the access token opens the endpoints of its role up to its expiry, and the
  refresh token is never accepted in its place.
\<close>

theorem access_window:
  assumes "lib_ok lib" "mint_pair cfg lib m (identity_of sub name role) = (a, r)"
    "a \<noteq> []" "r \<noteq> []" "mt_access_jti m \<noteq> []"
  shows "require_role lib t [ACCESS_COOKIE_NAME \<mapsto> a] allowed s =
      (if access_expiry cfg m \<le> ti_decode t then Inl (HTTPException 401 ''Invalid authentication credentials'')
       else if \<not> au_redis_up s then Inl RedisError
       else if redis_alive (denylist_key (mt_access_jti m)) (ti_check t) s
       then Inl (HTTPException 401 ''Invalid authentication credentials'')
       else if role \<in> set allowed
       then Inr (identity_of sub name role\<lparr>cl_exp := Some (access_expiry cfg m div us_per_second),
                   cl_type := Some ''access'', cl_jti := Some (mt_access_jti m)\<rparr>)
       else Inl (HTTPException 403 ''Insufficient permissions'')) \<and>
    require_role lib t [ACCESS_COOKIE_NAME \<mapsto> r] allowed s =
      Inl (HTTPException 401 ''Invalid authentication credentials'')"
  using assms(3-5) mint_claims[OF assms(1,2)]
  by (simp add: require_role_def require_auth_def get_current_user_def is_token_valid_def Let_def
      expired_def access_expiry_def jti_revoked_def is_token_revoked_def role_of_def identity_of_def)

section \<open>Rotation and the account\<close>

text \<open>A pair of the account's identity, neither token of which is denied.\<close>

definition live_pair :: "auth_config \<Rightarrow> lib \<Rightarrow> claims \<Rightarrow> mint \<Rightarrow> string \<times> string \<Rightarrow> account_db \<Rightarrow> bool" where
  "live_pair cfg lib d m p s \<longleftrightarrow> p = mint_pair cfg lib m d \<and> au_redis_up s \<and>
     au_denied s (denylist_key (mt_access_jti m)) = None \<and> au_denied s (denylist_key (mt_refresh_jti m)) = None"

text \<open>Rounds of the rotation; before each the table of users is replaced by any other.\<close>

fun rotations ::
  "auth_config \<Rightarrow> lib \<Rightarrow> (account list \<times> auth_times \<times> mint) list \<Rightarrow> string \<times> string \<Rightarrow> account_db \<Rightarrow>
     (string \<times> string) option \<times> account_db" where
  "rotations cfg lib [] p s = (Some p, s)"
| "rotations cfg lib ((us, t, m) # rest) p s =
     (case refresh_tokens cfg lib t m (snd p) (s\<lparr>au_users := us\<rparr>) of
        (Inr (Some p'), s') \<Rightarrow> rotations cfg lib rest p' s'
      | (_, s') \<Rightarrow> (None, s'))"

text \<open>Each round comes before the token it uses expires.\<close>

fun in_time :: "auth_config \<Rightarrow> mint \<Rightarrow> (account list \<times> auth_times \<times> mint) list \<Rightarrow> bool" where
  "in_time cfg m [] = True"
| "in_time cfg m ((us, t, m') # rest) = (ti_decode t < refresh_expiry cfg m \<and> in_time cfg m' rest)"

definition round_jtis :: "(account list \<times> auth_times \<times> mint) list \<Rightarrow> string list" where
  "round_jtis rs = concat (map (\<lambda>(us, t, m). [mt_access_jti m, mt_refresh_jti m]) rs)"

lemma round_jtis_simps [simp]:
  "round_jtis [] = []"
  "round_jtis ((us, t, m) # rs) = mt_access_jti m # mt_refresh_jti m # round_jtis rs"
  by (simp_all add: round_jtis_def)

definition refresh_claims :: "auth_config \<Rightarrow> mint \<Rightarrow> claims \<Rightarrow> claims" where
  "refresh_claims cfg m d =
     d\<lparr>cl_exp := Some ((mt_refresh_at m + cf_refresh_days cfg * us_per_day) div us_per_second),
       cl_type := Some ''refresh'', cl_jti := Some (mt_refresh_jti m)\<rparr>"

lemma live_check:
  assumes "lib_ok lib" "live_pair cfg lib d m p s" "ti_decode t < refresh_expiry cfg m"
  shows "refresh_check lib t (snd p) s = Inr (Some (refresh_claims cfg m d))"
proof -
  from assms(2) have p: "mint_pair cfg lib m d = (fst p, snd p)" by (simp add: live_pair_def)
  show ?thesis
    using mint_claims(2)[OF assms(1) p, of "ti_decode t"] assms(2,3)
    by (simp add: refresh_check_def refresh_claims_def Let_def expired_def refresh_expiry_def
        jti_revoked_def is_token_revoked_def redis_alive_def live_pair_def)
qed

lemma commit_live:
  assumes "au_redis_up s"
  shows "\<exists>s'. refresh_commit cfg lib t m' (refresh_claims cfg m (identity_of sub name role)) s =
      (Inr (Some (mint_pair cfg lib m' (identity_of sub name role))), s') \<and> au_redis_up s' \<and>
    (\<forall>j. j \<noteq> mt_refresh_jti m \<longrightarrow> au_denied s' (denylist_key j) = au_denied s (denylist_key j))"
  using assms
  by (auto simp: refresh_commit_def refresh_claims_def identity_of_def revoke_jti_def redis_put_def Let_def)

lemma refresh_live:
  assumes "lib_ok lib" "live_pair cfg lib (identity_of sub name role) m p s"
    "ti_decode t < refresh_expiry cfg m"
    "au_denied s (denylist_key (mt_access_jti m')) = None" "au_denied s (denylist_key (mt_refresh_jti m')) = None"
    "mt_refresh_jti m \<noteq> mt_access_jti m'" "mt_refresh_jti m \<noteq> mt_refresh_jti m'"
  shows "\<exists>s'. refresh_tokens cfg lib t m' (snd p) s =
      (Inr (Some (mint_pair cfg lib m' (identity_of sub name role))), s') \<and>
    live_pair cfg lib (identity_of sub name role) m' (mint_pair cfg lib m' (identity_of sub name role)) s' \<and>
    (\<forall>j. j \<noteq> mt_refresh_jti m \<longrightarrow> au_denied s' (denylist_key j) = au_denied s (denylist_key j))"
proof -
  from assms(2) have up: "au_redis_up s" by (simp add: live_pair_def)
  show ?thesis
    using commit_live[OF up, of cfg lib t m' m sub name role] assms(4-7)
    by (auto simp: refresh_tokens_def live_check[OF assms(1-3)] live_pair_def)
qed

text \<open>
  The account behind a rotation is never looked at: whatever happens to the users, deleted or
  demoted ones included, rotations in time keep giving pairs of the role the account had when it
  logged in, and the last access token opens the endpoints of that role.
\<close>

theorem role_outlives_account:
  assumes "lib_ok lib" "live_pair cfg lib (identity_of sub name role) m p s" "in_time cfg m rs"
    "distinct (mt_refresh_jti m # round_jtis rs)"
    "\<forall>j \<in> set (round_jtis rs). au_denied s (denylist_key j) = None"
  shows "\<exists>m' s'. rotations cfg lib rs p s = (Some (mint_pair cfg lib m' (identity_of sub name role)), s') \<and>
    live_pair cfg lib (identity_of sub name role) m' (mint_pair cfg lib m' (identity_of sub name role)) s'"
  using assms
proof (induction rs arbitrary: m p s)
  case Nil
  then show ?case by (auto simp: live_pair_def)
next
  case (Cons x rs)
  obtain us t m' where x: "x = (us, t, m')" by (cases x)
  let ?d = "identity_of sub name role"
  have live: "live_pair cfg lib ?d m p (s\<lparr>au_users := us\<rparr>)"
    using Cons.prems(2) by (simp add: live_pair_def)
  from refresh_live[OF Cons.prems(1) live, of t m'] Cons.prems(3-5) obtain s' where s':
    "refresh_tokens cfg lib t m' (snd p) (s\<lparr>au_users := us\<rparr>) = (Inr (Some (mint_pair cfg lib m' ?d)), s')"
    "live_pair cfg lib ?d m' (mint_pair cfg lib m' ?d) s'"
    "\<forall>j. j \<noteq> mt_refresh_jti m \<longrightarrow> au_denied s' (denylist_key j) = au_denied s (denylist_key j)"
    by (auto simp: x)
  have "\<forall>j \<in> set (round_jtis rs). au_denied s' (denylist_key j) = None"
  proof
    fix j assume j: "j \<in> set (round_jtis rs)"
    with Cons.prems(4) have "j \<noteq> mt_refresh_jti m" by (auto simp: x)
    with s'(3) Cons.prems(5) j show "au_denied s' (denylist_key j) = None" by (simp add: x)
  qed
  with Cons.IH[OF Cons.prems(1) s'(2)] Cons.prems(3,4) s'(1) show ?case
    by (simp add: x)
qed

text \<open>
  The lookup and the entry of the denylist are two calls: two refreshes of one token whose
  lookups both run first both answer a pair, and both pairs are good afterwards.
\<close>

theorem refresh_race:
  assumes "lib_ok lib" "live_pair cfg lib (identity_of sub name role) m p s"
    "ti_decode t1 < refresh_expiry cfg m" "ti_decode t2 < refresh_expiry cfg m"
    "distinct [mt_refresh_jti m, mt_access_jti m1, mt_refresh_jti m1, mt_access_jti m2, mt_refresh_jti m2]"
    "\<forall>j \<in> {mt_access_jti m1, mt_refresh_jti m1, mt_access_jti m2, mt_refresh_jti m2}.
       au_denied s (denylist_key j) = None"
  shows "\<exists>c s' s''. refresh_check lib t1 (snd p) s = Inr (Some c) \<and> refresh_check lib t2 (snd p) s = Inr (Some c) \<and>
    refresh_commit cfg lib t1 m1 c s = (Inr (Some (mint_pair cfg lib m1 (identity_of sub name role))), s') \<and>
    refresh_commit cfg lib t2 m2 c s' = (Inr (Some (mint_pair cfg lib m2 (identity_of sub name role))), s'') \<and>
    live_pair cfg lib (identity_of sub name role) m1 (mint_pair cfg lib m1 (identity_of sub name role)) s'' \<and>
    live_pair cfg lib (identity_of sub name role) m2 (mint_pair cfg lib m2 (identity_of sub name role)) s''"
proof -
  let ?d = "identity_of sub name role"
  from assms(2) have up: "au_redis_up s" by (simp add: live_pair_def)
  obtain s' where s': "refresh_commit cfg lib t1 m1 (refresh_claims cfg m ?d) s = (Inr (Some (mint_pair cfg lib m1 ?d)), s')"
    "au_redis_up s'" "\<And>j. j \<noteq> mt_refresh_jti m \<Longrightarrow> au_denied s' (denylist_key j) = au_denied s (denylist_key j)"
    using commit_live[OF up] by blast
  obtain s'' where s'': "refresh_commit cfg lib t2 m2 (refresh_claims cfg m ?d) s' = (Inr (Some (mint_pair cfg lib m2 ?d)), s'')"
    "au_redis_up s''" "\<And>j. j \<noteq> mt_refresh_jti m \<Longrightarrow> au_denied s'' (denylist_key j) = au_denied s' (denylist_key j)"
    using commit_live[OF s'(2)] by blast
  have "live_pair cfg lib ?d m1 (mint_pair cfg lib m1 ?d) s''" "live_pair cfg lib ?d m2 (mint_pair cfg lib m2 ?d) s''"
    using assms(5,6) s'(3) s''(2,3) by (auto simp: live_pair_def)
  with live_check[OF assms(1,2,3)] live_check[OF assms(1,2,4)] s'(1) s''(1) show ?thesis by blast
qed

section \<open>Only an administrator changes the accounts\<close>

text \<open>
  What happens to the service, the intruder included: every response sets cookies anyone may present
  from then on. A cookie that was not set by a response does not verify (\<open>genuine\<close>): its signature
  would have to be forged.
\<close>

datatype auth_event =
    LoggedIn string string auth_response
  | Rotated auth_response

fun event_response :: "auth_event \<Rightarrow> auth_response" where
  "event_response (LoggedIn n p r) = r"
| "event_response (Rotated r) = r"

definition issued :: "auth_event list \<Rightarrow> string set" where
  "issued evs = {ck_value k |k e. e \<in> set evs \<and> k \<in> set (ar_cookies (event_response e))}"

definition genuine :: "lib \<Rightarrow> auth_event list \<Rightarrow> cookies \<Rightarrow> bool" where
  "genuine lib evs cs \<longleftrightarrow>
     (\<forall>n v now c. cs n = Some v \<and> decode_token lib now v = Some c \<longrightarrow> v \<in> issued evs)"

inductive auth_run :: "auth_config \<Rightarrow> lib \<Rightarrow> account_db \<Rightarrow> auth_event list \<Rightarrow> account_db \<Rightarrow> bool"
  for cfg :: auth_config and lib :: lib and s0 :: account_db where
  start: "auth_run cfg lib s0 [] s0"
| login: "\<lbrakk>auth_run cfg lib s0 evs s; login_route cfg lib m n p s = Inr r\<rbrakk>
    \<Longrightarrow> auth_run cfg lib s0 (LoggedIn n p r # evs) s"
| rotate: "\<lbrakk>auth_run cfg lib s0 evs s; genuine lib evs cs; refresh_route cfg lib t m cs s = (Inr r, s')\<rbrakk>
    \<Longrightarrow> auth_run cfg lib s0 (Rotated r # evs) s'"
| other: "\<lbrakk>auth_run cfg lib s0 evs s; \<And>t v cs f. q = Admin t v cs f \<Longrightarrow> genuine lib evs cs\<rbrakk>
    \<Longrightarrow> auth_run cfg lib s0 evs (auth_step cfg lib q s)"

text \<open>\<open>u\<close> is an account of the start, and its holder logged in.\<close>

definition logged_in :: "lib \<Rightarrow> account_db \<Rightarrow> auth_event list \<Rightarrow> account \<Rightarrow> bool" where
  "logged_in lib s0 evs u \<longleftrightarrow> u \<in> set (au_users s0) \<and> us_is_active u \<and>
     (\<exists>p r. LoggedIn (ac_username u) p r \<in> set evs \<and> lb_checkpw lib p (ac_password_hash u))"

text \<open>Until an administrator has logged in the table is that of the start, and tokens name its roles.\<close>

definition roles_earned :: "lib \<Rightarrow> account_db \<Rightarrow> auth_event list \<Rightarrow> bool" where
  "roles_earned lib s0 evs \<longleftrightarrow>
     (\<forall>v \<in> issued evs. \<forall>now c. decode_token lib now v = Some c \<longrightarrow>
        (\<exists>u. logged_in lib s0 evs u \<and> cl_role c = Some (ac_role u)))"

lemma issued_Cons: "issued (e # evs) = ck_value ` set (ar_cookies (event_response e)) \<union> issued evs"
  by (auto simp: issued_def)

lemma logged_in_Cons: "logged_in lib s0 evs u \<Longrightarrow> logged_in lib s0 (e # evs) u"
  by (auto simp: logged_in_def)

lemma minted_role:
  assumes "lib_ok lib" "v \<in> ck_value ` set (set_auth_cookies cfg (mint_pair cfg lib m d))"
    "decode_token lib now v = Some c"
  shows "cl_role c = cl_role d"
proof -
  obtain a r where p: "mint_pair cfg lib m d = (a, r)" by fastforce
  from assms(2,3) mint_claims[OF assms(1) p, of now] p show ?thesis
    by (auto simp: set_auth_cookies_def Let_def split: if_splits)
qed

lemma roles_earned_step:
  assumes "roles_earned lib s0 evs"
    "\<And>v now c. \<lbrakk>v \<in> ck_value ` set (ar_cookies (event_response e)); decode_token lib now v = Some c\<rbrakk>
       \<Longrightarrow> \<exists>u. logged_in lib s0 (e # evs) u \<and> cl_role c = Some (ac_role u)"
  shows "roles_earned lib s0 (e # evs)"
  using assms logged_in_Cons unfolding roles_earned_def issued_Cons by blast

lemma auth_users:
  "authenticate_user lib n p s = Inr (Some u) \<Longrightarrow>
     u \<in> set (au_users s) \<and> ac_username u = n \<and> us_is_active u \<and> lb_checkpw lib p (ac_password_hash u)"
  by (auto simp: authenticate_user_def scalar_one_or_none_Some split: sum.splits option.splits if_splits
      dest!: arg_cong[of _ _ set])

lemma login_response:
  assumes "login_route cfg lib m n p s = Inr r"
  obtains "ar_cookies r = []"
  | u where "authenticate_user lib n p s = Inr (Some u)"
      "ar_cookies r = set_auth_cookies cfg (mint_pair cfg lib m
         (identity_of (str_of_int (us_id u)) (ac_username u) (ac_role u)))"
  using assms by (auto simp: login_route_def unauthorized_def create_tokens_def
      split: if_splits sum.splits option.splits)

lemma refresh_tokens_cases:
  assumes "refresh_tokens cfg lib t m v s = (r, s')"
  obtains "accounts s' = accounts s" "\<And>p. r \<noteq> Inr (Some p)"
  | c sub name where "accounts s' = accounts s" "decode_token lib (ti_decode t) v = Some c"
      "r = Inr (Some (mint_pair cfg lib m (identity_of sub name (role_of c))))"
proof (cases "\<exists>c. refresh_check lib t v s = Inr (Some c)")
  case True
  then obtain c where c: "refresh_check lib t v s = Inr (Some c)" ..
  obtain x s1 where x: "(if truthy_str (cl_jti c) then revoke_jti (the (cl_jti c)) (exp_of c) (ti_revoke t) s
      else (Inr (), s)) = (x, s1)" by fastforce
  then have "accounts s1 = accounts s" using revoke_frame by (auto split: if_splits)
  with assms c x that refresh_check_Some[OF c] show ?thesis
    by (cases x; cases "cl_sub c") (auto simp: refresh_tokens_def refresh_commit_def role_of_def)
next
  case False
  with assms that(1) show ?thesis
    by (auto simp: refresh_tokens_def split: sum.splits option.splits)
qed

lemma refresh_response:
  assumes "refresh_route cfg lib t m cs s = (Inr r, s')"
  obtains "ar_cookies r = []" "accounts s' = accounts s"
  | v c sub name where "cs REFRESH_COOKIE_NAME = Some v" "decode_token lib (ti_decode t) v = Some c"
      "ar_cookies r = set_auth_cookies cfg (mint_pair cfg lib m (identity_of sub name (role_of c)))"
      "accounts s' = accounts s"
proof (cases "cs REFRESH_COOKIE_NAME")
  case None
  with assms have "ar_cookies r = []" "s' = s" by (auto simp: refresh_route_def unauthorized_def)
  with that(1) show ?thesis by simp
next
  case (Some v)
  obtain x s1 where x: "refresh_tokens cfg lib t m v s = (x, s1)" by fastforce
  from x show ?thesis
  proof (cases rule: refresh_tokens_cases)
    case 1
    with assms Some x that(1) show ?thesis
      by (auto simp: refresh_route_def unauthorized_def split: if_splits sum.splits option.splits)
  next
    case (2 c sub name)
    with assms Some x that show ?thesis
      by (auto simp: refresh_route_def unauthorized_def split: if_splits)
  qed
qed

lemma auth_step_users:
  assumes "\<And>t v cs f c. q = Admin t v cs f \<Longrightarrow> require_admin lib t cs s \<noteq> Inr c"
  shows "accounts (auth_step cfg lib q s) = accounts s"
proof (cases q)
  case (Refresh t m cs)
  obtain x s' where x: "refresh_tokens cfg lib t m (the (cs REFRESH_COOKIE_NAME)) s = (x, s')" by fastforce
  then have "accounts s' = accounts s" by (cases rule: refresh_tokens_cases)
  with Refresh x show ?thesis by (simp add: refresh_route_snd)
next
  case (Logout t1 t2 cs)
  have "accounts s' = accounts s" if "revoke_cookie lib t cs n s = (x, s')" for t n s x s'
    using that revoke_frame
    by (auto simp: revoke_cookie_def revoke_token_def split: if_splits option.splits prod.splits sum.splits)
  from this[of t1] this[of t2] Logout show ?thesis
    by (auto simp: logout_route_def split: prod.splits sum.splits)
next
  case (Admin t v cs f)
  with assms show ?thesis by (cases "require_admin lib t cs s") (auto simp: admin_request_def)
qed (simp_all add: accounts_def)

lemma require_admin_token:
  assumes "require_admin lib t cs s = Inr c"
  obtains v where "cs ACCESS_COOKIE_NAME = Some v" "decode_token lib (ti_decode t) v = Some c"
    "role_of c = ''admin''"
  using assms
  by (auto simp: require_admin_def require_role_def require_auth_def get_current_user_def
      split: if_splits sum.splits option.splits dest!: token_valid_Some elim!: truthy_strE)

lemma login_earned:
  assumes "lib_ok lib" "au_users s = au_users s0" "roles_earned lib s0 evs" "login_route cfg lib m n p s = Inr r"
  shows "roles_earned lib s0 (LoggedIn n p r # evs)"
proof (rule roles_earned_step[OF assms(3)])
  fix v now c
  assume v: "v \<in> ck_value ` set (ar_cookies (event_response (LoggedIn n p r)))"
    and c: "decode_token lib now v = Some c"
  from assms(4) show "\<exists>u. logged_in lib s0 (LoggedIn n p r # evs) u \<and> cl_role c = Some (ac_role u)"
  proof (cases rule: login_response)
    case 1
    with v show ?thesis by simp
  next
    case (2 u)
    with auth_users[OF 2(1)] assms(2) have "logged_in lib s0 (LoggedIn n p r # evs) u"
      by (auto simp: logged_in_def)
    moreover from v 2(2) minted_role[OF assms(1) _ c] have "cl_role c = Some (ac_role u)"
      by (simp add: identity_of_def)
    ultimately show ?thesis by blast
  qed
qed

lemma rotate_earned:
  assumes "lib_ok lib" "roles_earned lib s0 evs" "genuine lib evs cs" "refresh_route cfg lib t m cs s = (Inr r, s')"
  shows "roles_earned lib s0 (Rotated r # evs) \<and> accounts s' = accounts s"
  using assms(4)
proof (cases rule: refresh_response)
  case 1
  with roles_earned_step[OF assms(2), of "Rotated r"] show ?thesis by simp
next
  case (2 v c sub name)
  from 2(1,2) assms(3) have "v \<in> issued evs" by (auto simp: genuine_def)
  with assms(2) 2(2) obtain u where u: "logged_in lib s0 evs u" "cl_role c = Some (ac_role u)"
    unfolding roles_earned_def by blast
  have "roles_earned lib s0 (Rotated r # evs)"
  proof (rule roles_earned_step[OF assms(2)])
    fix w now d
    assume "w \<in> ck_value ` set (ar_cookies (event_response (Rotated r)))" "decode_token lib now w = Some d"
    with 2(3) minted_role[OF assms(1)] u(2) have "cl_role d = Some (ac_role u)"
      by (auto simp: identity_of_def role_of_def)
    with logged_in_Cons[OF u(1)] show "\<exists>u. logged_in lib s0 (Rotated r # evs) u \<and> cl_role d = Some (ac_role u)"
      by blast
  qed
  with 2(4) show ?thesis by simp
qed

lemma auth_run_inv:
  assumes "lib_ok lib" "auth_run cfg lib s0 evs s"
    and no_admin: "\<And>u. logged_in lib s0 evs u \<Longrightarrow> ac_role u \<noteq> ''admin''"
  shows "au_users s = au_users s0 \<and> roles_earned lib s0 evs"
  using assms(2,3)
proof (induction rule: auth_run.induct)
  case start
  then show ?case by (simp add: roles_earned_def issued_def)
next
  case (login evs s m n p r)
  have IH: "au_users s = au_users s0" "roles_earned lib s0 evs"
    using login.IH login.prems logged_in_Cons by blast+
  with login_earned[OF assms(1) IH login.hyps(2)] show ?case by simp
next
  case (rotate evs s cs t m r s')
  have IH: "au_users s = au_users s0" "roles_earned lib s0 evs"
    using rotate.IH rotate.prems logged_in_Cons by blast+
  with rotate_earned[OF assms(1) IH(2) rotate.hyps(2,3)] show ?case by (simp add: accounts_def)
next
  case (other evs s q)
  have IH: "au_users s = au_users s0" "roles_earned lib s0 evs"
    using other.IH other.prems by blast+
  have "require_admin lib t cs s \<noteq> Inr c" if q: "q = Admin t v cs f" for t v cs f c
  proof
    assume "require_admin lib t cs s = Inr c"
    then obtain w where w: "cs ACCESS_COOKIE_NAME = Some w" "decode_token lib (ti_decode t) w = Some c"
      "role_of c = ''admin''" by (rule require_admin_token)
    with other.hyps(2)[OF q] have "w \<in> issued evs" by (auto simp: genuine_def)
    with IH(2) w(2) obtain u where "logged_in lib s0 evs u" "cl_role c = Some (ac_role u)"
      unfolding roles_earned_def by blast
    with other.prems[of u] w(3) show False by (simp add: role_of_def)
  qed
  then have "accounts (auth_step cfg lib q s) = accounts s" by (intro auth_step_users) auto
  with IH show ?case by (simp add: accounts_def)
qed

text \<open>
  C10. Along any sequence of requests to the authentication and user routes, whatever cookies of earlier
  responses of the sequence they carry: the table of users differs from that of the start only if an
  account that was an active administrator at the start logged in with its password. (Tokens issued
  before the start are not presented; the wizard's own way to the first account is the subject of
  \<open>Setup_Wizard\<close>.)
\<close>

theorem admin_changes_only:
  assumes "lib_ok lib" "auth_run cfg lib s0 evs s" "au_users s \<noteq> au_users s0"
  shows "\<exists>u p r. u \<in> set (au_users s0) \<and> us_is_active u \<and> ac_role u = ''admin'' \<and>
    LoggedIn (ac_username u) p r \<in> set evs \<and> lb_checkpw lib p (ac_password_hash u)"
  using auth_run_inv[OF assms(1,2)] assms(3) unfolding logged_in_def by blast

section \<open>The table of users\<close>

definition users_ok :: "account_db \<Rightarrow> bool" where
  "users_ok s \<longleftrightarrow> distinct (map us_id (au_users s)) \<and>
     (\<forall>u \<in> set (au_users s). 0 \<le> us_id u \<and> us_id u < au_next_id s \<and> ac_role u \<in> set ROLES) \<and>
     (\<forall>u \<in> set (au_users s). \<forall>v \<in> set (au_users s). us_id u \<noteq> us_id v \<longrightarrow> \<not> clashes u v) \<and>
     0 \<le> au_next_id s"

lemma clashes_sym: "clashes u v \<longleftrightarrow> clashes v u"
  unfolding clashes_def by metis

lemma clashes_pin [simp]:
  "clashes (u\<lparr>us_worker_pin := p\<rparr>) v \<longleftrightarrow> clashes u v" "clashes v (u\<lparr>us_worker_pin := p\<rparr>) \<longleftrightarrow> clashes v u"
  by (simp_all add: clashes_def)

lemma get_user: "get_user_by_id i s = Some u \<Longrightarrow> u \<in> set (au_users s) \<and> us_id u = i"
  by (auto simp: get_user_by_id_def find_Some_iff)

lemma users_ok_put:
  assumes "users_ok s" "u \<in> set (au_users s)" "us_id u' = us_id u" "ac_role u' \<in> set ROLES"
    "\<And>v. \<lbrakk>v \<in> set (au_users s); us_id v \<noteq> us_id u\<rbrakk> \<Longrightarrow> \<not> clashes u' v"
  shows "users_ok (put_user u' s)"
proof -
  have ids: "map us_id (au_users (put_user u' s)) = map us_id (au_users s)"
    by (auto simp: put_user_def)
  have mem: "v = u' \<or> (v \<in> set (au_users s) \<and> us_id v \<noteq> us_id u)" if "v \<in> set (au_users (put_user u' s))" for v
    using that assms(3) by (auto simp: put_user_def)
  have "0 \<le> us_id v \<and> us_id v < au_next_id (put_user u' s) \<and> ac_role v \<in> set ROLES"
    if "v \<in> set (au_users (put_user u' s))" for v
    using mem[OF that] assms(1-4) by (auto simp: users_ok_def put_user_def)
  moreover have "us_id v = us_id w"
    if v: "v \<in> set (au_users (put_user u' s))" and w: "w \<in> set (au_users (put_user u' s))" and c: "clashes v w" for v w
  proof -
    from c have "clashes w v" using clashes_sym by blast
    with mem[OF v] mem[OF w] c assms(1,5) show ?thesis unfolding users_ok_def by blast
  qed
  moreover have "au_next_id (put_user u' s) = au_next_id s" by (simp add: put_user_def)
  ultimately show ?thesis using assms(1) unfolding users_ok_def ids by metis
qed

lemma users_ok_pin:
  "\<lbrakk>users_ok s; get_user_by_id i s = Some u\<rbrakk> \<Longrightarrow> users_ok (put_user (u\<lparr>us_worker_pin := p\<rparr>) s)"
  by (drule get_user, rule users_ok_put[of s u]) (auto simp: users_ok_def)

lemma users_ok_add:
  assumes "users_ok s" "us_id u = au_next_id s" "ac_role u \<in> set ROLES" "\<not> list_ex (clashes u) (au_users s)"
  shows "users_ok (s\<lparr>au_users := au_users s @ [u], au_next_id := au_next_id s + 1\<rparr>)"
proof -
  have no: "\<not> clashes u v" "\<not> clashes v u" if "v \<in> set (au_users s)" for v
    using assms(4) that clashes_sym by (auto simp: list_ex_iff)
  have "us_id v < au_next_id s + 1" "us_id v \<noteq> us_id u" if "v \<in> set (au_users s)" for v
    using assms(1,2) that by (auto simp: users_ok_def)
  with no assms(1-3) show ?thesis by (auto simp: users_ok_def image_iff)
qed

lemma update_fields:
  assumes "update_ok mail d" "ac_role u \<in> set ROLES" "uu_role d \<noteq> Some None"
  shows "given (ac_role u) (map_option the (uu_role d)) \<in> set ROLES"
  using assms by (cases "uu_role d") (auto simp: update_ok_def)

lemma user_route_ok:
  assumes "users_ok s"
  shows "users_ok (snd (user_route lib v f s))"
proof (cases f)
  case (CreateUser d)
  show ?thesis
  proof (cases "create_ok (ae_mail v) d")
    case True
    then have "uc_role d \<in> set ROLES" by (simp add: create_ok_def)
    with assms CreateUser True show ?thesis
      by (auto simp: create_user_def some_account_def Let_def intro!: users_ok_add)
  qed (use CreateUser assms in simp)
next
  case (UpdateUser i d)
  show ?thesis
  proof (cases "update_ok (ae_mail v) d \<and> get_user_by_id i s \<noteq> None")
    case True
    then obtain u where u: "get_user_by_id i s = Some u" by blast
    note mem = get_user[OF u]
    with assms have r: "ac_role u \<in> set ROLES" by (simp add: users_ok_def)
    from True u UpdateUser assms mem update_fields[OF _ r] show ?thesis
      by (auto simp: with_user_def some_account_def update_user_def Let_def list_ex_iff
          intro!: users_ok_put split: if_splits)
  qed (use UpdateUser assms in \<open>auto simp: with_user_def\<close>)
next
  case (DeleteUser i)
  with assms show ?thesis
    by (auto simp: with_user_def delete_user_def users_ok_def distinct_map_filter split: option.splits)
next
  case (SetPin i pin)
  with assms users_ok_pin show ?thesis by (auto simp: with_user_def split: option.splits)
next
  case (RemovePin i)
  with assms users_ok_pin show ?thesis by (auto simp: with_user_def split: option.splits)
qed (use assms in \<open>auto simp: with_user_def split: option.splits\<close>)

lemma auth_step_ok:
  assumes "users_ok s"
  shows "users_ok (auth_step cfg lib q s)"
proof (cases "\<exists>t v cs f c. q = Admin t v cs f \<and> require_admin lib t cs s = Inr c")
  case True
  with assms user_route_ok show ?thesis by (auto simp: admin_request_def)
next
  case False
  then have "accounts (auth_step cfg lib q s) = accounts s" by (intro auth_step_users) auto
  with assms show ?thesis by (simp add: users_ok_def accounts_def)
qed

lemma at_most_one:
  assumes "distinct (map f xs)" "\<And>x y. \<lbrakk>x \<in> set xs; y \<in> set xs\<rbrakk> \<Longrightarrow> f x = f y"
  shows "length xs \<le> 1"
proof (cases xs rule: scalar_one_or_none.cases)
  case (3 x y zs)
  with assms(2)[of x y] assms(1) show ?thesis by simp
qed simp_all

lemma one_username:
  assumes "users_ok s"
  shows "length (filter (\<lambda>u. ac_username u = n) (au_users s)) \<le> 1"
proof (rule at_most_one[of us_id])
  show "distinct (map us_id (filter (\<lambda>u. ac_username u = n) (au_users s)))"
    using assms by (simp add: users_ok_def distinct_map_filter)
  fix u v assume "u \<in> set (filter (\<lambda>u. ac_username u = n) (au_users s))" "v \<in> set (filter (\<lambda>u. ac_username u = n) (au_users s))"
  then have "clashes u v" "u \<in> set (au_users s)" "v \<in> set (au_users s)" by (auto simp: clashes_def)
  with assms show "us_id u = us_id v" unfolding users_ok_def by blast
qed

text \<open>
  Whatever the requests, identifiers, user names and e-mail addresses stay unique and roles are
  the three known ones; so a login never finds two accounts.
\<close>

theorem users_consistent:
  assumes "users_ok s"
  shows "users_ok (fold (auth_step cfg lib) rs s) \<and>
    authenticate_user lib n p (fold (auth_step cfg lib) rs s) \<noteq> Inl e"
proof -
  have ok: "users_ok (fold (auth_step cfg lib) rs s)"
    using assms by (induction rs arbitrary: s) (simp_all add: auth_step_ok)
  from one_username[OF ok, of n] have "authenticate_user lib n p (fold (auth_step cfg lib) rs s) \<noteq> Inl e"
    by (cases "filter (\<lambda>u. ac_username u = n) (au_users (fold (auth_step cfg lib) rs s))" rule: scalar_one_or_none.cases)
      (auto simp: authenticate_user_def)
  with ok show ?thesis by simp
qed

section \<open>The PIN at the booth\<close>

lemma find_put_user:
  "\<lbrakk>find (\<lambda>v. us_id v = i) us = Some u; us_id u' = i\<rbrakk>
    \<Longrightarrow> find (\<lambda>v. us_id v = i) (map (\<lambda>v. if us_id v = us_id u' then u' else v) us) = Some u'"
  by (induction us) (auto split: if_splits)

lemma find_truncate: "find (\<lambda>v. us_id v = i) (map user.truncate us) = map_option user.truncate (find (\<lambda>v. us_id v = i) us)"
  by (induction us) (auto simp: user.truncate_def)

text \<open>
  A PIN an administrator sets is the one the booth's check-in then takes from the worker, and
  after the PIN is removed none is.
\<close>

theorem pin_set_then_verified:
  assumes "lib_ok lib" "get_user_by_id i s = Some u" "us_is_active u" "length pin = 4" "list_all is_digit pin"
    "lb_hashpw lib (ae_salt v) pin \<noteq> []"
    "user_route lib v (SetPin i pin) s = (r, s')" "bd_users d = map user.truncate (au_users s')"
    "user_route lib v (RemovePin i) s' = (r', s'')" "bd_users d' = map user.truncate (au_users s'')"
  shows "(\<exists>w. get_worker_and_verify_pin (lb_checkpw lib) d i pin = Inr w \<and> us_id w = i) \<and>
    get_worker_and_verify_pin (lb_checkpw lib) d' i pin' =
      Inl (HTTPException 400 (''Worker has no PIN set '' @ ''- contact admin''))"
proof -
  let ?w = "u\<lparr>us_worker_pin := Some (lb_hashpw lib (ae_salt v) pin)\<rparr>"
  have id: "us_id u = i" using get_user[OF assms(2)] by simp
  have "s' = put_user ?w s" using assms(2,4,5,7) by (simp add: with_user_def)
  then have w: "get_user_by_id i s' = Some ?w"
    using find_put_user[of i "au_users s" u ?w] assms(2) id by (simp add: get_user_by_id_def put_user_def)
  then have s'': "s'' = put_user (u\<lparr>us_worker_pin := None\<rparr>) s'" using assms(9) by (simp add: with_user_def)
  have w': "get_user_by_id i s'' = Some (u\<lparr>us_worker_pin := None\<rparr>)"
    using find_put_user[of i "au_users s'" ?w "u\<lparr>us_worker_pin := None\<rparr>"] w id
    by (simp add: s'' get_user_by_id_def put_user_def)
  have "\<exists>w. get_worker_and_verify_pin (lb_checkpw lib) d i pin = Inr w \<and> us_id w = i"
    using w assms(1,3,6,8) id
    by (auto simp: get_worker_and_verify_pin_def get_user_by_id_def find_truncate user.truncate_def lib_ok_def)
  moreover have "get_worker_and_verify_pin (lb_checkpw lib) d' i pin' =
      Inl (HTTPException 400 (''Worker has no PIN set '' @ ''- contact admin''))"
    using w' assms(3,10)
    by (simp add: get_worker_and_verify_pin_def get_user_by_id_def find_truncate user.truncate_def)
  ultimately show ?thesis by blast
qed

section \<open>A concrete library\<close>

text \<open>
  Strings are written with their length in unary, optional ones with a mark, the expiry in unary; a
  token is accepted when it reads back to itself.
\<close>

definition put_str :: "string \<Rightarrow> string" where
  "put_str x = replicate (length x) CHR ''#'' @ CHR ''.'' # x"

definition get_str :: "string \<Rightarrow> string \<times> string" where
  "get_str t =
     (let n = length (takeWhile (\<lambda>c. c = CHR ''#'') t); rest = drop (Suc n) t
      in (take n rest, drop n rest))"

fun put_opt :: "string option \<Rightarrow> string" where
  "put_opt None = ''N''"
| "put_opt (Some x) = CHR ''S'' # put_str x"

fun get_opt :: "string \<Rightarrow> string option \<times> string" where
  "get_opt [] = (None, [])"
| "get_opt (c # t) = (if c = CHR ''N'' then (None, t) else case get_str t of (x, rest) \<Rightarrow> (Some x, rest))"

definition int_text :: "int \<Rightarrow> string" where
  "int_text i = (if i < 0 then CHR ''-'' else CHR ''+'') # replicate (nat \<bar>i\<bar>) CHR ''1''"

definition text_int :: "string \<Rightarrow> int" where
  "text_int t = (if hd t = CHR ''-'' then - int (length (tl t)) else int (length (tl t)))"

lemma get_put_str: "get_str (put_str x @ rest) = (x, rest)"
proof -
  have "takeWhile (\<lambda>c. c = CHR ''#'') (replicate n CHR ''#'' @ CHR ''.'' # t) = replicate n CHR ''#''" for n t
    by (induction n) auto
  then show ?thesis by (simp add: get_str_def put_str_def Let_def)
qed

lemma get_put_opt: "get_opt (put_opt x @ rest) = (x, rest)"
  by (cases x) (simp_all add: get_put_str)

lemma get_put_opt_end: "get_opt (put_opt x) = (x, [])"
  using get_put_opt[of x "[]"] by simp

lemma text_int_text: "text_int (int_text i) = i"
  by (simp add: text_int_def int_text_def)

definition example_encode :: "claims \<Rightarrow> string" where
  "example_encode c = put_opt (cl_sub c) @ put_opt (cl_username c) @ put_opt (cl_role c) @ put_opt (cl_type c) @
     put_opt (cl_jti c) @ put_opt (map_option int_text (cl_exp c))"

definition example_parse :: "string \<Rightarrow> claims" where
  "example_parse t =
     (let (sub, t) = get_opt t; (name, t) = get_opt t; (role, t) = get_opt t; (ty, t) = get_opt t;
          (jti, t) = get_opt t; (ex, t) = get_opt t
      in \<lparr>cl_sub = sub, cl_username = name, cl_role = role, cl_type = ty, cl_jti = jti,
          cl_exp = map_option text_int ex\<rparr>)"

definition example_lib :: lib where
  "example_lib = \<lparr>lb_encode = example_encode,
     lb_decode = (\<lambda>now t. let c = example_parse t in if example_encode c = t \<and> \<not> expired c now then Some c else None),
     lb_hashpw = (\<lambda>salt p. CHR ''$'' # p), lb_checkpw = (\<lambda>p h. h = CHR ''$'' # p), lb_sha256 = id\<rparr>"

lemma example_parse_encode [simp]: "example_parse (example_encode c) = c"
proof -
  have "text_int \<circ> int_text = id" by (auto simp: text_int_text)
  then show ?thesis
    by (simp add: example_parse_def example_encode_def get_put_opt get_put_opt_end option.map_comp option.map_id Let_def)
qed

lemma example_lib_ok: "lib_ok example_lib"
  by (auto simp: lib_ok_def example_lib_def Let_def split: if_splits)

definition example_cfg :: auth_config where
  "example_cfg = \<lparr>cf_access_minutes = 30, cf_refresh_days = 7, cf_production = False\<rparr>"

definition example_admin :: account where
  "example_admin = \<lparr>us_id = 1, us_is_active = True, us_worker_pin = None, ac_username = ''root'',
     ac_email = None, ac_password_hash = ''$secret'', ac_full_name = None, ac_role = ''admin'', ac_phone = None\<rparr>"

definition example_accounts :: account_db where
  "example_accounts = \<lparr>au_users = [example_admin], au_next_id = 2, au_denied = Map.empty, au_redis_up = True\<rparr>"

definition example_mint :: "string \<Rightarrow> mint" where
  "example_mint j = \<lparr>mt_access_at = 0, mt_access_jti = CHR ''a'' # j, mt_refresh_at = 0, mt_refresh_jti = CHR ''r'' # j\<rparr>"

definition example_times :: auth_times where
  "example_times = \<lparr>ti_decode = 5, ti_check = 5, ti_revoke = 5\<rparr>"

definition example_identity :: claims where
  "example_identity = identity_of ''1'' ''root'' ''admin''"

definition example_pair :: "string \<times> string" where
  "example_pair = mint_pair example_cfg example_lib (example_mint ''1'') example_identity"

definition example_admin_env :: admin_env where
  "example_admin_env = \<lparr>ae_mail = (\<lambda>x. True), ae_salt = [], ae_referenced = (\<lambda>i. False)\<rparr>"

lemmas example_access_defs = example_cfg_def example_accounts_def example_mint_def example_times_def
  example_identity_def example_pair_def example_admin_def

lemma example_live: "live_pair example_cfg example_lib (identity_of ''1'' ''root'' ''admin'') (example_mint ''1'') example_pair example_accounts"
  by (simp add: live_pair_def example_access_defs)

lemma example_tokens: "fst example_pair \<noteq> [] \<and> snd example_pair \<noteq> []"
  by (simp add: example_pair_def mint_pair_def create_access_token_def create_refresh_token_def Let_def
      example_lib_def example_encode_def example_identity_def identity_of_def)

theorem access_window_witness:
  "require_role example_lib example_times [ACCESS_COOKIE_NAME \<mapsto> fst example_pair] [''admin''] example_accounts \<noteq>
     require_role example_lib example_times [ACCESS_COOKIE_NAME \<mapsto> fst example_pair] [''operator''] example_accounts"
proof -
  have p: "mint_pair example_cfg example_lib (example_mint ''1'') (identity_of ''1'' ''root'' ''admin'') =
      (fst example_pair, snd example_pair)" by (simp add: example_pair_def example_identity_def)
  have j: "mt_access_jti (example_mint ''1'') \<noteq> []" by (simp add: example_mint_def)
  show ?thesis
    using access_window[OF example_lib_ok p example_tokens[THEN conjunct1] example_tokens[THEN conjunct2] j]
    by (simp add: example_access_defs access_expiry_def redis_alive_def)
qed

theorem role_outlives_account_witness:
  "\<exists>m s. rotations example_cfg example_lib [([], example_times, example_mint ''2''), ([], example_times, example_mint ''3'')]
     example_pair example_accounts = (Some (mint_pair example_cfg example_lib m (identity_of ''1'' ''root'' ''admin'')), s)"
  using role_outlives_account[OF example_lib_ok example_live,
      of "[([], example_times, example_mint ''2''), ([], example_times, example_mint ''3'')]"]
  by (auto simp: example_access_defs refresh_expiry_def)

theorem refresh_race_witness:
  "\<exists>c s s'. refresh_check example_lib example_times (snd example_pair) example_accounts = Inr (Some c) \<and>
     refresh_commit example_cfg example_lib example_times (example_mint ''2'') c example_accounts =
       (Inr (Some (mint_pair example_cfg example_lib (example_mint ''2'') (identity_of ''1'' ''root'' ''admin''))), s) \<and>
     refresh_commit example_cfg example_lib example_times (example_mint ''3'') c s =
       (Inr (Some (mint_pair example_cfg example_lib (example_mint ''3'') (identity_of ''1'' ''root'' ''admin''))), s')"
  using refresh_race[OF example_lib_ok example_live, of example_times example_times "example_mint ''2''" "example_mint ''3''"]
  by (auto simp: example_access_defs refresh_expiry_def)

theorem revoked_for_good_witness:
  "\<exists>s. \<forall>d. revoke_token example_lib example_times (fst example_pair) example_accounts = (Inr True, s) \<and>
     is_token_valid example_lib example_times (fst example_pair)
       (fold (auth_step example_cfg example_lib) [RedisState False, RedisState True] s) \<noteq> Inr (Some d)"
proof -
  let ?c = "identity_of ''1'' ''root'' ''admin''\<lparr>cl_exp := Some 1800, cl_type := Some ''access'', cl_jti := Some ''a1''\<rparr>"
  have c: "decode_token example_lib (ti_decode example_times) (fst example_pair) = Some ?c"
    using mint_claims(1)[OF example_lib_ok, of example_cfg "example_mint ''1''" example_identity
        "fst example_pair" "snd example_pair"]
    by (simp add: example_access_defs expired_def)
  then obtain s where s: "revoke_token example_lib example_times (fst example_pair) example_accounts = (Inr True, s)"
    by (auto simp: revoke_token_def revoke_jti_def exp_of_def example_times_def example_accounts_def Let_def)
  with revoked_for_good[OF example_lib_ok _ c _ _ _ disjI1[OF s], of "[RedisState False, RedisState True]" 1800 example_times]
  show ?thesis by (auto simp: example_times_def)
qed

theorem users_consistent_witness:
  "\<forall>e. authenticate_user example_lib ''root'' ''secret''
     (fold (auth_step example_cfg example_lib) [RedisState False] example_accounts) \<noteq> Inl e"
proof -
  have "users_ok example_accounts" by (simp add: users_ok_def example_access_defs ROLES_def)
  from users_consistent[OF this] show ?thesis by blast
qed

theorem admin_changes_only_witness:
  "\<exists>u p r evs s. auth_run example_cfg example_lib example_accounts evs s \<and> au_users s \<noteq> au_users example_accounts \<and>
     u \<in> set (au_users example_accounts) \<and> ac_role u = ''admin'' \<and> LoggedIn (ac_username u) p r \<in> set evs"
proof -
  have one: "str_of_int 1 = ''1''" by code_simp
  have login: "login_route example_cfg example_lib (example_mint ''1'') ''root'' ''secret'' example_accounts =
      Inr \<lparr>ar_status = 200, ar_message = ''Login successful'', ar_cookies = set_auth_cookies example_cfg example_pair\<rparr>"
    (is "_ = Inr ?r")
    by (simp add: login_route_def authenticate_user_def example_accounts_def example_admin_def example_lib_def
        example_pair_def create_tokens_def example_identity_def one)
  note run = auth_run.login[OF auth_run.start login]
  let ?cs = "[ACCESS_COOKIE_NAME \<mapsto> fst example_pair]"
  have cookie: "genuine example_lib [LoggedIn ''root'' ''secret'' ?r] ?cs"
    by (simp add: genuine_def issued_Cons set_auth_cookies_def)
  let ?q = "Admin example_times example_admin_env ?cs (SetPin 1 ''1234'')"
  let ?s = "auth_step example_cfg example_lib ?q example_accounts"
  have step: "auth_run example_cfg example_lib example_accounts [LoggedIn ''root'' ''secret'' ?r] ?s"
    by (rule auth_run.other[OF run]) (use cookie in simp)
  have "decode_token example_lib (ti_decode example_times) (fst example_pair) =
      Some (identity_of ''1'' ''root'' ''admin''\<lparr>cl_exp := Some 1800, cl_type := Some ''access'', cl_jti := Some ''a1''\<rparr>)"
    using mint_claims(1)[OF example_lib_ok, of example_cfg "example_mint ''1''" example_identity
        "fst example_pair" "snd example_pair"]
    by (simp add: example_access_defs expired_def)
  then have changed: "au_users ?s \<noteq> au_users example_accounts"
    using example_tokens
    by (simp add: admin_request_def require_admin_def require_role_def require_auth_def get_current_user_def
        is_token_valid_def jti_revoked_def is_token_revoked_def redis_alive_def role_of_def identity_of_def
        example_accounts_def with_user_def get_user_by_id_def put_user_def example_admin_def is_digit_def)
  from admin_changes_only[OF example_lib_ok step changed] step changed show ?thesis by blast
qed

theorem pin_set_then_verified_witness:
  "\<exists>d. bd_users d = map user.truncate (au_users (snd (user_route example_lib example_admin_env (SetPin 1 ''1234'') example_accounts))) \<and>
     get_worker_and_verify_pin (lb_checkpw example_lib) d 1 ''1234'' = Inr \<lparr>us_id = 1, us_is_active = True, us_worker_pin = Some ''$1234''\<rparr>"
proof -
  let ?s = "snd (user_route example_lib example_admin_env (SetPin 1 ''1234'') example_accounts)"
  let ?t = "snd (user_route example_lib example_admin_env (RemovePin 1) ?s)"
  have u: "get_user_by_id 1 example_accounts = Some example_admin" "us_is_active example_admin"
    by (simp_all add: get_user_by_id_def example_accounts_def example_admin_def)
  have h: "lb_hashpw example_lib (ae_salt example_admin_env) ''1234'' \<noteq> []" by (simp add: example_lib_def)
  obtain d d' :: booth_db where d: "bd_users d = map user.truncate (au_users ?s)" "bd_users d' = map user.truncate (au_users ?t)"
    by (metis booth_db.select_convs(2))
  from pin_set_then_verified[OF example_lib_ok u _ _ h surjective_pairing d(1) surjective_pairing d(2)]
  obtain w where "get_worker_and_verify_pin (lb_checkpw example_lib) d 1 ''1234'' = Inr w" by (auto simp: is_digit_def)
  moreover have "w = \<lparr>us_id = 1, us_is_active = True, us_worker_pin = Some ''$1234''\<rparr>"
    using calculation d(1)
    by (simp add: get_worker_and_verify_pin_def example_lib_def example_admin_env_def example_accounts_def
        example_admin_def with_user_def get_user_by_id_def put_user_def user.truncate_def is_digit_def)
  ultimately show ?thesis using d(1) by blast
qed

end
