(* ===== verification/Event_Hub.thy ===== *)
theory Event_Hub
  imports Accounts Daemon_Base "HOL-Library.AList"
begin

text \<open>
  The fan-out of gate events to the browsers: the connections of one API process
  (\<open>api/app/websocket/connection_manager.py\<close>), the listener on Redis pub/sub
  (\<open>api/app/websocket/broadcaster.py\<close>) and the endpoint with its replay
  (\<open>api/app/websocket/handlers.py\<close>).

  A socket is a number. The text of a message is the value it decodes to, \<open>None\<close> when it does not.
  The order in which a set of sockets is walked is that of its list; no socket can see it. Redis'
  XRANGE gives the entries above an identifier in order, as it documents; a call that fails ends a
  replay as an identifier it does not take.
\<close>

section \<open>Connections\<close>

record hub =
  hb_conns :: "(string \<times> nat list) list"
  hb_open :: "(string \<times> nat) list"
  hb_running :: bool
  hb_listening :: bool
  hb_sent :: "(nat \<times> json) list"

definition conns_of :: "hub \<Rightarrow> string \<Rightarrow> nat list" where
  "conns_of h gid = (case map_of (hb_conns h) gid of None \<Rightarrow> [] | Some ws \<Rightarrow> ws)"

text \<open>\<open>send_text\<close> raises when the socket is gone.\<close>

definition send_text :: "(nat \<Rightarrow> bool) \<Rightarrow> nat \<Rightarrow> json \<Rightarrow> hub \<Rightarrow> bool \<times> hub" where
  "send_text alive ws msg h =
     (if alive ws then (True, h\<lparr>hb_sent := hb_sent h @ [(ws, msg)]\<rparr>) else (False, h))"

definition hub_connect :: "string \<Rightarrow> nat \<Rightarrow> hub \<Rightarrow> hub" where
  "hub_connect gid ws h = h\<lparr>hb_conns := AList.update gid (List.insert ws (conns_of h gid)) (hb_conns h)\<rparr>"

definition hub_disconnect :: "string \<Rightarrow> nat \<Rightarrow> hub \<Rightarrow> hub" where
  "hub_disconnect gid ws h =
     (let rest = removeAll ws (conns_of h gid)
      in h\<lparr>hb_conns := (if rest = [] then AList.delete gid (hb_conns h)
                        else AList.update gid rest (hb_conns h))\<rparr>)"

text \<open>The first loop of \<open>send_to_gate\<close>: the sockets that raised.\<close>

fun send_each :: "(nat \<Rightarrow> bool) \<Rightarrow> json \<Rightarrow> nat list \<Rightarrow> hub \<Rightarrow> nat list \<times> hub" where
  "send_each alive msg [] h = ([], h)"
| "send_each alive msg (ws # rest) h =
     (let (ok, h) = send_text alive ws msg h; (dead, h) = send_each alive msg rest h
      in (if ok then dead else ws # dead, h))"

definition send_to_gate :: "(nat \<Rightarrow> bool) \<Rightarrow> string \<Rightarrow> json \<Rightarrow> hub \<Rightarrow> hub" where
  "send_to_gate alive gid msg h =
     (let (dead, h) = send_each alive msg (conns_of h gid) h in fold (hub_disconnect gid) dead h)"

definition hub_broadcast :: "(nat \<Rightarrow> bool) \<Rightarrow> json \<Rightarrow> hub \<Rightarrow> hub" where
  "hub_broadcast alive msg h = fold (\<lambda>gid. send_to_gate alive gid msg) (map fst (hb_conns h)) h"

definition get_connection_count :: "string option \<Rightarrow> hub \<Rightarrow> nat" where
  "get_connection_count gid h =
     (if truthy_str gid then length (conns_of h (the gid))
      else sum_list (map (length \<circ> snd) (hb_conns h)))"

section \<open>The listener\<close>

text \<open>\<open>channel.rsplit(".", 1)\<close>.\<close>

definition rsplit_dot :: "string \<Rightarrow> (string \<times> string) option" where
  "rsplit_dot s =
     (if CHR ''.'' \<in> set s
      then Some (rev (tl (dropWhile (\<lambda>c. c \<noteq> CHR ''.'') (rev s))), rev (takeWhile (\<lambda>c. c \<noteq> CHR ''.'') (rev s)))
      else None)"

definition broadcaster_message :: "(nat \<Rightarrow> bool) \<Rightarrow> string \<Rightarrow> json option \<Rightarrow> hub \<Rightarrow> hub" where
  "broadcaster_message alive channel payload h =
     (case rsplit_dot channel of
        None \<Rightarrow> h
      | Some (_, gid) \<Rightarrow>
          (case payload of None \<Rightarrow> h | Some v \<Rightarrow> send_to_gate alive gid v h))"

definition broadcaster_start :: "hub \<Rightarrow> hub" where
  "broadcaster_start h = (if hb_running h then h else h\<lparr>hb_running := True, hb_listening := True\<rparr>)"

definition broadcaster_stop :: "hub \<Rightarrow> hub" where
  "broadcaster_stop h = h\<lparr>hb_running := False, hb_listening := False\<rparr>"

text \<open>
  What the subscription yields: a message of the pattern, one of another type, or an error of the
  connection, which the listener logs before it ends.
\<close>

datatype pubsub_item = PMessage string "json option" | OtherItem | PubsubError

fun listen_item :: "(nat \<Rightarrow> bool) \<Rightarrow> pubsub_item \<Rightarrow> hub \<Rightarrow> hub" where
  "listen_item alive (PMessage channel payload) h =
     (if \<not> hb_listening h then h
      else if \<not> hb_running h then h\<lparr>hb_listening := False\<rparr>
      else broadcaster_message alive channel payload h)"
| "listen_item alive OtherItem h = (if hb_running h then h else h\<lparr>hb_listening := False\<rparr>)"
| "listen_item alive PubsubError h = h\<lparr>hb_listening := False\<rparr>"

section \<open>Replay\<close>

text \<open>Identifiers of a stream: milliseconds and sequence, 64 bits each; the second part may be left out.\<close>

type_synonym sid = "nat \<times> nat"

definition sid_less :: "sid \<Rightarrow> sid \<Rightarrow> bool" where
  "sid_less a b \<longleftrightarrow> fst a < fst b \<or> (fst a = fst b \<and> snd a < snd b)"

definition sid_part :: "string \<Rightarrow> nat option" where
  "sid_part s = (if s \<noteq> [] \<and> list_all is_digit s \<and> dec_val s < 2 ^ 64 then Some (dec_val s) else None)"

definition parse_sid :: "string \<Rightarrow> sid option" where
  "parse_sid s =
     (case split_once CHR ''-'' s of
        (a, None) \<Rightarrow> map_option (\<lambda>m. (m, 0)) (sid_part a)
      | (a, Some b) \<Rightarrow>
          (case (sid_part a, sid_part b) of (Some m, Some n) \<Rightarrow> Some (m, n) | _ \<Rightarrow> None))"

definition sid_text :: "sid \<Rightarrow> string" where
  "sid_text i = str_of_nat (fst i) @ CHR ''-'' # str_of_nat (snd i)"

text \<open>An entry: its identifier and its field \<open>event\<close>, missing, undecodable or a value.\<close>

type_synonym log_entry = "sid \<times> json option option"

definition xrange_after :: "string \<Rightarrow> log_entry list \<Rightarrow> log_entry list option" where
  "xrange_after since entries =
     (if since \<in> {[], ''0'', ''-''} then Some (take 500 entries)
      else case parse_sid since of
             None \<Rightarrow> None
           | Some x \<Rightarrow> Some (take 500 (filter (\<lambda>e. sid_less x (fst e)) entries)))"

text \<open>\<open>payload[key] = v\<close> on a dict.\<close>

fun set_key :: "string \<Rightarrow> 'v \<Rightarrow> (string \<times> 'v) list \<Rightarrow> (string \<times> 'v) list" where
  "set_key k v [] = [(k, v)]"
| "set_key k v ((k', v') # kvs) = (if k' = k then (k, v) # kvs else (k', v') # set_key k v kvs)"

text \<open>The loop; \<open>False\<close> when an exception ended it.\<close>

fun replay_loop :: "(nat \<Rightarrow> bool) \<Rightarrow> nat \<Rightarrow> log_entry list \<Rightarrow> hub \<Rightarrow> bool \<times> hub" where
  "replay_loop alive ws [] h = (True, h)"
| "replay_loop alive ws ((i, raw) # es) h =
     (case raw of
        None \<Rightarrow> replay_loop alive ws es h
      | Some None \<Rightarrow> replay_loop alive ws es h
      | Some (Some (JObj kvs)) \<Rightarrow>
          (case send_text alive ws (JObj (set_key ''_event_id'' (JStr (sid_text i)) kvs)) h of
             (True, h) \<Rightarrow> replay_loop alive ws es h
           | (False, h) \<Rightarrow> (False, h))
      | Some (Some _) \<Rightarrow> (False, h))"

definition replay_complete :: "nat \<Rightarrow> json" where
  "replay_complete n = JObj [(''type'', JStr ''replay_complete''), (''count'', JInt (int n))]"

definition replay_events :: "(nat \<Rightarrow> bool) \<Rightarrow> nat \<Rightarrow> string \<Rightarrow> log_entry list \<Rightarrow> hub \<Rightarrow> hub" where
  "replay_events alive ws since entries h =
     (case xrange_after since entries of
        None \<Rightarrow> h
      | Some es \<Rightarrow>
          (case replay_loop alive ws es h of
             (False, h) \<Rightarrow> h
           | (True, h) \<Rightarrow> snd (send_text alive ws (replay_complete (length es)) h)))"

section \<open>The endpoint\<close>

definition ws_join :: "lib \<Rightarrow> auth_times \<Rightarrow> cookies \<Rightarrow> account_db \<Rightarrow> string \<Rightarrow> nat \<Rightarrow> hub \<Rightarrow> hub" where
  "ws_join lib t cs s gid ws h =
     (case get_current_user lib t cs s of
        Inr (Some c) \<Rightarrow> (hub_connect gid ws h)\<lparr>hb_open := (gid, ws) # hb_open h\<rparr>
      | _ \<Rightarrow> h)"

definition ws_leave :: "string \<Rightarrow> nat \<Rightarrow> hub \<Rightarrow> hub" where
  "ws_leave gid ws h =
     (if (gid, ws) \<in> set (hb_open h)
      then (hub_disconnect gid ws h)\<lparr>hb_open := removeAll (gid, ws) (hb_open h)\<rparr> else h)"

definition ws_text ::
  "(json \<Rightarrow> string) \<Rightarrow> (nat \<Rightarrow> bool) \<Rightarrow> (string \<Rightarrow> log_entry list) \<Rightarrow> string \<Rightarrow> nat \<Rightarrow> json option \<Rightarrow> string \<Rightarrow> hub \<Rightarrow> hub" where
  "ws_text str alive logs gid ws parsed raw h =
     (if (gid, ws) \<notin> set (hb_open h) then h
      else
        let ack = (case send_text alive ws (JObj [(''type'', JStr ''ack''), (''data'', JStr raw)]) h of
                     (True, h) \<Rightarrow> h | (False, h) \<Rightarrow> ws_leave gid ws h)
        in case parsed of
             Some (JObj kvs) \<Rightarrow>
               if map_of kvs ''type'' = Some (JStr ''replay'')
               then replay_events alive ws
                      (json_text str (case map_of kvs ''since'' of None \<Rightarrow> JStr ''0'' | Some v \<Rightarrow> v)) (logs gid) h
               else ack
           | _ \<Rightarrow> ack)"

datatype hub_op =
    Join auth_times cookies account_db string nat
  | Say string nat "json option" string "string \<Rightarrow> log_entry list"
  | Leave string nat
  | Item pubsub_item
  | StartHub
  | StopHub

fun hub_step :: "lib \<Rightarrow> (json \<Rightarrow> string) \<Rightarrow> hub_op \<times> (nat \<Rightarrow> bool) \<Rightarrow> hub \<Rightarrow> hub" where
  "hub_step lib str (Join t cs s gid ws, alive) h = ws_join lib t cs s gid ws h"
| "hub_step lib str (Say gid ws parsed raw logs, alive) h = ws_text str alive logs gid ws parsed raw h"
| "hub_step lib str (Leave gid ws, alive) h = ws_leave gid ws h"
| "hub_step lib str (Item it, alive) h = listen_item alive it h"
| "hub_step lib str (StartHub, alive) h = broadcaster_start h"
| "hub_step lib str (StopHub, alive) h = broadcaster_stop h"

definition empty_hub :: hub where
  "empty_hub = \<lparr>hb_conns = [], hb_open = [], hb_running = False, hb_listening = False, hb_sent = []\<rparr>"

section \<open>The registry\<close>

text \<open>Every registered socket is open on its gate, no gate is registered twice or without sockets.\<close>

definition hub_ok :: "hub \<Rightarrow> bool" where
  "hub_ok h \<longleftrightarrow> distinct (map fst (hb_conns h)) \<and>
     (\<forall>g ws. (g, ws) \<in> set (hb_conns h) \<longrightarrow>
        ws \<noteq> [] \<and> distinct ws \<and> (\<forall>w \<in> set ws. (g, w) \<in> set (hb_open h)))"

lemma conns_of_connect:
  "conns_of (hub_connect gid ws h) g = (if g = gid then List.insert ws (conns_of h gid) else conns_of h g)"
  by (simp add: conns_of_def hub_connect_def update_conv')

lemma conns_of_disconnect:
  "conns_of (hub_disconnect gid ws h) g = (if g = gid then removeAll ws (conns_of h gid) else conns_of h g)"
  by (simp add: conns_of_def hub_disconnect_def Let_def update_conv' delete_conv')

lemma set_delete: "x \<in> set (AList.delete k xs) \<longleftrightarrow> x \<in> set xs \<and> fst x \<noteq> k"
  by (auto simp: AList.delete_eq)

lemma set_update: "distinct (map fst xs) \<Longrightarrow> (k', v') \<in> set (AList.update k v xs) \<longleftrightarrow>
    (k' = k \<and> v' = v) \<or> (k' \<noteq> k \<and> (k', v') \<in> set xs)"
  by (induction xs) (auto simp: image_iff)

lemma hub_okD: "\<lbrakk>hub_ok h; w \<in> set (conns_of h g)\<rbrakk> \<Longrightarrow> (g, w) \<in> set (hb_open h)"
  by (fastforce simp: hub_ok_def conns_of_def dest: map_of_SomeD split: option.splits)

lemma hub_ok_distinct: "hub_ok h \<Longrightarrow> distinct (conns_of h g)"
  by (fastforce simp: hub_ok_def conns_of_def dest: map_of_SomeD split: option.splits)

lemma hub_ok_disconnect: "hub_ok h \<Longrightarrow> hub_ok (hub_disconnect gid ws h)"
  using hub_ok_distinct[of h gid] hub_okD[of h _ gid]
  by (auto simp: hub_ok_def hub_disconnect_def Let_def set_delete set_update distinct_update distinct_delete
      distinct_removeAll)

lemma hub_ok_connect: "\<lbrakk>hub_ok h; (gid, ws) \<in> set (hb_open h)\<rbrakk> \<Longrightarrow> hub_ok (hub_connect gid ws h)"
  using hub_ok_distinct[of h gid] hub_okD[of h _ gid]
  by (auto simp: hub_ok_def hub_connect_def set_update distinct_update List.insert_def split: if_splits)

lemma hub_ok_cong:
  "\<lbrakk>hb_conns h' = hb_conns h; set (hb_open h) \<subseteq> set (hb_open h'); hub_ok h\<rbrakk> \<Longrightarrow> hub_ok h'"
  by (fastforce simp: hub_ok_def)

section \<open>Fan-out\<close>

lemma send_each_eq:
  "send_each alive msg ws h =
     (filter (\<lambda>w. \<not> alive w) ws, h\<lparr>hb_sent := hb_sent h @ map (\<lambda>w. (w, msg)) (filter alive ws)\<rparr>)"
  by (induction ws arbitrary: h) (simp_all add: send_text_def)

lemma disconnect_frame [simp]:
  "hb_sent (hub_disconnect gid ws h) = hb_sent h" "hb_open (hub_disconnect gid ws h) = hb_open h"
  "hb_running (hub_disconnect gid ws h) = hb_running h" "hb_listening (hub_disconnect gid ws h) = hb_listening h"
  by (simp_all add: hub_disconnect_def Let_def)

lemma fold_disconnect:
  "hb_sent (fold (hub_disconnect gid) dead h) = hb_sent h"
  "hb_open (fold (hub_disconnect gid) dead h) = hb_open h"
  "hb_running (fold (hub_disconnect gid) dead h) = hb_running h"
  "hb_listening (fold (hub_disconnect gid) dead h) = hb_listening h"
  "conns_of (fold (hub_disconnect gid) dead h) g =
     (if g = gid then filter (\<lambda>w. w \<notin> set dead) (conns_of h gid) else conns_of h g)"
  "hub_ok h \<Longrightarrow> hub_ok (fold (hub_disconnect gid) dead h)"
  by (induction dead arbitrary: h)
     (auto simp: conns_of_disconnect hub_ok_disconnect removeAll_filter_not_eq intro: filter_cong)

lemma send_to_gate_eq:
  "send_to_gate alive gid msg h =
     fold (hub_disconnect gid) (filter (\<lambda>w. \<not> alive w) (conns_of h gid))
       (h\<lparr>hb_sent := hb_sent h @ map (\<lambda>w. (w, msg)) (filter alive (conns_of h gid))\<rparr>)"
  by (simp add: send_to_gate_def send_each_eq)

lemma conns_of_sent [simp]: "conns_of (h\<lparr>hb_sent := x\<rparr>) g = conns_of h g"
  by (simp add: conns_of_def)

text \<open>
  A message for a gate goes once to every live socket of the gate and to no other, and exactly
  the sockets that are gone leave the registry, which stays well formed.
\<close>

theorem fanout_exact:
  assumes "hub_ok h"
  shows "hb_sent (send_to_gate alive gid msg h) = hb_sent h @ map (\<lambda>w. (w, msg)) (filter alive (conns_of h gid)) \<and>
    distinct (filter alive (conns_of h gid)) \<and>
    conns_of (send_to_gate alive gid msg h) gid = filter alive (conns_of h gid) \<and>
    (\<forall>g. g \<noteq> gid \<longrightarrow> conns_of (send_to_gate alive gid msg h) g = conns_of h g) \<and>
    hub_ok (send_to_gate alive gid msg h)"
proof -
  have ok: "hub_ok (h\<lparr>hb_sent := x\<rparr>)" for x by (rule hub_ok_cong[OF _ _ assms]) simp_all
  have "filter (\<lambda>w. w \<notin> set (filter (\<lambda>w. \<not> alive w) ws)) ws = filter alive ws" for ws
    by (rule filter_cong) auto
  with ok hub_ok_distinct[OF assms] show ?thesis
    by (simp add: send_to_gate_eq fold_disconnect)
qed

section \<open>Replay\<close>

lemma sid_part_digits: "n < 2 ^ 64 \<Longrightarrow> sid_part (str_of_nat n) = Some n"
  by (simp add: sid_part_def str_of_nat_digits)

lemma parse_sid_text:
  assumes "fst i < 2 ^ 64" "snd i < 2 ^ 64"
  shows "parse_sid (sid_text i) = Some i"
proof -
  have "list_all is_digit t \<Longrightarrow> takeWhile (\<lambda>c. c \<noteq> CHR ''-'') (t @ CHR ''-'' # r) = t \<and>
      dropWhile (\<lambda>c. c \<noteq> CHR ''-'') (t @ CHR ''-'' # r) = CHR ''-'' # r" for t r
    by (induction t) (auto simp: is_digit_def)
  from this[OF str_of_nat_digits[of "fst i"]] show ?thesis
    using assms by (simp add: parse_sid_def sid_text_def split_once_def Let_def sid_part_digits)
qed

text \<open>What a socket gets for an entry: nothing for one that does not decode.\<close>

fun replayed :: "log_entry \<Rightarrow> json option" where
  "replayed (i, Some (Some (JObj kvs))) = Some (JObj (set_key ''_event_id'' (JStr (sid_text i)) kvs))"
| "replayed _ = None"

definition replayable :: "log_entry \<Rightarrow> bool" where
  "replayable e \<longleftrightarrow> (case snd e of Some (Some v) \<Rightarrow> (case v of JObj kvs \<Rightarrow> True | _ \<Rightarrow> False) | _ \<Rightarrow> True)"

lemma replay_loop_eq:
  "\<lbrakk>alive ws; list_all replayable es\<rbrakk> \<Longrightarrow> replay_loop alive ws es h =
     (True, h\<lparr>hb_sent := hb_sent h @ map (Pair ws) (List.map_filter replayed es)\<rparr>)"
proof (induction es arbitrary: h)
  case (Cons e es)
  then show ?case
    by (cases e rule: replayed.cases) (simp_all add: replayable_def send_text_def map_filter_simps)
qed simp

text \<open>
  A client that asks for what it missed since an identifier gets exactly the events of the log
  after it, in order and up to 500, each with its identifier, and then the end mark.
\<close>

theorem replay_exact:
  assumes "alive ws" "list_all replayable entries" "fst x < 2 ^ 64" "snd x < 2 ^ 64"
  shows "hb_sent (replay_events alive ws (sid_text x) entries h) =
    hb_sent h @ map (Pair ws) (List.map_filter replayed (take 500 (filter (\<lambda>e. sid_less x (fst e)) entries)) @
      [replay_complete (length (take 500 (filter (\<lambda>e. sid_less x (fst e)) entries)))])"
proof -
  let ?es = "take 500 (filter (\<lambda>e. sid_less x (fst e)) entries)"
  have "sid_text x \<notin> {[], ''0'', ''-''}"
  proof -
    have "CHR ''-'' \<in> set (sid_text x)" "2 \<le> length (sid_text x)"
      using str_of_nat_nonempty[of "fst x"] by (cases "str_of_nat (fst x)"; simp add: sid_text_def)+
    then show ?thesis by auto
  qed
  then have range: "xrange_after (sid_text x) entries = Some ?es"
    using parse_sid_text[OF assms(3,4)] by (simp add: xrange_after_def)
  have "list_all replayable ?es"
    using assms(2) by (auto simp: list_all_iff dest: in_set_takeD)
  with range assms(1) show ?thesis
    by (simp add: replay_events_def replay_loop_eq send_text_def)
qed

section \<open>Who gets what\<close>

text \<open>What a socket of gate \<open>gid\<close> may be sent after the operations \<open>ops\<close>.\<close>

definition fanned_out :: "(hub_op \<times> (nat \<Rightarrow> bool)) list \<Rightarrow> string \<Rightarrow> json \<Rightarrow> bool" where
  "fanned_out ops gid m \<longleftrightarrow>
     (\<exists>channel pre alive. (Item (PMessage channel (Some m)), alive) \<in> set ops \<and> rsplit_dot channel = Some (pre, gid))"

definition answered :: "(hub_op \<times> (nat \<Rightarrow> bool)) list \<Rightarrow> string \<Rightarrow> nat \<Rightarrow> json \<Rightarrow> bool" where
  "answered ops gid ws m \<longleftrightarrow>
     (\<exists>parsed raw logs alive. (Say gid ws parsed raw logs, alive) \<in> set ops \<and>
        (m = JObj [(''type'', JStr ''ack''), (''data'', JStr raw)] \<or> (\<exists>n. m = replay_complete n) \<or>
         (\<exists>e \<in> set (logs gid). replayed e = Some m)))"

definition joined :: "lib \<Rightarrow> (hub_op \<times> (nat \<Rightarrow> bool)) list \<Rightarrow> string \<Rightarrow> nat \<Rightarrow> bool" where
  "joined lib ops gid ws \<longleftrightarrow>
     (\<exists>t cs s c alive. (Join t cs s gid ws, alive) \<in> set ops \<and> get_current_user lib t cs s = Inr (Some c))"

text \<open>The invariant of a run.\<close>

definition hub_inv :: "lib \<Rightarrow> (hub_op \<times> (nat \<Rightarrow> bool)) list \<Rightarrow> hub \<Rightarrow> bool" where
  "hub_inv lib ops h \<longleftrightarrow> hub_ok h \<and> (\<forall>(gid, ws) \<in> set (hb_open h). joined lib ops gid ws) \<and>
     (\<forall>(ws, m) \<in> set (hb_sent h). \<exists>gid. joined lib ops gid ws \<and> (fanned_out ops gid m \<or> answered ops gid ws m))"

lemma hub_inv_more: "hub_inv lib ops h \<Longrightarrow> hub_inv lib (ops @ qs) h"
  unfolding hub_inv_def joined_def fanned_out_def answered_def by fastforce

lemma hub_inv_disconnect: "hub_inv lib ops h \<Longrightarrow> hub_inv lib ops (hub_disconnect gid ws h)"
  by (simp add: hub_inv_def hub_ok_disconnect)

lemma hub_inv_send:
  assumes "hub_inv lib ops h" "joined lib ops gid ws" "answered ops gid ws m" "send_text alive ws m h = (b, h')"
  shows "hub_inv lib ops h' \<and> hb_open h' = hb_open h"
  using assms hub_ok_cong[of h' h]
  by (auto simp: hub_inv_def send_text_def split: if_splits)

lemma hub_inv_leave:
  assumes "hub_inv lib ops h"
  shows "hub_inv lib ops (ws_leave gid ws h)"
proof (cases "(gid, ws) \<in> set (hb_open h)")
  case True
  have mem: "w \<noteq> ws" if "(gid, v) \<in> set (hb_conns (hub_disconnect gid ws h))" "w \<in> set v" for v w
    using that assms by (auto simp: hub_inv_def hub_ok_def hub_disconnect_def Let_def set_delete set_update split: if_splits)
  have ok: "hub_ok (hub_disconnect gid ws h)" using assms by (simp add: hub_inv_def hub_ok_disconnect)
  have "hub_ok ((hub_disconnect gid ws h)\<lparr>hb_open := removeAll (gid, ws) (hb_open h)\<rparr>)"
    using ok mem by (auto simp: hub_ok_def)
  with True assms show ?thesis by (auto simp: ws_leave_def hub_inv_def)
qed (use assms in \<open>simp add: ws_leave_def\<close>)

lemma hub_inv_join:
  assumes "hub_inv lib ops h" "\<And>c. get_current_user lib t cs s = Inr (Some c) \<Longrightarrow> joined lib ops gid ws"
  shows "hub_inv lib ops (ws_join lib t cs s gid ws h)"
proof (cases "\<exists>c. get_current_user lib t cs s = Inr (Some c)")
  case True
  then obtain c where c: "get_current_user lib t cs s = Inr (Some c)" ..
  let ?h = "h\<lparr>hb_open := (gid, ws) # hb_open h\<rparr>"
  have "hub_ok ?h" by (rule hub_ok_cong[of _ h]) (use assms(1) in \<open>auto simp: hub_inv_def\<close>)
  then have "hub_ok (hub_connect gid ws ?h)" by (rule hub_ok_connect) simp
  moreover have "(hub_connect gid ws h)\<lparr>hb_open := (gid, ws) # hb_open h\<rparr> = hub_connect gid ws ?h"
    by (simp add: hub_connect_def conns_of_def)
  ultimately show ?thesis
    using assms c by (auto simp: ws_join_def hub_inv_def hub_connect_def)
qed (use assms(1) in \<open>auto simp: ws_join_def split: sum.splits option.splits\<close>)

lemma hub_inv_fanout:
  assumes "hub_inv lib ops h" "fanned_out ops gid m"
  shows "hub_inv lib ops (send_to_gate alive gid m h)"
proof -
  have "hub_ok (h\<lparr>hb_sent := x\<rparr>)" for x
    by (rule hub_ok_cong[of _ h]) (use assms(1) in \<open>auto simp: hub_inv_def\<close>)
  moreover have "joined lib ops gid w" if "w \<in> set (conns_of h gid)" for w
    using hub_okD[OF _ that] assms(1) by (auto simp: hub_inv_def)
  ultimately show ?thesis
    using assms by (auto simp: hub_inv_def send_to_gate_eq fold_disconnect)
qed

lemma hub_inv_replay_loop:
  assumes "joined lib ops gid ws" "\<And>e m. \<lbrakk>e \<in> set es; replayed e = Some m\<rbrakk> \<Longrightarrow> answered ops gid ws m"
  shows "hub_inv lib ops h \<Longrightarrow> hub_inv lib ops (snd (replay_loop alive ws es h))"
  using assms(2)
proof (induction es arbitrary: h)
  case (Cons e es)
  have IH: "hub_inv lib ops (snd (replay_loop alive ws es h'))" if "hub_inv lib ops h'" for h'
    by (rule Cons.IH[OF that]) (use Cons.prems(2) in auto)
  show ?case
  proof (cases e rule: replayed.cases)
    case (1 i kvs)
    then have "answered ops gid ws (JObj (set_key ''_event_id'' (JStr (sid_text i)) kvs))"
      by (intro Cons.prems(2)[of e]) auto
    note sent = hub_inv_send[OF Cons.prems(1) assms(1) this]
    show ?thesis
      using 1 sent[of alive] IH by (cases "send_text alive ws (JObj (set_key ''_event_id'' (JStr (sid_text i)) kvs)) h")
        (auto split: bool.splits)
  qed (use Cons.prems(1) IH in simp_all)
qed simp

lemma xrange_sub: "xrange_after since entries = Some es \<Longrightarrow> set es \<subseteq> set entries"
  by (auto simp: xrange_after_def split: if_splits option.splits dest: in_set_takeD)

lemma hub_inv_say:
  assumes "hub_inv lib ops h" "(Say gid ws parsed raw logs, alive) \<in> set ops"
  shows "hub_inv lib ops (ws_text str alive logs gid ws parsed raw h)"
proof (cases "(gid, ws) \<in> set (hb_open h)")
  case True
  with assms(1) have j: "joined lib ops gid ws" by (auto simp: hub_inv_def)
  have ack: "answered ops gid ws (JObj [(''type'', JStr ''ack''), (''data'', JStr raw)])"
    and fin: "answered ops gid ws (replay_complete n)" for n
    using assms(2) unfolding answered_def by blast+
  have ev: "answered ops gid ws m" if "e \<in> set (logs gid)" "replayed e = Some m" for e m
    using assms(2) that unfolding answered_def by blast
  have "hub_inv lib ops (replay_events alive ws since (logs gid) h)" for since
  proof (cases "xrange_after since (logs gid)")
    case (Some es)
    have "hub_inv lib ops (snd (replay_loop alive ws es h))"
      by (rule hub_inv_replay_loop[OF j _ assms(1)]) (use ev xrange_sub[OF Some] in blast)
    with Some hub_inv_send[OF _ j fin prod.collapse[symmetric]] show ?thesis
      by (cases "replay_loop alive ws es h") (auto simp: replay_events_def split: bool.splits)
  qed (use assms(1) in \<open>simp add: replay_events_def\<close>)
  moreover have "hub_inv lib ops (case send_text alive ws (JObj [(''type'', JStr ''ack''), (''data'', JStr raw)]) h of
      (True, h) \<Rightarrow> h | (False, h) \<Rightarrow> ws_leave gid ws h)"
    using hub_inv_send[OF assms(1) j ack] hub_inv_leave by (auto split: prod.splits bool.splits)
  ultimately show ?thesis using True by (auto simp: ws_text_def Let_def split: option.splits json.splits)
qed (use assms(1) in \<open>simp add: ws_text_def\<close>)

lemma hub_inv_cong:
  "\<lbrakk>hub_inv lib ops h; hb_conns h' = hb_conns h; hb_open h' = hb_open h; hb_sent h' = hb_sent h\<rbrakk> \<Longrightarrow> hub_inv lib ops h'"
  by (simp add: hub_inv_def hub_ok_def)

lemma hub_inv_step:
  assumes "hub_inv lib ops h" "q \<in> set ops"
  shows "hub_inv lib ops (hub_step lib str q h)"
proof (cases "(lib, str, q, h)" rule: hub_step.cases)
  case (1 lib' str' t cs s gid ws alive h')
  have "joined lib ops gid ws" if "get_current_user lib t cs s = Inr (Some c)" for c
    using that assms(2) 1 unfolding joined_def by blast
  with 1 assms(1) hub_inv_join[of lib ops h t cs s gid ws] show ?thesis by simp
next
  case (2 lib' str' gid ws parsed raw logs alive h')
  then show ?thesis using assms hub_inv_say by auto
next
  case (4 lib' str' it alive h')
  show ?thesis
  proof (cases it)
    case (PMessage channel payload)
    show ?thesis
    proof (cases "payload = None \<or> rsplit_dot channel = None")
      case True
      with 4 PMessage assms(1) show ?thesis
        by (auto simp: broadcaster_message_def split: option.splits intro: hub_inv_cong)
    next
      case False
      then obtain v pre gid where "payload = Some v" "rsplit_dot channel = Some (pre, gid)" by auto
      moreover have "fanned_out ops gid v" unfolding fanned_out_def using calculation 4 PMessage assms(2) by blast
      ultimately show ?thesis
        using 4 PMessage assms(1) hub_inv_fanout
        by (auto simp: broadcaster_message_def intro: hub_inv_cong)
    qed
  qed (use 4 assms(1) in \<open>auto intro: hub_inv_cong\<close>)
qed (use assms(1) hub_inv_leave in \<open>auto simp: broadcaster_start_def broadcaster_stop_def intro: hub_inv_cong\<close>)

lemma hub_inv_run:
  assumes "hub_inv lib ops h" "set qs \<subseteq> set ops"
  shows "hub_inv lib ops (fold (hub_step lib str) qs h)"
  using assms by (induction qs arbitrary: h) (simp_all add: hub_inv_step)


section \<open>The life of the listener\<close>

text \<open>
  C41. An error of the subscription ends the fan-out of the process for good: \<open>_running\<close> stays set,
  so that starting the broadcaster again does nothing.
\<close>

theorem fanout_ends:
  assumes "hb_running h" "\<forall>(q, alive) \<in> set ops. q = StartHub \<or> (\<exists>it. q = Item it)"
  shows "hb_sent (fold (hub_step lib str) ops (listen_item alive PubsubError h)) = hb_sent h"
proof -
  have "hb_sent (fold (hub_step lib str) ops h') = hb_sent h'" if "hb_running h'" "\<not> hb_listening h'" for h'
    using assms(2) that
  proof (induction ops arbitrary: h')
    case (Cons x ops)
    obtain q al where x: "x = (q, al)" by fastforce
    have "hb_running (hub_step lib str x h') \<and> \<not> hb_listening (hub_step lib str x h') \<and>
        hb_sent (hub_step lib str x h') = hb_sent h'"
    proof (cases "q = StartHub")
      case False
      with Cons.prems x obtain it where "q = Item it" by auto
      with Cons.prems x show ?thesis by (cases it) simp_all
    qed (use Cons.prems x in \<open>simp add: broadcaster_start_def\<close>)
    with Cons show ?case by simp
  qed simp
  from this[of "listen_item alive PubsubError h"] assms(1) show ?thesis by simp
qed

section \<open>Live and replayed\<close>

lemma set_key_new: "k \<notin> fst ` set kvs \<Longrightarrow> set_key k v kvs = kvs @ [(k, v)]"
  by (induction kvs) (auto simp: image_iff)

lemma rsplit_channel: "CHR ''.'' \<notin> set gid \<Longrightarrow> rsplit_dot (''parking.events.'' @ gid) = Some (''parking.events'', gid)"
proof -
  assume no: "CHR ''.'' \<notin> set gid"
  then have "takeWhile (\<lambda>c. c \<noteq> CHR ''.'') (rev gid @ CHR ''.'' # r) = rev gid \<and>
      dropWhile (\<lambda>c. c \<noteq> CHR ''.'') (rev gid @ CHR ''.'' # r) = CHR ''.'' # r" for r
    by (simp add: takeWhile_append dropWhile_append)
  from this[of "rev ''parking.events''"] show ?thesis by (simp add: rsplit_dot_def)
qed

lemma replay_sends:
  assumes "alive ws" "list_all replayable (older @ e # newer)" "fst x < 2 ^ 64" "snd x < 2 ^ 64"
    and "sid_less x (fst e)" "length (filter (\<lambda>e. sid_less x (fst e)) older) < 500" "replayed e = Some m"
  shows "\<exists>sent. hb_sent (replay_events alive ws (sid_text x) (older @ e # newer) h) = hb_sent h @ sent \<and>
    (ws, m) \<in> set sent"
proof -
  let ?f = "filter (\<lambda>e. sid_less x (fst e))"
  have "take 500 (?f (older @ e # newer)) = ?f older @ e # take (499 - length (?f older)) (?f newer)"
    using assms(5,6) by (simp add: take_Cons')
  then have "e \<in> set (take 500 (?f (older @ e # newer)))" by simp
  then have "m \<in> set (List.map_filter replayed (take 500 (?f (older @ e # newer))))"
    using assms(7) by (force simp: map_filter_def)
  then show ?thesis by (simp add: replay_exact[of alive, OF assms(1-4)])
qed


definition example_hub :: hub where
  "example_hub = \<lparr>hb_conns = [(''1'', [7, 8])], hb_open = [(''1'', 7), (''1'', 8)], hb_running = True,
     hb_listening = True, hb_sent = []\<rparr>"

lemma example_hub_ok: "hub_ok example_hub"
  by (auto simp: hub_ok_def example_hub_def)

lemma example_conns: "conns_of example_hub ''1'' = [7, 8]"
  by (simp add: conns_of_def example_hub_def)

definition example_alive :: "nat \<Rightarrow> bool" where
  "example_alive w \<longleftrightarrow> w = 7"

theorem fanout_exact_witness:
  "hb_sent (send_to_gate example_alive ''1'' JNull example_hub) = [(7, JNull)] \<and>
   conns_of (send_to_gate example_alive ''1'' JNull example_hub) ''1'' = [7]"
  using fanout_exact[OF example_hub_ok, of example_alive "''1''" JNull]
  by (simp add: example_conns example_alive_def) (simp add: example_hub_def)

theorem replay_exact_witness:
  "hb_sent (replay_events example_alive 7 (sid_text (1, 0))
     [((1, 0), Some (Some (JObj []))), ((2, 0), Some None), ((3, 1), Some (Some (JObj [])))] example_hub) =
   [(7, JObj [(''_event_id'', JStr (sid_text (3, 1)))]), (7, replay_complete (Suc (Suc 0)))]"
  using replay_exact[of example_alive 7
      "[((1, 0), Some (Some (JObj []))), ((2, 0), Some None), ((3, 1), Some (Some (JObj [])))]" "(1, 0)" example_hub]
  by (simp add: example_alive_def replayable_def sid_less_def map_filter_simps) (simp add: example_hub_def)

definition accept_all :: lib where
  "accept_all = \<lparr>lb_encode = (\<lambda>c. ''t''),
     lb_decode = (\<lambda>now t. Some \<lparr>cl_sub = Some ''1'', cl_username = None, cl_role = None,
       cl_type = Some ''access'', cl_jti = None, cl_exp = None\<rparr>),
     lb_hashpw = (\<lambda>salt p. p), lb_checkpw = (\<lambda>p h. p = h), lb_sha256 = id\<rparr>"

theorem fanout_ends_witness:
  "hb_sent (fold (hub_step accept_all (\<lambda>v. [])) [(StartHub, example_alive), (Item (PMessage ''parking.events.1'' (Some JNull)), example_alive)]
     (listen_item example_alive PubsubError example_hub)) = hb_sent example_hub"
  by (rule fanout_ends) (simp_all add: example_hub_def)

definition example_ops :: "(hub_op \<times> (nat \<Rightarrow> bool)) list" where
  "example_ops =
     (let t = \<lparr>ti_decode = 5, ti_check = 5, ti_revoke = 5\<rparr>;
          s = \<lparr>au_users = [], au_next_id = 1, au_denied = Map.empty, au_redis_up = True\<rparr>
      in [(Join t [ACCESS_COOKIE_NAME \<mapsto> ''t''] s ''1'' 7, \<lambda>w. True), (Join t Map.empty s ''1'' 8, \<lambda>w. True),
          (StartHub, \<lambda>w. True), (Item (PMessage ''parking.events.1'' (Some JNull)), \<lambda>w. True)])"



end
