(* ===== verification/Print_Jobs.thy ===== *)
theory Print_Jobs
  imports Payments Controller
begin

text \<open>
  Printing: the jobs of the critical worker (\<open>workers/critical/print_worker.py\<close>) and the printers
  with their paper counters (\<open>api/app/routes/printers.py\<close>).

  The devices answer as the record \<open>device_io\<close> says; python-escpos is such a device. The em dash of a
  message is written as a hyphen, HOL's characters being bytes.
\<close>

section \<open>Printers\<close>

record printer =
  pr_id :: int
  pr_gate_id :: string
  pr_gate_type :: string
  pr_name :: string
  pr_mode :: string
  pr_ip_address :: "string option"
  pr_port :: "int option"
  pr_serial_device :: "string option"
  pr_baudrate :: int
  pr_paper_remaining :: int
  pr_paper_capacity :: int
  pr_last_refilled_at :: "time option"
  pr_is_active :: bool

record print_settings =
  pt_counter_enabled :: bool
  pt_warning :: int
  pt_critical :: int
  pt_mock :: bool

text \<open>The printers and gates, what reached a device, the files of the mock, the alerts published.\<close>

record print_world =
  pw_printers :: "printer list"
  pw_next_printer :: int
  pw_gates :: "gate list"
  pw_paper :: "bytes list"
  pw_files :: "bytes list"
  pw_alerts :: "(string \<times> string) list"

definition put_printer :: "printer \<Rightarrow> print_world \<Rightarrow> print_world" where
  "put_printer p w = w\<lparr>pw_printers := map (\<lambda>q. if pr_id q = pr_id p then p else q) (pw_printers w)\<rparr>"

definition get_printer :: "int \<Rightarrow> print_world \<Rightarrow> printer option" where
  "get_printer i w = find (\<lambda>p. pr_id p = i) (pw_printers w)"

section \<open>The paper counter\<close>

text \<open>\<open>ok\<close>: the database answers. The check fails open.\<close>

definition check_paper_available :: "print_settings \<Rightarrow> bool \<Rightarrow> string \<Rightarrow> print_world \<Rightarrow> bool \<times> int option" where
  "check_paper_available st ok gid w =
     (if \<not> pt_counter_enabled st then (True, None)
      else if \<not> ok then (True, None)
      else case scalar_one_or_none (filter (\<lambda>p. pr_gate_id p = gid \<and> pr_is_active p) (pw_printers w)) of
             Inl e \<Rightarrow> (True, None)
           | Inr None \<Rightarrow> (True, None)
           | Inr (Some p) \<Rightarrow>
               if pr_paper_remaining p \<le> 0 then (False, Some (pr_id p)) else (True, Some (pr_id p)))"

definition decrement_paper_counter :: "print_settings \<Rightarrow> bool \<Rightarrow> int option \<Rightarrow> print_world \<Rightarrow> print_world" where
  "decrement_paper_counter st ok pid w =
     (if \<not> pt_counter_enabled st \<or> pid = None then w
      else if \<not> ok then w
      else case get_printer (the pid) w of
             None \<Rightarrow> w
           | Some p \<Rightarrow>
               if 0 < pr_paper_remaining p
               then put_printer (p\<lparr>pr_paper_remaining := pr_paper_remaining p - 1\<rparr>) w else w)"

section \<open>ESC/POS\<close>

definition build_escpos_ticket :: "string \<Rightarrow> string \<Rightarrow> string \<Rightarrow> string \<Rightarrow> string \<Rightarrow> py_exc + bytes" where
  "build_escpos_ticket barcode gname location_name additional_info timestamp =
     (if 255 < length barcode then Inl (ValueError ''bytes must be in range(0, 256)'')
      else Inr (concat
        [[0x1B, 0x61, 0x01],
         encode (''TIKET PARKIR'' @ [CHR 0x0A]),
         [0x1B, 0x21, 0x10],
         encode (location_name @ [CHR 0x0A, CHR 0x0A]),
         [0x1B, 0x21, 0x00],
         [0x1B, 0x61, 0x00],
         encode (''GATE         : '' @ gname @ [CHR 0x0A]),
         encode (''TANGGAL      : '' @ timestamp @ [CHR 0x0A]),
         [0x1B, 0x61, 0x01],
         [0x1D, 0x68, 0x64],
         [0x1D, 0x48, 0x02],
         [0x1D, 0x6B, 0x45],
         word_of_nat (length barcode) # encode barcode @ [0x00],
         encode (CHR 0x0A # additional_info @ [CHR 0x0A]),
         [0x1D, 0x56, 0x41]]))"

text \<open>\<open>f"{v:,}"\<close>: digits in groups of three; only a number takes the format.\<close>

fun group_rev :: "string \<Rightarrow> string" where
  "group_rev (a # b # c # d # rest) = a # b # c # CHR '','' # group_rev (d # rest)"
| "group_rev s = s"

definition thousands :: "int \<Rightarrow> string" where
  "thousands i = (if i < 0 then [CHR ''-''] else []) @ rev (group_rev (rev (str_of_nat (nat \<bar>i\<bar>))))"

fun format_total :: "json \<Rightarrow> py_exc + string" where
  "format_total (JInt i) = Inr (thousands i)"
| "format_total (JBool b) = Inr (if b then ''1'' else ''0'')"
| "format_total (JStr s) = Inl (ValueError ''Cannot specify , with s.'')"
| "format_total (JIso t) = Inl (ValueError ''Cannot specify , with s.'')"
| "format_total _ = Inl TypeError"

text \<open>\<open>transaction_data\<close> is the dict of the job; \<open>other\<close> as in \<open>json_text\<close>.\<close>

definition receipt_lines :: "(json \<Rightarrow> string) \<Rightarrow> (string \<times> json) list \<Rightarrow> string \<Rightarrow> string \<Rightarrow> bytes list" where
  "receipt_lines other kvs location_name total_fee =
     (let get = (\<lambda>k. json_text other (case map_of kvs k of None \<Rightarrow> JStr [] | Some v \<Rightarrow> v));
          field = (\<lambda>label k. encode (label @ get k @ [CHR 0x0A]))
      in [[0x1B, 0x61, 0x01],
          encode (''STRUK PARKIR'' @ [CHR 0x0A]),
          [0x1B, 0x21, 0x10],
          encode (location_name @ [CHR 0x0A, CHR 0x0A]),
          [0x1B, 0x21, 0x00],
          [0x1B, 0x61, 0x00],
          field ''GATE         : '' ''gate_name'',
          field ''TANGGAL      : '' ''date'',
          field ''JAM MASUK    : '' ''time_in'',
          field ''JAM KELUAR   : '' ''time_out'',
          field ''DURASI       : '' ''duration'',
          field ''JENIS        : '' ''vehicle_type'',
          field ''METODE       : '' ''payment_method'',
          [0x1B, 0x61, 0x01],
          encode (''TOTAL        : Rp '' @ total_fee @ [CHR 0x0A, CHR 0x0A]),
          encode (get ''additional_info'' @ [CHR 0x0A]),
          [0x1D, 0x56, 0x41]])"

definition build_escpos_receipt :: "(json \<Rightarrow> string) \<Rightarrow> json \<Rightarrow> string \<Rightarrow> py_exc + bytes" where
  "build_escpos_receipt other data location_name =
     (case data of
        JObj kvs \<Rightarrow>
          (case format_total (case map_of kvs ''total_fee'' of None \<Rightarrow> JInt 0 | Some v \<Rightarrow> v) of
             Inl e \<Rightarrow> Inl e
           | Inr total_fee \<Rightarrow> Inr (concat (receipt_lines other kvs location_name total_fee)))
      | _ \<Rightarrow> Inl AttributeError)"

section \<open>The printer's configuration\<close>

type_synonym dict = "(string \<times> json) list"

definition get_print_config :: "bool \<Rightarrow> string \<Rightarrow> string \<Rightarrow> print_world \<Rightarrow> dict" where
  "get_print_config ok gid gtype w =
     (let fallback = [(''mode'', JStr ''CONTROLLER_PASSTHROUGH'')]
      in if \<not> ok then fallback
         else case (scalar_one_or_none (filter (\<lambda>p. pr_gate_id p = gid \<and> pr_gate_type p = gtype \<and> pr_is_active p)
                      (pw_printers w)),
                    scalar_one_or_none (filter (\<lambda>g. gate_code g = gid) (pw_gates w))) of
                (Inr p, Inr g) \<Rightarrow>
                  if p = None \<or> pr_mode (the p) = ''CONTROLLER_PASSTHROUGH''
                  then fallback @
                    (case g of None \<Rightarrow> []
                     | Some g \<Rightarrow> [(''protocol'', JStr (gate_protocol g)),
                                  (''controller_host'', jstr_opt (gate_controller_host g)),
                                  (''controller_port'', jint_opt (gate_controller_port g))])
                  else if pr_mode (the p) = ''NETWORK''
                  then [(''mode'', JStr ''NETWORK''), (''printer_ip_address'', jstr_opt (pr_ip_address (the p))),
                        (''printer_port'', JInt (case pr_port (the p) of None \<Rightarrow> 9100 | Some n \<Rightarrow> int_or n 9100))]
                  else if pr_mode (the p) = ''SERIAL''
                  then [(''mode'', JStr ''SERIAL''), (''printer_device'', jstr_opt (pr_serial_device (the p))),
                        (''baudrate'', JInt (pr_baudrate (the p)))]
                  else [(''mode'', JStr (pr_mode (the p)))]
              | _ \<Rightarrow> fallback)"

section \<open>Devices\<close>

text \<open>
  What a device does: whether the controller's socket connects and sends; whether python-escpos can
  be imported, opens the printer, sends, and closes it.
\<close>

record device_io =
  di_connect :: bool
  di_send :: bool
  di_escpos :: bool
  di_open :: bool
  di_raw :: bool
  di_close :: bool

definition dict_key :: "dict \<Rightarrow> string \<Rightarrow> py_exc + json" where
  "dict_key cfg k = (case map_of cfg k of None \<Rightarrow> Inl (KeyError k) | Some v \<Rightarrow> Inr v)"

text \<open>The second component is what was sent.\<close>

definition print_via_controller :: "bytes \<Rightarrow> dict \<Rightarrow> device_io \<Rightarrow> (py_exc + unit) \<times> bytes list" where
  "print_via_controller escpos_data cfg d =
     (case (dict_key cfg ''controller_host'', dict_key cfg ''controller_port'') of
        (Inl e, _) \<Rightarrow> (Inl e, [])
      | (Inr _, Inl e) \<Rightarrow> (Inl e, [])
      | (Inr _, Inr _) \<Rightarrow>
          (let protocol = (case map_of cfg ''protocol'' of None \<Rightarrow> JStr ''compass'' | Some v \<Rightarrow> v)
           in if protocol = JStr ''compass''
              then (Inl (ImportError ''cannot import name cmd_pr4 from protocols.compass.protocol''), [])
              else if protocol = JStr ''enet''
              then case compass_connect (di_connect d) NoSock of
                     (Inl e, _) \<Rightarrow> (Inl e, [])
                   | (Inr _, sock) \<Rightarrow>
                       (case compass_send (di_send d) sock of
                          Inl e \<Rightarrow> (Inl e, [])
                        | Inr _ \<Rightarrow> (Inr (), [enet_cmd_pr4 escpos_data]))
              else (Inl (ValueError ''Controller passthrough not supported for protocol''), [])))"

text \<open>\<open>printer._raw(data); printer.close()\<close>, a failure closing the printer and raised again.\<close>

definition print_via_escpos :: "string \<Rightarrow> bytes \<Rightarrow> dict \<Rightarrow> device_io \<Rightarrow> (py_exc + unit) \<times> bytes list" where
  "print_via_escpos address escpos_data cfg d =
     (case dict_key cfg address of
        Inl e \<Rightarrow> (Inl e, [])
      | Inr _ \<Rightarrow>
          if \<not> di_escpos d then (Inl (ImportError ''python-escpos is required''), [])
          else if \<not> di_open d then (Inl OSError, [])
          else if \<not> di_raw d then (Inl OSError, [])
          else if \<not> di_close d then (Inl OSError, [escpos_data])
          else (Inr (), [escpos_data]))"

definition print_via_network :: "bytes \<Rightarrow> dict \<Rightarrow> device_io \<Rightarrow> (py_exc + unit) \<times> bytes list" where
  "print_via_network = print_via_escpos ''printer_ip_address''"

definition print_via_serial :: "bytes \<Rightarrow> dict \<Rightarrow> device_io \<Rightarrow> (py_exc + unit) \<times> bytes list" where
  "print_via_serial = print_via_escpos ''printer_device''"

definition print_to :: "json \<Rightarrow> bytes \<Rightarrow> dict \<Rightarrow> device_io \<Rightarrow> (py_exc + unit) \<times> bytes list" where
  "print_to mode escpos_data cfg d =
     (if mode = JStr ''CONTROLLER_PASSTHROUGH'' then print_via_controller escpos_data cfg d
      else if mode = JStr ''NETWORK'' then print_via_network escpos_data cfg d
      else if mode = JStr ''SERIAL'' then print_via_serial escpos_data cfg d
      else (Inl (ValueError ''Unknown print mode''), []))"

section \<open>The jobs\<close>

text \<open>
  One attempt of a job: its number and the queue's context (\<open>max_tries\<close>, which arq does not put there,
  and \<open>redis\<close>), the database at its three uses, the device, and whether publishing works.
\<close>

record attempt_env =
  at_try :: nat
  at_max_tries :: "nat option"
  at_has_redis :: bool
  at_db_config :: bool
  at_db_check :: bool
  at_db_count :: bool
  at_device :: device_io
  at_publish :: bool

datatype job_end = Retry nat | Raised py_exc | Finished string

type_synonym 'w print_run = "'w \<Rightarrow> job_end \<times> 'w"

definition retry_or_alert :: "attempt_env \<Rightarrow> string \<Rightarrow> string \<Rightarrow> print_world print_run" where
  "retry_or_alert a gid kind w =
     (let max_tries = (case at_max_tries a of None \<Rightarrow> 3 | Some n \<Rightarrow> n)
      in if at_try a < max_tries then (Retry (at_try a * 5), w)
         else (Finished ''failed'',
               if at_has_redis a \<and> at_publish a then w\<lparr>pw_alerts := pw_alerts w @ [(gid, kind)]\<rparr> else w))"

text \<open>What \<open>print_ticket\<close> and \<open>print_receipt\<close> share, from the mode to the retry.\<close>

definition deliver ::
  "print_settings \<Rightarrow> attempt_env \<Rightarrow> string \<Rightarrow> string \<Rightarrow> json \<Rightarrow> dict \<Rightarrow> int option \<Rightarrow> bytes \<Rightarrow> print_world print_run" where
  "deliver st a gid kind mode cfg pid escpos_data w =
     (if pt_mock st
      then (Finished ''success'',
            decrement_paper_counter st (at_db_count a) pid (w\<lparr>pw_files := pw_files w @ [escpos_data]\<rparr>))
      else case print_to mode escpos_data cfg (at_device a) of
             (r, sent) \<Rightarrow>
               (let w = w\<lparr>pw_paper := pw_paper w @ sent\<rparr>
                in case r of
                     Inl e \<Rightarrow> retry_or_alert a gid kind w
                   | Inr _ \<Rightarrow> (Finished ''success'', decrement_paper_counter st (at_db_count a) pid w)))"

definition config_or :: "dict option \<Rightarrow> bool \<Rightarrow> string \<Rightarrow> string \<Rightarrow> print_world \<Rightarrow> dict" where
  "config_or cfg ok gid gtype w =
     (case cfg of None \<Rightarrow> get_print_config ok gid gtype w
      | Some kvs \<Rightarrow> if kvs = [] then get_print_config ok gid gtype w else kvs)"

definition config_mode :: "dict \<Rightarrow> json" where
  "config_mode cfg = (case map_of cfg ''mode'' of None \<Rightarrow> JStr ''CONTROLLER_PASSTHROUGH'' | Some v \<Rightarrow> v)"

record ticket =
  tk_gate_id :: string
  tk_barcode :: string
  tk_gate_name :: string
  tk_location_name :: string
  tk_additional_info :: string
  tk_timestamp :: string

definition print_ticket :: "print_settings \<Rightarrow> ticket \<Rightarrow> dict option \<Rightarrow> attempt_env \<Rightarrow> print_world print_run" where
  "print_ticket st k cfg a w =
     (let cfg = config_or cfg (at_db_config a) (tk_gate_id k) ''IN'' w
      in case check_paper_available st (at_db_check a) (tk_gate_id k) w of
           (False, _) \<Rightarrow> (Finished ''skipped'', w)
         | (True, pid) \<Rightarrow>
             (case build_escpos_ticket (tk_barcode k) (tk_gate_name k) (tk_location_name k)
                     (tk_additional_info k) (tk_timestamp k) of
                Inl e \<Rightarrow> (Raised e, w)
              | Inr escpos_data \<Rightarrow> deliver st a (tk_gate_id k) ''ticket'' (config_mode cfg) cfg pid escpos_data w))"

definition print_receipt ::
  "(json \<Rightarrow> string) \<Rightarrow> print_settings \<Rightarrow> string \<Rightarrow> json \<Rightarrow> string \<Rightarrow> dict option \<Rightarrow> attempt_env \<Rightarrow> print_world print_run" where
  "print_receipt other st gid data location_name cfg a w =
     (let cfg = config_or cfg (at_db_config a) gid ''OUT'' w
      in case check_paper_available st (at_db_check a) gid w of
           (False, _) \<Rightarrow> (Finished ''skipped'', w)
         | (True, pid) \<Rightarrow>
             (case build_escpos_receipt other data location_name of
                Inl e \<Rightarrow> (Raised e, w)
              | Inr escpos_data \<Rightarrow> deliver st a gid ''receipt'' (config_mode cfg) cfg pid escpos_data w))"

text \<open>
  The worker's queue, with \<open>max_tries = 3\<close>: a job that raises \<open>Retry\<close> is run again as the next attempt,
  up to that many; any other exception ends it.
\<close>

fun run_attempts :: "(attempt_env \<Rightarrow> 'w print_run) \<Rightarrow> (nat \<Rightarrow> attempt_env) \<Rightarrow> nat \<Rightarrow> nat \<Rightarrow> 'w print_run" where
  "run_attempts job env 0 k w = (Raised (RuntimeError ''max retries exceeded''), w)"
| "run_attempts job env (Suc n) k w =
     (case job ((env k)\<lparr>at_try := k\<rparr>) w of
        (Retry _, w) \<Rightarrow> run_attempts job env n (Suc k) w
      | r \<Rightarrow> r)"

definition run_print_job :: "(attempt_env \<Rightarrow> 'w print_run) \<Rightarrow> (nat \<Rightarrow> attempt_env) \<Rightarrow> 'w print_run" where
  "run_print_job job env w = run_attempts job env 3 1 w"

section \<open>The routes of the printers\<close>

definition paper_status :: "print_settings \<Rightarrow> int \<Rightarrow> string" where
  "paper_status st remaining =
     (if \<not> pt_counter_enabled st then ''OK''
      else if remaining \<le> 0 then ''EMPTY''
      else if remaining \<le> pt_critical st then ''CRITICAL''
      else if remaining \<le> pt_warning st then ''WARNING''
      else ''OK'')"

record printer_create =
  pc_gate_id :: string
  pc_gate_type :: string
  pc_name :: string
  pc_mode :: string
  pc_ip_address :: "string option"
  pc_port :: "int option"
  pc_serial_device :: "string option"
  pc_baudrate :: int
  pc_paper_capacity :: int

definition create_printer :: "printer_create \<Rightarrow> print_world \<Rightarrow> printer \<times> print_world" where
  "create_printer r w =
     (let p = \<lparr>pr_id = pw_next_printer w, pr_gate_id = pc_gate_id r, pr_gate_type = pc_gate_type r,
               pr_name = pc_name r, pr_mode = pc_mode r, pr_ip_address = pc_ip_address r, pr_port = pc_port r,
               pr_serial_device = pc_serial_device r, pr_baudrate = pc_baudrate r,
               pr_paper_remaining = pc_paper_capacity r, pr_paper_capacity = pc_paper_capacity r,
               pr_last_refilled_at = None, pr_is_active = True\<rparr>
      in (p, w\<lparr>pw_printers := pw_printers w @ [p], pw_next_printer := pw_next_printer w + 1\<rparr>))"

definition with_printer :: "int \<Rightarrow> (printer \<Rightarrow> print_world \<Rightarrow> (py_exc + printer) \<times> print_world) \<Rightarrow>
    print_world \<Rightarrow> (py_exc + printer) \<times> print_world" where
  "with_printer i f w =
     (case get_printer i w of
        None \<Rightarrow> (Inl (HTTPException 404 ''Printer not found''), w)
      | Some p \<Rightarrow> f p w)"

text \<open>The update's fields that the request sets; the request's null of a column that must not be null is refused.\<close>

datatype printer_field =
    SetName "string option"
  | SetMode "string option"
  | SetIp "string option"
  | SetPort "int option"
  | SetSerial "string option"
  | SetBaudrate "int option"
  | SetCapacity "int option"
  | SetActive "bool option"

fun set_field :: "printer_field \<Rightarrow> printer \<Rightarrow> printer option" where
  "set_field (SetName x) p = map_option (\<lambda>v. p\<lparr>pr_name := v\<rparr>) x"
| "set_field (SetMode x) p = map_option (\<lambda>v. p\<lparr>pr_mode := v\<rparr>) x"
| "set_field (SetIp x) p = Some (p\<lparr>pr_ip_address := x\<rparr>)"
| "set_field (SetPort x) p = Some (p\<lparr>pr_port := x\<rparr>)"
| "set_field (SetSerial x) p = Some (p\<lparr>pr_serial_device := x\<rparr>)"
| "set_field (SetBaudrate x) p = map_option (\<lambda>v. p\<lparr>pr_baudrate := v\<rparr>) x"
| "set_field (SetCapacity x) p = map_option (\<lambda>v. p\<lparr>pr_paper_capacity := v\<rparr>) x"
| "set_field (SetActive x) p = map_option (\<lambda>v. p\<lparr>pr_is_active := v\<rparr>) x"

fun set_fields :: "printer_field list \<Rightarrow> printer \<Rightarrow> printer option" where
  "set_fields [] p = Some p"
| "set_fields (f # fs) p = Option.bind (set_field f p) (set_fields fs)"

definition update_printer :: "int \<Rightarrow> printer_field list \<Rightarrow> print_world \<Rightarrow> (py_exc + printer) \<times> print_world" where
  "update_printer i fs = with_printer i (\<lambda>p w.
     case set_fields fs p of
       None \<Rightarrow> (Inl (IntegrityError ''printers''), w)
     | Some p' \<Rightarrow> (Inr p', put_printer p' w))"

definition delete_printer :: "int \<Rightarrow> print_world \<Rightarrow> (py_exc + printer) \<times> print_world" where
  "delete_printer i = with_printer i (\<lambda>p w.
     (Inr p, w\<lparr>pw_printers := filter (\<lambda>q. pr_id q \<noteq> i) (pw_printers w)\<rparr>))"

definition refill_paper :: "int \<Rightarrow> int option \<Rightarrow> time \<Rightarrow> print_world \<Rightarrow> (py_exc + printer) \<times> print_world" where
  "refill_paper i count now = with_printer i (\<lambda>p w.
     let p' = p\<lparr>pr_paper_remaining := (case count of None \<Rightarrow> pr_paper_capacity p | Some n \<Rightarrow> n),
                pr_last_refilled_at := Some now\<rparr>
     in (Inr p', put_printer p' w))"

definition decrement_paper :: "print_settings \<Rightarrow> int \<Rightarrow> print_world \<Rightarrow> (py_exc + printer) \<times> print_world" where
  "decrement_paper st i w =
     (if \<not> pt_counter_enabled st then (Inl (HTTPException 400 ''Paper counter is disabled''), w)
      else with_printer i (\<lambda>p w.
        let p' = (if 0 < pr_paper_remaining p then p\<lparr>pr_paper_remaining := pr_paper_remaining p - 1\<rparr> else p)
        in (Inr p', put_printer p' w)) w)"

definition printer_status_summary :: "print_settings \<Rightarrow> print_world \<Rightarrow> (int \<times> string) list" where
  "printer_status_summary st w =
     map (\<lambda>p. (pr_id p, paper_status st (pr_paper_remaining p))) (filter pr_is_active (pw_printers w))"

section \<open>What the two jobs share\<close>

text \<open>
  A printing job checks the paper, builds its payload and delivers it; its configuration is looked up
  again at each attempt.
\<close>

locale paper_job =
  fixes job :: "attempt_env \<Rightarrow> print_world print_run"
    and config :: "attempt_env \<Rightarrow> print_world \<Rightarrow> dict"
    and payload :: "py_exc + bytes"
    and st :: print_settings
    and gid :: string
    and kind :: string
  assumes attempt: "job a w =
    (case check_paper_available st (at_db_check a) gid w of
       (False, _) \<Rightarrow> (Finished ''skipped'', w)
     | (True, pid) \<Rightarrow>
         (case payload of
            Inl e \<Rightarrow> (Raised e, w)
          | Inr escpos_data \<Rightarrow> deliver st a gid kind (config_mode (config a w)) (config a w) pid escpos_data w))"

lemma decrement_frame [simp]:
  "pw_alerts (decrement_paper_counter st ok pid w) = pw_alerts w"
  "pw_paper (decrement_paper_counter st ok pid w) = pw_paper w"
  by (auto simp: decrement_paper_counter_def put_printer_def split: option.splits)

lemma print_to_once: "print_to mode d cfg io = (r, sent) \<Longrightarrow> length sent \<le> 1"
  by (auto simp: print_to_def print_via_controller_def print_via_network_def print_via_serial_def
      print_via_escpos_def Let_def split: if_splits sum.splits prod.splits)

text \<open>Every end an attempt can have.\<close>

lemma deliver_cases:
  assumes "deliver st a gid kind mode cfg pid d w = (r, w')" "at_max_tries a = None"
  obtains (success) "r = Finished ''success''" "pw_alerts w' = pw_alerts w"
      "length (pw_paper w') \<le> Suc (length (pw_paper w))"
      "pw_printers w' = pw_printers (decrement_paper_counter st (at_db_count a) pid w)"
    | (retry) n where "r = Retry n" "at_try a < 3" "pw_alerts w' = pw_alerts w"
      "length (pw_paper w') \<le> Suc (length (pw_paper w))" "pw_printers w' = pw_printers w"
      "pw_gates w' = pw_gates w"
    | (failed) "r = Finished ''failed''" "3 \<le> at_try a"
      "pw_alerts w' = pw_alerts w @ (if at_has_redis a \<and> at_publish a then [(gid, kind)] else [])"
      "length (pw_paper w') \<le> Suc (length (pw_paper w))" "pw_printers w' = pw_printers w"
proof -
  have dec: "pw_printers (decrement_paper_counter st ok pid w1) =
      pw_printers (decrement_paper_counter st ok pid w)" if "pw_printers w1 = pw_printers w" for ok w1
    using that by (auto simp: decrement_paper_counter_def put_printer_def get_printer_def split: option.splits)
  obtain r1 sent where p: "print_to mode d cfg (at_device a) = (r1, sent)" by fastforce
  from print_to_once[OF p] have n: "length sent \<le> 1" .
  show thesis
  proof (cases "pt_mock st \<or> (\<exists>u. r1 = Inr u)")
    case True
    then show thesis
      using assms(1) n by (intro success) (auto simp: deliver_def p Let_def split: if_splits intro!: dec)
  next
    case False
    then obtain e where r1: "r1 = Inl e" by (cases r1) auto
    show thesis
    proof (cases "at_try a < 3")
      case True
      with False r1 show thesis
        using assms n by (intro retry[of "at_try a * 5"]) (auto simp: deliver_def p Let_def retry_or_alert_def split: if_splits)
    next
      case False2: False
      with False r1 show thesis
        using assms n by (intro failed) (auto simp: deliver_def p Let_def retry_or_alert_def split: if_splits)
    qed
  qed
qed

context paper_job
begin

lemma attempts_end:
  assumes "run_attempts job env n k w = (e, w')" "0 < n" "n + k = 4" "\<And>i. at_max_tries (env i) = None"
  shows "(e \<in> {Finished ''success'', Finished ''skipped'', Finished ''failed''} \<or>
      (\<exists>x. e = Raised x \<and> payload = Inl x)) \<and>
    pw_alerts w' = pw_alerts w @
      (if e = Finished ''failed'' \<and> at_has_redis (env 3) \<and> at_publish (env 3) then [(gid, kind)] else []) \<and>
    length (pw_paper w') \<le> length (pw_paper w) + n"
  using assms(1-3)
proof (induction n arbitrary: k w)
  case (Suc n)
  define a where "a = (env k)\<lparr>at_try := k\<rparr>"
  have mt: "at_max_tries a = None" and tr: "at_try a = k" by (simp_all add: a_def assms(4))
  obtain r w1 where j: "job a w = (r, w1)" by fastforce
  have run: "(case (r, w1) of (Retry _, w) \<Rightarrow> run_attempts job env n (Suc k) w | r \<Rightarrow> r) = (e, w')"
    using Suc.prems(1) j by (simp add: a_def)
  obtain ok pid where c: "check_paper_available st (at_db_check a) gid w = (ok, pid)" by fastforce
  show ?case
  proof (cases "ok \<and> (\<exists>d. payload = Inr d)")
    case False
    with run j show ?thesis by (cases payload; cases ok) (auto simp: attempt c)
  next
    case True
    then obtain d where d: "ok" "payload = Inr d" by blast
    from j have "deliver st a gid kind (config_mode (config a w)) (config a w) pid d w = (r, w1)"
      by (simp add: attempt c d)
    then show ?thesis using mt
    proof (cases rule: deliver_cases)
      case success
      with run show ?thesis by auto
    next
      case (retry m)
      with run tr Suc.prems have "run_attempts job env n (Suc k) w1 = (e, w')" "0 < n" "n + Suc k = 4"
        by auto
      from Suc.IH[OF this] retry show ?thesis by auto
    next
      case failed
      with run tr Suc.prems have "k = 3" by auto
      with failed run show ?thesis by (auto simp: a_def)
    qed
  qed
qed simp

lemma attempts_printers:
  assumes "run_attempts job env n k w = (e, w')" "\<And>i. at_max_tries (env i) = None"
    "\<And>i. at_db_check (env i)" "\<And>i. at_db_count (env i)" "pt_counter_enabled st"
    "filter (\<lambda>p. pr_gate_id p = gid \<and> pr_is_active p) (pw_printers w) = [p]" "distinct (map pr_id (pw_printers w))"
    "0 < pr_paper_remaining p"
  shows "pw_printers w' =
    (if e = Finished ''success''
     then map (\<lambda>q. if q = p then p\<lparr>pr_paper_remaining := pr_paper_remaining p - 1\<rparr> else q) (pw_printers w)
     else pw_printers w)"
  using assms(1,6-8)
proof (induction n arbitrary: k w)
  case (Suc n)
  define a where "a = (env k)\<lparr>at_try := k\<rparr>"
  have a: "at_max_tries a = None" "at_db_check a" "at_db_count a" by (simp_all add: a_def assms(2-4))
  obtain r w1 where j: "job a w = (r, w1)" by fastforce
  have run: "(case (r, w1) of (Retry _, w) \<Rightarrow> run_attempts job env n (Suc k) w | r \<Rightarrow> r) = (e, w')"
    using Suc.prems(1) j by (simp add: a_def)
  have c: "check_paper_available st True gid w = (True, Some (pr_id p))"
    using Suc.prems assms(5) by (simp add: check_paper_available_def)
  have mem: "p \<in> set (pw_printers w)" using Suc.prems(2) by (metis filter_eq_ConsD in_set_conv_decomp)
  then have same: "pr_id q = pr_id p \<longleftrightarrow> q = p" if "q \<in> set (pw_printers w)" for q
    using Suc.prems(3) that by (auto simp: distinct_map inj_on_def)
  have "get_printer (pr_id p) w = Some p"
    unfolding get_printer_def by (rule unique_find[OF Suc.prems(3) mem])
  then have dec: "pw_printers (decrement_paper_counter st True (Some (pr_id p)) w) =
      map (\<lambda>q. if q = p then p\<lparr>pr_paper_remaining := pr_paper_remaining p - 1\<rparr> else q) (pw_printers w)"
    using same Suc.prems(4) assms(5) by (simp add: decrement_paper_counter_def put_printer_def)
  show ?case
  proof (cases payload)
    case (Inl x)
    with run j show ?thesis by (auto simp: attempt c a)
  next
    case (Inr d)
    from j have "deliver st a gid kind (config_mode (config a w)) (config a w) (Some (pr_id p)) d w = (r, w1)"
      by (simp add: attempt c a Inr)
    then show ?thesis using a(1)
    proof (cases rule: deliver_cases)
      case success
      with run dec a show ?thesis by auto
    next
      case (retry m)
      with run have "run_attempts job env n (Suc k) w1 = (e, w')" by simp
      from Suc.IH[OF this] retry Suc.prems show ?thesis by simp
    next
      case failed
      with run show ?thesis by auto
    qed
  qed
qed auto

end

interpretation ticket: paper_job "print_ticket st k cfg"
    "\<lambda>a. config_or cfg (at_db_config a) (tk_gate_id k) ''IN''"
    "build_escpos_ticket (tk_barcode k) (tk_gate_name k) (tk_location_name k) (tk_additional_info k) (tk_timestamp k)"
    st "tk_gate_id k" "''ticket''" for st k cfg
  by unfold_locales (simp add: print_ticket_def Let_def)

interpretation receipt: paper_job "print_receipt other st gid data loc cfg"
    "\<lambda>a. config_or cfg (at_db_config a) gid ''OUT''" "build_escpos_receipt other data loc" st gid "''receipt''"
    for other st gid data loc cfg
  by unfold_locales (simp add: print_receipt_def Let_def)


section \<open>The jobs end\<close>

lemma run_print_job_env: "run_print_job job env w = (e, w') \<Longrightarrow> run_attempts job env 3 1 w = (e, w')"
  by (simp add: run_print_job_def)


definition printing_device :: device_io where
  "printing_device = \<lparr>di_connect = True, di_send = True, di_escpos = True, di_open = True, di_raw = True, di_close = True\<rparr>"

definition printing_attempt :: "device_io \<Rightarrow> nat \<Rightarrow> attempt_env" where
  "printing_attempt io k = \<lparr>at_try = k, at_max_tries = None, at_has_redis = True, at_db_config = True,
     at_db_check = True, at_db_count = True, at_device = io, at_publish = True\<rparr>"

definition example_printer :: printer where
  "example_printer = \<lparr>pr_id = 4, pr_gate_id = ''OUT1'', pr_gate_type = ''OUT'', pr_name = ''Exit printer'',
     pr_mode = ''NETWORK'', pr_ip_address = Some ''10.0.0.9'', pr_port = None, pr_serial_device = None,
     pr_baudrate = 9600, pr_paper_remaining = 12, pr_paper_capacity = 500, pr_last_refilled_at = None,
     pr_is_active = True\<rparr>"

definition printing_world :: print_world where
  "printing_world = \<lparr>pw_printers = [example_printer], pw_next_printer = 5, pw_gates = [], pw_paper = [],
     pw_files = [], pw_alerts = []\<rparr>"

definition example_print_settings :: print_settings where
  "example_print_settings = \<lparr>pt_counter_enabled = True, pt_warning = 50, pt_critical = 10, pt_mock = False\<rparr>"

lemmas example_print_defs = printing_device_def printing_attempt_def example_printer_def printing_world_def
  example_print_settings_def


text \<open>
  C28. With the counter enabled (it is off by default), the database answering at every check and count,
  and exactly one active printer at the gate: that printer loses exactly one sheet by a ticket that
  succeeds and none by one that does not, no other printer changes, and an empty one prints nothing.
\<close>

theorem paper_counted:
  assumes "run_print_job (print_ticket st k cfg) env w = (e, w')"
    "\<And>i. at_max_tries (env i) = None" "\<And>i. at_db_check (env i)" "\<And>i. at_db_count (env i)" "pt_counter_enabled st"
    "filter (\<lambda>p. pr_gate_id p = tk_gate_id k \<and> pr_is_active p) (pw_printers w) = [p]"
    "distinct (map pr_id (pw_printers w))"
  shows "if pr_paper_remaining p \<le> 0 then e = Finished ''skipped'' \<and> w' = w
    else pw_printers w' =
      (if e = Finished ''success''
       then map (\<lambda>q. if q = p then p\<lparr>pr_paper_remaining := pr_paper_remaining p - 1\<rparr> else q) (pw_printers w)
       else pw_printers w)"
proof (cases "pr_paper_remaining p \<le> 0")
  case True
  then have "check_paper_available st True (tk_gate_id k) w = (False, Some (pr_id p))"
    using assms(5,6) by (simp add: check_paper_available_def)
  then have "e = Finished ''skipped'' \<and> w' = w"
    using assms(1,3) by (simp add: run_print_job_def numeral_3_eq_3 ticket.attempt)
  with True show ?thesis by simp
next
  case False
  with ticket.attempts_printers[OF run_print_job_env[OF assms(1)] assms(2-7)] show ?thesis by simp
qed

definition example_ticket :: ticket where
  "example_ticket = \<lparr>tk_gate_id = ''OUT1'', tk_barcode = ''B001'', tk_gate_name = [], tk_location_name = [],
     tk_additional_info = [], tk_timestamp = []\<rparr>"

theorem paper_counted_witness:
  "\<exists>e w. run_print_job (print_ticket example_print_settings example_ticket (Some [(''mode'', JStr ''SERIAL''), (''printer_device'', JStr ''tty'')]))
      (printing_attempt printing_device) printing_world = (e, w) \<and> e = Finished ''success'' \<and>
      map pr_paper_remaining (pw_printers w) = [11]"
proof -
  obtain e w where r: "run_print_job (print_ticket example_print_settings example_ticket (Some [(''mode'', JStr ''SERIAL''), (''printer_device'', JStr ''tty'')]))
      (printing_attempt printing_device) printing_world = (e, w)" by fastforce
  have e: "e = Finished ''success''"
    using r by (auto simp: run_print_job_def numeral_3_eq_3 print_ticket_def config_or_def
        check_paper_available_def build_escpos_ticket_def deliver_def config_mode_def print_to_def
        print_via_serial_def print_via_escpos_def dict_key_def example_ticket_def example_print_defs Let_def)
  from paper_counted[OF r, of example_printer] have "pw_printers w =
      [example_printer\<lparr>pr_paper_remaining := 11\<rparr>]"
    by (simp add: e example_print_defs example_ticket_def)
  with r e show ?thesis by (simp add: example_printer_def)
qed

text \<open>
  A gate without a printer of its own whose controller speaks Compass, the default protocol, never
  prints: no byte is sent and every job that is not refused by its barcode fails.
\<close>

theorem compass_never_prints:
  assumes "run_print_job (print_ticket st k None) env w = (e, w')" "\<not> pt_mock st"
    "\<And>i. at_max_tries (env i) = None" "length (tk_barcode k) \<le> 255"
    "filter (\<lambda>p. pr_gate_id p = tk_gate_id k \<and> pr_is_active p) (pw_printers w) = []"
    "filter (\<lambda>g. gate_code g = tk_gate_id k) (pw_gates w) = [g]" "gate_protocol g = ''compass''"
  shows "e = Finished ''failed'' \<and> pw_paper w' = pw_paper w \<and> pw_files w' = pw_files w \<and>
    pw_printers w' = pw_printers w"
proof -
  have none: "filter (\<lambda>p. pr_gate_id p = tk_gate_id k \<and> pr_gate_type p = ty \<and> pr_is_active p) (pw_printers w) = []" for ty
    using assms(5) by (auto simp: filter_empty_conv)
  have step: "print_ticket st k None a w = retry_or_alert a (tk_gate_id k) ''ticket'' w"
    if "at_max_tries a = None" for a
    using assms(2,4-7) none[of "''IN''"]
    by (auto simp: print_ticket_def config_or_def get_print_config_def check_paper_available_def
        build_escpos_ticket_def deliver_def config_mode_def print_to_def print_via_controller_def
        dict_key_def Let_def)
  show ?thesis
    using assms(1,3) by (auto simp: run_print_job_def numeral_3_eq_3 step retry_or_alert_def)
qed


definition example_compass_world :: print_world where
  "example_compass_world = printing_world\<lparr>pw_printers := [], pw_gates := [example_gate\<lparr>gate_code := ''OUT1'', gate_protocol := ''compass''\<rparr>]\<rparr>"

theorem compass_never_prints_witness:
  "\<exists>e w. run_print_job (print_ticket example_print_settings example_ticket None) (printing_attempt printing_device)
      example_compass_world = (e, w) \<and> e = Finished ''failed'' \<and> pw_paper w = []"
proof -
  obtain e w where r: "run_print_job (print_ticket example_print_settings example_ticket None) (printing_attempt printing_device)
      example_compass_world = (e, w)" by fastforce
  have "e = Finished ''failed'' \<and> pw_paper w = pw_paper example_compass_world \<and>
      pw_files w = pw_files example_compass_world \<and> pw_printers w = pw_printers example_compass_world"
    by (rule compass_never_prints[OF r, where g = "example_gate\<lparr>gate_code := ''OUT1'', gate_protocol := ''compass''\<rparr>"])
      (simp_all add: example_print_settings_def printing_attempt_def example_ticket_def
        example_compass_world_def printing_world_def)
  with r show ?thesis by (simp add: example_compass_world_def printing_world_def)
qed

section \<open>The receipt of a payment\<close>

text \<open>The worker reads the keys \<open>total_fee\<close> and \<open>time_in\<close>; the payment service writes \<open>fee\<close> and \<open>entry_time\<close>.\<close>

definition blank_receipt :: "(json \<Rightarrow> string) \<Rightarrow> string \<Rightarrow> string \<Rightarrow> bytes" where
  "blank_receipt other payment_method location_name =
     projr (build_escpos_receipt other (JObj [(''payment_method'', JStr payment_method)]) location_name)"

lemma receipt_data_blank:
  "list_all (\<lambda>kv. fst kv \<notin> {''gate_name'', ''date'', ''time_in'', ''time_out'', ''duration'', ''vehicle_type'',
     ''total_fee'', ''additional_info''}) extra \<Longrightarrow>
   build_escpos_receipt other (receipt_data t fee paid m extra) loc = Inr (blank_receipt other m loc)"
proof -
  assume a: "list_all (\<lambda>kv. fst kv \<notin> {''gate_name'', ''date'', ''time_in'', ''time_out'', ''duration'', ''vehicle_type'',
     ''total_fee'', ''additional_info''}) extra"
  have n: "map_of extra x = None" if "x \<in> {''gate_name'', ''date'', ''time_in'', ''time_out'', ''duration'',
      ''vehicle_type'', ''total_fee'', ''additional_info''}" for x
    using a that by (auto simp: map_of_eq_None_iff list_all_iff)
  show ?thesis
    by (simp add: build_escpos_receipt_def receipt_lines_def receipt_data_def blank_receipt_def Let_def n)
qed

lemma blank_total: "\<exists>pre post. blank_receipt other m loc = pre @ encode ''TOTAL        : Rp 0'' @ post"
proof -
  have "format_total (JInt 0) = Inr ''0''"
    by (simp add: thousands_def str_of_nat.simps digit_char_def) code_simp
  then have b: "blank_receipt other m loc = concat (receipt_lines other [(''payment_method'', JStr m)] loc ''0'')"
    by (simp add: blank_receipt_def build_escpos_receipt_def)
  have "encode ''TOTAL        : Rp 0'' @ encode [CHR 0x0A, CHR 0x0A]
      \<in> set (receipt_lines other [(''payment_method'', JStr m)] loc ''0'')"
    by (simp add: receipt_lines_def Let_def flip: encode_append)
  then obtain xs ys where "receipt_lines other [(''payment_method'', JStr m)] loc ''0'' =
      xs @ (encode ''TOTAL        : Rp 0'' @ encode [CHR 0x0A, CHR 0x0A]) # ys"
    by (metis in_set_conv_decomp)
  then have "blank_receipt other m loc =
      concat xs @ encode ''TOTAL        : Rp 0'' @ (encode [CHR 0x0A, CHR 0x0A] @ concat ys)"
    unfolding b by simp
  then show ?thesis by blast
qed

lemma enqueue_snapshots_named:
  "\<exists>js. jobs (enqueue_snapshots_for_gate c i k s) = jobs s @ js \<and> list_all (\<lambda>j. job_name j = ''take_snapshot'') js"
  by (auto simp: enqueue_snapshots_for_gate_def list_all_iff snapshot_job_def Let_def
      split: sum.splits option.splits prod.splits)

lemma enqueue_print_receipt_named:
  "\<exists>js. jobs (enqueue_print_receipt gid i d s) = jobs s @ js \<and> list_all (\<lambda>j. j = receipt_job gid i d) js"
  by (auto simp: enqueue_print_receipt_def split: sum.splits option.splits)

text \<open>
  Every receipt a cash payment enqueues prints a total of zero and no gate, date, times, duration or
  vehicle, whatever the fee that was paid: the bytes depend on the payment method alone.
\<close>

theorem receipt_total_zero:
  assumes "store_ok s" "process_cash_payment gid out b c p paid op v t_fee t_shift t_exit s = (Inr (t', fee, change), s')"
  shows "\<exists>js. jobs s' = jobs s @ js \<and>
    list_all (\<lambda>j. job_name j = ''take_snapshot'' \<or>
      (\<exists>data. j = receipt_job gid (tx_id t') data \<and>
        build_escpos_receipt other data loc = Inr (blank_receipt other ''CASH'' loc))) js \<and>
    (\<exists>pre post. blank_receipt other ''CASH'' loc = pre @ encode ''TOTAL        : Rp 0'' @ post)"
proof -
  obtain t where t: "find_active_transaction s b c p = Some t"
    using assms(2) by (cases "find_active_transaction s b c p") (auto simp: process_cash_payment_def)
  define s1 where "s1 = enqueue_snapshots_for_gate gid (tx_id t) ''exit'' (s\<lparr>txs := replace_tx (with_vehicle_type t v) (txs s)\<rparr>)"
  obtain d where "jobs s' = jobs (enqueue_print_receipt gid (tx_id t') d (s1\<lparr>txs := txs s'\<rparr>))"
    and d: "d = receipt_data t' fee paid ''CASH'' []"
    using assms(2) by (auto simp: cash_payment_eq[OF assms(1) t] Let_def s1_def split: sum.splits if_splits)
  moreover obtain js1 where "jobs s1 = jobs s @ js1" "list_all (\<lambda>j. job_name j = ''take_snapshot'') js1"
    using enqueue_snapshots_named[of gid "tx_id t" "''exit''" "s\<lparr>txs := replace_tx (with_vehicle_type t v) (txs s)\<rparr>"]
    by (auto simp: s1_def)
  moreover obtain js2 where "jobs (enqueue_print_receipt gid (tx_id t') d (s1\<lparr>txs := txs s'\<rparr>)) = jobs s1 @ js2"
    "list_all (\<lambda>j. j = receipt_job gid (tx_id t') d) js2"
    using enqueue_print_receipt_named[of gid "tx_id t'" d "s1\<lparr>txs := txs s'\<rparr>"] by auto
  moreover have "build_escpos_receipt other d loc = Inr (blank_receipt other ''CASH'' loc)"
    unfolding d by (rule receipt_data_blank) simp
  ultimately show ?thesis
    by (intro exI[of _ "js1 @ js2"]) (auto simp: list_all_iff blank_total)
qed

theorem receipt_total_zero_witness:
  "\<exists>t' s' js. process_cash_payment ''OUT1'' 7 (Some ''B001'') None None 20000 (Some 4) None
      (3 * us_per_hour) 0 (3 * us_per_hour) example_store = (Inr (t', 10000, 10000), s') \<and> jobs s' = js \<and>
    list_all (\<lambda>j. job_name j = ''take_snapshot'' \<or> (\<exists>data. j = receipt_job ''OUT1'' (tx_id t') data \<and>
      build_escpos_receipt (\<lambda>_. []) data [] = Inr (blank_receipt (\<lambda>_. []) ''CASH'' []))) js"
proof -
  obtain t' s' where r: "process_cash_payment ''OUT1'' 7 (Some ''B001'') None None 20000 (Some 4) None
      (3 * us_per_hour) 0 (3 * us_per_hour) example_store = (Inr (t', 10000, 10000), s')"
    using example_cash_paid by blast
  from receipt_total_zero[OF example_store_ok r, of "\<lambda>_. []" "[]"] have
    "list_all (\<lambda>j. job_name j = ''take_snapshot'' \<or> (\<exists>data. j = receipt_job ''OUT1'' (tx_id t') data \<and>
      build_escpos_receipt (\<lambda>_. []) data [] = Inr (blank_receipt (\<lambda>_. []) ''CASH'' []))) (jobs s')"
    by (simp add: example_store_def)
  with r show ?thesis by blast
qed

end
