(* ===== verification/Maintenance.thy ===== *)
theory Maintenance
  imports Composition
begin

text \<open>
  The remaining jobs of the workers: the cleaning jobs (\<open>workers/background/cleanup_worker.py\<close>), the
  camera snapshots (\<open>workers/critical/snapshot_worker.py\<close>, \<open>rtsp_snapshot.py\<close>) and the Telegram alerts
  (\<open>workers/background/notification_worker.py\<close>), over the store of the services.

  The foreign keys to the parking transactions are the e-money rows' and those of alerts, abandoned
  vehicles and manual openings, whose transaction ids are \<open>mt_referenced\<close>.
\<close>

section \<open>State\<close>

record snapshot =
  sn_id :: int
  sn_parking_transaction_id :: "int option"
  sn_gate_id :: int
  sn_gate_type :: string
  sn_snapshot_type :: string
  sn_filename :: string
  sn_file_path :: string
  sn_file_size :: int
  sn_camera_name :: "string option"

record image =
  im_name :: string
  im_data :: bytes
  im_mtime :: time

record maint =
  mt_store :: store
  mt_referenced :: "int list"
  mt_updated :: "int \<Rightarrow> time"
  mt_snapshots :: "snapshot list"
  mt_next_snapshot :: int
  mt_entry_snapshot :: "int \<Rightarrow> int option"
  mt_exit_snapshot :: "int \<Rightarrow> int option"
  mt_images :: "image list"
  mt_published :: "(string \<times> json) list"

datatype report = Success int | Error py_exc

section \<open>Cleaning\<close>

definition SNAPSHOT_RETENTION_DAYS :: int where "SNAPSHOT_RETENTION_DAYS = 30"
definition SESSION_RETENTION_DAYS :: int where "SESSION_RETENTION_DAYS = 90"
definition PENDING_PAYMENT_TIMEOUT_MINUTES :: int where "PENDING_PAYMENT_TIMEOUT_MINUTES = 5"

definition referenced :: "maint \<Rightarrow> int \<Rightarrow> bool" where
  "referenced m i \<longleftrightarrow> i \<in> set (mt_referenced m) \<or>
     list_ex (\<lambda>e. em_parking_transaction_id e = Some i) (emoney_txs (mt_store m))"

definition expired_session :: "time \<Rightarrow> ptx \<Rightarrow> bool" where
  "expired_session cutoff t \<longleftrightarrow> tx_status t = ''COMPLETED'' \<and>
     (case tx_exit_time t of None \<Rightarrow> False | Some x \<Rightarrow> x < cutoff)"

text \<open>\<open>ok\<close>: the database answers. One DELETE: a row that is still referenced refuses all of it.\<close>

definition cleanup_old_sessions :: "bool \<Rightarrow> time \<Rightarrow> maint \<Rightarrow> report \<times> maint" where
  "cleanup_old_sessions ok now m =
     (let cutoff = now - SESSION_RETENTION_DAYS * us_per_day;
          doomed = filter (expired_session cutoff) (txs (mt_store m))
      in if \<not> ok then (Error OSError, m)
         else if list_ex (\<lambda>t. referenced m (tx_id t)) doomed
         then (Error (IntegrityError ''parking_transactions''), m)
         else (Success (int (length doomed)),
               m\<lparr>mt_store := (mt_store m)\<lparr>txs := filter (\<lambda>t. \<not> expired_session cutoff t) (txs (mt_store m))\<rparr>\<rparr>))"

text \<open>\<open>glob("*.jpg")\<close>; \<open>unlink\<close> says which files can be removed. An error keeps what was removed before it.\<close>

definition is_jpg :: "string \<Rightarrow> bool" where
  "is_jpg name \<longleftrightarrow> 4 \<le> length name \<and> drop (length name - 4) name = ''.jpg''"

fun remove_old :: "(string \<Rightarrow> bool) \<Rightarrow> time \<Rightarrow> image list \<Rightarrow> report \<times> image list" where
  "remove_old unlink cutoff [] = (Success 0, [])"
| "remove_old unlink cutoff (f # fs) =
     (if is_jpg (im_name f) \<and> im_mtime f < cutoff
      then if unlink (im_name f)
           then case remove_old unlink cutoff fs of
                  (Success n, rest) \<Rightarrow> (Success (n + 1), rest)
                | (Error e, rest) \<Rightarrow> (Error e, rest)
           else (Error OSError, f # fs)
      else case remove_old unlink cutoff fs of (r, rest) \<Rightarrow> (r, f # rest))"

definition cleanup_old_snapshots :: "(string \<Rightarrow> bool) \<Rightarrow> time \<Rightarrow> maint \<Rightarrow> report \<times> maint" where
  "cleanup_old_snapshots unlink now m =
     (case remove_old unlink (now - SNAPSHOT_RETENTION_DAYS * us_per_day) (mt_images m) of
        (r, rest) \<Rightarrow> (r, m\<lparr>mt_images := rest\<rparr>))"

definition stuck :: "time \<Rightarrow> (int \<Rightarrow> time) \<Rightarrow> ptx \<Rightarrow> bool" where
  "stuck cutoff updated t \<longleftrightarrow> tx_status t = ''ACTIVE'' \<and> tx_payment_method t = Some ''PENDING'' \<and>
     updated (tx_id t) < cutoff"

definition timeout_pending_payments :: "bool \<Rightarrow> time \<Rightarrow> maint \<Rightarrow> report \<times> maint" where
  "timeout_pending_payments ok now m =
     (let s = mt_store m;
          late = stuck (now - PENDING_PAYMENT_TIMEOUT_MINUTES * us_per_minute) (mt_updated m);
          ids = map tx_id (filter late (txs s))
      in if \<not> ok then (Error OSError, m)
         else (Success (int (length ids)),
           if ids = [] then m
           else m\<lparr>mt_store := s\<lparr>txs := map (\<lambda>t. if late t then t\<lparr>tx_payment_method := None, tx_fee := None\<rparr> else t)
                      (txs s)\<rparr>,
                  mt_updated := (\<lambda>i. if i \<in> set ids then now else mt_updated m i)\<rparr>))"

section \<open>Snapshots\<close>

text \<open>What ffmpeg does, and what it gives.\<close>

datatype ffmpeg = NotFound | Raises | TimedOut | Exits int bytes

fun capture_rtsp_frame_to_bytes :: "ffmpeg \<Rightarrow> bytes option" where
  "capture_rtsp_frame_to_bytes (Exits code out) = (if code \<noteq> 0 \<or> out = [] then None else Some out)"
| "capture_rtsp_frame_to_bytes _ = None"

datatype http_auth = NoAuth | BasicAuth string string | DigestAuth string string

definition http_auth_of :: "string option \<Rightarrow> string option \<Rightarrow> string \<Rightarrow> http_auth" where
  "http_auth_of username password auth_type =
     (case (username, password) of
        (Some u, Some p) \<Rightarrow>
          if u = [] \<or> p = [] then NoAuth
          else if auth_type = ''digest'' then DigestAuth u p else BasicAuth u p
      | _ \<Rightarrow> NoAuth)"

definition MOCK_IMAGE :: bytes where
  "MOCK_IMAGE = bytes_of_hex (
     ''ffd8ffe000104a46494600010101006000600000ffdb004300080606070605080707'' @
     ''07090908'' @
     ''0a0c140d0c0b0b0c1912130f141d1a1f1e1d1a1c1c20242e2720222c231c1c283729'' @
     ''2c30313434'' @
     ''1f27393d38323c2e333432ffc0000b080001000101011100ffc4001f000001050101'' @
     ''01010101000000000000000001020304050607080900ffc400b510000201030302040'' @
     ''30502060101000000010002110321041231054113617122718132061491a1b14223'' @
     ''2415528191a2b1c109233352f0d124e1f06272ffda0008010100003f00fbd8000000ffd9'')"

text \<open>
  The job's arguments, and what is outside it: the cameras, the directory, whether writing, the
  database and Redis work, the clock as \<open>strftime\<close> gives it and as the file system notes it.
\<close>

record snapshot_args =
  sa_gate_id :: string
  sa_camera_url :: string
  sa_transaction_id :: "int option"
  sa_snapshot_type :: string
  sa_camera_label :: "string option"
  sa_camera_username :: "string option"
  sa_camera_password :: "string option"
  sa_camera_auth_type :: string

record snapshot_env =
  se_mock :: bool
  se_ffmpeg :: "string \<Rightarrow> ffmpeg"
  se_http :: "string \<Rightarrow> http_auth \<Rightarrow> bytes option"
  se_dir :: string
  se_write :: bool
  se_db :: bool
  se_redis :: bool
  se_timestamp :: string
  se_mtime :: time

definition capture_image :: "snapshot_args \<Rightarrow> snapshot_env \<Rightarrow> bytes option" where
  "capture_image a e =
     (if se_mock e then Some MOCK_IMAGE
      else if take 7 (lower (sa_camera_url a)) = ''rtsp://''
      then capture_rtsp_frame_to_bytes (se_ffmpeg e (sa_camera_url a))
      else se_http e (sa_camera_url a)
             (http_auth_of (sa_camera_username a) (sa_camera_password a) (sa_camera_auth_type a)))"

definition snapshot_filename :: "snapshot_args \<Rightarrow> string \<Rightarrow> string" where
  "snapshot_filename a ts =
     sa_gate_id a @ ''_'' @ sa_snapshot_type a @
     (case sa_camera_label a of None \<Rightarrow> [] | Some l \<Rightarrow> if l = [] then [] else ''_'' @ l) @
     ''_'' @ ts @ ''.jpg''"

definition write_image :: "image \<Rightarrow> image list \<Rightarrow> image list" where
  "write_image f fs = filter (\<lambda>g. im_name g \<noteq> im_name f) fs @ [f]"

definition link_snapshot :: "string \<Rightarrow> int \<Rightarrow> int \<Rightarrow> maint \<Rightarrow> maint" where
  "link_snapshot kind tid sid m =
     (if kind = ''entry'' \<and> mt_entry_snapshot m tid = None
      then m\<lparr>mt_entry_snapshot := (mt_entry_snapshot m)(tid := Some sid)\<rparr>
      else if kind = ''exit'' \<and> mt_exit_snapshot m tid = None
      then m\<lparr>mt_exit_snapshot := (mt_exit_snapshot m)(tid := Some sid)\<rparr>
      else m)"

definition save_snapshot_record ::
  "snapshot_args \<Rightarrow> snapshot_env \<Rightarrow> string \<Rightarrow> int \<Rightarrow> maint \<Rightarrow> int option \<times> maint" where
  "save_snapshot_record a e filename file_size m =
     (if \<not> se_db e then (None, m)
      else case find_gate (mt_store m) (sa_gate_id a) of
        Inl x \<Rightarrow> (None, m)
      | Inr None \<Rightarrow> (None, m)
      | Inr (Some g) \<Rightarrow>
        (let sid = mt_next_snapshot m;
             row = \<lparr>sn_id = sid, sn_parking_transaction_id = sa_transaction_id a, sn_gate_id = gate_id g,
                    sn_gate_type = (if gate_direction g = ''OUT'' then ''out'' else ''in''),
                    sn_snapshot_type = sa_snapshot_type a, sn_filename = filename,
                    sn_file_path = se_dir e @ ''/'' @ filename, sn_file_size = file_size,
                    sn_camera_name = sa_camera_label a\<rparr>;
             m = m\<lparr>mt_snapshots := mt_snapshots m @ [row], mt_next_snapshot := sid + 1\<rparr>
         in (Some sid,
             case sa_transaction_id a of
               None \<Rightarrow> m
             | Some tid \<Rightarrow>
               if tid = 0 \<or> get_tx (mt_store m) tid = None then m
               else link_snapshot (sa_snapshot_type a) tid sid m)))"

definition broadcast_exit_snapshot :: "string \<Rightarrow> int \<Rightarrow> bool \<Rightarrow> maint \<Rightarrow> maint" where
  "broadcast_exit_snapshot gid sid redis m =
     (if \<not> redis then m
      else m\<lparr>mt_published := mt_published m @ [(''parking.events.'' @ gid,
        JObj [(''type'', JStr ''camera_snapshot''), (''snapshot_type'', JStr ''exit''),
              (''snapshot_url'', JStr (''/api/snapshots/'' @ str_of_int sid @ ''/image''))])]\<rparr>)"

datatype snapshot_result = SnapshotError string | SnapshotSaved string int "int option"

definition take_snapshot :: "snapshot_args \<Rightarrow> snapshot_env \<Rightarrow> maint \<Rightarrow> snapshot_result \<times> maint" where
  "take_snapshot a e m =
     (case capture_image a e of
        None \<Rightarrow> (SnapshotError ''Snapshot capture failed'', m)
      | Some data \<Rightarrow>
        (let filename = snapshot_filename a (se_timestamp e)
         in if \<not> se_write e then (SnapshotError ''Save failed'', m)
            else
              (let m = m\<lparr>mt_images := write_image \<lparr>im_name = filename, im_data = data, im_mtime = se_mtime e\<rparr>
                         (mt_images m)\<rparr>
               in case save_snapshot_record a e filename (int (length data)) m of
                    (sid, m) \<Rightarrow>
                      (SnapshotSaved filename (int (length data)) sid,
                       case sid of
                         None \<Rightarrow> m
                       | Some i \<Rightarrow>
                         if i \<noteq> 0 \<and> sa_snapshot_type a = ''exit''
                         then broadcast_exit_snapshot (sa_gate_id a) i (se_redis e) m else m))))"

section \<open>Telegram\<close>

text \<open>The API's answer: an exception, an HTTP error included, or the decoded body.\<close>

definition get_api_base :: "string \<Rightarrow> py_exc + string" where
  "get_api_base token =
     (if token = [] then Inl (RuntimeError ''TELEGRAM_BOT_TOKEN not configured'')
      else Inr (''https://api.telegram.org/bot'' @ token))"

datatype telegram_report = Sent json | Refused json | Unreachable py_exc

definition json_key :: "json \<Rightarrow> string \<Rightarrow> py_exc + json" where
  "json_key j k =
     (case j of
        JObj kvs \<Rightarrow> (case map_of kvs k of None \<Rightarrow> Inl (KeyError k) | Some v \<Rightarrow> Inr v)
      | _ \<Rightarrow> Inl TypeError)"

definition telegram_outcome :: "json \<Rightarrow> py_exc + telegram_report" where
  "telegram_outcome answer =
     (case answer of
        JObj kvs \<Rightarrow>
          (if (case map_of kvs ''ok'' of None \<Rightarrow> True | Some v \<Rightarrow> \<not> truthy v)
           then Inr (Refused (case map_of kvs ''description'' of None \<Rightarrow> JStr ''Unknown error'' | Some d \<Rightarrow> d))
           else case json_key answer ''result'' of
                  Inl e \<Rightarrow> Inl e
                | Inr r \<Rightarrow> (case json_key r ''message_id'' of Inl e \<Rightarrow> Inl e | Inr i \<Rightarrow> Inr (Sent i)))
      | _ \<Rightarrow> Inl AttributeError)"

definition send_telegram_alert ::
  "string \<Rightarrow> (string \<Rightarrow> (string \<times> json) list \<Rightarrow> py_exc + json) \<Rightarrow> string \<Rightarrow> string \<Rightarrow> string \<Rightarrow>
   py_exc + telegram_report" where
  "send_telegram_alert token post chat_id message parse_mode =
     (case get_api_base token of
        Inl e \<Rightarrow> Inl e
      | Inr base \<Rightarrow>
        (case post (base @ ''/sendMessage'')
                [(''chat_id'', JStr chat_id), (''text'', JStr message), (''parse_mode'', JStr parse_mode)] of
           Inl e \<Rightarrow> Inr (Unreachable e)
         | Inr answer \<Rightarrow> telegram_outcome answer))"

definition LF :: string where "LF = [CHR 0x0A]"

definition gate_timeout_message :: "string \<Rightarrow> int \<Rightarrow> string" where
  "gate_timeout_message gname waiting_seconds =
     ''<b>Gate Timeout Alert</b>'' @ LF @ LF @
     ''Gate: <code>'' @ gname @ ''</code>'' @ LF @
     ''Waiting: <b>'' @ str_of_int (waiting_seconds div 60) @ '' minutes</b>'' @ LF @ LF @
     ''Please check the POS or open the gate manually.''"

definition send_gate_timeout_alert ::
  "string \<Rightarrow> (string \<Rightarrow> (string \<times> json) list \<Rightarrow> py_exc + json) \<Rightarrow> string \<Rightarrow> string \<Rightarrow> int \<Rightarrow> py_exc + telegram_report" where
  "send_gate_timeout_alert token post chat_id gname waiting_seconds =
     send_telegram_alert token post chat_id (gate_timeout_message gname waiting_seconds) ''HTML''"

definition hardware_failure_message :: "string \<Rightarrow> string \<Rightarrow> string \<Rightarrow> string" where
  "hardware_failure_message gname part error_message =
     ''<b>Hardware Failure Alert</b>'' @ LF @ LF @
     ''Gate: <code>'' @ gname @ ''</code>'' @ LF @
     ''Component: <b>'' @ part @ ''</b>'' @ LF @
     ''Error: <code>'' @ error_message @ ''</code>'' @ LF @ LF @
     ''Please check the device immediately.''"

definition send_hardware_failure_alert ::
  "string \<Rightarrow> (string \<Rightarrow> (string \<times> json) list \<Rightarrow> py_exc + json) \<Rightarrow> string \<Rightarrow> string \<Rightarrow> string \<Rightarrow> string \<Rightarrow>
   py_exc + telegram_report" where
  "send_hardware_failure_alert token post chat_id gname part error_message =
     send_telegram_alert token post chat_id (hardware_failure_message gname part error_message) ''HTML''"


section \<open>Stuck payments\<close>

text \<open>
  The job that resets stuck e-money payments never resets one: no transaction of the system, whatever
  happens to it, is ACTIVE with the payment method PENDING the job looks for.
\<close>

theorem timeout_never_fires:
  assumes "rows_sound (db (sy_api y))" "mt_store m = db (sy_api (fold system_step ops y))"
  shows "timeout_pending_payments True now m = (Success 0, m)"
proof -
  have "rows_sound (mt_store m)"
    using sound.system_run_rel[of y ops] assms by simp
  then have "filter (stuck c u) (txs (mt_store m)) = []" for c u
    by (auto simp: rows_sound_def row_sound_def list_all_iff stuck_def filter_empty_conv)
  then show ?thesis by (simp add: timeout_pending_payments_def Let_def)
qed

definition example_maint :: "store \<Rightarrow> maint" where
  "example_maint s = \<lparr>mt_store = s, mt_referenced = [], mt_updated = (\<lambda>_. 0), mt_snapshots = [],
     mt_next_snapshot = 1, mt_entry_snapshot = (\<lambda>_. None), mt_exit_snapshot = (\<lambda>_. None), mt_images = [],
     mt_published = []\<rparr>"

theorem timeout_never_fires_witness:
  "fst (timeout_pending_payments True (9 * us_per_day) (example_maint (db (sy_api (fold system_step
      [Serve (Cash example_cash None None example_clock)]
      \<lparr>sy_api = example_api, sy_streams = [], sy_running = True, sy_listening = True,
       sy_bank = example_bank\<rparr>))))) = Success 0"
proof -
  have "rows_sound (db (sy_api \<lparr>sy_api = example_api, sy_streams = [], sy_running = True,
      sy_listening = True, sy_bank = example_bank\<rparr>))"
    by (simp add: rows_sound_def row_sound_def example_api_def example_defs)
  from timeout_never_fires[OF this, of "example_maint (db (sy_api (fold system_step
      [Serve (Cash example_cash None None example_clock)]
      \<lparr>sy_api = example_api, sy_streams = [], sy_running = True, sy_listening = True,
       sy_bank = example_bank\<rparr>)))" "[Serve (Cash example_cash None None example_clock)]" "9 * us_per_day"]
  show ?thesis unfolding example_maint_def by (simp only: maint.simps fst_conv HOL.simp_thms)
qed

section \<open>The cleaning\<close>

text \<open>
  C1. The cleaning removes exactly the transactions completed more than ninety days ago, or nothing at all:
  an open transaction is never removed and the ledger's invariant is kept.
\<close>

lemma unique_active_filter: "unique_active ts \<Longrightarrow> unique_active (filter P ts)"
proof -
  have sub: "set (List.map_filter f (filter P ts)) \<subseteq> set (List.map_filter f ts)" for f :: "ptx \<Rightarrow> string option" and ts
    by (auto simp: map_filter_def)
  have "distinct (List.map_filter f ts) \<Longrightarrow> distinct (List.map_filter f (filter P ts))" for f :: "ptx \<Rightarrow> string option"
    by (induction ts) (auto simp: map_filter_simps split: option.splits dest: subsetD[OF sub])
  then show "unique_active ts \<Longrightarrow> unique_active (filter P ts)"
    by (simp add: unique_active_def active_cards_def active_barcodes_def)
qed

lemma store_ok_filter: "store_ok s \<Longrightarrow> store_ok (s\<lparr>txs := filter P (txs s)\<rparr>)"
  by (auto simp: store_ok_def unique_active_filter distinct_map_filter)

text \<open>
  The cleaning removes exactly the transactions completed more than ninety days ago, or nothing at all:
  an open transaction is never removed and the ledger's invariant is kept.
\<close>

theorem cleanup_keeps_open:
  assumes "store_ok (mt_store m)" "cleanup_old_sessions ok now m = (r, m')"
  shows "store_ok (mt_store m') \<and>
    (case r of
       Success n \<Rightarrow> int (length (txs (mt_store m))) = int (length (txs (mt_store m'))) + n \<and>
         txs (mt_store m') = filter (\<lambda>t. tx_status t \<noteq> ''COMPLETED'' \<or>
           now \<le> the (tx_exit_time t) + 90 * us_per_day) (txs (mt_store m))
     | Error e \<Rightarrow> m' = m)"
proof -
  have "expired_session (now - 90 * us_per_day) t \<longleftrightarrow>
      \<not> (tx_status t \<noteq> ''COMPLETED'' \<or> now \<le> the (tx_exit_time t) + 90 * us_per_day)"
    if "t \<in> set (txs (mt_store m))" for t
    using assms(1) that by (auto simp: store_ok_def row_ok_def expired_session_def split: option.splits)
  then have f: "filter (\<lambda>t. \<not> expired_session (now - 90 * us_per_day) t) (txs (mt_store m)) =
      filter (\<lambda>t. tx_status t \<noteq> ''COMPLETED'' \<or> now \<le> the (tx_exit_time t) + 90 * us_per_day)
        (txs (mt_store m))"
    by (intro filter_cong) auto
  have n: "int (length (txs (mt_store m))) =
      int (length (filter (\<lambda>t. tx_status t \<noteq> ''COMPLETED'' \<or> now \<le> the (tx_exit_time t) + 90 * us_per_day)
        (txs (mt_store m)))) +
      int (length (filter (expired_session (now - 90 * us_per_day)) (txs (mt_store m))))"
    using sum_length_filter_compl[of "expired_session (now - 90 * us_per_day)" "txs (mt_store m)"]
    unfolding f by linarith
  from assms store_ok_filter[OF assms(1)] show ?thesis
    by (auto simp: cleanup_old_sessions_def SESSION_RETENTION_DAYS_def Let_def f[simplified] n[simplified]
        split: if_splits)
qed


theorem cleanup_keeps_open_witness:
  "let m = example_maint (example_store\<lparr>txs := [example_tx, example_tx\<lparr>tx_id := 0, tx_barcode := Some ''B000'',
        tx_status := ''COMPLETED'', tx_exit_time := Some 5, tx_fee := Some 0, tx_gate_out_id := Some 7,
        tx_payment_method := Some ''CASH''\<rparr>]\<rparr>);
       (r, m') = cleanup_old_sessions True (200 * us_per_day) m
   in r = Success 1 \<and> txs (mt_store m') = [example_tx] \<and> store_ok (mt_store m')"
proof -
  define m where "m = example_maint (example_store\<lparr>txs := [example_tx, example_tx\<lparr>tx_id := 0, tx_barcode := Some ''B000'',
        tx_status := ''COMPLETED'', tx_exit_time := Some 5, tx_fee := Some 0, tx_gate_out_id := Some 7,
        tx_payment_method := Some ''CASH''\<rparr>]\<rparr>)"
  obtain r m' where c: "cleanup_old_sessions True (200 * us_per_day) m = (r, m')" by fastforce
  have "store_ok (mt_store m)"
    by (simp add: m_def example_maint_def store_ok_def example_defs unique_active_def active_cards_def
        active_barcodes_def map_filter_simps row_ok_def)
  from cleanup_keeps_open[OF this c] c show ?thesis
    by (auto simp: m_def example_maint_def cleanup_old_sessions_def expired_session_def referenced_def
        SESSION_RETENTION_DAYS_def example_defs)
qed

text \<open>
  C29. One e-money payment stops the cleaning for good. Ninety days after a reader's report completed a
  transaction, whatever payment requests followed, the row of the deduct still refers to it: every
  run of the job fails with an integrity error and removes nothing.
\<close>

theorem emoney_blocks_cleanup:
  assumes "store_ok s"
    "process_emoney_result gid out r op t_get t_row t_shift t_exit s = (Inr (t', eid, True, st, lost), db a)"
    "mt_store m = db (fold serve_step reqs a)" "t_exit + 90 * us_per_day < now"
  shows "cleanup_old_sessions True now m = (Error (IntegrityError ''parking_transactions''), m)"
proof (cases rule: emoney_result_cases[of gid t_get s])
  case (active pd t)
  from get_tx_Some[OF active(2)] have t: "t \<in> set (txs s)" by blast
  show ?thesis
  proof (cases "unique_active (replace_tx (with_card t (rp_card_number r)) (txs s))")
    case True
    note eq = emoney_result_eq[OF assms(1) active True, of out op t_row t_shift t_exit]
    define u where "u = completed_tx (with_card t (rp_card_number r)) (int_or (pd_gate_out_id pd) out) ''EMONEY''
      (rp_deduct_amount r) (Some (rp_deduct_amount r)) None (Some (next_em_id s)) op
      (map_option sh_id (get_current_shift s t_shift)) t_exit"
    have db: "txs (db a) = replace_tx u (txs s)"
        "emoney_txs (db a) = emoney_txs s @ [emoney_row (next_em_id s) (tx_id t) r t_row]"
      using assms(2)[symmetric] by (auto simp: eq u_def split: if_splits)
    have ok: "store_ok (db a)"
      using emoney_result_evolves[of s gid out r op t_get t_row t_shift t_exit] assms(1,2)
      by (simp add: evolves_def)
    have u: "u \<in> set (txs (db a))" "tx_id u = tx_id t" "tx_status u = ''COMPLETED''" "tx_exit_time u = Some t_exit"
      using replace_tx_same[OF t, of u] by (auto simp: db u_def completed_tx_def)
    from payments.run_completed[OF ok u(1)] u(3) have "u \<in> set (txs (mt_store m))" by (simp add: assms(3))
    moreover have "referenced m (tx_id u)"
      using run_rows[of a reqs] by (auto simp: referenced_def grows_def assms(3) db u(2) emoney_row_def add_emoney_tx_def)
    ultimately show ?thesis
      using assms(4) u(3,4) by (force simp: cleanup_old_sessions_def expired_session_def
          SESSION_RETENTION_DAYS_def Let_def list_ex_iff)
  next
    case False
    obtain e where "save_card_number t (rp_card_number r) s = (Inl (IntegrityError e), s)"
      using save_card_conflict[OF assms(1) t False] by blast
    with assms(2) show ?thesis by (auto simp: process_emoney_result_def active)
  qed
qed (use assms(2) in \<open>auto simp: process_emoney_result_def split: prod.splits sum.splits\<close>)

theorem emoney_blocks_cleanup_witness:
  "\<exists>a. snd (process_emoney_result ''OUT1'' 7 example_report None 5 6 7 8 example_armed) = db a \<and>
     fst (cleanup_old_sessions True (91 * us_per_day) (example_maint (db (fold serve_step
       [Cash example_cash None None example_clock] a)))) = Error (IntegrityError ''parking_transactions'')"
proof -
  obtain res s' where r: "process_emoney_result ''OUT1'' 7 example_report None 5 6 7 8 example_armed = (res, s')"
    by fastforce
  define a where "a = example_api\<lparr>db := s'\<rparr>"
  have ok: "store_ok example_armed" using example_store_ok by (simp add: example_armed_def)
  have pl: "get_emoney_pending ''OUT1'' 5 example_armed =
      Inr (Some \<lparr>pd_transaction_id = 1, pd_gate_out_id = 7, pd_fee = 10000\<rparr>)"
    by (simp add: pending_lookup example_armed_def example_defs)
  have t: "get_tx example_armed (pd_transaction_id \<lparr>pd_transaction_id = 1, pd_gate_out_id = 7, pd_fee = 10000\<rparr>) = Some example_tx"
      "is_active_tx example_tx"
    by (simp_all add: example_armed_def example_defs get_tx_def)
  have u: "unique_active (replace_tx (with_card example_tx (rp_card_number example_report)) (txs example_armed))"
    by (simp add: unique_active_def active_cards_def active_barcodes_def example_armed_def
        example_defs replace_tx_def with_card_def example_report_def map_filter_simps)
  obtain t' eid st lost where "res = Inr (t', eid, True, st, lost)"
    using r unfolding emoney_result_eq[OF ok pl t u] by (auto simp: example_report_def deduct_success_def)
  with r have r': "process_emoney_result ''OUT1'' 7 example_report None 5 6 7 8 example_armed =
      (Inr (t', eid, True, st, lost), db a)" by (simp add: a_def)
  have "cleanup_old_sessions True (91 * us_per_day) (example_maint (db (fold serve_step
       [Cash example_cash None None example_clock] a))) =
     (Error (IntegrityError ''parking_transactions''), example_maint (db (fold serve_step
       [Cash example_cash None None example_clock] a)))"
    by (rule emoney_blocks_cleanup[OF ok r', where reqs = "[Cash example_cash None None example_clock]"]) (simp_all add: example_maint_def)
  with r show ?thesis by (intro exI[of _ a]) (simp add: a_def)
qed


section \<open>Snapshots\<close>

lemma broadcast_frame [simp]:
  "mt_images (broadcast_exit_snapshot g i up m) = mt_images m"
  "mt_snapshots (broadcast_exit_snapshot g i up m) = mt_snapshots m"
  "mt_store (broadcast_exit_snapshot g i up m) = mt_store m"
  "mt_entry_snapshot (broadcast_exit_snapshot g i up m) = mt_entry_snapshot m"
  "mt_exit_snapshot (broadcast_exit_snapshot g i up m) = mt_exit_snapshot m"
  by (simp_all add: broadcast_exit_snapshot_def)

lemma link_frame [simp]:
  "mt_images (link_snapshot k t i m) = mt_images m"
  "mt_snapshots (link_snapshot k t i m) = mt_snapshots m"
  "mt_store (link_snapshot k t i m) = mt_store m"
  by (simp_all add: link_snapshot_def)

lemma save_record_frame:
  assumes "save_snapshot_record a e f n m = (sid, m')"
  shows "mt_images m' = mt_images m \<and> mt_store m' = mt_store m \<and>
    map sn_filename (mt_snapshots m') = map sn_filename (mt_snapshots m) @ (if sid = None then [] else [f])"
  using assms by (auto simp: save_snapshot_record_def Let_def split: if_splits sum.splits option.splits)

text \<open>What a snapshot that is saved does.\<close>

lemma take_snapshot_saved:
  assumes "take_snapshot a e m = (SnapshotSaved f n sid, m')"
  obtains d m1 where "capture_image a e = Some d" "f = snapshot_filename a (se_timestamp e)"
    "save_snapshot_record a e f n (m\<lparr>mt_images :=
       write_image \<lparr>im_name = f, im_data = d, im_mtime = se_mtime e\<rparr> (mt_images m)\<rparr>) = (sid, m1)"
    "m' = (case sid of None \<Rightarrow> m1 | Some i \<Rightarrow>
       if i \<noteq> 0 \<and> sa_snapshot_type a = ''exit'' then broadcast_exit_snapshot (sa_gate_id a) i (se_redis e) m1 else m1)"
  using assms by (auto simp: take_snapshot_def Let_def split: option.splits if_splits prod.splits)

lemma saved_effect:
  assumes "take_snapshot a e m = (SnapshotSaved f n sid, m')"
  shows "f = snapshot_filename a (se_timestamp e) \<and> mt_store m' = mt_store m \<and>
    (\<exists>d. capture_image a e = Some d \<and>
       mt_images m' = write_image \<lparr>im_name = f, im_data = d, im_mtime = se_mtime e\<rparr> (mt_images m)) \<and>
    map sn_filename (mt_snapshots m') = map sn_filename (mt_snapshots m) @ (if sid = None then [] else [f])"
proof -
  obtain d m1 where d: "capture_image a e = Some d" "f = snapshot_filename a (se_timestamp e)"
    "save_snapshot_record a e f n (m\<lparr>mt_images :=
       write_image \<lparr>im_name = f, im_data = d, im_mtime = se_mtime e\<rparr> (mt_images m)\<rparr>) = (sid, m1)"
    "m' = (case sid of None \<Rightarrow> m1 | Some i \<Rightarrow>
       if i \<noteq> 0 \<and> sa_snapshot_type a = ''exit'' then broadcast_exit_snapshot (sa_gate_id a) i (se_redis e) m1 else m1)"
    using take_snapshot_saved[OF assms] .
  from save_record_frame[OF d(3)] d(1,2,4) show ?thesis by (auto split: option.splits)
qed

text \<open>
  Two snapshots of one gate and one kind taken in the same second by cameras of the same label, or of
  none, share a file name: the second image replaces the first, and both records point to it. The job
  identifiers tell the cameras apart, the file names do not.
\<close>

theorem snapshot_overwritten:
  assumes "take_snapshot a e m = (SnapshotSaved f n (Some i), m1)" "take_snapshot a' e' m1 = (SnapshotSaved f' n' (Some i'), m2)"
    "sa_gate_id a' = sa_gate_id a" "sa_snapshot_type a' = sa_snapshot_type a"
    "sa_camera_label a' = sa_camera_label a" "se_timestamp e' = se_timestamp e"
  shows "map sn_filename (mt_snapshots m2) = map sn_filename (mt_snapshots m) @ [f, f] \<and>
    (\<exists>d. capture_image a' e' = Some d \<and>
      filter (\<lambda>im. im_name im = f) (mt_images m2) = [\<lparr>im_name = f, im_data = d, im_mtime = se_mtime e'\<rparr>])"
proof -
  have "f' = f"
    using saved_effect[OF assms(1)] saved_effect[OF assms(2)] assms(3-6)
    by (simp add: snapshot_filename_def)
  with saved_effect[OF assms(1)] saved_effect[OF assms(2)] show ?thesis
    by (auto simp: write_image_def filter_empty_conv)
qed

definition example_camera :: snapshot_env where
  "example_camera = \<lparr>se_mock = False, se_ffmpeg = (\<lambda>_. NotFound), se_http = (\<lambda>u _. Some (encode u)), se_dir = ''snap'',
     se_write = True, se_db = True, se_redis = True, se_timestamp = ''20260101_080000'', se_mtime = 5\<rparr>"

definition example_shot :: "string \<Rightarrow> snapshot_args" where
  "example_shot url = \<lparr>sa_gate_id = ''OUT1'', sa_camera_url = url, sa_transaction_id = Some 1, sa_snapshot_type = ''exit'',
     sa_camera_label = None, sa_camera_username = None, sa_camera_password = None, sa_camera_auth_type = ''none''\<rparr>"

lemmas example_shot_defs = example_shot_def example_camera_def example_maint_def

lemma example_shot_saved:
  assumes "mt_store m = example_store" "url \<in> {''http://a'', ''http://b''}"
  shows "\<exists>f n m'. take_snapshot (example_shot url) example_camera m = (SnapshotSaved f n (Some (mt_next_snapshot m)), m')"
proof -
  have "find_gate example_store ''OUT1'' = Inr (Some example_gate)"
    by (simp add: find_gate_def example_defs)
  then show ?thesis using assms
    by (auto simp: take_snapshot_def capture_image_def example_shot_defs save_snapshot_record_def lower_def Let_def)
qed

theorem snapshot_overwritten_witness:
  "\<exists>f n i m1 n' i' m2. take_snapshot (example_shot ''http://a'') example_camera (example_maint example_store) =
      (SnapshotSaved f n i, m1) \<and>
    take_snapshot (example_shot ''http://b'') example_camera m1 = (SnapshotSaved f n' i', m2) \<and>
    map im_data (filter (\<lambda>im. im_name im = f) (mt_images m2)) = [encode ''http://b''] \<and>
    map sn_filename (mt_snapshots m2) = [f, f]"
proof -
  obtain f n m1 where 1: "take_snapshot (example_shot ''http://a'') example_camera (example_maint example_store) =
      (SnapshotSaved f n (Some 1), m1)"
    using example_shot_saved[of "example_maint example_store" "''http://a''"] by (auto simp: example_maint_def)
  then have "mt_store m1 = example_store" using saved_effect[OF 1] by (simp add: example_maint_def)
  from example_shot_saved[OF this, of "''http://b''"] obtain f' n' m2 where
    2: "take_snapshot (example_shot ''http://b'') example_camera m1 = (SnapshotSaved f' n' (Some (mt_next_snapshot m1)), m2)"
    by auto
  have "capture_image (example_shot ''http://b'') example_camera = Some (encode ''http://b'')"
    by (simp add: capture_image_def example_shot_defs lower_def)
  with snapshot_overwritten[OF 1 2] saved_effect[OF 1] saved_effect[OF 2] 1 2 show ?thesis
    by (fastforce simp: example_shot_defs snapshot_filename_def)
qed

text \<open>
  A snapshot of an exit is linked to its transaction when it is the first and never replaces an
  earlier one; no row of the store changes.
\<close>

theorem snapshot_linked:
  assumes "take_snapshot a e m = (SnapshotSaved f n (Some i), m')" "sa_transaction_id a = Some tid" "tid \<noteq> 0"
    "get_tx (mt_store m) tid = Some t" "sa_snapshot_type a = ''exit''"
  shows "mt_store m' = mt_store m \<and> mt_entry_snapshot m' = mt_entry_snapshot m \<and>
    mt_exit_snapshot m' = (mt_exit_snapshot m)(tid := (case mt_exit_snapshot m tid of None \<Rightarrow> Some i | Some j \<Rightarrow> Some j))"
  using assms(2-5) saved_effect[OF assms(1)]
  by (cases rule: take_snapshot_saved[OF assms(1)])
    (auto simp: save_snapshot_record_def link_snapshot_def Let_def fun_eq_iff
      split: if_splits sum.splits option.splits)

theorem snapshot_linked_witness:
  "\<exists>f n i m'. take_snapshot (example_shot ''http://a'') example_camera (example_maint example_store) =
      (SnapshotSaved f n (Some i), m') \<and> mt_exit_snapshot m' 1 = Some i"
proof -
  obtain f n m1 where 1: "take_snapshot (example_shot ''http://a'') example_camera (example_maint example_store) =
      (SnapshotSaved f n (Some 1), m1)"
    using example_shot_saved[of "example_maint example_store" "''http://a''"] by (auto simp: example_maint_def)
  have "get_tx (mt_store (example_maint example_store)) 1 = Some example_tx"
    by (simp add: example_maint_def get_tx_def example_defs)
  from snapshot_linked[OF 1 _ _ this] 1 show ?thesis
    by (auto simp: example_shot_def example_maint_def)
qed

end
