(* ===== verification/Reports.thy ===== *)
theory Reports
  imports Composition
begin

text \<open>
  What is read off the tables: the reports (\<open>api/app/routes/reports.py\<close>), the booth's summary of its
  shift (\<open>api/app/routes/pos.py\<close>) and the filters of the transaction list
  (\<open>api/app/routes/transactions.py\<close>).

  Dates are day numbers, 0 being 1 January 1970, a Thursday. \<open>midnight\<close> is the instant at which a
  day starts, in the time zone of the database's session or of the facility. Averages are exact;
  \<open>round_to\<close> is Python's rounding to two places.
\<close>

section \<open>Sums over rows\<close>

definition sum_of :: "('a \<Rightarrow> int) \<Rightarrow> 'a list \<Rightarrow> int" where
  "sum_of f xs = sum_list (map f xs)"

definition fee_of :: "ptx \<Rightarrow> int" where
  "fee_of t = (case tx_fee t of None \<Rightarrow> 0 | Some f \<Rightarrow> f)"

definition fee_by :: "string \<Rightarrow> ptx \<Rightarrow> int" where
  "fee_by k t = (if tx_payment_method t = Some k then fee_of t else 0)"

definition has_status :: "string \<Rightarrow> ptx \<Rightarrow> int" where
  "has_status st t = (if tx_status t = st then 1 else 0)"

section \<open>The summary\<close>

record summary_report =
  sr_total_transactions :: int
  sr_total_revenue :: int
  sr_cash_revenue :: int
  sr_emoney_revenue :: int
  sr_rfid_revenue :: int
  sr_total_vehicles :: int
  sr_average_fee :: rat
  sr_active_transactions :: int
  sr_completed_transactions :: int

definition entered_between :: "(int \<Rightarrow> time) \<Rightarrow> int \<Rightarrow> int \<Rightarrow> ptx \<Rightarrow> bool" where
  "entered_between midnight date_from date_to t \<longleftrightarrow>
     midnight date_from \<le> tx_entry_time t \<and> tx_entry_time t < midnight date_to"

definition get_summary_report ::
  "(rat \<Rightarrow> rat) \<Rightarrow> (int \<Rightarrow> time) \<Rightarrow> int \<Rightarrow> int \<Rightarrow> store \<Rightarrow> summary_report" where
  "get_summary_report round_to midnight date_from date_to s =
     (let ts = filter (entered_between midnight date_from date_to) (txs s);
          total = int (length ts);
          revenue = sum_of fee_of ts
      in \<lparr>sr_total_transactions = total, sr_total_revenue = revenue,
          sr_cash_revenue = sum_of (fee_by ''CASH'') ts, sr_emoney_revenue = sum_of (fee_by ''EMONEY'') ts,
          sr_rfid_revenue = sum_of (fee_by ''RFID_MEMBER'') ts, sr_total_vehicles = total,
          sr_average_fee = round_to (if 0 < total then of_int revenue / of_int total else 0),
          sr_active_transactions = sum_of (has_status ''ACTIVE'') ts,
          sr_completed_transactions = sum_of (has_status ''COMPLETED'') ts\<rparr>)"

definition get_daily_report where
  "get_daily_report round_to midnight d = get_summary_report round_to midnight d (d + 1)"

text \<open>\<open>date.weekday()\<close>: Monday is 0. \<open>new_year\<close> is the first day of the year.\<close>

definition weekday :: "int \<Rightarrow> int" where
  "weekday d = (d + 3) mod 7"

definition week_monday :: "int \<Rightarrow> int \<Rightarrow> int" where
  "week_monday new_year week = new_year + ((week - 1) * 7 - weekday new_year)"

definition get_weekly_report where
  "get_weekly_report round_to midnight new_year week =
     get_summary_report round_to midnight (week_monday new_year week) (week_monday new_year week + 7)"

text \<open>\<open>first\<close> is the first day of the month, \<open>monthrange\<close> its number of days.\<close>

definition get_monthly_report where
  "get_monthly_report round_to midnight first monthrange =
     get_summary_report round_to midnight first (first + (monthrange - 1) + 1)"

section \<open>The e-money report\<close>

record emoney_report =
  er_total :: int
  er_total_deducted :: int
  er_success_count :: int
  er_failed_count :: int
  er_lost_contact_count :: int
  er_average_deduct_amount :: rat
  er_unsettled_count :: int
  er_settled_count :: int

definition get_emoney_report ::
  "(rat \<Rightarrow> rat) \<Rightarrow> (int \<Rightarrow> time) \<Rightarrow> int \<Rightarrow> int \<Rightarrow> store \<Rightarrow> emoney_report" where
  "get_emoney_report round_to midnight date_from date_to s =
     (let es = filter (\<lambda>e. midnight date_from \<le> em_created_at e \<and> em_created_at e < midnight date_to) (emoney_txs s);
          total = int (length es);
          deducted = sum_of em_amount_deducted es;
          with_status = (\<lambda>sts. int (length (filter (\<lambda>e. em_status e \<in> set sts) es)))
      in \<lparr>er_total = total, er_total_deducted = deducted, er_success_count = with_status [''SUCCESS''],
          er_failed_count = with_status [''FAILED'', ''CORRECTION_FAILED''],
          er_lost_contact_count = with_status [''LOST_CONTACT''],
          er_average_deduct_amount = round_to (if 0 < total then of_int deducted / of_int total else 0),
          er_unsettled_count = int (length (filter (\<lambda>e. em_settlement_batch_id e = None \<and> em_status e = ''SUCCESS'') es)),
          er_settled_count = int (length (filter (\<lambda>e. em_settlement_batch_id e \<noteq> None) es))\<rparr>)"

section \<open>The shift report\<close>

text \<open>
  One item for every shift, day of entry and operator that has transactions; \<open>day_of\<close> is the day an
  instant falls on. The names joined to it are left out.
\<close>

record shift_item =
  si_shift_id :: int
  si_date :: int
  si_operator_id :: "int option"
  si_total_transactions :: int
  si_total_revenue :: int
  si_cash_revenue :: int
  si_emoney_revenue :: int
  si_rfid_revenue :: int
  si_active_transactions :: int
  si_completed_transactions :: int
  si_average_fee :: rat

definition shift_key :: "(time \<Rightarrow> int) \<Rightarrow> ptx \<Rightarrow> int \<times> int \<times> int option" where
  "shift_key day_of t = (the (tx_shift_id t), day_of (tx_entry_time t), tx_operator_id t)"

definition shift_rows :: "(time \<Rightarrow> int) \<Rightarrow> int \<Rightarrow> int \<Rightarrow> int option \<Rightarrow> store \<Rightarrow> ptx list" where
  "shift_rows day_of date_from date_to shift_id s =
     filter (\<lambda>t. (case tx_shift_id t of
                    None \<Rightarrow> False
                  | Some i \<Rightarrow> i \<in> sh_id ` set (shifts s) \<and>
                      (case shift_id of None \<Rightarrow> True | Some j \<Rightarrow> j = 0 \<or> i = j)) \<and>
                 date_from \<le> day_of (tx_entry_time t) \<and> day_of (tx_entry_time t) \<le> date_to) (txs s)"

definition shift_item_of :: "(rat \<Rightarrow> rat) \<Rightarrow> (time \<Rightarrow> int) \<Rightarrow> ptx list \<Rightarrow> int \<times> int \<times> int option \<Rightarrow> shift_item" where
  "shift_item_of round_to day_of ts key =
     (let g = filter (\<lambda>t. shift_key day_of t = key) ts
      in \<lparr>si_shift_id = fst key, si_date = fst (snd key), si_operator_id = snd (snd key),
          si_total_transactions = int (length g), si_total_revenue = sum_of fee_of g,
          si_cash_revenue = sum_of (fee_by ''CASH'') g, si_emoney_revenue = sum_of (fee_by ''EMONEY'') g,
          si_rfid_revenue = sum_of (fee_by ''RFID_MEMBER'') g,
          si_active_transactions = sum_of (has_status ''ACTIVE'') g,
          si_completed_transactions = sum_of (has_status ''COMPLETED'') g,
          si_average_fee = round_to (of_int (sum_of fee_of g) / of_int (max (int (length g)) 1))\<rparr>)"

text \<open>The items, the total revenue and the total number of transactions.\<close>

definition get_shift_report ::
  "(rat \<Rightarrow> rat) \<Rightarrow> (time \<Rightarrow> int) \<Rightarrow> int \<Rightarrow> int \<Rightarrow> int option \<Rightarrow> store \<Rightarrow> shift_item list \<times> int \<times> int" where
  "get_shift_report round_to day_of date_from date_to shift_id s =
     (let ts = shift_rows day_of date_from date_to shift_id s;
          items = map (shift_item_of round_to day_of ts) (remdups (map (shift_key day_of) ts))
      in (items, sum_of si_total_revenue items, sum_of si_total_transactions items))"

section \<open>The booth's summary\<close>

text \<open>\<open>today_start\<close> is midnight of the day; \<open>sub\<close> the operator of the token, when it is a number.\<close>

definition in_drawer :: "time \<Rightarrow> int option \<Rightarrow> ptx \<Rightarrow> bool" where
  "in_drawer today_start sub t \<longleftrightarrow>
     (case tx_exit_time t of None \<Rightarrow> False | Some x \<Rightarrow> today_start \<le> x) \<and>
     tx_payment_method t = Some ''CASH'' \<and> (sub = None \<or> tx_operator_id t = sub)"

record shift_summary =
  ss_shift :: "shift option"
  ss_cash_collected :: int
  ss_transaction_count :: int

definition get_shift_summary :: "time \<Rightarrow> time \<Rightarrow> int option \<Rightarrow> store \<Rightarrow> shift_summary" where
  "get_shift_summary now today_start sub s =
     (let ts = filter (in_drawer today_start sub) (txs s)
      in \<lparr>ss_shift = get_current_shift s now,
          ss_cash_collected = sum_of (\<lambda>t. case tx_paid_amount t of None \<Rightarrow> 0 | Some p \<Rightarrow> p) ts,
          ss_transaction_count = int (length ts)\<rparr>)"

section \<open>The list of transactions\<close>

text \<open>
  The filters of the list but its text search, with the facility's own midnights, and the page; entries at
  one instant have no order.
\<close>

definition list_transactions ::
  "(int \<Rightarrow> time) \<Rightarrow> nat \<Rightarrow> nat \<Rightarrow> string option \<Rightarrow> string option \<Rightarrow> int option \<Rightarrow> int option \<Rightarrow> store \<Rightarrow>
   ptx list \<times> int" where
  "list_transactions midnight skip limit status_filter payment_method date_from date_to s =
     (let ts = rev (sort_key tx_entry_time (filter (\<lambda>t.
            (case status_filter of None \<Rightarrow> True | Some f \<Rightarrow> f = [] \<or> tx_status t = upper f) \<and>
            (case payment_method of None \<Rightarrow> True | Some f \<Rightarrow> f = [] \<or> tx_payment_method t = Some (upper f)) \<and>
            (case date_from of None \<Rightarrow> True | Some d \<Rightarrow> midnight d \<le> tx_entry_time t) \<and>
            (case date_to of None \<Rightarrow> True | Some d \<Rightarrow> tx_entry_time t < midnight (d + 1))) (txs s)))
      in (take limit (drop skip ts), int (length ts)))"

section \<open>Sums\<close>

lemma sum_of_simps [simp]:
  "sum_of f [] = 0" "sum_of f (x # xs) = f x + sum_of f xs" "sum_of f (xs @ ys) = sum_of f xs + sum_of f ys"
  by (simp_all add: sum_of_def)

lemma sum_of_filter: "sum_of f (filter P xs) = sum_of (\<lambda>x. if P x then f x else 0) xs"
  by (induction xs) auto

lemma length_filter_sum: "int (length (filter P xs)) = sum_of (\<lambda>x. if P x then 1 else 0) xs"
  by (induction xs) auto

lemma sum_of_add: "sum_of (\<lambda>x. f x + g x) xs = sum_of f xs + sum_of g xs"
  by (induction xs) auto

lemma sum_of_cong: "(\<And>x. x \<in> set xs \<Longrightarrow> f x = g x) \<Longrightarrow> sum_of f xs = sum_of g xs"
  by (induction xs) auto

lemma sum_of_replace:
  "distinct (map tx_id ts) \<Longrightarrow> t \<in> set ts \<Longrightarrow> tx_id u = tx_id t \<Longrightarrow>
     sum_of g (replace_tx u ts) = sum_of g ts - g t + g u"
proof (induction ts)
  case (Cons a ts)
  show ?case
  proof (cases "tx_id a = tx_id t")
    case True
    with Cons.prems have "a = t" by auto
    moreover have "sum_of g (replace_tx u ts) = sum_of g ts"
    proof -
      have "replace_tx u ts = ts"
        unfolding replace_tx_def using Cons.prems(1,3) True by (intro map_idI) (auto simp: image_iff)
      then show ?thesis by simp
    qed
    ultimately show ?thesis using Cons.prems(3) by (simp add: replace_tx_def)
  next
    case False
    with Cons show ?thesis by (auto simp: replace_tx_def)
  qed
qed simp

text \<open>A partition into groups adds up.\<close>

lemma sum_of_groups:
  assumes "distinct ks" "\<And>x. x \<in> set xs \<Longrightarrow> key x \<in> set ks"
  shows "sum_of (\<lambda>k. sum_of f (filter (\<lambda>x. key x = k) xs)) ks = sum_of f xs"
  using assms(2)
proof (induction xs)
  case Nil
  show ?case by (induction ks) auto
next
  case (Cons x xs)
  have "sum_of (\<lambda>k. sum_of f (filter (\<lambda>y. key y = k) (x # xs))) ks =
      sum_of (\<lambda>k. (if k = key x then f x else 0) + sum_of f (filter (\<lambda>y. key y = k) xs)) ks"
    by (rule sum_of_cong) auto
  also have "\<dots> = sum_of (\<lambda>k. if k = key x then f x else 0) ks + sum_of f xs"
    using Cons by (simp add: sum_of_add)
  also have "sum_of (\<lambda>k. if k = key x then f x else 0) ks = f x"
  proof -
    have "distinct ks \<Longrightarrow> sum_of (\<lambda>k. if k = z then f x else 0) ks = (if z \<in> set ks then f x else 0)" for z
      by (induction ks) auto
    with assms(1) Cons.prems show ?thesis by simp
  qed
  finally show ?case by simp
qed

section \<open>The figures\<close>

text \<open>
  C30. On every store the system reaches, a summary balances over any range of days: the revenue is what
  was taken in cash, by e-money and by card, and every transaction is open or completed.
\<close>

theorem report_balances:
  assumes "rows_sound (db (sy_api y))" "s = db (sy_api (fold system_step ops y))"
    "r = get_summary_report round_to midnight date_from date_to s"
  shows "sr_total_revenue r = sr_cash_revenue r + sr_emoney_revenue r + sr_rfid_revenue r \<and>
    sr_total_transactions r = sr_active_transactions r + sr_completed_transactions r"
proof -
  define ts where "ts = filter (entered_between midnight date_from date_to) (txs s)"
  have "rows_sound s" using sound.system_run_rel[of y ops] assms(1,2) by simp
  then have sound: "row_sound t" if "t \<in> set ts" for t
    using that by (auto simp: rows_sound_def list_all_iff ts_def)
  have "sum_of fee_of ts = sum_of (\<lambda>t. fee_by ''CASH'' t + fee_by ''EMONEY'' t + fee_by ''RFID_MEMBER'' t) ts"
    by (rule sum_of_cong) (use sound in \<open>auto simp: row_sound_def fee_by_def\<close>)
  moreover have "int (length ts) = sum_of (\<lambda>t. has_status ''ACTIVE'' t + has_status ''COMPLETED'' t) ts"
  proof -
    have "int (length ts) = sum_of (\<lambda>t. 1) ts" by (induction ts) auto
    also have "\<dots> = sum_of (\<lambda>t. has_status ''ACTIVE'' t + has_status ''COMPLETED'' t) ts"
      by (rule sum_of_cong) (use sound in \<open>auto simp: row_sound_def has_status_def\<close>)
    finally show ?thesis .
  qed
  ultimately show ?thesis
    by (simp add: assms(3) get_summary_report_def Let_def sum_of_add flip: ts_def)
qed

definition utc_midnight :: "int \<Rightarrow> time" where
  "utc_midnight d = d * us_per_day"

definition example_system :: system where
  "example_system = \<lparr>sy_api = example_api, sy_streams = [], sy_running = True, sy_listening = True,
     sy_bank = example_bank\<rparr>"

theorem report_balances_witness:
  "let r = get_summary_report id utc_midnight 0 1 (db (sy_api (fold system_step
       [Serve (Cash example_cash None None example_clock)] example_system)))
   in sr_total_revenue r = sr_cash_revenue r + sr_emoney_revenue r + sr_rfid_revenue r"
proof -
  have "rows_sound (db (sy_api example_system))"
    by (simp add: rows_sound_def row_sound_def example_system_def example_api_def example_defs)
  from report_balances[OF this refl refl] show ?thesis unfolding Let_def by (rule conjunct1)
qed

text \<open>
  The weekly reports of a year tile the days from the Monday of its first week: weeks start on a
  Monday, and the counts and sums of the first weeks are those of one report over all their days.
\<close>

theorem weeks_tile:
  assumes "\<And>d e. d \<le> e \<Longrightarrow> midnight d \<le> midnight e"
  shows "weekday (week_monday new_year 1) = 0 \<and> week_monday new_year 1 \<le> new_year \<and> new_year < week_monday new_year 1 + 7 \<and>
    (\<forall>fld \<in> {sr_total_transactions, sr_total_revenue, sr_cash_revenue, sr_emoney_revenue, sr_rfid_revenue,
        sr_active_transactions, sr_completed_transactions}.
      sum_of (\<lambda>w. fld (get_weekly_report round_to midnight new_year (int w + 1) s)) [0..<n] =
      fld (get_summary_report round_to midnight (week_monday new_year 1) (week_monday new_year 1 + 7 * int n) s))"
proof -
  define m where "m = week_monday new_year 1"
  have wk: "week_monday new_year (int w + 1) = m + 7 * int w" for w
    by (simp add: m_def week_monday_def)
  have cut: "sum_of g (filter (entered_between midnight m (m + 7 * int (Suc k))) xs) =
      sum_of g (filter (entered_between midnight m (m + 7 * int k)) xs) +
      sum_of g (filter (entered_between midnight (m + 7 * int k) (m + 7 * int k + 7)) xs)" for g k and xs :: "ptx list"
  proof -
    have "midnight m \<le> midnight (m + 7 * int k)" "midnight (m + 7 * int k) \<le> midnight (m + 7 * int k + 7)"
      by (simp_all add: assms)
    then show ?thesis
      by (induction xs) (auto simp: entered_between_def algebra_simps)
  qed
  have len: "int (length xs) = sum_of (\<lambda>_. 1) xs" for xs :: "ptx list" by (induction xs) auto
  have none: "filter (entered_between midnight m m) xs = []" for xs
    by (auto simp: entered_between_def filter_empty_conv)
  have "\<forall>fld \<in> {sr_total_transactions, sr_total_revenue, sr_cash_revenue, sr_emoney_revenue, sr_rfid_revenue,
        sr_active_transactions, sr_completed_transactions}.
      sum_of (\<lambda>w. fld (get_weekly_report round_to midnight new_year (int w + 1) s)) [0..<n] =
      fld (get_summary_report round_to midnight m (m + 7 * int n) s)"
  proof (induction n)
    case 0
    show ?case by (simp add: get_summary_report_def none)
  next
    case (Suc k)
    then show ?case
      by (simp add: get_weekly_report_def wk get_summary_report_def Let_def len cut del: of_nat_Suc)
  qed
  then show ?thesis
    unfolding m_def by (simp add: weekday_def week_monday_def) presburger
qed

text \<open>
  The totals of the shift report are the sums over the transactions it selects, whatever groups they
  fall into: those that carry a shift of the table, entered in the days asked for, the last included.
\<close>

theorem shift_report_totals:
  assumes "get_shift_report round_to day_of date_from date_to shift_id s = (items, revenue, number)"
  shows "revenue = sum_of fee_of (shift_rows day_of date_from date_to shift_id s) \<and>
    number = int (length (shift_rows day_of date_from date_to shift_id s)) \<and>
    list_all (\<lambda>it. 0 < si_total_transactions it) items"
proof -
  define ts where "ts = shift_rows day_of date_from date_to shift_id s"
  have key: "x \<in> set ts \<Longrightarrow> shift_key day_of x \<in> set (remdups (map (shift_key day_of) ts))" for x by simp
  note groups = sum_of_groups[where xs = ts and key = "shift_key day_of", OF distinct_remdups key]
  have comp: "sum_of f (map g xs) = sum_of (\<lambda>x. f (g x)) xs" for f and g :: "'b \<Rightarrow> 'a" and xs
    by (simp add: sum_of_def comp_def)
  have len: "int (length xs) = sum_of (\<lambda>_. 1) xs" for xs :: "ptx list" by (induction xs) auto
  have pos: "0 < sum_of (\<lambda>_. 1) (filter P ts)" if "x \<in> set ts" "P x" for P x
    using that unfolding len[symmetric] by (auto simp: filter_empty_conv)
  show ?thesis
    using assms groups[of fee_of] groups[of "\<lambda>_. 1"]
    by (auto simp: get_shift_report_def Let_def comp shift_item_of_def len list_all_iff pos simp flip: ts_def)
qed

text \<open>
  The cash the booth's summary reports as collected grows by what the customer handed over, the change
  that was given back included: by more than the fee whenever there was change.
\<close>

theorem drawer_counts_change:
  assumes "store_ok s"
    "process_cash_payment gid out b c p paid op v t_fee t_shift t_exit s = (Inr (t', fee, change), s')"
    "today_start \<le> t_exit"
  shows "ss_cash_collected (get_shift_summary now today_start op s') =
      ss_cash_collected (get_shift_summary now today_start op s) + fee + change \<and>
    ss_transaction_count (get_shift_summary now today_start op s') =
      ss_transaction_count (get_shift_summary now today_start op s) + 1 \<and> tx_fee t' = Some fee"
proof -
  obtain t where t: "find_active_transaction s b c p = Some t"
    using assms(2) by (cases "find_active_transaction s b c p") (auto simp: process_cash_payment_def)
  from find_active_Some[OF t] have mem: "t \<in> set (txs s)" "is_active_tx t" by blast+
  then have "tx_exit_time t = None" "distinct (map tx_id (txs s))"
    using assms(1) by (auto simp: store_ok_def row_ok_def)
  then have old: "\<not> in_drawer today_start op t" by (simp add: in_drawer_def)
  have new: "txs s' = replace_tx t' (txs s)" "tx_id t' = tx_id t" "tx_fee t' = Some fee"
      "tx_paid_amount t' = Some paid" "in_drawer today_start op t'" "change = paid - fee"
    using assms(2)[symmetric] assms(3)
    by (auto simp: cash_payment_eq[OF assms(1) t] Let_def completed_tx_def in_drawer_def with_vehicle_type_def
        split: sum.splits if_splits)
  note sum = sum_of_replace[OF \<open>distinct (map tx_id (txs s))\<close> mem(1) new(2)]
  show ?thesis
    by (simp add: get_shift_summary_def Let_def sum_of_filter length_filter_sum new sum old)
qed

theorem drawer_counts_change_witness:
  "\<exists>t' s'. process_cash_payment ''OUT1'' 7 (Some ''B001'') None None 20000 (Some 4) None
      (3 * us_per_hour) 0 (3 * us_per_hour) example_store = (Inr (t', 10000, 10000), s') \<and> tx_fee t' = Some 10000 \<and>
    ss_cash_collected (get_shift_summary 0 0 (Some 4) s') = 20000"
proof -
  obtain t' s' where r: "process_cash_payment ''OUT1'' 7 (Some ''B001'') None None 20000 (Some 4) None
      (3 * us_per_hour) 0 (3 * us_per_hour) example_store = (Inr (t', 10000, 10000), s')"
    using example_cash_paid by blast
  have "ss_cash_collected (get_shift_summary 0 0 (Some 4) example_store) = 0"
    by (simp add: get_shift_summary_def in_drawer_def example_defs)
  with drawer_counts_change[OF example_store_ok r, of 0 0] r show ?thesis by auto
qed

theorem shift_report_totals_witness:
  "let (items, revenue, number) = get_shift_report id (\<lambda>t. t div us_per_day) 0 0 None
      (example_store\<lparr>txs := [example_tx\<lparr>tx_shift_id := Some 3, tx_fee := Some 5000\<rparr>, example_tx],
         shifts := [\<lparr>sh_id = 3, sh_start_time = 0, sh_end_time = 5, sh_is_active = True\<rparr>]\<rparr>)
   in revenue = 5000 \<and> number = 1"
proof -
  obtain items revenue number where r: "get_shift_report id (\<lambda>t. t div us_per_day) 0 0 None
      (example_store\<lparr>txs := [example_tx\<lparr>tx_shift_id := Some 3, tx_fee := Some 5000\<rparr>, example_tx],
         shifts := [\<lparr>sh_id = 3, sh_start_time = 0, sh_end_time = 5, sh_is_active = True\<rparr>]\<rparr>) = (items, revenue, number)"
    by (metis prod_cases3)
  from shift_report_totals[OF r] r show ?thesis
    by (simp add: shift_rows_def example_defs fee_of_def)
qed

theorem weeks_tile_witness:
  "sum_of (\<lambda>w. sr_total_transactions (get_weekly_report id utc_midnight 0 (int w + 1) example_store)) [0..<1] = 1 \<and>
   sr_total_transactions (get_summary_report id utc_midnight (week_monday 0 1) (week_monday 0 1 + 7) example_store) = 1"
proof -
  have mono: "utc_midnight d \<le> utc_midnight e" if "d \<le> e" for d e using that by (simp add: utc_midnight_def)
  have one: "sr_total_transactions (get_weekly_report id utc_midnight 0 (int 0 + 1) example_store) = 1"
    by (simp add: get_weekly_report_def get_summary_report_def week_monday_def weekday_def entered_between_def
        utc_midnight_def example_defs Let_def)
  from weeks_tile[OF mono, where new_year = 0 and round_to = id and s = example_store and n = 1] one show ?thesis by simp
qed

end
