(* ===== verification/Registry.thy ===== *)
theory Registry
  imports Event_Consumer Booth_Bridge
begin

text \<open>
  The tables the administration edits and what is read off them while the system runs: the generic
  resources (\<open>api/app/routes/crud_factory.py\<close>), the gates with their manual control and the liveness
  map (\<open>api/app/routes/gates_unified.py\<close>), the booths with their heartbeat
  (\<open>api/app/routes/pos.py\<close>), and the end of the heartbeat at the booth
  (\<open>booth_bridge/main.py\<close>). The requests have passed their authentication.
\<close>

section \<open>Resources\<close>

text \<open>
  A table, the constraints of the database on its rows, the rows other tables refer to. The update's
  fields are a function on the row, the identity of the row not being one of them. What a hook of the
  router does comes after the commit.
\<close>

record 'r table =
  tb_rows :: "'r list"
  tb_next :: int

definition get_item :: "('r \<Rightarrow> int) \<Rightarrow> string \<Rightarrow> int \<Rightarrow> 'r table \<Rightarrow> py_exc + 'r" where
  "get_item rid detail i t =
     (case find (\<lambda>r. rid r = i) (tb_rows t) of
        None \<Rightarrow> Inl (HTTPException 404 detail)
      | Some r \<Rightarrow> Inr r)"

definition create_item :: "('r list \<Rightarrow> bool) \<Rightarrow> (int \<Rightarrow> 'r) \<Rightarrow> 'r table \<Rightarrow> (py_exc + 'r) \<times> 'r table" where
  "create_item constraints mk t =
     (let r = mk (tb_next t); rs = tb_rows t @ [r]
      in if constraints rs then (Inr r, \<lparr>tb_rows = rs, tb_next = tb_next t + 1\<rparr>)
         else (Inl (IntegrityError ''unique''), t\<lparr>tb_next := tb_next t + 1\<rparr>))"

definition update_item ::
  "('r \<Rightarrow> int) \<Rightarrow> string \<Rightarrow> ('r list \<Rightarrow> bool) \<Rightarrow> int \<Rightarrow> ('r \<Rightarrow> 'r) \<Rightarrow> 'r table \<Rightarrow> (py_exc + 'r) \<times> 'r table" where
  "update_item rid detail constraints i f t =
     (case get_item rid detail i t of
        Inl e \<Rightarrow> (Inl e, t)
      | Inr r \<Rightarrow>
        (let rs = map (\<lambda>q. if rid q = i then f q else q) (tb_rows t)
         in if constraints rs then (Inr (f r), t\<lparr>tb_rows := rs\<rparr>)
            else (Inl (IntegrityError ''unique''), t)))"

definition delete_item ::
  "('r \<Rightarrow> int) \<Rightarrow> string \<Rightarrow> (int \<Rightarrow> bool) \<Rightarrow> int \<Rightarrow> 'r table \<Rightarrow> (py_exc + unit) \<times> 'r table" where
  "delete_item rid detail used i t =
     (case get_item rid detail i t of
        Inl e \<Rightarrow> (Inl e, t)
      | Inr r \<Rightarrow>
        if used i then (Inl (IntegrityError ''foreign key''), t)
        else (Inr (), t\<lparr>tb_rows := filter (\<lambda>q. rid q \<noteq> i) (tb_rows t)\<rparr>))"

definition list_items :: "('r \<Rightarrow> bool) \<Rightarrow> nat \<Rightarrow> nat \<Rightarrow> 'r table \<Rightarrow> 'r list" where
  "list_items matches skip limit t = take limit (drop skip (filter matches (tb_rows t)))"

datatype 'r edit = Create "int \<Rightarrow> 'r" | Update int "'r \<Rightarrow> 'r" | Delete int

fun edit_step ::
  "('r \<Rightarrow> int) \<Rightarrow> ('r list \<Rightarrow> bool) \<Rightarrow> (int \<Rightarrow> bool) \<Rightarrow> 'r edit \<Rightarrow> 'r table \<Rightarrow> 'r table" where
  "edit_step rid constraints used (Create mk) t = snd (create_item constraints mk t)"
| "edit_step rid constraints used (Update i f) t = snd (update_item rid [] constraints i f t)"
| "edit_step rid constraints used (Delete i) t = snd (delete_item rid [] used i t)"

text \<open>The rows of a request: numbered by the table, the number not changed by an update.\<close>

fun edit_ok :: "('r \<Rightarrow> int) \<Rightarrow> 'r edit \<Rightarrow> bool" where
  "edit_ok rid (Create mk) \<longleftrightarrow> (\<forall>i. rid (mk i) = i)"
| "edit_ok rid (Update i f) \<longleftrightarrow> (\<forall>r. rid (f r) = rid r)"
| "edit_ok rid (Delete i) \<longleftrightarrow> True"

section \<open>Gates and booths\<close>

record gate_row = gate +
  gt_is_active :: bool
  gt_pos_id :: "int option"

record booth =
  po_id :: int
  po_name :: string
  po_code :: string
  po_ip_address :: "string option"
  po_is_active :: bool
  po_last_seen_at :: "time option"
  po_last_status :: json

text \<open>\<open>code\<close> is unique in both tables.\<close>

definition gate_constraints :: "gate_row list \<Rightarrow> bool" where
  "gate_constraints gs \<longleftrightarrow> distinct (map gate_code gs)"

definition booth_constraints :: "booth list \<Rightarrow> bool" where
  "booth_constraints ps \<longleftrightarrow> distinct (map po_code ps)"

text \<open>\<open>hw[k] = v\<close> of a dict.\<close>

fun dict_set :: "string \<Rightarrow> json \<Rightarrow> (string \<times> json) list \<Rightarrow> (string \<times> json) list" where
  "dict_set k v [] = [(k, v)]"
| "dict_set k v ((k', v') # kvs) = (if k' = k then (k, v) # kvs else (k', v') # dict_set k v kvs)"

text \<open>The keys \<open>gate:heartbeat:<code>\<close> with their expiry; \<open>None\<close> is a text that is no JSON.\<close>

record registry =
  rg_gates :: "gate_row table"
  rg_pos :: "booth table"
  rg_heartbeats :: "string \<Rightarrow> (json option \<times> time) option"

definition update_gate_lane_config :: "int \<Rightarrow> string \<Rightarrow> int option \<Rightarrow> registry \<Rightarrow> (py_exc + gate_row) \<times> registry" where
  "update_gate_lane_config i lane_type default_vehicle_type_id reg =
     (case get_item gate_id ''Gate not found'' i (rg_gates reg) of
        Inl e \<Rightarrow> (Inl e, reg)
      | Inr g \<Rightarrow>
        (case gate_hardware_config g of
           JObj hw \<Rightarrow>
             (case update_item gate_id ''Gate not found'' gate_constraints i
                (\<lambda>g. g\<lparr>gate_hardware_config := JObj (dict_set ''default_vehicle_type_id''
                    (jint_opt default_vehicle_type_id) (dict_set ''lane_type'' (JStr lane_type) hw))\<rparr>)
                (rg_gates reg) of
                (r, t) \<Rightarrow> (r, reg\<lparr>rg_gates := t\<rparr>))
         | _ \<Rightarrow> (Inl TypeError, reg)))"

text \<open>Manual control. \<open>Some\<close> is the gate the command was sent to.\<close>

definition open_gate :: "outside \<Rightarrow> int \<Rightarrow> string \<Rightarrow> registry \<Rightarrow> site \<Rightarrow> (py_exc + string) \<times> site" where
  "open_gate out i reason reg w =
     (case get_item gate_id ''Gate not found'' i (rg_gates reg) of
        Inl e \<Rightarrow> (Inl e, w)
      | Inr g \<Rightarrow>
        if \<not> gt_is_active g then (Inl (HTTPException 400 ''Gate is not active''), w)
        else case publish_command out (OpenGateCommand (gate_code g) None reason) w of
               (Inl e, w) \<Rightarrow> (Inl e, w)
             | (Inr _, w) \<Rightarrow> (Inr (gate_code g), w))"

definition close_gate :: "outside \<Rightarrow> int \<Rightarrow> string \<Rightarrow> registry \<Rightarrow> site \<Rightarrow> (py_exc + string) \<times> site" where
  "close_gate out i reason reg w =
     (case get_item gate_id ''Gate not found'' i (rg_gates reg) of
        Inl e \<Rightarrow> (Inl e, w)
      | Inr g \<Rightarrow>
        if \<not> gt_is_active g then (Inl (HTTPException 400 ''Gate is not active''), w)
        else if gate_relay_mode g \<noteq> ''DUAL''
        then (Inl (HTTPException 400 ''Gate does not support close command (relay_mode must be DUAL)''), w)
        else case publish_command out (CloseGateCommand (gate_code g) reason) w of
               (Inl e, w) \<Rightarrow> (Inl e, w)
             | (Inr _, w) \<Rightarrow> (Inr (gate_code g), w))"

section \<open>Liveness\<close>

record gate_status =
  gs_code :: string
  gs_direction :: string
  gs_online :: bool
  gs_state :: json
  gs_controller_ok :: json
  gs_last_seen :: json

definition OUT_STALE :: time where "OUT_STALE = 60 * us_per_second"

definition out_status :: "time \<Rightarrow> registry \<Rightarrow> gate_row \<Rightarrow> gate_status" where
  "out_status now reg g =
     (let last_seen = (case gt_pos_id g of
            None \<Rightarrow> None
          | Some i \<Rightarrow> (case find (\<lambda>p. po_id p = i) (tb_rows (rg_pos reg)) of
              None \<Rightarrow> None | Some p \<Rightarrow> po_last_seen_at p))
      in \<lparr>gs_code = gate_code g, gs_direction = gate_direction g,
          gs_online = (case last_seen of None \<Rightarrow> False | Some t \<Rightarrow> now - t \<le> OUT_STALE),
          gs_state = JNull, gs_controller_ok = JNull, gs_last_seen = jiso_opt last_seen\<rparr>)"

text \<open>
  Only the keys of IN gates are fetched. A text that is no JSON counts as an empty object; another value
  than an object has no \<open>get\<close>.
\<close>

definition in_status :: "time \<Rightarrow> registry \<Rightarrow> gate_row \<Rightarrow> py_exc + gate_status" where
  "in_status now reg g =
     (let status = (\<lambda>online state ok seen. \<lparr>gs_code = gate_code g, gs_direction = gate_direction g,
            gs_online = online, gs_state = state, gs_controller_ok = ok, gs_last_seen = seen\<rparr>)
      in case (if gate_direction g = ''IN'' then rg_heartbeats reg (gate_code g) else None) of
           None \<Rightarrow> Inr (status False JNull JNull JNull)
         | Some (raw, expiry) \<Rightarrow>
           if expiry \<le> now then Inr (status False JNull JNull JNull)
           else case (case raw of None \<Rightarrow> JObj [] | Some j \<Rightarrow> j) of
                  JObj kvs \<Rightarrow> (let get = (\<lambda>k. case map_of kvs k of None \<Rightarrow> JNull | Some v \<Rightarrow> v)
                    in Inr (status True (get ''state'') (get ''controller_ok'') (get ''ts'')))
                | _ \<Rightarrow> Inl AttributeError)"

definition gate_status_of :: "time \<Rightarrow> registry \<Rightarrow> gate_row \<Rightarrow> py_exc + gate_status" where
  "gate_status_of now reg g =
     (if gate_direction g = ''OUT'' then Inr (out_status now reg g) else in_status now reg g)"

fun sequence_results :: "(py_exc + 'a) list \<Rightarrow> py_exc + 'a list" where
  "sequence_results [] = Inr []"
| "sequence_results (r # rs) =
     (case r of Inl e \<Rightarrow> Inl e
      | Inr x \<Rightarrow> (case sequence_results rs of Inl e \<Rightarrow> Inl e | Inr xs \<Rightarrow> Inr (x # xs)))"

text \<open>\<open>redis\<close>: Redis answers.\<close>

definition gates_heartbeat_status :: "bool \<Rightarrow> time \<Rightarrow> registry \<Rightarrow> py_exc + gate_status list" where
  "gates_heartbeat_status redis now reg =
     (if \<not> redis then Inl RedisError
      else sequence_results (map (gate_status_of now reg) (filter gt_is_active (tb_rows (rg_gates reg)))))"

text \<open>What a booth says of itself.\<close>

record booth_report =
  bp_booth_code :: string
  bp_rfid_connected :: "bool option"
  bp_gate_connected :: "bool option"
  bp_ws_clients :: "int option"
  bp_last_card_at :: json
  bp_bridge_version :: "string option"

definition jbool_opt :: "bool option \<Rightarrow> json" where
  "jbool_opt b = (case b of None \<Rightarrow> JNull | Some x \<Rightarrow> JBool x)"

definition booth_heartbeat :: "booth_report \<Rightarrow> time \<Rightarrow> registry \<Rightarrow> (py_exc + time) \<times> registry" where
  "booth_heartbeat h now reg =
     (case scalar_one_or_none (filter (\<lambda>p. po_code p = bp_booth_code h) (tb_rows (rg_pos reg))) of
        Inl e \<Rightarrow> (Inl e, reg)
      | Inr None \<Rightarrow> (Inl (HTTPException 404 (''Unknown booth_code '' @ bp_booth_code h)), reg)
      | Inr (Some p) \<Rightarrow>
        (Inr now, reg\<lparr>rg_pos := (rg_pos reg)\<lparr>tb_rows := map (\<lambda>q. if po_id q = po_id p
           then q\<lparr>po_last_seen_at := Some now, po_last_status :=
             JObj [(''rfid_connected'', jbool_opt (bp_rfid_connected h)),
                   (''gate_connected'', jbool_opt (bp_gate_connected h)),
                   (''ws_clients'', jint_opt (bp_ws_clients h)), (''last_card_at'', bp_last_card_at h),
                   (''bridge_version'', jstr_opt (bp_bridge_version h))]\<rparr>
           else q) (tb_rows (rg_pos reg))\<rparr>\<rparr>))"

text \<open>\<open>X-Forwarded-For\<close>, then the address of the connection.\<close>

definition get_pos_by_ip :: "string option \<Rightarrow> string option \<Rightarrow> registry \<Rightarrow> py_exc + booth" where
  "get_pos_by_ip forwarded host reg =
     (let ip = (if truthy_str forwarded then strip (takeWhile (\<lambda>c. c \<noteq> CHR '','') (the forwarded))
                else case host of None \<Rightarrow> [] | Some h \<Rightarrow> h);
          ps = tb_rows (rg_pos reg)
      in if ip = [] then Inl (HTTPException 400 ''Could not determine client IP'')
         else case scalar_one_or_none (filter (\<lambda>p. po_ip_address p = Some ip) ps) of
                Inl e \<Rightarrow> Inl e
              | Inr (Some p) \<Rightarrow> Inr p
              | Inr None \<Rightarrow>
                (case (if ip \<in> {''127.0.0.1'', ''::1'', ''localhost''} then find po_is_active ps else None) of
                   None \<Rightarrow> Inl (HTTPException 404 (''No POS booth configured for IP '' @ ip))
                 | Some p \<Rightarrow> Inr p))"

section \<open>The booth's side\<close>

text \<open>The booth as its main task sees it: \<open>present\<close> is the probe of the opener's device.\<close>

record booth_main =
  bm_code :: "string option"
  bm_name :: json
  bm_live :: live_gate
  bm_present :: bool
  bm_poller :: "poller option"
  bm_clients :: nat
  bm_port :: int
  bm_version :: string

definition rfid_connected :: "booth_main \<Rightarrow> bool" where
  "rfid_connected b = (case bm_poller b of None \<Rightarrow> False | Some p \<Rightarrow> pl_connected p)"

definition gate_present :: "booth_main \<Rightarrow> bool" where
  "gate_present b \<longleftrightarrow> lg_opener (bm_live b) \<noteq> None \<and> bm_present b"

text \<open>An instant, in microseconds where the code posts a float of seconds.\<close>

definition last_card_at :: "booth_main \<Rightarrow> json" where
  "last_card_at b = (case bm_poller b of None \<Rightarrow> JNull | Some p \<Rightarrow> JInt (pl_last_card_at p))"

definition hardware_status :: "booth_main \<Rightarrow> json" where
  "hardware_status b =
     JObj [(''type'', JStr ''hardware_status''),
           (''rfid'', JObj [(''connected'', JBool (rfid_connected b))]),
           (''palang'', JObj [(''connected'', JBool (gate_present b))])]"

definition main_snapshot :: "booth_main \<Rightarrow> json" where
  "main_snapshot b =
     JObj [(''status'', JStr ''ok''),
           (''booth'', JObj [(''code'', jstr_opt (bm_code b)), (''name'', bm_name b)]),
           (''gate'', JObj [(''code'', jstr_opt (map_option go_gate_id (lg_opener (bm_live b)))),
              (''configured'', JBool (lg_opener (bm_live b) \<noteq> None)), (''present'', JBool (gate_present b))]),
           (''rfid'', JObj [(''connected'', JBool (rfid_connected b)), (''last_card_at'', last_card_at b)]),
           (''ws'', JObj [(''port'', JInt (bm_port b)), (''clients'', JInt (int (bm_clients b)))]),
           (''bridge_version'', JStr (bm_version b))]"

text \<open>What a booth with a code posts every fifteen seconds; without one the task returns.\<close>

definition send_heartbeats_turn :: "booth_main \<Rightarrow> booth_report option" where
  "send_heartbeats_turn b =
     (case bm_code b of
        None \<Rightarrow> None
      | Some code \<Rightarrow>
        if code = [] then None
        else Some \<lparr>bp_booth_code = code, bp_rfid_connected = Some (rfid_connected b),
               bp_gate_connected = Some (gate_present b), bp_ws_clients = Some (int (bm_clients b)),
               bp_last_card_at = last_card_at b, bp_bridge_version = Some (bm_version b)\<rparr>)"

text \<open>
  The local health server: what reading the request line gives, an overrun of the stream's buffer
  escaping the handler, then the status and, where there is one, the body.
\<close>

datatype first_line = NoLine | Overrun | Line string

definition handle_health :: "first_line \<Rightarrow> (py_exc + json) \<Rightarrow> (int \<times> json option) option" where
  "handle_health line snapshot =
     (case line of
        Overrun \<Rightarrow> None
      | NoLine \<Rightarrow> Some (400, None)
      | Line l \<Rightarrow>
        (case split_char (CHR '' '') l of
           meth # path # version # rest \<Rightarrow>
             if meth \<noteq> ''GET'' then Some (405, None)
             else if takeWhile (\<lambda>c. c \<noteq> CHR ''?'') path \<noteq> ''/health'' then Some (404, None)
             else (case snapshot of
                     Inl e \<Rightarrow> Some (500, Some (JObj [(''status'', JStr ''error''), (''error'', JStr ''snapshot_failed'')]))
                   | Inr j \<Rightarrow> Some (200, Some j))
         | _ \<Rightarrow> Some (400, None)))"

section \<open>Editing keeps the tables consistent\<close>

definition table_ok :: "('r \<Rightarrow> int) \<Rightarrow> ('r list \<Rightarrow> bool) \<Rightarrow> 'r table \<Rightarrow> bool" where
  "table_ok rid constraints t \<longleftrightarrow>
     distinct (map rid (tb_rows t)) \<and> (\<forall>r \<in> set (tb_rows t). rid r < tb_next t) \<and> constraints (tb_rows t)"

text \<open>Constraints that removing rows cannot break.\<close>

locale resource =
  fixes rid :: "'r \<Rightarrow> int" and constraints :: "'r list \<Rightarrow> bool"
  assumes constraints_filter: "constraints rs \<Longrightarrow> constraints (filter P rs)"
begin

lemma edit_keeps:
  assumes "table_ok rid constraints t" "edit_ok rid e"
  shows "table_ok rid constraints (edit_step rid constraints used e t)"
proof (cases e)
  case (Create mk)
  with assms show ?thesis by (fastforce simp: table_ok_def create_item_def Let_def)
next
  case (Update i f)
  have "map rid (map (\<lambda>q. if rid q = i then f q else q) rs) = map rid rs" for rs
    using assms(2) Update by auto
  with assms Update show ?thesis
    by (auto simp: table_ok_def update_item_def Let_def simp del: map_map split: sum.splits)
next
  case (Delete i)
  with assms show ?thesis
    by (auto simp: table_ok_def delete_item_def constraints_filter distinct_map_filter split: sum.splits)
qed

lemma edits_keep:
  "table_ok rid constraints t \<Longrightarrow> list_all (edit_ok rid) es \<Longrightarrow>
     table_ok rid constraints (fold (edit_step rid constraints used) es t)"
  by (induction es arbitrary: t) (simp_all add: edit_keeps)

end

interpretation gate_table: resource gate_id gate_constraints
  by unfold_locales (simp add: gate_constraints_def distinct_map_filter)

interpretation booth_table: resource po_id booth_constraints
  by unfold_locales (simp add: booth_constraints_def distinct_map_filter)

text \<open>So the lookup of a gate by its code, which every payment and event makes, finds at most one row.\<close>

lemma gate_lookup:
  assumes "table_ok gate_id gate_constraints t" "list_all (edit_ok gate_id) es"
  shows "\<exists>g. scalar_one_or_none (filter (\<lambda>g. gate_code g = code)
    (tb_rows (fold (edit_step gate_id gate_constraints used) es t))) = Inr g"
proof -
  have "distinct (map gate_code (tb_rows (fold (edit_step gate_id gate_constraints used) es t)))"
    using gate_table.edits_keep[OF assms] by (simp add: table_ok_def gate_constraints_def)
  from unique_key[OF this, of code] show ?thesis by (auto split: option.splits)
qed

definition example_gate_row :: "string \<Rightarrow> int \<Rightarrow> gate_row" where
  "example_gate_row code i = gate.extend (example_gate\<lparr>gate_code := code, gate_id := i\<rparr>)
     \<lparr>gt_is_active = True, gt_pos_id = Some 2\<rparr>"

section \<open>Manual control\<close>

text \<open>
  C32. An operator's opening reaches the gate. An active gate gets exactly one command, on the stream of its
  code; an unknown or inactive gate, or a Redis that does not take the command, is answered with an
  error and nothing is sent. At an entry gate, the daemon of that code, on a turn of its consumption
  loop that reads the command with the link up, writes the opening command of its relay first. (An exit
  gate has no such daemon: nothing reads its stream.)
\<close>

theorem manual_open:
  assumes "open_gate out i reason reg w = (r, w')"
  shows "case r of
      Inl e \<Rightarrow> w' = w
    | Inr code \<Rightarrow> \<exists>g flds. find (\<lambda>g. gate_id g = i) (tb_rows (rg_gates reg)) = Some g \<and> gt_is_active g \<and>
        code = gate_code g \<and> sv_streams w' = sv_streams w @ [(''parking.commands.'' @ code, flds)] \<and>
        sv_db w' = sv_db w \<and>
        (gate_direction g = ''IN'' \<longrightarrow> (\<forall>cfg es s mid. d_gate_id s = code \<and> d_redis s \<and> d_running s \<and>
           e_redis (es 2) \<and> e_msg (es 2) = Some (mid, flds) \<and>
           g_controller s = Some (TCompass Connected) \<and> e_peer (es 4) \<and> e_write (es 4) \<and>
           g_cb_open_until s \<le> e_now (es 4) \<longrightarrow>
           (\<exists>later. d_trace (snd (alone (consume_commands (handle_command cfg)) es s)) =
              later @ Wrote (open_command cfg) # d_trace s)))"
proof (cases "find (\<lambda>g. gate_id g = i) (tb_rows (rg_gates reg))")
  case None
  with assms show ?thesis by (auto simp: open_gate_def get_item_def)
next
  case (Some g)
  let ?flds = "\<lambda>stamp. command_fields stamp (OpenGateCommand (gate_code g) None reason)"
  have run: "run_command cfg (?flds stamp) = cmd_open_gate cfg" for cfg stamp
    by (simp add: command_fields_def model_dump_def run_command_def field_def Let_def)
  have "\<exists>later. d_trace (snd (alone (consume_commands (handle_command cfg)) es s)) =
      later @ Wrote (open_command cfg) # d_trace s"
    if "d_redis s" "d_running s" "e_redis (es 2)" "e_msg (es 2) = Some (mid, ?flds stamp)"
      "g_controller s = Some (TCompass Connected)" "e_peer (es 4)" "e_write (es 4)" "g_cb_open_until s \<le> e_now (es 4)"
    for cfg es mid stamp and s :: gate_in
    by (rule opening_written[OF that(1,2,5,8,3,4,6,7) run])
  with assms Some show ?thesis
    by (cases "gt_is_active g"; cases "o_xadd out (OpenGateCommand (gate_code g) None reason)")
      (auto simp: open_gate_def get_item_def publish_command_def)
qed

definition example_booth :: booth where
  "example_booth = \<lparr>po_id = 2, po_name = ''Exit'', po_code = ''B1'', po_ip_address = None, po_is_active = True,
     po_last_seen_at = None, po_last_status = JObj []\<rparr>"

definition example_registry :: registry where
  "example_registry = \<lparr>rg_gates = \<lparr>tb_rows = [example_gate_row ''OUT1'' 7], tb_next = 8\<rparr>,
     rg_pos = \<lparr>tb_rows = [example_booth], tb_next = 3\<rparr>, rg_heartbeats = (\<lambda>_. None)\<rparr>"

definition example_entrance :: registry where
  "example_entrance = example_registry\<lparr>rg_gates := \<lparr>tb_rows = [(example_gate_row ''IN1'' 7)\<lparr>gate_direction := ''IN''\<rparr>],
     tb_next = 8\<rparr>\<rparr>"

theorem manual_open_witness:
  "\<exists>w' flds. open_gate example_outside 7 ''test'' example_entrance example_site = (Inr ''IN1'', w') \<and>
     sv_streams w' = [(''parking.commands.IN1'', flds)] \<and>
     (\<exists>later. d_trace (snd (alone (consume_commands (handle_command example_config))
        (\<lambda>n. example_env\<lparr>e_msg := Some (''1-0'', flds)\<rparr>) (linked (init_gate ''IN1'')))) = later @ [Wrote cmd_trig1])"
proof -
  obtain r w' where r: "open_gate example_outside 7 ''test'' example_entrance example_site = (r, w')" by fastforce
  then have i: "r = Inr ''IN1''"
    by (simp add: open_gate_def get_item_def example_entrance_def example_gate_row_def gate.extend_def
        publish_command_def example_outside_def)
  have s: "d_gate_id (linked (init_gate ''IN1'')) = ''IN1''" "d_redis (linked (init_gate ''IN1''))"
    "d_running (linked (init_gate ''IN1''))" "g_controller (linked (init_gate ''IN1'')) = Some (TCompass Connected)"
    "g_cb_open_until (linked (init_gate ''IN1'')) = 0" "d_trace (linked (init_gate ''IN1'')) = []"
    "open_command example_config = cmd_trig1"
    by (simp_all add: linked_def init_gate_def open_command_def example_config_def)
  from manual_open[OF r] i obtain g flds where g: "find (\<lambda>g. gate_id g = 7) (tb_rows (rg_gates example_entrance)) = Some g"
    "sv_streams w' = [(''parking.commands.IN1'', flds)]"
    "gate_direction g = ''IN'' \<longrightarrow> (\<forall>cfg es s mid. d_gate_id s = ''IN1'' \<and> d_redis s \<and> d_running s \<and>
       e_redis (es 2) \<and> e_msg (es 2) = Some (mid, flds) \<and>
       g_controller s = Some (TCompass Connected) \<and> e_peer (es 4) \<and> e_write (es 4) \<and>
       g_cb_open_until s \<le> e_now (es 4) \<longrightarrow>
       (\<exists>later. d_trace (snd (alone (consume_commands (handle_command cfg)) es s)) =
          later @ Wrote (open_command cfg) # d_trace s))"
    by (auto simp: example_site_def)
  have "gate_direction g = ''IN''" using g(1) by (auto simp: example_entrance_def split: if_splits)
  with g(3)[rule_format, of "linked (init_gate ''IN1'')" "\<lambda>n. example_env\<lparr>e_msg := Some (''1-0'', flds)\<rparr>" "''1-0''"
      example_config] s
  have "\<exists>later. d_trace (snd (alone (consume_commands (handle_command example_config))
      (\<lambda>n. example_env\<lparr>e_msg := Some (''1-0'', flds)\<rparr>) (linked (init_gate ''IN1'')))) = later @ [Wrote cmd_trig1]"
    by (simp add: example_env_def)
  with r i g(2) show ?thesis by blast
qed

section \<open>Who is alive\<close>

definition heard :: "(booth_report \<times> time) list \<Rightarrow> registry \<Rightarrow> registry" where
  "heard = fold (\<lambda>(h, t) reg. snd (booth_heartbeat h t reg))"

definition booths_ok :: "registry \<Rightarrow> bool" where
  "booths_ok reg \<longleftrightarrow> table_ok po_id booth_constraints (rg_pos reg)"

lemma heartbeat_row:
  assumes "booths_ok reg" "p \<in> set (tb_rows (rg_pos reg))" "booth_heartbeat h t reg = (r, reg')"
  shows "booths_ok reg' \<and> (\<exists>p' \<in> set (tb_rows (rg_pos reg')). po_id p' = po_id p \<and> po_code p' = po_code p \<and>
    po_last_seen_at p' = (if bp_booth_code h = po_code p then Some t else po_last_seen_at p))"
proof -
  have d: "distinct (map po_code (tb_rows (rg_pos reg)))" "distinct (map po_id (tb_rows (rg_pos reg)))"
    using assms(1) by (simp_all add: booths_ok_def table_ok_def booth_constraints_def)
  show ?thesis
  proof (cases "find (\<lambda>p. po_code p = bp_booth_code h) (tb_rows (rg_pos reg))")
    case None
    with unique_key[OF d(1), of "bp_booth_code h"] assms show ?thesis
      by (auto simp: booth_heartbeat_def find_None_iff)
  next
    case (Some q)
    then have q: "q \<in> set (tb_rows (rg_pos reg))" "po_code q = bp_booth_code h"
      by (auto simp: find_Some_iff)
    define f where "f x = (if po_id x = po_id q then x\<lparr>po_last_seen_at := Some t, po_last_status :=
        JObj [(''rfid_connected'', jbool_opt (bp_rfid_connected h)),
              (''gate_connected'', jbool_opt (bp_gate_connected h)),
              (''ws_clients'', jint_opt (bp_ws_clients h)), (''last_card_at'', bp_last_card_at h),
              (''bridge_version'', jstr_opt (bp_bridge_version h))]\<rparr> else x)" for x :: booth
    have reg': "reg' = reg\<lparr>rg_pos := (rg_pos reg)\<lparr>tb_rows := map f (tb_rows (rg_pos reg))\<rparr>\<rparr>"
      using assms(3) unique_key[OF d(1), of "bp_booth_code h"] Some
      by (auto simp: booth_heartbeat_def f_def[abs_def])
    have f: "po_id (f x) = po_id x" "po_code (f x) = po_code x" for x by (simp_all add: f_def)
    have "po_id p = po_id q \<longleftrightarrow> po_code p = po_code q"
      using d assms(2) q(1) by (auto simp: distinct_map inj_on_def)
    then have "po_last_seen_at (f p) = (if bp_booth_code h = po_code p then Some t else po_last_seen_at p)"
      using q(2) by (auto simp: f_def)
    moreover have "booths_ok reg'"
      using assms(1) by (simp add: booths_ok_def table_ok_def booth_constraints_def reg' comp_def f)
    ultimately show ?thesis using assms(2) f by (auto simp: reg')
  qed
qed

lemma heard_row:
  assumes "booths_ok reg" "p \<in> set (tb_rows (rg_pos reg))"
  shows "booths_ok (heard hs reg) \<and> (\<exists>p' \<in> set (tb_rows (rg_pos (heard hs reg))). po_id p' = po_id p \<and>
    po_last_seen_at p' = fold (\<lambda>(h, t) seen. if bp_booth_code h = po_code p then Some t else seen) hs (po_last_seen_at p))"
  using assms
proof (induction hs arbitrary: reg p)
  case (Cons x hs)
  obtain h t where x: "x = (h, t)" by fastforce
  obtain r reg' where e: "booth_heartbeat h t reg = (r, reg')" by fastforce
  from heartbeat_row[OF Cons.prems e] obtain p' where p': "booths_ok reg'" "p' \<in> set (tb_rows (rg_pos reg'))"
    "po_id p' = po_id p" "po_code p' = po_code p"
    "po_last_seen_at p' = (if bp_booth_code h = po_code p then Some t else po_last_seen_at p)" by blast
  from Cons.IH[OF p'(1,2)] show ?case by (simp add: heard_def x e p'(3-5))
qed (auto simp: heard_def)

lemma last_heard:
  fixes hs :: "(booth_report \<times> time) list"
  shows "sorted (map snd hs) \<Longrightarrow>
   (case fold (\<lambda>(h, t) seen. if bp_booth_code h = code then Some t else seen) hs None of
      None \<Rightarrow> False | Some t \<Rightarrow> now - t \<le> d) \<longleftrightarrow> (\<exists>(h, t) \<in> set hs. bp_booth_code h = code \<and> now - t \<le> d)"
proof (induction hs rule: rev_induct)
  case (snoc x hs)
  obtain h t where x: "x = (h, t)" by fastforce
  from snoc.prems have sorted: "sorted (map snd hs)" "\<And>h' t'. (h', t') \<in> set hs \<Longrightarrow> t' \<le> t"
    by (auto simp: sorted_append x)
  show ?case
  proof (cases "bp_booth_code h = code")
    case True
    have "now - t \<le> d" if "(h', t') \<in> set hs" "now - t' \<le> d" for h' t'
      using sorted(2)[OF that(1)] that(2) by linarith
    with True show ?thesis by (auto simp: x)
  next
    case False
    with snoc.IH[OF sorted(1)] show ?thesis by (simp add: x)
  qed
qed simp

text \<open>
  C33. An exit gate is shown online exactly while its booth is heard: after any heartbeats of any booths in
  the order of their times, the map says so at an instant if and only if some heartbeat with the
  code of the gate's booth is at most sixty seconds old.
\<close>

theorem booth_liveness:
  assumes "booths_ok reg" "p \<in> set (tb_rows (rg_pos reg))" "po_last_seen_at p = None"
    "gate_direction g = ''OUT''" "gt_pos_id g = Some (po_id p)" "sorted (map snd hs)"
    "gate_status_of now (heard hs reg) g = Inr st"
  shows "gs_online st \<longleftrightarrow> (\<exists>(h, t) \<in> set hs. bp_booth_code h = po_code p \<and> now - t \<le> 60 * us_per_second)"
proof -
  from heard_row[OF assms(1,2), of hs] obtain p' where p': "booths_ok (heard hs reg)"
    "p' \<in> set (tb_rows (rg_pos (heard hs reg)))" "po_id p' = po_id p"
    "po_last_seen_at p' = fold (\<lambda>(h, t) seen. if bp_booth_code h = po_code p then Some t else seen) hs None"
    using assms(3) by auto
  have "distinct (map po_id (tb_rows (rg_pos (heard hs reg))))"
    using p'(1) by (simp add: booths_ok_def table_ok_def)
  from unique_find[OF this p'(2)]
  have "find (\<lambda>q. po_id q = po_id p) (tb_rows (rg_pos (heard hs reg))) = Some p'"
    by (simp add: p'(3))
  moreover have "st = out_status now (heard hs reg) g"
    using assms(4,7) by (simp add: gate_status_of_def)
  ultimately have "gs_online st \<longleftrightarrow> (case fold (\<lambda>(h, t) seen. if bp_booth_code h = po_code p then Some t else seen)
      hs None of None \<Rightarrow> False | Some t \<Rightarrow> now - t \<le> OUT_STALE)"
    by (simp add: out_status_def assms(5) p'(4) Let_def)
  with last_heard[OF assms(6), where code = "po_code p" and now = now and d = OUT_STALE] show ?thesis
    by (simp only: OUT_STALE_def)
qed

text \<open>
  The same for a gate with a daemon: what its heartbeat leaves in Redis makes the map show it online,
  with the state it is in and the health of its controller, for sixty seconds and no longer.
\<close>

theorem daemon_liveness:
  assumes "d_running s" "d_redis s" "\<And>n. e_redis (es n) \<and> e_xadd (es n) = Some mid" "mid \<noteq> []"
    "alone (heartbeat controller_ok) es s = (r, s')"
    "gate_code g = d_gate_id s" "gate_direction g = ''IN''" "rg_heartbeats reg (gate_code g) = map_option (map_prod Some id) (d_heartbeat s')"
  shows "\<exists>t ok. in_status now reg g = Inr (if now < t + 60 * us_per_second
    then \<lparr>gs_code = gate_code g, gs_direction = ''IN'', gs_online = True, gs_state = JStr (d_state s),
          gs_controller_ok = JBool ok, gs_last_seen = JIso t\<rparr>
    else \<lparr>gs_code = gate_code g, gs_direction = ''IN'', gs_online = False, gs_state = JNull,
          gs_controller_ok = JNull, gs_last_seen = JNull\<rparr>)"
proof -
  have "\<exists>t ok. d_heartbeat s' = Some (JObj [(''gate_id'', JStr (d_gate_id s)), (''state'', JStr (d_state s)),
      (''controller_ok'', JBool ok), (''ts'', JIso t)], t + HEARTBEAT_TTL)"
    using assms(1-5) by (auto simp: heartbeat_def publish_event_def look_env_def look_def seq.simps andThen_def
        sleep_def Let_def)
  then obtain t ok where "d_heartbeat s' = Some (JObj [(''gate_id'', JStr (d_gate_id s)), (''state'', JStr (d_state s)),
      (''controller_ok'', JBool ok), (''ts'', JIso t)], t + HEARTBEAT_TTL)" by blast
  then show ?thesis
    using assms(6-8) by (intro exI[of _ t] exI[of _ ok]) (simp add: in_status_def HEARTBEAT_TTL_def Let_def)
qed


definition example_report_of :: "string \<Rightarrow> booth_report" where
  "example_report_of code = \<lparr>bp_booth_code = code, bp_rfid_connected = None, bp_gate_connected = None,
     bp_ws_clients = None, bp_last_card_at = JNull, bp_bridge_version = None\<rparr>"

theorem booth_liveness_witness:
  "\<exists>st st'. gate_status_of (80 * us_per_second) (heard [(example_report_of ''B1'', 20 * us_per_second),
       (example_report_of ''B9'', 70 * us_per_second)] example_registry) (example_gate_row ''OUT1'' 7) = Inr st \<and> gs_online st \<and>
     gate_status_of (81 * us_per_second) (heard [(example_report_of ''B1'', 20 * us_per_second),
       (example_report_of ''B9'', 70 * us_per_second)] example_registry) (example_gate_row ''OUT1'' 7) = Inr st' \<and> \<not> gs_online st'"
proof -
  let ?hs = "[(example_report_of ''B1'', 20 * us_per_second), (example_report_of ''B9'', 70 * us_per_second)]"
  let ?g = "example_gate_row ''OUT1'' 7"
  have g: "gate_direction ?g = ''OUT''" "gt_pos_id ?g = Some (po_id example_booth)"
    by (simp_all add: example_gate_row_def gate.extend_def example_gate_def example_booth_def)
  have ok: "booths_ok example_registry" "example_booth \<in> set (tb_rows (rg_pos example_registry))"
      "po_last_seen_at example_booth = None"
    by (simp_all add: booths_ok_def table_ok_def booth_constraints_def example_registry_def example_booth_def)
  obtain st st' where st: "gate_status_of (80 * us_per_second) (heard ?hs example_registry) ?g = Inr st"
      "gate_status_of (81 * us_per_second) (heard ?hs example_registry) ?g = Inr st'"
    using g by (simp add: gate_status_of_def)
  have "gs_online st" "\<not> gs_online st'"
    using booth_liveness[OF ok g _ st(1)] booth_liveness[OF ok g _ st(2)]
    by (simp_all add: example_report_of_def example_booth_def)
  with st show ?thesis by blast
qed

theorem daemon_liveness_witness:
  "\<exists>reg t ok. in_status 0 reg (example_gate_row ''1'' 7\<lparr>gate_direction := ''IN''\<rparr>) = Inr (if 0 < t + 60 * us_per_second
    then \<lparr>gs_code = ''1'', gs_direction = ''IN'', gs_online = True, gs_state = JStr ''IDLE'',
          gs_controller_ok = JBool ok, gs_last_seen = JIso t\<rparr>
    else \<lparr>gs_code = ''1'', gs_direction = ''IN'', gs_online = False, gs_state = JNull,
          gs_controller_ok = JNull, gs_last_seen = JNull\<rparr>)"
proof -
  define s :: gate_in where "s = (init_gate ''1'')\<lparr>d_running := True, d_redis := True\<rparr>"
  obtain r s' where r: "alone (heartbeat controller_ok) (\<lambda>n. example_env) s = (r, s')" by fastforce
  define reg where "reg = example_registry\<lparr>rg_heartbeats := (\<lambda>_. map_option (map_prod Some id) (d_heartbeat s'))\<rparr>"
  let ?g = "example_gate_row ''1'' 7\<lparr>gate_direction := ''IN''\<rparr>"
  have g: "gate_code ?g = d_gate_id s" "gate_direction ?g = ''IN''" "gate_code ?g = ''1''"
      "rg_heartbeats reg (gate_code ?g) = map_option (map_prod Some id) (d_heartbeat s')"
    by (simp_all add: example_gate_row_def gate.extend_def example_gate_def s_def init_gate_def reg_def)
  have d: "d_running s" "d_redis s" "d_state s = ''IDLE''"
    by (simp_all add: s_def init_gate_def STATE_IDLE_def)
  have e: "e_redis example_env \<and> e_xadd example_env = Some ''1-0''" by (simp add: example_env_def)
  show ?thesis
    using daemon_liveness[OF d(1,2) e _ r g(1,2,4), of 0] unfolding g(3) d(3)
    by (intro exI[of _ reg]) simp
qed

end
