(* ===== verification/Setup_Wizard.thy ===== *)
theory Setup_Wizard
  imports Registry Accounts
begin

text \<open>
  The setup wizard (\<open>api/app/routes/setup.py\<close>, \<open>api/app/services/setup.py\<close>): the tokens the installer
  leaves on disk, the wizard's sessions, the first administrator, the gates of a topology, the test of a
  gate, the probes of devices and the end of the setup. The file system, the scripts, the random tokens and
  the messages of Redis answer as the arguments say.
\<close>

section \<open>State\<close>

record token_file =
  tf_text :: string
  tf_mtime :: time

record setup_session =
  ss_id :: int
  ss_token :: string
  ss_step :: string
  ss_data :: "(string \<times> json) list"
  ss_expires :: time

record wizard =
  wz_setup_token :: "token_file option"
  wz_enroll_token :: "token_file option"
  wz_sessions :: "setup_session list"
  wz_next_session :: int
  wz_settings :: "string \<rightharpoonup> string option"
  wz_accounts :: account_db
  wz_registry :: registry

text \<open>
  What a request meets: the clock, whether the file system lets it stat, read and unlink a token, the
  random token of a session, the salt and the pair of tokens of an account.
\<close>

record wizard_env =
  we_now :: time
  we_stat :: bool
  we_read :: bool
  we_unlink :: bool
  we_urlsafe :: string
  we_salt :: string
  we_mint :: mint
  we_times :: auth_times

record wizard_config =
  wc_auth :: auth_config
  wc_session_ttl :: int
  wc_api_key :: string
  wc_redis_host :: string
  wc_redis_port :: int
  wc_root :: string
  wc_is_root :: bool

section \<open>The tokens on disk\<close>

definition SETUP_TOKEN_MAX_AGE_SECONDS :: int where
  "SETUP_TOKEN_MAX_AGE_SECONDS = 24 * 60 * 60"

text \<open>The token, and the file after the look: one that is too old is unlinked.\<close>

definition read_token :: "wizard_env \<Rightarrow> token_file option \<Rightarrow> string option \<times> token_file option" where
  "read_token v file =
     (case file of
        None \<Rightarrow> (None, None)
      | Some f \<Rightarrow>
        if \<not> we_stat v then (None, file)
        else if SETUP_TOKEN_MAX_AGE_SECONDS * us_per_second < we_now v - tf_mtime f
        then (None, if we_unlink v then None else file)
        else if \<not> we_read v then (None, file)
        else (if strip (tf_text f) = [] then None else Some (strip (tf_text f)), file))"

definition read_setup_token :: "wizard_env \<Rightarrow> wizard \<Rightarrow> string option \<times> wizard" where
  "read_setup_token v w =
     (let (token, file) = read_token v (wz_setup_token w) in (token, w\<lparr>wz_setup_token := file\<rparr>))"

definition read_enroll_token :: "wizard_env \<Rightarrow> wizard \<Rightarrow> string option \<times> wizard" where
  "read_enroll_token v w =
     (let (token, file) = read_token v (wz_enroll_token w) in (token, w\<lparr>wz_enroll_token := file\<rparr>))"

definition delete_setup_token :: "wizard_env \<Rightarrow> wizard \<Rightarrow> wizard" where
  "delete_setup_token v w = (if we_unlink v then w\<lparr>wz_setup_token := None\<rparr> else w)"

section \<open>Settings and sessions\<close>

definition setup_complete :: "wizard \<Rightarrow> bool" where
  "setup_complete w =
     (case wz_settings w ''setup_complete'' of
        None \<Rightarrow> False
      | Some value \<Rightarrow> lower (case value of None \<Rightarrow> [] | Some x \<Rightarrow> x) = ''true'')"

definition mark_setup_complete :: "bool \<Rightarrow> wizard \<Rightarrow> wizard" where
  "mark_setup_complete flag w =
     w\<lparr>wz_settings := (wz_settings w)(''setup_complete'' \<mapsto> Some (if flag then ''true'' else ''false''))\<rparr>"

definition has_any_admin :: "wizard \<Rightarrow> bool" where
  "has_any_admin w \<longleftrightarrow> list_ex (\<lambda>u. ac_role u = ''admin'') (au_users (wz_accounts w))"

definition create_session :: "wizard_config \<Rightarrow> wizard_env \<Rightarrow> wizard \<Rightarrow> (py_exc + setup_session) \<times> wizard" where
  "create_session cfg v w =
     (if list_ex (\<lambda>s. ss_token s = we_urlsafe v) (wz_sessions w)
      then (Inl (IntegrityError ''setup_sessions''), w)
      else let s = \<lparr>ss_id = wz_next_session w, ss_token = we_urlsafe v, ss_step = ''welcome'', ss_data = [],
                    ss_expires = we_now v + wc_session_ttl cfg * us_per_second\<rparr>
           in (Inr s, w\<lparr>wz_sessions := wz_sessions w @ [s], wz_next_session := wz_next_session w + 1\<rparr>))"

definition delete_session :: "setup_session \<Rightarrow> wizard \<Rightarrow> wizard" where
  "delete_session s w = w\<lparr>wz_sessions := filter (\<lambda>x. ss_id x \<noteq> ss_id s) (wz_sessions w)\<rparr>"

text \<open>A session that has expired is deleted by the look.\<close>

definition get_session_by_token :: "wizard_env \<Rightarrow> string \<Rightarrow> wizard \<Rightarrow> setup_session option \<times> wizard" where
  "get_session_by_token v token w =
     (case find (\<lambda>s. ss_token s = token) (wz_sessions w) of
        None \<Rightarrow> (None, w)
      | Some s \<Rightarrow> if ss_expires s < we_now v then (None, delete_session s w) else (Some s, w))"

definition save_session_step :: "setup_session \<Rightarrow> string \<Rightarrow> json \<Rightarrow> wizard \<Rightarrow> wizard" where
  "save_session_step s step data w =
     w\<lparr>wz_sessions := map (\<lambda>x. if ss_id x = ss_id s
        then x\<lparr>ss_step := step, ss_data := dict_set step data (ss_data s)\<rparr> else x) (wz_sessions w)\<rparr>"

datatype topology = Combo | ServerOnly | BoothOnly | Unknown

text \<open>What \<open>systemctl is-active\<close> says of the two services, and the serial links in \<open>/dev\<close>.\<close>

definition detect_topology :: "string \<Rightarrow> string \<Rightarrow> bool \<Rightarrow> topology" where
  "detect_topology api bridge has_local_serial =
     (let has_server = (strip api = ''active''); has_bridge = (strip bridge = ''active'')
      in if has_server \<and> has_bridge \<and> has_local_serial then Combo
         else if has_server \<and> \<not> has_local_serial then ServerOnly
         else if \<not> has_server \<and> has_bridge then BoothOnly
         else Unknown)"

section \<open>Who may run the wizard\<close>

definition SETUP_COOKIE_NAME :: string where "SETUP_COOKIE_NAME = ''parking_setup_session''"

definition session_of :: "wizard_env \<Rightarrow> cookies \<Rightarrow> wizard \<Rightarrow> setup_session option \<times> wizard" where
  "session_of v cs w =
     (if truthy_str (cs SETUP_COOKIE_NAME) then get_session_by_token v (the (cs SETUP_COOKIE_NAME)) w
      else (None, w))"

definition require_setup_or_admin ::
  "lib \<Rightarrow> wizard_env \<Rightarrow> cookies \<Rightarrow> wizard \<Rightarrow> (py_exc + setup_session option \<times> claims option) \<times> wizard" where
  "require_setup_or_admin lib v cs w =
     (let (session, w) = session_of v cs w
      in case get_current_user lib (we_times v) cs (wz_accounts w) of
           Inl e \<Rightarrow> (Inl e, w)
         | Inr user \<Rightarrow>
           (let is_admin = (case user of None \<Rightarrow> False | Some c \<Rightarrow> cl_role c = Some ''admin'')
            in if session = None \<and> \<not> is_admin
               then (Inl (HTTPException 401 ''Setup session or admin authentication required''), w)
               else (Inr (session, user), w)))"

definition require_session :: "int \<Rightarrow> string \<Rightarrow> wizard_env \<Rightarrow> cookies \<Rightarrow> wizard \<Rightarrow> (py_exc + setup_session) \<times> wizard" where
  "require_session code detail v cs w =
     (case session_of v cs w of
        (None, w) \<Rightarrow> (Inl (HTTPException code detail), w)
      | (Some s, w) \<Rightarrow> (Inr s, w))"

section \<open>The endpoints\<close>

text \<open>What \<open>GET /state\<close> tells anyone.\<close>

record setup_state =
  st_complete :: bool
  st_step :: "string option"
  st_topology :: topology
  st_has_admin :: bool
  st_has_session :: bool

definition get_state :: "wizard_env \<Rightarrow> topology \<Rightarrow> cookies \<Rightarrow> wizard \<Rightarrow> setup_state \<times> wizard" where
  "get_state v seen cs w =
     (let (session, w') = session_of v cs w
      in (\<lparr>st_complete = setup_complete w, st_step = map_option ss_step session, st_topology = seen,
           st_has_admin = has_any_admin w, st_has_session = session \<noteq> None\<rparr>, w'))"

definition redeem_token :: "wizard_config \<Rightarrow> wizard_env \<Rightarrow> string \<Rightarrow> wizard \<Rightarrow> (py_exc + cookie) \<times> wizard" where
  "redeem_token cfg v token w =
     (if \<not> len_ok 8 128 token then (Inl (HTTPException 422 ''token''), w)
      else case read_setup_token v w of
        (None, w) \<Rightarrow> (Inl (HTTPException 410 ''Setup token not present''), w)
      | (Some disk_token, w) \<Rightarrow>
        if disk_token \<noteq> token then (Inl (HTTPException 401 ''Invalid setup token''), w)
        else case create_session cfg v (delete_setup_token v w) of
               (Inl e, w) \<Rightarrow> (Inl e, w)
             | (Inr s, w) \<Rightarrow>
               (Inr \<lparr>ck_name = SETUP_COOKIE_NAME, ck_value = ss_token s, ck_secure = cf_production (wc_auth cfg),
                     ck_max_age = wc_session_ttl cfg\<rparr>, w))"

record enrolment =
  en_api_base_url :: string
  en_internal_api_key :: string
  en_redis_host :: string
  en_redis_port :: int

text \<open>\<open>host\<close>: the name the booth reached the server by.\<close>

definition enroll_booth ::
  "wizard_config \<Rightarrow> wizard_env \<Rightarrow> string option \<Rightarrow> string \<Rightarrow> wizard \<Rightarrow> (py_exc + enrolment) \<times> wizard" where
  "enroll_booth cfg v host token w =
     (if \<not> len_ok 8 128 token then (Inl (HTTPException 422 ''token''), w)
      else case read_enroll_token v w of
        (None, w) \<Rightarrow> (Inl (HTTPException 410 ''Enrollment token not present''), w)
      | (Some disk_token, w) \<Rightarrow>
        if disk_token \<noteq> token then (Inl (HTTPException 401 ''Invalid enrollment token''), w)
        else if wc_api_key cfg = [] then (Inl (HTTPException 503 ''Server has no INTERNAL_API_KEY configured''), w)
        else let server = (if truthy_str host then the host else wc_redis_host cfg)
             in (Inr \<lparr>en_api_base_url = ''http://'' @ server @ '':8000'', en_internal_api_key = wc_api_key cfg,
                      en_redis_host = server, en_redis_port = wc_redis_port cfg\<rparr>, w))"

definition setup_logout :: cookie where
  "setup_logout = \<lparr>ck_name = SETUP_COOKIE_NAME, ck_value = [], ck_secure = False, ck_max_age = 0\<rparr>"

record admin_create =
  ad_username :: string
  ad_full_name :: string
  ad_email :: string
  ad_password :: string

definition admin_create_ok :: "(string \<Rightarrow> bool) \<Rightarrow> admin_create \<Rightarrow> bool" where
  "admin_create_ok mail d \<longleftrightarrow> len_ok 3 50 (ad_username d) \<and> len_ok 2 100 (ad_full_name d) \<and> mail (ad_email d) \<and>
     len_ok 8 128 (ad_password d)"

definition create_admin ::
  "wizard_config \<Rightarrow> lib \<Rightarrow> (string \<Rightarrow> bool) \<Rightarrow> wizard_env \<Rightarrow> cookies \<Rightarrow> admin_create \<Rightarrow> wizard \<Rightarrow>
   (py_exc + account \<times> cookie list) \<times> wizard" where
  "create_admin cfg lib mail v cs d w =
     (if \<not> admin_create_ok mail d then (Inl (HTTPException 422 ''CreateAdminRequest''), w)
      else case require_session 401 ''Setup session required'' v cs w of
        (Inl e, w) \<Rightarrow> (Inl e, w)
      | (Inr s, w) \<Rightarrow>
        if has_any_admin w then (Inl (HTTPException 409 ''Admin already exists. Use the standard login flow.''), w)
        else case create_user lib (we_salt v)
                 \<lparr>uc_username = ad_username d, uc_email = Some (ad_email d), uc_full_name = Some (ad_full_name d),
                  uc_role = ''admin'', uc_is_active = True, uc_phone = None, uc_password = ad_password d\<rparr>
                 (wz_accounts w) of
               (Inl e, a) \<Rightarrow> (Inl e, w\<lparr>wz_accounts := a\<rparr>)
             | (Inr u, a) \<Rightarrow>
               (Inr (u, set_auth_cookies (wc_auth cfg) (create_tokens (wc_auth cfg) lib (we_mint v) u)),
                w\<lparr>wz_accounts := a\<rparr>))"

definition save_state :: "wizard_env \<Rightarrow> cookies \<Rightarrow> string \<Rightarrow> (string \<times> json) list \<Rightarrow> wizard \<Rightarrow> (py_exc + string) \<times> wizard" where
  "save_state v cs step data w =
     (if \<not> len_ok 1 50 step then (Inl (HTTPException 422 ''SetupStateUpdate''), w)
      else case require_session 401 ''Setup session required'' v cs w of
        (Inl e, w) \<Rightarrow> (Inl e, w)
      | (Inr s, w) \<Rightarrow> (Inr step, save_session_step s step (JObj data) w))"

definition read_session :: "wizard_env \<Rightarrow> cookies \<Rightarrow> wizard \<Rightarrow> (py_exc + string \<times> (string \<times> json) list) \<times> wizard" where
  "read_session v cs w =
     (case require_session 404 ''No active setup session'' v cs w of
        (Inl e, w) \<Rightarrow> (Inl e, w)
      | (Inr s, w) \<Rightarrow> (Inr (ss_step s, ss_data s), w))"

text \<open>The gates of a topology, those whose code the table does not have yet.\<close>

definition topology_gates :: "nat \<Rightarrow> nat \<Rightarrow> (string \<times> string \<times> string) list" where
  "topology_gates in_count out_count =
     map (\<lambda>n. (''GIN-'' @ fmt0 2 (int n + 1), ''Pintu Masuk '' @ str_of_int (int n + 1), ''IN'')) [0..<in_count] @
     map (\<lambda>n. (''GOUT-'' @ fmt0 2 (int n + 1), ''Pintu Keluar '' @ str_of_int (int n + 1), ''OUT'')) [0..<out_count]"

definition new_gate :: "string \<times> string \<times> string \<Rightarrow> int \<Rightarrow> gate_row" where
  "new_gate g i = (case g of (code, name, direction) \<Rightarrow>
     \<lparr>gate_id = i, gate_name = name, gate_code = code, gate_direction = direction, gate_protocol = ''compass'',
      gate_controller_host = None, gate_controller_port = None, gate_controller_device = None,
      gate_controller_baudrate = None, gate_relay_mode = ''SINGLE'', gate_open_timeout_s = 10,
      gate_hardware_config = JObj [], gt_is_active = True, gt_pos_id = None\<rparr>)"

fun add_gates :: "(string \<times> string \<times> string) list \<Rightarrow> gate_row table \<Rightarrow> gate_row table" where
  "add_gates [] t = t"
| "add_gates (g # gs) t =
     add_gates gs \<lparr>tb_rows = tb_rows t @ [new_gate g (tb_next t)], tb_next = tb_next t + 1\<rparr>"

definition apply_topology :: "nat \<Rightarrow> nat \<Rightarrow> wizard \<Rightarrow> (py_exc + nat) \<times> wizard" where
  "apply_topology in_count out_count w =
     (if 8 < in_count \<or> 8 < out_count then (Inl (HTTPException 422 ''TopologyApplyRequest''), w)
      else
        let t = rg_gates (wz_registry w);
            fresh = filter (\<lambda>g. fst g \<notin> gate_code ` set (tb_rows t)) (topology_gates in_count out_count);
            t' = add_gates fresh t
        in if gate_constraints (tb_rows t')
           then (Inr (length fresh), w\<lparr>wz_registry := (wz_registry w)\<lparr>rg_gates := t'\<rparr>\<rparr>)
           else (Inl (IntegrityError ''gates''),
                 w\<lparr>wz_registry := (wz_registry w)\<lparr>rg_gates := t\<lparr>tb_next := tb_next t'\<rparr>\<rparr>\<rparr>))"

text \<open>
  The end: the script is told of local serial ports when the saved topology says so. \<open>script\<close> gives, for
  its arguments, whether it succeeded.
\<close>

definition script_path :: "wizard_config \<Rightarrow> string \<Rightarrow> string" where
  "script_path cfg name = wc_root cfg @ ''/scripts/'' @ name"

definition sudo_prefix :: "wizard_config \<Rightarrow> string list" where
  "sudo_prefix cfg = (if wc_is_root cfg then [] else [''sudo'', ''-n''])"

definition include_local_serial :: "setup_session option \<Rightarrow> py_exc + bool" where
  "include_local_serial session =
     (case session of
        None \<Rightarrow> Inr False
      | Some s \<Rightarrow>
        map_sum id truthy (jget2 (JObj (ss_data s)) ''topology'' ''include_local_serial'' JNull))"

definition finalize ::
  "wizard_config \<Rightarrow> (string list \<Rightarrow> bool) \<Rightarrow> wizard_env \<Rightarrow> cookies \<Rightarrow> wizard \<Rightarrow> (py_exc + bool) \<times> wizard" where
  "finalize cfg script v cs w =
     (let (session, w) = session_of v cs w
      in case include_local_serial session of
           Inl e \<Rightarrow> (Inl e, w)
         | Inr local \<Rightarrow>
           if \<not> script (sudo_prefix cfg @ [''bash'', script_path cfg ''enable-gate-daemons.sh'', ''--run'', ''--json''] @
                (if local then [''--include-local-serial''] else []))
           then (Inr False, w)
           else let w = delete_setup_token v (mark_setup_complete True w)
                in (Inr True, case session of None \<Rightarrow> w | Some s \<Rightarrow> delete_session s w))"

text \<open>The endpoints behind the guard.\<close>

definition guarded ::
  "lib \<Rightarrow> wizard_env \<Rightarrow> cookies \<Rightarrow> (wizard \<Rightarrow> (py_exc + 'a) \<times> wizard) \<Rightarrow> wizard \<Rightarrow> (py_exc + 'a) \<times> wizard" where
  "guarded lib v cs f w =
     (case require_setup_or_admin lib v cs w of
        (Inl e, w) \<Rightarrow> (Inl e, w)
      | (Inr _, w) \<Rightarrow> f w)"

section \<open>The test of a gate\<close>

text \<open>
  What arrives on the channel after the subscription, with its time; \<open>None\<close> is a text that is no JSON. The
  wait gives whether the event came and how long it took.
\<close>

fun wait_event :: "string \<Rightarrow> time \<Rightarrow> time \<Rightarrow> (time \<times> json option) list \<Rightarrow> py_exc + bool \<times> time" where
  "wait_event want t0 timeout [] = Inr (False, timeout)"
| "wait_event want t0 timeout ((t, data) # ms) =
     (if t0 + timeout \<le> t then Inr (False, timeout)
      else case data of
             None \<Rightarrow> wait_event want t0 timeout ms
           | Some (JObj flds) \<Rightarrow>
               if map_of flds ''event_type'' = Some (JStr want) then Inr (True, t - t0)
               else wait_event want t0 timeout ms
           | Some _ \<Rightarrow> Inl AttributeError)"

record test_step =
  ts_action :: string
  ts_sent :: bool
  ts_acked :: bool
  ts_elapsed :: "time option"

record test_result =
  tr_ok :: bool
  tr_gate_code :: string
  tr_steps :: "test_step list"

text \<open>
  \<open>arrivals action\<close>: the subscription after the command of an action, or the error of Redis, with the time it
  starts at. An error while waiting for the close is caught, one while waiting for the opening is not.
\<close>

definition test_gate ::
  "outside \<Rightarrow> int \<Rightarrow> time \<Rightarrow> (string \<Rightarrow> py_exc + time \<times> (time \<times> json option) list) \<Rightarrow> registry \<Rightarrow> site \<Rightarrow>
   (py_exc + test_result) \<times> site" where
  "test_gate out i timeout arrivals reg y =
     (let wait = (\<lambda>action want. case arrivals action of
                    Inl e \<Rightarrow> Inl e | Inr (t0, ms) \<Rightarrow> wait_event want t0 timeout ms)
      in case get_item gate_id ''Gate not found'' i (rg_gates reg) of
           Inl e \<Rightarrow> (Inl e, y)
         | Inr g \<Rightarrow>
           if \<not> gt_is_active g then (Inl (HTTPException 400 ''Gate is not active''), y)
           else
             let result = (\<lambda>ok steps. \<lparr>tr_ok = ok, tr_gate_code = gate_code g, tr_steps = steps\<rparr>);
                 unsent = (\<lambda>action. \<lparr>ts_action = action, ts_sent = False, ts_acked = False, ts_elapsed = None\<rparr>);
                 sent = (\<lambda>action acked elapsed. \<lparr>ts_action = action, ts_sent = True, ts_acked = acked, ts_elapsed = Some elapsed\<rparr>)
             in case publish_command out (OpenGateCommand (gate_code g) None ''wizard_test'') y of
                  (Inl e, y) \<Rightarrow> (Inr (result False [unsent ''open'']), y)
                | (Inr _, y) \<Rightarrow>
                  (case wait ''open'' ''gate_opened'' of
                     Inl e \<Rightarrow> (Inl e, y)
                   | Inr (acked, elapsed) \<Rightarrow>
                     let steps = [sent ''open'' acked elapsed]
                     in if \<not> acked then (Inr (result False steps), y)
                        else if gate_relay_mode g \<noteq> ''DUAL'' then (Inr (result True steps), y)
                        else case publish_command out (CloseGateCommand (gate_code g) ''wizard_test'') y of
                               (Inl e, y) \<Rightarrow> (Inr (result False (steps @ [unsent ''close''])), y)
                             | (Inr _, y) \<Rightarrow>
                               (case wait ''close'' ''gate_closed'' of
                                  Inl e \<Rightarrow> (Inr (result False (steps @ [unsent ''close''])), y)
                                | Inr (acked, elapsed) \<Rightarrow>
                                  (Inr (result acked (steps @ [sent ''close'' acked elapsed])), y))))"

section \<open>Probes\<close>

record probe_request =
  pq_type :: string
  pq_device :: "string option"
  pq_baudrate :: "int option"
  pq_host :: "string option"
  pq_port :: "int option"

definition probe_args :: "probe_request \<Rightarrow> py_exc + string list" where
  "probe_args q =
     (if pq_type q = ''serial''
      then if \<not> truthy_str (pq_device q) then Inl (HTTPException 400 ''device required for serial probe'')
           else Inr [''serial'', ''--device'', the (pq_device q), ''--baudrate'',
                     str_of_int (int_or 9600 (case pq_baudrate q of None \<Rightarrow> 0 | Some b \<Rightarrow> b))]
      else if pq_type q = ''tcp''
      then if \<not> truthy_str (pq_host q) \<or> (case pq_port q of None \<Rightarrow> True | Some n \<Rightarrow> n = 0)
           then Inl (HTTPException 400 ''host and port required for tcp probe'')
           else Inr [''tcp'', ''--host'', the (pq_host q), ''--port'', str_of_int (the (pq_port q))]
      else if \<not> truthy_str (pq_host q) then Inl (HTTPException 400 ''host required for ping'')
      else Inr [''ping'', ''--host'', the (pq_host q)])"

text \<open>How a script ended: killed by the timeout, or its exit, the JSON of its output or \<open>None\<close>, and its errors.\<close>

datatype script_end = ScriptTimeout | ScriptEnded bool "json option" string

definition test_device :: "(string list \<Rightarrow> script_end) \<Rightarrow> probe_request \<Rightarrow> py_exc + json" where
  "test_device script q =
     (case probe_args q of
        Inl e \<Rightarrow> Inl e
      | Inr args \<Rightarrow>
        (let failed = (\<lambda>msg. Inr (JObj [(''ok'', JBool False), (''error'', JStr msg)]))
         in case script args of
              ScriptTimeout \<Rightarrow> failed ''probe timed out after 10s''
            | ScriptEnded ok None err \<Rightarrow>
                failed (if strip err = [] then ''probe returned non-JSON'' else strip err)
            | ScriptEnded ok (Some (JObj flds)) err \<Rightarrow>
                (case map_of flds ''ok'' of
                   Some (JBool b) \<Rightarrow> Inr (JObj flds) | _ \<Rightarrow> Inl (ValueError ''TestDeviceResponse''))
            | ScriptEnded ok (Some _) err \<Rightarrow> Inl TypeError))"

text \<open>The candidates that have a port.\<close>

fun serial_candidates :: "json list \<Rightarrow> py_exc + json list" where
  "serial_candidates [] = Inr []"
| "serial_candidates (c # cs) =
     (case jget c ''port'' JNull of
        Inl e \<Rightarrow> Inl e
      | Inr port \<Rightarrow> map_sum id (\<lambda>xs. if truthy port then c # xs else xs) (serial_candidates cs))"

definition detect_serial :: "script_end \<Rightarrow> py_exc + json list" where
  "detect_serial script =
     (case script of
        ScriptTimeout \<Rightarrow> Inl (HTTPException 504 ''detect-serial-devices.sh timed out'')
      | ScriptEnded ok None err \<Rightarrow> Inr []
      | ScriptEnded ok (Some payload) err \<Rightarrow>
        (case jget payload ''candidates'' (JList []) of
           Inl e \<Rightarrow> Inl e
         | Inr (JList cs) \<Rightarrow> serial_candidates cs
         | Inr _ \<Rightarrow> Inl TypeError))"

section \<open>The gates of a topology\<close>

lemma new_gate_simps [simp]:
  "gate_id (new_gate g i) = i" "gate_code (new_gate g i) = fst g" "gate_direction (new_gate g i) = snd (snd g)"
  "gt_is_active (new_gate g i)"
  by (simp_all add: new_gate_def split: prod.split)

lemma add_gates_rows:
  "\<exists>rs. tb_rows (add_gates gs t) = tb_rows t @ rs \<and> map gate_code rs = map fst gs \<and>
     map gate_direction rs = map (\<lambda>g. snd (snd g)) gs \<and>
     map gate_id rs = map (\<lambda>k. tb_next t + int k) [0..<length gs] \<and>
     tb_next (add_gates gs t) = tb_next t + int (length gs)"
proof (induction gs arbitrary: t)
  case (Cons g gs)
  from Cons[of "\<lparr>tb_rows = tb_rows t @ [new_gate g (tb_next t)], tb_next = tb_next t + 1\<rparr>"]
  obtain rs where rs: "tb_rows (add_gates (g # gs) t) = tb_rows t @ new_gate g (tb_next t) # rs"
    "map gate_code rs = map fst gs" "map gate_direction rs = map (\<lambda>g. snd (snd g)) gs"
    "map gate_id rs = map (\<lambda>k. tb_next t + 1 + int k) [0..<length gs]"
    "tb_next (add_gates (g # gs) t) = tb_next t + 1 + int (length gs)"
    by auto
  have "map (\<lambda>k. tb_next t + int k) [0..<Suc (length gs)] = tb_next t # map (\<lambda>k. tb_next t + 1 + int k) [0..<length gs]"
    by (simp add: upt_conv_Cons map_Suc_upt[symmetric] del: upt_Suc)
  with rs show ?case by (intro exI[of _ "new_gate g (tb_next t) # rs"]) simp
qed simp

lemma fmt0_inj: "0 \<le> i \<Longrightarrow> 0 \<le> j \<Longrightarrow> fmt0 w i = fmt0 w j \<Longrightarrow> i = j"
  by (metis dec_val_fmt0)

lemma topology_codes_distinct: "distinct (map fst (topology_gates n k))"
proof -
  have inj: "inj_on (\<lambda>i. fmt0 2 (int i + 1)) A" for A
    by (auto simp: inj_on_def dest!: fmt0_inj[rotated 2])
  show ?thesis
    using inj by (auto simp: topology_gates_def comp_def distinct_map inj_on_def)
qed

lemma filter_none: "(\<And>x. x \<in> set xs \<Longrightarrow> \<not> P x) \<Longrightarrow> filter P xs = []"
  by (simp add: filter_empty_conv)

text \<open>
  A topology can be applied any number of times. On a consistent table it always succeeds: the gates
  it names exist afterwards, once each and with unique numbers, those there before are as they were, and
  applying it again, or a smaller one, creates nothing.
\<close>

theorem topology_applied:
  assumes "table_ok gate_id gate_constraints (rg_gates (wz_registry w))" "n \<le> 8" "k \<le> 8"
    "apply_topology n k w = (r, w')"
  shows "r = Inr (length (filter (\<lambda>g. fst g \<notin> gate_code ` set (tb_rows (rg_gates (wz_registry w)))) (topology_gates n k))) \<and>
    table_ok gate_id gate_constraints (rg_gates (wz_registry w')) \<and>
    (\<exists>rs. tb_rows (rg_gates (wz_registry w')) = tb_rows (rg_gates (wz_registry w)) @ rs) \<and>
    (\<forall>n' k'. n' \<le> n \<and> k' \<le> k \<longrightarrow>
      (\<forall>g \<in> set (topology_gates n' k'). fst g \<in> gate_code ` set (tb_rows (rg_gates (wz_registry w')))) \<and>
      apply_topology n' k' w' = (Inr 0, w'))"
proof -
  let ?t = "rg_gates (wz_registry w)"
  define fresh where "fresh = filter (\<lambda>g. fst g \<notin> gate_code ` set (tb_rows ?t)) (topology_gates n k)"
  obtain rs where rs: "tb_rows (add_gates fresh ?t) = tb_rows ?t @ rs" "map gate_code rs = map fst fresh"
    "map gate_id rs = map (\<lambda>i. tb_next ?t + int i) [0..<length fresh]"
    "tb_next (add_gates fresh ?t) = tb_next ?t + int (length fresh)"
    using add_gates_rows[of fresh ?t] by blast
  have codes: "gate_code ` set rs = fst ` set fresh" using arg_cong[OF rs(2), of set] by simp
  have "distinct (map fst fresh)"
    unfolding fresh_def by (rule distinct_map_filter[OF topology_codes_distinct])
  with assms(1) codes have distinct: "gate_constraints (tb_rows (add_gates fresh ?t))"
    by (auto simp: gate_constraints_def rs(1,2) table_ok_def) (auto simp: fresh_def)
  then have w': "r = Inr (length fresh)" "w' = w\<lparr>wz_registry := (wz_registry w)\<lparr>rg_gates := add_gates fresh ?t\<rparr>\<rparr>"
    using assms(2-4) by (auto simp: apply_topology_def fresh_def Let_def)
  have ids: "set (map gate_id rs) = (\<lambda>i. tb_next ?t + int i) ` {0..<length fresh}"
    by (simp only: rs(3) set_map set_upt)
  have "table_ok gate_id gate_constraints (add_gates fresh ?t)"
    unfolding table_ok_def
  proof (intro conjI distinct)
    have "distinct (map gate_id rs)" by (simp add: rs(3) distinct_map inj_on_def)
    moreover have "\<forall>x \<in> set (tb_rows ?t). gate_id x < tb_next ?t" using assms(1) by (simp add: table_ok_def)
    moreover have "tb_next ?t \<le> gate_id x \<and> gate_id x < tb_next ?t + int (length fresh)" if "x \<in> set rs" for x
    proof -
      have "gate_id x \<in> (\<lambda>i. tb_next ?t + int i) ` {0..<length fresh}" using that ids by auto
      then show ?thesis by auto
    qed
    ultimately show "distinct (map gate_id (tb_rows (add_gates fresh ?t)))"
      "\<forall>x \<in> set (tb_rows (add_gates fresh ?t)). gate_id x < tb_next (add_gates fresh ?t)"
      using assms(1) by (fastforce simp: rs(1,4) table_ok_def)+
  qed
  moreover have there: "fst g \<in> gate_code ` set (tb_rows (rg_gates (wz_registry w')))"
    if "g \<in> set (topology_gates n' k')" "n' \<le> n" "k' \<le> k" for g n' k'
  proof -
    have "g \<in> set (topology_gates n k)" using that by (auto simp: topology_gates_def)
    then have "fst g \<in> gate_code ` set (tb_rows ?t) \<or> fst g \<in> fst ` set fresh" by (auto simp: fresh_def)
    then show ?thesis by (simp add: w'(2) rs(1) image_Un codes)
  qed
  moreover have "apply_topology n' k' w' = (Inr 0, w')" if "n' \<le> n" "k' \<le> k" for n' k'
  proof -
    have "filter (\<lambda>g. fst g \<notin> gate_code ` set (tb_rows (rg_gates (wz_registry w')))) (topology_gates n' k') = []"
      by (rule filter_none) (use there that in blast)
    with that assms(2,3) distinct show ?thesis by (simp add: apply_topology_def Let_def w'(2))
  qed
  ultimately show ?thesis using w' rs(1) by (simp add: fresh_def)
qed

section \<open>Who gets in\<close>

datatype wizard_op =
    GetState topology
  | Redeem string
  | Enroll "string option" string
  | CreateAdmin admin_create
  | SaveState string "(string \<times> json) list"
  | ReadSession
  | Topology nat nat
  | Finalize "string list \<Rightarrow> bool"

type_synonym wizard_request = "wizard_env \<times> cookies \<times> wizard_op"

fun wizard_step :: "wizard_config \<Rightarrow> lib \<Rightarrow> (string \<Rightarrow> bool) \<Rightarrow> wizard_request \<Rightarrow> wizard \<Rightarrow> wizard" where
  "wizard_step cfg lib mail (v, cs, GetState seen) w = snd (get_state v seen cs w)"
| "wizard_step cfg lib mail (v, cs, Redeem token) w = snd (redeem_token cfg v token w)"
| "wizard_step cfg lib mail (v, cs, Enroll host token) w = snd (enroll_booth cfg v host token w)"
| "wizard_step cfg lib mail (v, cs, CreateAdmin d) w = snd (create_admin cfg lib mail v cs d w)"
| "wizard_step cfg lib mail (v, cs, SaveState step data) w = snd (save_state v cs step data w)"
| "wizard_step cfg lib mail (v, cs, ReadSession) w = snd (read_session v cs w)"
| "wizard_step cfg lib mail (v, cs, Topology n k) w = snd (guarded lib v cs (apply_topology n k) w)"
| "wizard_step cfg lib mail (v, cs, Finalize script) w = snd (guarded lib v cs (finalize cfg script v cs) w)"

lemma read_token_file: "read_token v file = (token, file') \<Longrightarrow>
   (file' = file \<or> file' = None) \<and>
   (\<forall>x. token = Some x \<longrightarrow> (\<exists>f. file = Some f \<and> x = strip (tf_text f) \<and>
      we_now v - tf_mtime f \<le> SETUP_TOKEN_MAX_AGE_SECONDS * us_per_second))"
  by (auto simp: read_token_def split: option.splits if_splits)

text \<open>What a look at the session can do to the wizard, and that it finds only sessions that are there.\<close>

lemma session_of_frame:
  assumes "session_of v cs w = (session, w')"
  obtains P where "w' = w\<lparr>wz_sessions := filter P (wz_sessions w)\<rparr>" "set_option session \<subseteq> set (wz_sessions w)"
proof -
  have "\<exists>P. w' = w\<lparr>wz_sessions := filter P (wz_sessions w)\<rparr> \<and> set_option session \<subseteq> set (wz_sessions w)"
    using assms
    by (fastforce simp: session_of_def get_session_by_token_def delete_session_def find_Some_iff
        intro: exI[of _ "\<lambda>_. True"] split: if_splits option.splits)
  then show thesis using that by blast
qed

lemma guarded_cases:
  assumes "guarded lib v cs f w = (r, w')"
  obtains (refused) P where "w' = w\<lparr>wz_sessions := filter P (wz_sessions w)\<rparr>"
  | (admitted) P where "f (w\<lparr>wz_sessions := filter P (wz_sessions w)\<rparr>) = (r, w')"
      "wz_sessions w \<noteq> [] \<or> (\<exists>c. get_current_user lib (we_times v) cs (wz_accounts w) = Inr (Some c) \<and> cl_role c = Some ''admin'')"
proof -
  obtain session w1 where s: "session_of v cs w = (session, w1)" by fastforce
  then obtain P where P: "w1 = w\<lparr>wz_sessions := filter P (wz_sessions w)\<rparr>" "set_option session \<subseteq> set (wz_sessions w)"
    by (rule session_of_frame)
  show thesis
    using assms refused[of P] admitted[of P] P
    by (fastforce simp: guarded_def require_setup_or_admin_def s Let_def split: sum.splits if_splits option.splits)
qed

lemma require_session_cases:
  assumes "require_session c d v cs w = (r, w')"
  obtains (refused) P where "w' = w\<lparr>wz_sessions := filter P (wz_sessions w)\<rparr>" "isl r"
  | (admitted) P s where "w' = w\<lparr>wz_sessions := filter P (wz_sessions w)\<rparr>" "r = Inr s" "s \<in> set (wz_sessions w)"
proof -
  obtain session w1 where s: "session_of v cs w = (session, w1)" by fastforce
  then obtain P where P: "w1 = w\<lparr>wz_sessions := filter P (wz_sessions w)\<rparr>" "set_option session \<subseteq> set (wz_sessions w)"
    by (rule session_of_frame)
  show thesis
    using assms refused[of P] admitted[of P] P
    by (auto simp: require_session_def s split: option.splits)
qed

text \<open>A request that neither presents the token of the installer nor carries an administrator's token.\<close>

fun outsider :: "lib \<Rightarrow> wizard \<Rightarrow> wizard_request \<Rightarrow> bool" where
  "outsider lib w (v, cs, p) \<longleftrightarrow>
     (case p of Redeem token \<Rightarrow> (case wz_setup_token w of None \<Rightarrow> True | Some f \<Rightarrow> token \<noteq> strip (tf_text f)) | _ \<Rightarrow> True) \<and>
     (case get_current_user lib (we_times v) cs (wz_accounts w) of
        Inr (Some c) \<Rightarrow> cl_role c \<noteq> Some ''admin'' | _ \<Rightarrow> True)"

text \<open>Nothing of the system has changed, and no session is open.\<close>

definition shut :: "wizard \<Rightarrow> wizard \<Rightarrow> bool" where
  "shut w0 w \<longleftrightarrow> wz_sessions w = [] \<and> wz_setup_token w \<in> {wz_setup_token w0, None} \<and> wz_settings w = wz_settings w0 \<and>
     wz_accounts w = wz_accounts w0 \<and> wz_registry w = wz_registry w0"

lemma shut_cong:
  "shut w0 w \<Longrightarrow> shut w0 (w\<lparr>wz_sessions := filter P (wz_sessions w)\<rparr>)" "shut w0 w \<Longrightarrow> shut w0 (w\<lparr>wz_setup_token := None\<rparr>)"
  "shut w0 w \<Longrightarrow> shut w0 (w\<lparr>wz_enroll_token := e\<rparr>)"
  by (auto simp: shut_def)

lemma shut_guarded:
  assumes "shut w0 w" "outsider lib w0 (v, cs, p)"
  shows "shut w0 (snd (guarded lib v cs f w))"
proof -
  obtain r w' where e: "guarded lib v cs f w = (r, w')" by fastforce
  then show ?thesis
  proof (cases rule: guarded_cases)
    case (refused P)
    with assms(1) e show ?thesis by (simp add: shut_cong)
  next
    case (admitted P)
    with assms show ?thesis by (auto simp: shut_def)
  qed
qed

lemma shut_session:
  assumes "shut w0 w" "require_session c d v cs w = (r, w')"
  shows "isl r \<and> shut w0 w'"
  using assms(2)
proof (cases rule: require_session_cases)
  case (refused P)
  with assms(1) show ?thesis by (simp add: shut_cong)
next
  case (admitted P s)
  with assms(1) show ?thesis by (simp add: shut_def)
qed

lemma shut_step:
  assumes "shut w0 w" "outsider lib w0 (v, cs, p)"
  shows "shut w0 (wizard_step cfg lib mail (v, cs, p) w)"
proof (cases p)
  case (GetState seen)
  obtain session w' where s: "session_of v cs w = (session, w')" by fastforce
  then obtain P where "w' = w\<lparr>wz_sessions := filter P (wz_sessions w)\<rparr>" by (rule session_of_frame)
  with assms(1) GetState s show ?thesis by (simp add: get_state_def shut_cong)
next
  case (Redeem token)
  obtain x fl where t: "read_token v (wz_setup_token w) = (x, fl)" by fastforce
  have "shut w0 (w\<lparr>wz_setup_token := fl\<rparr>)"
    using assms(1) read_token_file[OF t] by (auto simp: shut_def)
  moreover have "x \<noteq> Some token"
    using assms read_token_file[OF t] Redeem by (auto simp: shut_def)
  ultimately show ?thesis
    using assms(1) Redeem t by (auto simp: redeem_token_def read_setup_token_def split: option.splits)
next
  case (Enroll host token)
  with assms(1) show ?thesis
    by (auto simp: enroll_booth_def read_enroll_token_def Let_def shut_cong split: prod.splits option.splits)
next
  case (CreateAdmin d)
  with assms(1) shut_session[OF assms(1)] show ?thesis
    by (fastforce simp: create_admin_def split: prod.splits sum.splits)
next
  case (SaveState step data)
  with assms(1) shut_session[OF assms(1)] show ?thesis
    by (fastforce simp: save_state_def split: prod.splits sum.splits)
next
  case ReadSession
  with assms(1) shut_session[OF assms(1)] show ?thesis
    by (fastforce simp: read_session_def split: prod.splits sum.splits)
qed (simp_all add: shut_guarded[OF assms])

text \<open>
  C25. The wizard is shut to anyone without the installer's token or an administrator's: as long as no session
  is open, no sequence of requests that present neither, whatever cookies they carry, creates an account, a
  gate or a session or marks the setup as complete.
\<close>

theorem wizard_locked:
  assumes "wz_sessions w = []" "list_all (outsider lib w) rs"
  shows "wz_accounts (fold (wizard_step cfg lib mail) rs w) = wz_accounts w \<and>
    wz_registry (fold (wizard_step cfg lib mail) rs w) = wz_registry w \<and>
    wz_settings (fold (wizard_step cfg lib mail) rs w) = wz_settings w \<and>
    wz_sessions (fold (wizard_step cfg lib mail) rs w) = []"
proof -
  have "shut w (fold (wizard_step cfg lib mail) rs w')" if "shut w w'" for w'
    using assms(2) that
  proof (induction rs arbitrary: w')
    case (Cons r rs)
    obtain v cs p where "r = (v, cs, p)" by (cases r)
    with Cons shut_step[of w w' lib v cs p cfg mail] show ?case by simp
  qed simp
  from this[of w] assms(1) show ?thesis by (simp add: shut_def)
qed

section \<open>The installer's token\<close>

text \<open>What one request does to the count of sessions and to the token on disk, and to the accounts.\<close>

definition redeemed :: "token_file option \<Rightarrow> wizard_request \<Rightarrow> bool" where
  "redeemed fl r \<longleftrightarrow> (case r of (v, cs, p) \<Rightarrow>
     (case p of Redeem token \<Rightarrow> (case fl of None \<Rightarrow> False
        | Some f \<Rightarrow> token = strip (tf_text f) \<and> we_now v \<le> tf_mtime f + SETUP_TOKEN_MAX_AGE_SECONDS * us_per_second)
      | _ \<Rightarrow> False))"

definition counted :: "wizard_request \<Rightarrow> wizard \<Rightarrow> wizard \<Rightarrow> bool" where
  "counted r w w' \<longleftrightarrow>
     wz_next_session w' = wz_next_session w \<and> wz_setup_token w' \<in> {wz_setup_token w, None} \<or>
     wz_next_session w' = wz_next_session w + 1 \<and> wz_setup_token w' = None \<and> redeemed (wz_setup_token w) r"

lemma counted_same: "wz_next_session w' = wz_next_session w \<Longrightarrow> wz_setup_token w' = wz_setup_token w \<Longrightarrow> counted r w w'"
  by (simp add: counted_def)

lemma finalize_cases:
  assumes "finalize cfg script v cs w = (r, w')"
  obtains P where "w' = w\<lparr>wz_sessions := filter P (wz_sessions w)\<rparr>" "r \<noteq> Inr True"
  | P where "w' = (delete_setup_token v (mark_setup_complete True w))\<lparr>wz_sessions := filter P (wz_sessions w)\<rparr>" "r = Inr True"
      "\<And>s x. fst (session_of v cs w) = Some s \<Longrightarrow> x \<in> set (wz_sessions w') \<Longrightarrow> ss_id x \<noteq> ss_id s"
proof -
  obtain session w1 where s: "session_of v cs w = (session, w1)" by fastforce
  then obtain P where P: "w1 = w\<lparr>wz_sessions := filter P (wz_sessions w)\<rparr>" by (rule session_of_frame)
  show thesis
  proof (cases "r = Inr True")
    case False
    with assms that(1)[of P] show ?thesis
      by (auto simp: finalize_def s P Let_def split: sum.splits if_splits)
  next
    case True
    with assms that(2)[of "\<lambda>x. P x \<and> (session = None \<or> ss_id x \<noteq> ss_id (the session))"] show ?thesis
      by (auto simp: finalize_def s P Let_def delete_session_def delete_setup_token_def mark_setup_complete_def
          conj_commute split: sum.splits if_splits option.splits)
  qed
qed

lemma counted_filter: "counted r w w1 \<Longrightarrow> counted r w (w1\<lparr>wz_sessions := filter P (wz_sessions w1)\<rparr>)"
  by (simp add: counted_def)

lemma counted_guarded:
  assumes "\<And>w r w'. f w = (r, w') \<Longrightarrow> counted x w w'"
  shows "counted x w (snd (guarded lib v cs f w))"
proof -
  obtain r w' where e: "guarded lib v cs f w = (r, w')" by fastforce
  then show ?thesis
  proof (cases rule: guarded_cases)
    case (refused P)
    with e show ?thesis by (simp add: counted_same)
  next
    case (admitted P)
    from assms[OF admitted(1)] e show ?thesis by (simp add: counted_def)
  qed
qed

lemma counted_session: "require_session c d v cs w = (r, w') \<Longrightarrow> counted x w w'"
  by (erule require_session_cases) (simp_all add: counted_same)

lemma counted_step:
  assumes "we_unlink v"
  shows "counted (v, cs, p) w (wizard_step cfg lib mail (v, cs, p) w)"
proof (cases p)
  case (GetState seen)
  obtain session w' where s: "session_of v cs w = (session, w')" by fastforce
  then obtain P where "w' = w\<lparr>wz_sessions := filter P (wz_sessions w)\<rparr>" by (rule session_of_frame)
  with GetState s show ?thesis by (simp add: get_state_def counted_same)
next
  case (Redeem token)
  obtain x fl where t: "read_token v (wz_setup_token w) = (x, fl)" by fastforce
  from read_token_file[OF t] Redeem assms t show ?thesis
    by (auto simp: redeem_token_def read_setup_token_def create_session_def delete_setup_token_def counted_def
        redeemed_def Let_def split: option.splits)
next
  case (Enroll host token)
  then show ?thesis
    by (auto simp: enroll_booth_def read_enroll_token_def Let_def counted_same split: prod.splits option.splits)
next
  case (CreateAdmin d)
  then show ?thesis
    by (auto simp: create_admin_def counted_same dest!: counted_session[where x = "(v, cs, p)"]
        simp: counted_def split: prod.splits sum.splits)
next
  case (SaveState step data)
  then show ?thesis
    by (auto simp: save_state_def save_session_step_def counted_same dest!: counted_session[where x = "(v, cs, p)"]
        simp: counted_def split: prod.splits sum.splits)
next
  case ReadSession
  then show ?thesis
    by (auto simp: read_session_def counted_same dest!: counted_session[where x = "(v, cs, p)"]
        simp: counted_def split: prod.splits sum.splits)
next
  case (Topology n k)
  show ?thesis
    unfolding Topology wizard_step.simps
    by (rule counted_guarded) (auto simp: apply_topology_def Let_def counted_same split: if_splits)
next
  case (Finalize script)
  show ?thesis
    unfolding Finalize wizard_step.simps
    by (rule counted_guarded, erule finalize_cases)
      (auto simp: counted_def delete_setup_token_def mark_setup_complete_def)
qed

text \<open>
  C34. The installer's token is good for one session. As long as the file system lets the API unlink it, no
  sequence of requests opens more than one, and none at all unless a request presents the token within a
  day of its making.
\<close>

theorem token_single_use:
  assumes "list_all (\<lambda>r. we_unlink (fst r)) rs"
  shows "wz_next_session (fold (wizard_step cfg lib mail) rs w) = wz_next_session w \<or>
    wz_next_session (fold (wizard_step cfg lib mail) rs w) = wz_next_session w + 1 \<and>
    list_ex (redeemed (wz_setup_token w)) rs"
proof -
  have none: "wz_next_session (fold (wizard_step cfg lib mail) rs w) = wz_next_session w" (is "?same rs w")
    if "wz_setup_token w = None" "list_all (\<lambda>r. we_unlink (fst r)) rs" for rs w
    using that
  proof (induction rs arbitrary: w)
    case (Cons r rs)
    obtain v cs p where r: "r = (v, cs, p)" by (cases r)
    with Cons.prems counted_step[of v cs p w cfg lib mail]
    have "wz_setup_token (wizard_step cfg lib mail r w) = None" "wz_next_session (wizard_step cfg lib mail r w) = wz_next_session w"
      by (auto simp: counted_def redeemed_def split: wizard_op.splits)
    with Cons show ?case by simp
  qed simp
  show ?thesis
    using assms
  proof (induction rs arbitrary: w)
    case (Cons r rs)
    obtain v cs p where r: "r = (v, cs, p)" by (cases r)
    let ?w = "wizard_step cfg lib mail r w"
    from Cons.prems r counted_step[of v cs p w cfg lib mail] have c: "counted r w ?w" by simp
    show ?case
    proof (cases "wz_setup_token ?w = None")
      case True
      with none[of ?w rs] Cons.prems c show ?thesis by (auto simp: counted_def)
    next
      case False
      with c have "wz_setup_token ?w = wz_setup_token w" "wz_next_session ?w = wz_next_session w"
        by (auto simp: counted_def)
      with Cons.IH[of ?w] Cons.prems show ?thesis by auto
    qed
  qed simp
qed

section \<open>The first administrator\<close>

lemma guarded_accounts:
  assumes "\<And>w r w'. f w = (r, w') \<Longrightarrow> wz_accounts w' = wz_accounts w"
  shows "wz_accounts (snd (guarded lib v cs f w)) = wz_accounts w"
proof -
  obtain r w' where e: "guarded lib v cs f w = (r, w')" by fastforce
  then show ?thesis
    by (cases rule: guarded_cases) (use e in \<open>auto dest: assms\<close>)
qed

lemma session_accounts: "require_session c d v cs w = (r, w') \<Longrightarrow> wz_accounts w' = wz_accounts w"
  by (erule require_session_cases) simp_all

lemma step_accounts:
  "wz_accounts (wizard_step cfg lib mail r w) = wz_accounts w \<or>
   \<not> has_any_admin w \<and> (\<exists>u. ac_role u = ''admin'' \<and>
     au_users (wz_accounts (wizard_step cfg lib mail r w)) = au_users (wz_accounts w) @ [u])"
proof -
  obtain v cs p where r: "r = (v, cs, p)" by (cases r)
  show ?thesis
  proof (cases p)
    case (GetState seen)
    obtain session w' where s: "session_of v cs w = (session, w')" by fastforce
    then obtain P where "w' = w\<lparr>wz_sessions := filter P (wz_sessions w)\<rparr>" by (rule session_of_frame)
    with GetState r s show ?thesis by (simp add: get_state_def)
  next
    case (Redeem token)
    with r show ?thesis
      by (auto simp: redeem_token_def read_setup_token_def create_session_def delete_setup_token_def Let_def
          split: prod.splits option.splits)
  next
    case (Enroll host token)
    with r show ?thesis
      by (auto simp: enroll_booth_def read_enroll_token_def Let_def split: prod.splits option.splits)
  next
    case (CreateAdmin d)
    with r show ?thesis
      by (auto simp: create_admin_def create_user_def has_any_admin_def Let_def dest!: session_accounts
          split: prod.splits sum.splits if_splits)
  next
    case (SaveState step data)
    with r show ?thesis
      by (auto simp: save_state_def save_session_step_def dest!: session_accounts split: prod.splits sum.splits)
  next
    case ReadSession
    with r show ?thesis by (auto simp: read_session_def dest!: session_accounts split: prod.splits sum.splits)
  next
    case (Topology n k)
    with r show ?thesis
      by (simp, intro disjI1 guarded_accounts) (auto simp: apply_topology_def Let_def split: if_splits)
  next
    case (Finalize script)
    with r show ?thesis
      by (simp, intro disjI1 guarded_accounts, elim finalize_cases)
        (auto simp: delete_setup_token_def mark_setup_complete_def)
  qed
qed

text \<open>
  The wizard creates one administrator and only where there is none: whatever its requests, the accounts
  are those of the start, with at most one added, an administrator, and none if there was one.
\<close>

theorem first_admin_once:
  "au_users (wz_accounts (fold (wizard_step cfg lib mail) rs w)) = au_users (wz_accounts w) \<or>
   \<not> has_any_admin w \<and> (\<exists>u. ac_role u = ''admin'' \<and>
     au_users (wz_accounts (fold (wizard_step cfg lib mail) rs w)) = au_users (wz_accounts w) @ [u])"
proof -
  have kept: "au_users (wz_accounts (fold (wizard_step cfg lib mail) rs w)) = au_users (wz_accounts w)"
    if "has_any_admin w" for rs w
    using that
  proof (induction rs arbitrary: w)
    case (Cons r rs)
    from step_accounts[of cfg lib mail r w] Cons.prems
    have "wz_accounts (wizard_step cfg lib mail r w) = wz_accounts w" by blast
    with Cons show ?case by (simp add: has_any_admin_def)
  qed simp
  show ?thesis
  proof (induction rs arbitrary: w)
    case (Cons r rs)
    let ?w = "wizard_step cfg lib mail r w"
    from step_accounts[of cfg lib mail r w] show ?case
    proof (elim disjE)
      assume "wz_accounts ?w = wz_accounts w"
      with Cons[of ?w] show ?thesis by (simp add: has_any_admin_def)
    next
      assume *: "\<not> has_any_admin w \<and> (\<exists>u. ac_role u = ''admin'' \<and> au_users (wz_accounts ?w) = au_users (wz_accounts w) @ [u])"
      then have "has_any_admin ?w" by (auto simp: has_any_admin_def)
      with kept[of ?w rs] * show ?thesis by simp
    qed
  qed simp
qed

section \<open>The test against the daemon\<close>

text \<open>What else is on the channel of a gate: alerts of the print worker and snapshots of an exit.\<close>

definition worker_message :: "json \<Rightarrow> bool" where
  "worker_message m \<longleftrightarrow>
     (\<exists>gid kind err. m = JObj [(''event_type'', JStr ''print_failed_alert''), (''gate_id'', JStr gid),
        (''kind'', JStr kind), (''error'', JStr err)]) \<or>
     (\<exists>url. m = JObj [(''type'', JStr ''camera_snapshot''), (''snapshot_type'', JStr ''exit''), (''snapshot_url'', JStr url)])"

lemma not_gate_closed:
  assumes "announced m \<or> worker_message m"
  shows "\<exists>flds. m = JObj flds \<and> map_of flds ''event_type'' \<noteq> Some (JStr ''gate_closed'')"
proof -
  have "\<exists>ty flds. m = JObj ((''event_type'', JStr ty) # flds) \<and> ty \<noteq> ''gate_closed''" if "announced m"
    using that unfolding announced_def
    by (auto simp: event_types_def split: json.split_asm list.split_asm prod.split_asm)
  then have "\<exists>flds. m = JObj flds \<and> map_of flds ''event_type'' \<noteq> Some (JStr ''gate_closed'')" if "announced m"
    using that by fastforce
  moreover have "\<exists>flds. m = JObj flds \<and> map_of flds ''event_type'' \<noteq> Some (JStr ''gate_closed'')" if "worker_message m"
    using that by (auto simp: worker_message_def)
  ultimately show ?thesis using assms by blast
qed

lemma wait_in_vain:
  "(\<And>t m. (t, Some m) \<in> set ms \<Longrightarrow> \<exists>flds. m = JObj flds \<and> map_of flds ''event_type'' \<noteq> Some (JStr want)) \<Longrightarrow>
   wait_event want t0 timeout ms = Inr (False, timeout)"
  by (induction want t0 timeout ms rule: wait_event.induct) (fastforce split: option.split json.split)+

text \<open>
  C35. The wizard's test of a gate with two relays never passes: it waits for an event the daemon of the gate
  never publishes, in any state any interleaving of its tasks can reach. When both commands have been sent
  and the opening was acknowledged, it is the closing that is reported as unheard.
\<close>

theorem dual_gate_test_fails:
  assumes daemon: "(gate_step gcfg)\<^sup>*\<^sup>* (gate_start gcfg s0) (pool, s)" "d_published s0 = []"
    and gate: "get_item gate_id ''Gate not found'' i (rg_gates reg) = Inr g" "gate_relay_mode g = ''DUAL''"
    and heard: "\<And>t0 ms t m. arrivals ''close'' = Inr (t0, ms) \<Longrightarrow> (t, Some m) \<in> set ms \<Longrightarrow>
      m \<in> set (d_published s) \<or> worker_message m"
    and run: "test_gate out i timeout arrivals reg y = (Inr res, y')"
  shows "\<not> tr_ok res \<and> (map ts_sent (tr_steps res) = [True, True] \<longrightarrow> map ts_acked (tr_steps res) = [True, False])"
proof -
  have "list_all announced (d_published s)"
    by (rule channel.reachable_inv[OF daemon(1)]) (simp add: daemon(2))
  then have "wait_event ''gate_closed'' t0 timeout ms = Inr (False, timeout)" if "arrivals ''close'' = Inr (t0, ms)" for t0 ms
    by (intro wait_in_vain not_gate_closed) (use heard[OF that] in \<open>auto simp: list_all_iff\<close>)
  with run show ?thesis
    by (auto simp: test_gate_def gate Let_def split: if_splits sum.splits prod.splits)
qed

section \<open>Examples\<close>

definition example_request :: "time \<Rightarrow> string \<Rightarrow> wizard_env" where
  "example_request now token = \<lparr>we_now = now, we_stat = True, we_read = True, we_unlink = True, we_urlsafe = token,
     we_salt = [], we_mint = \<lparr>mt_access_at = now, mt_access_jti = ''a'', mt_refresh_at = now, mt_refresh_jti = ''r''\<rparr>,
     we_times = \<lparr>ti_decode = now, ti_check = now, ti_revoke = now\<rparr>\<rparr>"

definition fresh_wizard :: wizard where
  "fresh_wizard = \<lparr>wz_setup_token = Some \<lparr>tf_text = ''0123456789'', tf_mtime = 0\<rparr>, wz_enroll_token = None,
     wz_sessions = [], wz_next_session = 1, wz_settings = Map.empty,
     wz_accounts = \<lparr>au_users = [], au_next_id = 1, au_denied = Map.empty, au_redis_up = True\<rparr>,
     wz_registry = \<lparr>rg_gates = \<lparr>tb_rows = [new_gate (''GIN-01'', ''Utama'', ''IN'') 1], tb_next = 2\<rparr>,
       rg_pos = \<lparr>tb_rows = [], tb_next = 1\<rparr>, rg_heartbeats = (\<lambda>_. None)\<rparr>\<rparr>"

definition setup_cookie :: "string \<Rightarrow> cookies" where
  "setup_cookie token = [SETUP_COOKIE_NAME \<mapsto> token]"

theorem wizard_locked_witness:
  "\<forall>cfg lib mail. wz_registry (fold (wizard_step cfg lib mail)
     [(example_request 5 ''s'', Map.empty, Redeem ''9876543210''), (example_request 6 ''s'', setup_cookie ''s'', Topology 2 2)]
     fresh_wizard) = wz_registry fresh_wizard"
proof (intro allI)
  fix cfg lib mail
  let ?rs = "[(example_request 5 ''s'', Map.empty, Redeem ''9876543210''), (example_request 6 ''s'', setup_cookie ''s'', Topology 2 2)]"
  have "list_all (outsider lib fresh_wizard) ?rs"
    by (simp add: fresh_wizard_def example_request_def setup_cookie_def get_current_user_def ACCESS_COOKIE_NAME_def
        SETUP_COOKIE_NAME_def strip_def lstrip_def rstrip_def is_space_def)
  from wizard_locked[OF _ this, of cfg mail]
  show "wz_registry (fold (wizard_step cfg lib mail) ?rs fresh_wizard) = wz_registry fresh_wizard"
    by (simp add: fresh_wizard_def del: fold.simps)
qed

theorem topology_applied_witness:
  "fst (apply_topology 2 1 fresh_wizard) = Inr 2 \<and>
   fst (apply_topology 1 1 (snd (apply_topology 2 1 fresh_wizard))) = Inr 0"
proof -
  obtain r w' where r: "apply_topology 2 1 fresh_wizard = (r, w')" by fastforce
  have ok: "table_ok gate_id gate_constraints (rg_gates (wz_registry fresh_wizard))"
    by (simp add: fresh_wizard_def table_ok_def gate_constraints_def)
  have "length (filter (\<lambda>g. fst g \<notin> gate_code ` set (tb_rows (rg_gates (wz_registry fresh_wizard)))) (topology_gates 2 1)) = 2"
    by code_simp
  with topology_applied[OF ok _ _ r] r show ?thesis by simp
qed

theorem token_single_use_witness:
  "\<forall>cfg lib mail. wz_next_session (fold (wizard_step cfg lib mail)
     [(example_request 5 ''s'', Map.empty, Redeem ''0123456789''), (example_request 6 ''t'', Map.empty, Redeem ''0123456789'')]
     fresh_wizard) \<le> 2"
proof (intro allI)
  fix cfg lib mail
  let ?rs = "[(example_request 5 ''s'', Map.empty, Redeem ''0123456789''), (example_request 6 ''t'', Map.empty, Redeem ''0123456789'')]"
  have "list_all (\<lambda>r. we_unlink (fst r)) ?rs" by (simp add: example_request_def)
  from token_single_use[OF this, of cfg lib mail fresh_wizard]
  show "wz_next_session (fold (wizard_step cfg lib mail) ?rs fresh_wizard) \<le> 2"
    by (auto simp: fresh_wizard_def simp del: fold.simps)
qed

definition dual_registry :: registry where
  "dual_registry = \<lparr>rg_gates = \<lparr>tb_rows = [example_gate_row ''IN1'' 7\<lparr>gate_relay_mode := ''DUAL''\<rparr>], tb_next = 8\<rparr>,
     rg_pos = \<lparr>tb_rows = [], tb_next = 1\<rparr>, rg_heartbeats = (\<lambda>_. None)\<rparr>"

text \<open>The opening is acknowledged after nine microseconds; the daemon then says nothing more.\<close>

definition example_arrivals :: "string \<Rightarrow> py_exc + time \<times> (time \<times> json option) list" where
  "example_arrivals action =
     Inr (0, if action = ''open'' then [(9, Some (JObj [(''event_type'', JStr ''gate_opened'')]))] else [])"

theorem dual_gate_test_fails_witness:
  "\<exists>res y'. test_gate example_outside 7 8000000 example_arrivals dual_registry example_site = (Inr res, y') \<and>
     map ts_acked (tr_steps res) = [True, False] \<and> \<not> tr_ok res"
proof -
  obtain res y' where run: "test_gate example_outside 7 8000000 example_arrivals dual_registry example_site = (Inr res, y')"
    and sent: "map ts_sent (tr_steps res) = [True, True]"
    by (simp add: test_gate_def get_item_def dual_registry_def example_gate_row_def gate.extend_def
        publish_command_def example_outside_def example_arrivals_def Let_def)
  obtain g where g: "get_item gate_id ''Gate not found'' 7 (rg_gates dual_registry) = Inr g" "gate_relay_mode g = ''DUAL''"
    by (simp add: get_item_def dual_registry_def example_gate_row_def gate.extend_def)
  have "\<not> tr_ok res \<and> (map ts_sent (tr_steps res) = [True, True] \<longrightarrow> map ts_acked (tr_steps res) = [True, False])"
  proof (rule dual_gate_test_fails[OF _ _ g _ run])
    show "(gate_step example_config)\<^sup>*\<^sup>* (gate_start example_config (init_gate ''IN1''))
        ([(None, run_daemon example_config)], init_gate ''IN1'')"
      by (simp add: gate_start_def)
  qed (simp_all add: init_gate_def example_arrivals_def)
  with sent run show ?thesis by (intro exI[of _ res] exI[of _ y']) simp
qed

end
