(* ===== verification/Diagnostics.thy ===== *)
theory Diagnostics
  imports Registry Print_Jobs "HOL-Library.Char_ord" "HOL-Library.List_Lexorder" "HOL-Library.Product_Lexorder"
begin

text \<open>
  The technician's diagnostics: \<open>parking_doctor\<close> with its interactive fixes (\<open>scripts/parking_doctor.py\<close>) and
  the command that starts a daemon (\<open>daemons/cli.py\<close>). What systemd, the file system, the network and the database answer is a record of
  functions, the argument \<open>f\<close>. The messages to the technician are left out, the fixes are kept, because they
  can be run.
\<close>

section \<open>Verdicts\<close>

datatype verdict = SKIP | PENDING | PASS | WARN | FAIL

text \<open>Verdicts are ordered by how bad they are.\<close>

fun severity :: "verdict \<Rightarrow> nat" where
  "severity SKIP = 0"
| "severity PENDING = 1"
| "severity PASS = 2"
| "severity WARN = 3"
| "severity FAIL = 4"

lemma severity_inj: "severity a = severity b \<longleftrightarrow> a = b"
  by (cases a; cases b) simp_all

instantiation verdict :: linorder
begin

definition less_eq_verdict :: "verdict \<Rightarrow> verdict \<Rightarrow> bool" where
  "a \<le> b \<longleftrightarrow> severity a \<le> severity b"

definition less_verdict :: "verdict \<Rightarrow> verdict \<Rightarrow> bool" where
  "a < b \<longleftrightarrow> severity a < severity b"

instance
  by standard (auto simp: less_eq_verdict_def less_verdict_def severity_inj)

end

lemma below_fail: "(v :: verdict) < FAIL \<longleftrightarrow> v \<noteq> FAIL"
  by (cases v) (simp_all add: less_verdict_def)

record check =
  dc_name :: string
  dc_category :: string
  dc_status :: verdict
  dc_fix :: string

definition check_of :: "string \<Rightarrow> string \<Rightarrow> verdict \<Rightarrow> string \<Rightarrow> check" where
  "check_of name category status remedy = \<lparr>dc_name = name, dc_category = category, dc_status = status, dc_fix = remedy\<rparr>"

text \<open>A check that passes, or fails with a fix.\<close>

definition pass_or_fail :: "string \<Rightarrow> string \<Rightarrow> bool \<Rightarrow> string \<Rightarrow> check" where
  "pass_or_fail name category ok remedy = check_of name category (if ok then PASS else FAIL) (if ok then [] else remedy)"

record summary =
  sm_total :: nat
  sm_pass :: nat
  sm_warn :: nat
  sm_fail :: nat
  sm_skip :: nat
  sm_healthy :: bool

definition with_status :: "verdict \<Rightarrow> check list \<Rightarrow> nat" where
  "with_status v cs = length (filter (\<lambda>c. dc_status c = v) cs)"

definition summary_of :: "check list \<Rightarrow> summary" where
  "summary_of cs = \<lparr>sm_total = length cs, sm_pass = with_status PASS cs, sm_warn = with_status WARN cs,
     sm_fail = with_status FAIL cs, sm_skip = with_status SKIP cs, sm_healthy = (with_status FAIL cs = 0)\<rparr>"

section \<open>What the checks look at\<close>

datatype probe_end = Streams | NoStream | ProbeTimeout | ProbeError

record camera =
  cm_name :: string
  cm_rtsp_url :: string

text \<open>
  \<open>fc_systemctl\<close>: exit and output, or the exception; \<open>fc_http\<close>: the status, or the exception; \<open>fc_links\<close>: the
  names in \<open>/dev\<close> with whether their link can be read; the tables as the queries give them, \<open>None\<close> where a
  query fails. The value of a setting is null, no JSON, or JSON. \<open>fc_row_json\<close>: what the driver makes of a JSON
  column in a query of plain SQL.
\<close>

record facts =
  fc_systemctl :: "string \<Rightarrow> (int \<times> string) option"
  fc_tcp :: "string \<Rightarrow> int \<Rightarrow> bool"
  fc_http :: "string \<Rightarrow> int option"
  fc_exists :: "string \<Rightarrow> bool"
  fc_writable :: "string \<Rightarrow> bool"
  fc_links :: "(string \<times> bool) list"
  fc_database :: bool
  fc_redis :: bool
  fc_ffprobe :: "(string \<Rightarrow> probe_end) option"
  fc_now :: time
  fc_registry :: registry
  fc_row_json :: "json \<Rightarrow> json"
  fc_cameras :: "camera list option"
  fc_printers :: "printer list option"
  fc_acquirers :: "(string \<times> json option option) list option"

definition tcp_probe :: "facts \<Rightarrow> string \<Rightarrow> int \<Rightarrow> bool" where
  "tcp_probe f host port = fc_tcp f host port"

definition systemd_active :: "facts \<Rightarrow> string \<Rightarrow> bool" where
  "systemd_active f unit =
     (case fc_systemctl f unit of None \<Rightarrow> False | Some (rc, out) \<Rightarrow> rc = 0 \<and> strip out = ''active'')"

section \<open>The checks of the server\<close>

definition core_units :: "string list" where
  "core_units = [''parking-api'', ''parking-worker-critical'', ''parking-worker-bg'', ''nginx'', ''postgresql'',
     ''redis-server'']"

definition unit_check :: "facts \<Rightarrow> string \<Rightarrow> string \<Rightarrow> check" where
  "unit_check f category unit =
     pass_or_fail unit category (systemd_active f unit)
       (''sudo systemctl status '' @ unit @ ''; sudo systemctl restart '' @ unit)"

definition check_core_units :: "facts \<Rightarrow> check list" where
  "check_core_units f = map (unit_check f ''Services'') core_units"

definition doctor_dirs :: "(string \<times> string) list" where
  "doctor_dirs = [(''/var/lib/parking/snapshots'', ''Snapshots dir''),
     (''/var/lib/parking/settlements'', ''Settlements dir''), (''/var/lib/parking/logs'', ''Logs dir'')]"

definition check_directories :: "facts \<Rightarrow> check list" where
  "check_directories f =
     map (\<lambda>(path, name).
       if \<not> fc_exists f path
       then check_of name ''Filesystem'' FAIL (''sudo mkdir -p '' @ path @ '' && sudo chown parking:parking '' @ path)
       else pass_or_fail name ''Filesystem'' (fc_writable f path) (''sudo chown parking:parking '' @ path)) doctor_dirs"

definition check_database :: "facts \<Rightarrow> check" where
  "check_database f = pass_or_fail ''PostgreSQL connect'' ''Core'' (fc_database f)
     ''Check DB_HOST/DB_PORT/credentials in .env; verify postgres systemd is up.''"

definition check_redis_ping :: "facts \<Rightarrow> check" where
  "check_redis_ping f = pass_or_fail ''Redis ping'' ''Core'' (fc_redis f)
     ''Verify redis-server systemd active; check REDIS_HOST/PORT/PASSWORD.''"

definition check_api_health :: "facts \<Rightarrow> check" where
  "check_api_health f =
     (case fc_http f ''http://127.0.0.1:8000/api/health'' of
        None \<Rightarrow> check_of ''API /api/health'' ''Core'' FAIL ''systemctl status parking-api; journalctl -u parking-api -n 50''
      | Some status \<Rightarrow> pass_or_fail ''API /api/health'' ''Core'' (status = 200) [])"

text \<open>The active gates in the order of direction and code, or the one asked for.\<close>

definition load_gates :: "facts \<Rightarrow> string option \<Rightarrow> gate_row list" where
  "load_gates f only =
     (let gates = sort_key (\<lambda>g. (gate_direction g, gate_code g)) (filter gt_is_active (tb_rows (rg_gates (fc_registry f))))
      in if truthy_str only then filter (\<lambda>g. gate_code g = the only) gates else gates)"

definition reach_check :: "facts \<Rightarrow> gate_row \<Rightarrow> check" where
  "reach_check f g =
     (let name = gate_code g @ '' controller'';
          host = gate_controller_host g; port = (case gate_controller_port g of None \<Rightarrow> 0 | Some n \<Rightarrow> n);
          dev = gate_controller_device g
      in if lower (gate_protocol g) \<in> {''compass'', ''tcp''} \<and> truthy_str host \<and> port \<noteq> 0
         then pass_or_fail name ''Gates'' (tcp_probe f (the host) port)
                (''ping '' @ the host @ ''; check switch/cable; verify controller power'')
         else if truthy_str dev
         then pass_or_fail name ''Gates'' (fc_exists f (the dev))
                ''ls -l /dev/serial/by-id/; run scripts/detect-serial-devices.sh; replug USB''
         else check_of name ''Gates'' WARN ''Re-run setup wizard hardware step'')"

definition daemon_unit :: "gate_row \<Rightarrow> string" where
  "daemon_unit g = ''parking-daemon-'' @ (if gate_direction g = ''IN'' then ''gate-in'' else ''gate-out'') @ ''@'' @
     gate_code g @ ''.service''"

definition daemon_check :: "facts \<Rightarrow> gate_row \<Rightarrow> check" where
  "daemon_check f g = pass_or_fail (gate_code g @ '' daemon'') ''Gates'' (systemd_active f (daemon_unit g))
     (''sudo systemctl enable --now '' @ daemon_unit g @ ''; journalctl -u '' @ daemon_unit g @ '' -n 50'')"

text \<open>A key that has expired is not there.\<close>

definition heartbeat_check :: "facts \<Rightarrow> gate_row \<Rightarrow> check" where
  "heartbeat_check f g =
     (if \<not> fc_redis f then check_of (gate_code g @ '' heartbeat'') ''Gates'' WARN []
      else pass_or_fail (gate_code g @ '' heartbeat'') ''Gates''
             (case rg_heartbeats (fc_registry f) (gate_code g) of None \<Rightarrow> False | Some (raw, expiry) \<Rightarrow> fc_now f < expiry)
             (''Check daemon is running; redis-cli del daemon:state:'' @ gate_code g @ ''; restart unit''))"

text \<open>
  The timeout of a gate is a column that cannot be null. The message on the relay takes \<open>get\<close> of the hardware
  configuration.
\<close>

fun is_object :: "json \<Rightarrow> bool" where
  "is_object (JObj kvs) = True"
| "is_object _ = False"

definition gate_checks :: "facts \<Rightarrow> gate_row \<Rightarrow> py_exc + check list" where
  "gate_checks f g =
     (if is_object (fc_row_json f (gate_hardware_config g))
      then Inr [check_of (gate_code g @ '' config'') ''Gates'' PASS [], reach_check f g, daemon_check f g, heartbeat_check f g]
      else Inl AttributeError)"

definition check_gates :: "facts \<Rightarrow> string option \<Rightarrow> py_exc + check list" where
  "check_gates f only =
     (if \<not> fc_database f then Inr [check_of ''Gate list'' ''Gates'' FAIL []]
      else if load_gates f only = []
      then Inr [check_of ''Gate list'' ''Gates'' WARN ''Add gates via setup wizard or POST /api/gates'']
      else map_sum id concat (sequence_results (map (gate_checks f) (load_gates f only))))"

definition camera_check :: "facts \<Rightarrow> camera \<Rightarrow> check" where
  "camera_check f c =
     (let check = check_of (''cam '' @ cm_name c) ''Cameras''
      in case fc_ffprobe f of
           None \<Rightarrow> check WARN ''sudo apt install -y ffmpeg''
         | Some probe \<Rightarrow>
           (case probe (cm_rtsp_url c) of
              Streams \<Rightarrow> check PASS []
            | NoStream \<Rightarrow> check FAIL (''verify URL reachable: ffprobe '' @ cm_rtsp_url c @ ''; check camera power + creds'')
            | ProbeTimeout \<Rightarrow> check FAIL ''camera likely unreachable; ping its IP''
            | ProbeError \<Rightarrow> check WARN []))"

definition check_cameras :: "facts \<Rightarrow> check list" where
  "check_cameras f =
     (case fc_cameras f of
        None \<Rightarrow> []
      | Some cams \<Rightarrow> if cams = [] then [check_of ''No active cameras'' ''Cameras'' SKIP []] else map (camera_check f) cams)"

definition printer_check :: "facts \<Rightarrow> printer \<Rightarrow> check" where
  "printer_check f p =
     (let check = check_of (''printer '' @ pr_name p) ''Printers''; mode = lower (pr_mode p);
          host = pr_ip_address p; port = (case pr_port p of None \<Rightarrow> 0 | Some n \<Rightarrow> n); dev = pr_serial_device p
      in if mode = ''tcp'' \<and> truthy_str host \<and> port \<noteq> 0
         then (if tcp_probe f (the host) port then check PASS []
               else check FAIL (''ping '' @ the host @ ''; check printer power + network''))
         else if mode \<in> {''serial'', ''usb''} \<and> truthy_str dev
         then (if \<not> fc_exists f (the dev) then check FAIL ''replug USB; ls /dev/usb/ /dev/serial/by-id/''
               else if \<not> fc_writable f (the dev)
               then check WARN (''sudo chmod 666 '' @ the dev @ '' or add parking user to dialout group'')
               else check PASS [])
         else check WARN [])"

definition check_printers :: "facts \<Rightarrow> check list" where
  "check_printers f =
     (case fc_printers f of
        None \<Rightarrow> []
      | Some all \<Rightarrow>
        (let ps = filter pr_is_active all
         in if ps = [] then [check_of ''No active printers'' ''Printers'' SKIP []] else map (printer_check f) ps))"

text \<open>The fixes without the age they name. The message takes \<open>get\<close> of what the booth last said of itself.\<close>

definition one_booth_check :: "facts \<Rightarrow> booth \<Rightarrow> py_exc + check" where
  "one_booth_check f b =
     (let check = check_of (''booth '' @ po_code b) ''Booths''
      in case po_last_seen_at b of
           None \<Rightarrow> Inr (check FAIL (''On the booth: sudo systemctl status parking-booth-bridge; sudo journalctl -u parking-booth-bridge -n 50. Verify /etc/parking/booth.json has code='' @
             [CHR 0x22] @ po_code b @ [CHR 0x22] @ ''.''))
         | Some seen \<Rightarrow>
           (let age = fc_now f - seen; status_blob = fc_row_json f (po_last_status b)
            in if truthy status_blob \<and> \<not> is_object status_blob then Inl AttributeError
               else if 300 * us_per_second \<le> age
               then Inr (check FAIL (''Booth '' @ po_code b @ '' has not checked in. On that booth PC: sudo systemctl restart parking-booth-bridge.''))
               else if 60 * us_per_second \<le> age
               then Inr (check WARN ''Heartbeat is late. Check network path from booth to server, and journalctl on the booth.'')
               else Inr (check PASS [])))"

definition active_booths :: "facts \<Rightarrow> booth list" where
  "active_booths f = sort_key po_code (filter po_is_active (tb_rows (rg_pos (fc_registry f))))"

definition check_booths :: "facts \<Rightarrow> py_exc + check list" where
  "check_booths f =
     (if \<not> fc_database f
      then Inr [check_of ''Booth list'' ''Booths'' WARN
              ''Run `alembic upgrade head`; last_seen_at/last_status may not be in the schema yet.'']
      else if active_booths f = [] then Inr [check_of ''No active booths'' ''Booths'' SKIP []]
      else sequence_results (map (one_booth_check f) (active_booths f)))"

text \<open>
  Acquirers: a value that is no JSON is passed over, one that is JSON but no object has no \<open>get\<close> and ends the
  diagnostics, as does a port that is no number. A host is checked once.
\<close>

definition first_truthy :: "json list \<Rightarrow> json" where
  "first_truthy js = (case find truthy js of None \<Rightarrow> JNull | Some j \<Rightarrow> j)"

fun acquirer_target :: "json option option \<Rightarrow> py_exc + (string \<times> int) option" where
  "acquirer_target None = Inr None"
| "acquirer_target (Some None) = Inr None"
| "acquirer_target (Some (Some (JObj flds))) =
     (let get = (\<lambda>k. case map_of flds k of None \<Rightarrow> JNull | Some v \<Rightarrow> v);
          host = first_truthy [get ''sftp_host'', get ''host''];
          port = first_truthy [get ''sftp_port'', get ''port'', JInt 22]
      in case host of
           JStr h \<Rightarrow>
             if h = [] then Inr None
             else (case port of
                     JInt n \<Rightarrow> Inr (Some (h, n))
                   | JStr t \<Rightarrow> map_sum id (\<lambda>n. Some (h, n)) (int_of_str t)
                   | JBool b \<Rightarrow> Inr (Some (h, if b then 1 else 0))
                   | _ \<Rightarrow> Inl TypeError)
         | _ \<Rightarrow> if truthy host then Inl TypeError else Inr None)"
| "acquirer_target (Some (Some _)) = Inl AttributeError"

fun acquirer_checks :: "facts \<Rightarrow> (string \<times> int) set \<Rightarrow> (string \<times> json option option) list \<Rightarrow> py_exc + check list" where
  "acquirer_checks f seen [] = Inr []"
| "acquirer_checks f seen ((key, value) # rows) =
     (case acquirer_target value of
        Inl e \<Rightarrow> Inl e
      | Inr None \<Rightarrow> acquirer_checks f seen rows
      | Inr (Some (host, port)) \<Rightarrow>
          if (host, port) \<in> seen then acquirer_checks f seen rows
          else map_sum id (\<lambda>cs. pass_or_fail (key @ '' -> '' @ host @ '':'' @ str_of_int port) ''Acquirers'' (tcp_probe f host port)
                   (''verify firewall allows outbound to '' @ host @ '':'' @ str_of_int port @ ''; check VPN if required'') # cs)
                 (acquirer_checks f (insert (host, port) seen) rows))"

definition check_acquirers :: "facts \<Rightarrow> py_exc + check list" where
  "check_acquirers f =
     (case fc_acquirers f of
        None \<Rightarrow> Inr []
      | Some rows \<Rightarrow>
        if rows = [] then Inr [check_of ''Acquirer config'' ''Acquirers'' SKIP []] else acquirer_checks f {} rows)"

definition run_doctor :: "facts \<Rightarrow> string option \<Rightarrow> py_exc + check list" where
  "run_doctor f only =
     (let core = check_core_units f @ check_directories f @ [check_database f, check_redis_ping f, check_api_health f]
      in case check_gates f only of
           Inl e \<Rightarrow> Inl e
         | Inr of_gates \<Rightarrow>
             if only \<noteq> None then Inr (core @ of_gates)
             else (case check_booths f of
                     Inl e \<Rightarrow> Inl e
                   | Inr of_booths \<Rightarrow>
                       map_sum id (\<lambda>acq. core @ of_gates @ check_cameras f @ check_printers f @ of_booths @ acq)
                         (check_acquirers f)))"

section \<open>The checks of a booth\<close>

definition check_booth_units :: "facts \<Rightarrow> check list" where
  "check_booth_units f = map (unit_check f ''Booth services'') [''parking-booth-bridge'', ''parking-kiosk'']"

definition check_booth_serials :: "facts \<Rightarrow> check list" where
  "check_booth_serials f =
     (if fc_links f = []
      then [check_of ''Parking serial symlinks'' ''Booth USB'' WARN
              ''run scripts/write-udev-rules.sh on this booth or check udev rules'']
      else map (\<lambda>(dev, readable).
             if \<not> readable then check_of dev ''Booth USB'' FAIL []
             else if fc_writable f (''/dev/'' @ dev) then check_of dev ''Booth USB'' PASS []
             else check_of dev ''Booth USB'' WARN (''sudo chmod 660 /dev/'' @ dev @ '' or add user to dialout''))
           (sort_key fst (fc_links f)))"

text \<open>\<open>host\<close> and \<open>port\<close> are what \<open>urlparse\<close> finds in the configured address.\<close>

definition check_booth_to_server :: "facts \<Rightarrow> string \<Rightarrow> int \<Rightarrow> check list" where
  "check_booth_to_server f host port =
     [pass_or_fail (''API reach '' @ host @ '':'' @ str_of_int port) ''Booth network'' (tcp_probe f host port)
        (''ping '' @ host @ ''; check switch + cable; verify API_BASE_URL in .env''),
      case fc_http f (''http://'' @ host @ '':'' @ str_of_int port @ ''/api/health'') of
        None \<Rightarrow> check_of ''API /api/health (remote)'' ''Booth network'' FAIL
                  ''confirm server-side parking-api is up via parking-doctor on server''
      | Some status \<Rightarrow> pass_or_fail ''API /api/health (remote)'' ''Booth network'' (status = 200) []]"

definition run_booth :: "facts \<Rightarrow> string \<Rightarrow> int \<Rightarrow> check list" where
  "run_booth f host port = check_booth_units f @ check_booth_serials f @ check_booth_to_server f host port"

section \<open>Fixing\<close>

definition DANGEROUS_PATTERNS :: "string list" where
  "DANGEROUS_PATTERNS = [''rm -rf /'', ''rm -rf ~'', ''dd '', ''mkfs'', ''> /dev/sd'', ''chmod 777 /'', '':(){'']"

definition is_dangerous :: "string \<Rightarrow> bool" where
  "is_dangerous cmd \<longleftrightarrow> list_ex (\<lambda>p. contains p (lower cmd)) DANGEROUS_PATTERNS"

text \<open>
  The walk through the fixes. \<open>answers\<close>: what the technician types, the end of the list being an interrupt;
  the result: the commands that were run, all of them attempted.
\<close>

fun walk_fixes :: "bool \<Rightarrow> bool \<Rightarrow> check list \<Rightarrow> string list \<Rightarrow> string list" where
  "walk_fixes assume_yes allow_dangerous [] answers = []"
| "walk_fixes assume_yes allow_dangerous (c # cs) answers =
     (if is_dangerous (dc_fix c) \<and> \<not> allow_dangerous then walk_fixes assume_yes allow_dangerous cs answers
      else if assume_yes then dc_fix c # walk_fixes assume_yes allow_dangerous cs answers
      else case answers of
             [] \<Rightarrow> []
           | a # rest \<Rightarrow>
               (let choice = lower (strip a)
                in if choice = ''q'' then []
                   else if choice \<noteq> ''y'' then walk_fixes assume_yes allow_dangerous cs rest
                   else dc_fix c # walk_fixes assume_yes allow_dangerous cs rest))"

definition fix_targets :: "check list \<Rightarrow> check list" where
  "fix_targets cs =
     filter (\<lambda>c. dc_status c = FAIL \<and> dc_fix c \<noteq> []) cs @ filter (\<lambda>c. dc_status c = WARN \<and> dc_fix c \<noteq> []) cs"

definition run_interactive_fixes :: "bool \<Rightarrow> bool \<Rightarrow> check list \<Rightarrow> string list \<Rightarrow> string list" where
  "run_interactive_fixes assume_yes allow_dangerous cs answers = walk_fixes assume_yes allow_dangerous (fix_targets cs) answers"

text \<open>The exit status of the command.\<close>

definition doctor_exit :: "py_exc + check list \<Rightarrow> int" where
  "doctor_exit r = (case r of Inl e \<Rightarrow> 2 | Inr cs \<Rightarrow> if sm_healthy (summary_of cs) then 0 else 1)"

section \<open>Starting a daemon\<close>

text \<open>The configuration: the row and what is flattened out of its hardware configuration.\<close>

record launch_config =
  lc_gate :: gate_row
  lc_hardware_config :: json
  lc_gate_mode :: json
  lc_emoney_minimum_balance :: json
  lc_print_decision_timeout_seconds :: json
  lc_payment_timeout_seconds :: json
  lc_open_command :: json
  lc_close_command :: json
  lc_pulse_duration_ms :: json

definition build_config :: "registry \<Rightarrow> string \<Rightarrow> py_exc + launch_config" where
  "build_config reg code =
     (case scalar_one_or_none (filter (\<lambda>g. gate_code g = code) (tb_rows (rg_gates reg))) of
        Inl e \<Rightarrow> Inl e
      | Inr None \<Rightarrow> Inl (RuntimeError ''Gate not found in database'')
      | Inr (Some g) \<Rightarrow>
        (case (if truthy (gate_hardware_config g) then gate_hardware_config g else JObj []) of
           JObj kvs \<Rightarrow>
             (let get = (\<lambda>k d. case map_of kvs k of None \<Rightarrow> d | Some v \<Rightarrow> v)
              in Inr \<lparr>lc_gate = g, lc_hardware_config = JObj kvs, lc_gate_mode = get ''gate_mode'' (JStr ''CASH''),
                      lc_emoney_minimum_balance = get ''emoney_minimum_balance'' (JInt 10000),
                      lc_print_decision_timeout_seconds = get ''print_decision_timeout_seconds'' (JInt 10),
                      lc_payment_timeout_seconds = get ''payment_timeout_seconds'' (JInt 120),
                      lc_open_command = get ''open_command'' JNull, lc_close_command = get ''close_command'' JNull,
                      lc_pulse_duration_ms = get ''pulse_duration_ms'' JNull\<rparr>)
         | _ \<Rightarrow> Inl AttributeError))"

text \<open>The daemon that is run, with its configuration; \<open>None\<close>: the command returns without one.\<close>

definition run_daemon_cli :: "registry \<Rightarrow> string \<Rightarrow> py_exc + (gate_config \<times> gate_in) option" where
  "run_daemon_cli reg code =
     (case build_config reg code of
        Inl e \<Rightarrow> Inl e
      | Inr c \<Rightarrow>
        (let g = lc_gate c
         in if gate_direction g = ''IN''
            then map_sum id (\<lambda>cfg. Some (cfg, init_gate code))
                   (init_config (Some (gate_protocol g)) (Some (gate_relay_mode g)) (gate_controller_host g)
                      (gate_controller_port g) (gate_controller_device g) (gate_name g) (lc_hardware_config c))
            else if gate_direction g = ''OUT'' then Inr None
            else Inl (RuntimeError ''Unknown gate direction'')))"

section \<open>The verdict on the site\<close>

lemma check_of_sel [simp]:
  "dc_status (check_of n c v r) = v" "dc_fix (check_of n c v r) = r"
  by (simp_all add: check_of_def)

lemma pass_or_fail_status [simp]:
  "dc_status (pass_or_fail n c ok r) = (if ok then PASS else FAIL)"
  "dc_fix (pass_or_fail n c ok r) = (if ok then [] else r)"
  by (simp_all add: pass_or_fail_def)

text \<open>Healthy is: the worst verdict is below a failure.\<close>

lemma healthy_iff: "sm_healthy (summary_of cs) \<longleftrightarrow> list_all (\<lambda>c. dc_status c < FAIL) cs"
  by (auto simp: summary_of_def with_status_def filter_empty_conv list_all_iff below_fail)

lemma exit_ok: "doctor_exit r = 0 \<longleftrightarrow> (\<exists>cs. r = Inr cs \<and> list_all (\<lambda>c. dc_status c < FAIL) cs)"
  by (cases r) (auto simp: doctor_exit_def healthy_iff)

lemma sequence_results_Inr: "sequence_results rs = Inr xs \<Longrightarrow> rs = map Inr xs"
  by (induction rs arbitrary: xs) (auto split: sum.splits)

lemma sequence_results_map:
  assumes "sequence_results (map h as) = Inr xs" "a \<in> set as"
  shows "\<exists>x \<in> set xs. h a = Inr x"
proof -
  have "h a \<in> set (map Inr xs)"
    using assms by (metis list.set_map imageI sequence_results_Inr)
  then show ?thesis by auto
qed

lemma load_gates_set:
  "set (load_gates f only) = {g \<in> set (tb_rows (rg_gates (fc_registry f))). gt_is_active g \<and>
     (truthy_str only \<longrightarrow> gate_code g = the only)}"
  by (auto simp: load_gates_def Let_def)

definition server_up :: "facts \<Rightarrow> bool" where
  "server_up f \<longleftrightarrow> list_all (systemd_active f) core_units \<and>
     list_all (\<lambda>(path, name). fc_exists f path \<and> fc_writable f path) doctor_dirs \<and>
     fc_database f \<and> fc_redis f \<and> fc_http f ''http://127.0.0.1:8000/api/health'' = Some 200"

definition fresh :: "facts \<Rightarrow> string \<Rightarrow> bool" where
  "fresh f code \<longleftrightarrow> (case rg_heartbeats (fc_registry f) code of None \<Rightarrow> False | Some (raw, expiry) \<Rightarrow> fc_now f < expiry)"

lemma heartbeat_status:
  "dc_status (heartbeat_check f g) = (if \<not> fc_redis f then WARN else if fresh f (gate_code g) then PASS else FAIL)"
  by (simp add: heartbeat_check_def fresh_def)

lemma shown_online:
  assumes "gate_direction g = ''IN''" "gate_status_of (fc_now f) (fc_registry f) g = Inr st"
  shows "gs_online st \<longleftrightarrow> fresh f (gate_code g)"
  using assms by (auto simp: fresh_def gate_status_of_def in_status_def Let_def
      split: option.splits json.splits if_splits)

lemma server_below_fail:
  "list_all (\<lambda>c. dc_status c < FAIL) (check_core_units f @ check_directories f @
     [check_database f, check_redis_ping f, check_api_health f]) \<longleftrightarrow> server_up f"
  by (simp add: server_up_def check_core_units_def unit_check_def check_directories_def check_database_def
      check_redis_ping_def check_api_health_def list.pred_map comp_def below_fail case_prod_beta
      split: option.split if_split) (auto simp: list_all_iff)

text \<open>A healthy run in its parts.\<close>

lemma healthy_parts:
  assumes "doctor_exit (run_doctor f only) = 0"
  shows "server_up f" "g \<in> set (load_gates f only) \<Longrightarrow> systemd_active f (daemon_unit g) \<and> fresh f (gate_code g)"
    "only = None \<Longrightarrow> list_all (\<lambda>c. dc_status c < FAIL) (check_cameras f @ check_printers f)"
proof -
  from assms obtain cs gs where gs: "check_gates f only = Inr gs" "run_doctor f only = Inr cs"
      and ok: "list_all (\<lambda>c. dc_status c < FAIL) cs"
    by (cases "check_gates f only") (auto simp: exit_ok run_doctor_def Let_def)
  have core: "list_all (\<lambda>c. dc_status c < FAIL) (check_core_units f @ check_directories f @
      [check_database f, check_redis_ping f, check_api_health f])"
    and lgs: "list_all (\<lambda>c. dc_status c < FAIL) gs"
    and "only = None \<Longrightarrow> list_all (\<lambda>c. dc_status c < FAIL) (check_cameras f @ check_printers f)"
    using gs ok by (cases "check_acquirers f"; auto simp: run_doctor_def Let_def split: if_splits sum.splits)+
  then show up: "server_up f"
    and "only = None \<Longrightarrow> list_all (\<lambda>c. dc_status c < FAIL) (check_cameras f @ check_printers f)"
    by (simp_all only: server_below_fail)
  assume g: "g \<in> set (load_gates f only)"
  with gs up obtain css where css: "sequence_results (map (gate_checks f) (load_gates f only)) = Inr css" "gs = concat css"
    by (cases "sequence_results (map (gate_checks f) (load_gates f only))")
      (auto simp: check_gates_def server_up_def split: if_splits)
  with g obtain cs where "cs \<in> set css" "gate_checks f g = Inr cs"
    by (blast dest: sequence_results_map)
  with css lgs have "list_all (\<lambda>c. dc_status c < FAIL) [daemon_check f g, heartbeat_check f g]"
    by (auto simp: gate_checks_def list_all_iff split: if_splits)
  with up show "systemd_active f (daemon_unit g) \<and> fresh f (gate_code g)"
    by (simp add: daemon_check_def heartbeat_status server_up_def below_fail split: if_splits)
qed

text \<open>
  What a clean bill means: when the doctor exits with 0, every unit of the server is active, its directories can
  be written, database, Redis and API answer, the unit of every active gate is active, and the map of the API
  shows each of them that has a daemon online at that instant.
\<close>

theorem healthy_site:
  assumes "doctor_exit (run_doctor f None) = 0"
    and "g \<in> set (tb_rows (rg_gates (fc_registry f)))" "gt_is_active g" "gate_direction g = ''IN''"
    and "gate_status_of (fc_now f) (fc_registry f) g = Inr st"
  shows "server_up f \<and> systemd_active f (daemon_unit g) \<and> gs_online st"
proof -
  have "g \<in> set (load_gates f None)"
    using assms(2,3) by (simp add: load_gates_set)
  with healthy_parts[OF assms(1)] shown_online[OF assms(4,5)] show ?thesis by blast
qed

text \<open>
  The doctor and the map of the API agree on a gate with a daemon: while Redis answers, its heartbeat check passes if
  and only if the map shows the gate online.
\<close>

theorem heartbeat_agrees:
  assumes "fc_redis f" "gate_direction g = ''IN''" "gate_status_of (fc_now f) (fc_registry f) g = Inr st"
  shows "dc_status (heartbeat_check f g) = PASS \<longleftrightarrow> gs_online st"
  using assms by (simp add: heartbeat_status shown_online)

lemma code_found:
  assumes "gate_constraints gs" "g \<in> set gs"
  shows "filter (\<lambda>h. gate_code h = gate_code g) gs = [g]"
  using assms by (simp add: gate_constraints_def unique_row)

text \<open>
  C36. A site with an exit gate is never healthy: daemons are the only ones to write heartbeats, the command that starts
  them starts none for an exit gate, and the doctor asks every active gate for one.
\<close>

theorem exit_gate_never_healthy:
  assumes "gate_constraints (tb_rows (rg_gates (fc_registry f)))"
    and "\<And>code hb. rg_heartbeats (fc_registry f) code = Some hb \<Longrightarrow> \<exists>d. run_daemon_cli (fc_registry f) code = Inr (Some d)"
    and "g \<in> set (tb_rows (rg_gates (fc_registry f)))" "gt_is_active g" "gate_direction g = ''OUT''"
  shows "doctor_exit (run_doctor f None) \<noteq> 0"
proof
  assume "doctor_exit (run_doctor f None) = 0"
  from healthy_parts(2)[OF this, of g] assms(3,4) have "fresh f (gate_code g)"
    by (simp add: load_gates_set)
  then obtain hb where "rg_heartbeats (fc_registry f) (gate_code g) = Some hb"
    by (auto simp: fresh_def split: option.splits)
  from assms(2)[OF this] obtain d where "run_daemon_cli (fc_registry f) (gate_code g) = Inr (Some d)" ..
  with code_found[OF assms(1,3)] assms(5) show False
    by (simp add: run_daemon_cli_def build_config_def Let_def split: json.splits if_splits)
qed

section \<open>The link to the controller\<close>

text \<open>
  C4. The doctor's view of a controller on the network is the daemon's, but for one protocol: with the address probed as the
  daemon finds it, the check of a gate of protocol \<open>compass\<close> passes if and only if the daemon gets its link; that of a
  gate of protocol \<open>enet\<close>, which the daemon connects to in the same way, only ever warns.
\<close>

theorem enet_unprobed:
  assumes "build_config reg code = Inr c" "run_daemon_cli reg code = Inr (Some (cfg, s))" "g = lc_gate c"
    and "gate_protocol g \<in> {''compass'', ''enet''}"
    and "gate_controller_host g = Some h" "h \<noteq> []" "gate_controller_port g = Some p" "p \<noteq> 0"
    and "gate_controller_device g = None" "fc_tcp f h p = e_connect (es 0)"
  shows "dc_status (reach_check f g) = (if gate_protocol g = ''enet'' then WARN
    else if g_controller (snd (alone (connect_controller cfg) es s)) = None then FAIL else PASS)"
proof -
  from assms(1-3) obtain hw where cfg: "init_config (Some (gate_protocol g)) (Some (gate_relay_mode g))
      (gate_controller_host g) (gate_controller_port g) (gate_controller_device g) (gate_name g) hw = Inr cfg"
    and "s = init_gate code"
    by (auto simp: run_daemon_cli_def Let_def map_sum_def split: if_splits sum.splits)
  then have "c_protocol cfg = Some (gate_protocol g)" "c_host cfg = Some h" "c_port cfg = Some p" "g_controller s = None"
    using assms(5,7) by (auto simp: init_config_def init_gate_def split: sum.splits prod.splits)
  with assms(4-10) show ?thesis
    by (auto simp: reach_check_def connect_controller_def lower_def Let_def compass_connect_def tcp_probe_def)
qed

section \<open>The fixes\<close>

lemma walked_fix:
  "cmd \<in> set (walk_fixes yes allow ts answers) \<Longrightarrow> cmd \<in> dc_fix ` set ts \<and> (is_dangerous cmd \<longrightarrow> allow)"
proof (induction ts arbitrary: answers)
  case (Cons c ts)
  then show ?case
    using Cons.IH[of answers] Cons.IH[of "tl answers"] by (cases answers) (auto simp: Let_def split: if_splits)
qed simp

lemma walked_confirmed:
  "length (walk_fixes False allow ts answers) \<le> length (filter (\<lambda>a. lower (strip a) = ''y'') answers)"
proof (induction ts arbitrary: answers)
  case (Cons c ts)
  then show ?case
    using Cons.IH[of answers] Cons.IH[of "tl answers"] by (cases answers) (auto simp: Let_def)
qed simp

text \<open>
  C5. What fixing may do to the machine: whatever the technician types, only fixes of checks that failed or warned are run,
  none with a dangerous pattern unless that was allowed, and without \<open>--yes\<close> no more than were confirmed.
\<close>

theorem fixes_safe:
  "(\<forall>cmd \<in> set (run_interactive_fixes assume_yes allow cs answers).
      (\<exists>c \<in> set cs. dc_status c \<in> {FAIL, WARN} \<and> dc_fix c = cmd) \<and> (is_dangerous cmd \<longrightarrow> allow)) \<and>
   (assume_yes \<or> length (run_interactive_fixes assume_yes allow cs answers) \<le>
      length (filter (\<lambda>a. lower (strip a) = ''y'') answers))"
proof
  show "\<forall>cmd \<in> set (run_interactive_fixes assume_yes allow cs answers).
      (\<exists>c \<in> set cs. dc_status c \<in> {FAIL, WARN} \<and> dc_fix c = cmd) \<and> (is_dangerous cmd \<longrightarrow> allow)"
    by (fastforce simp: run_interactive_fixes_def fix_targets_def dest: walked_fix)
  show "assume_yes \<or> length (run_interactive_fixes assume_yes allow cs answers) \<le>
      length (filter (\<lambda>a. lower (strip a) = ''y'') answers)"
    using walked_confirmed by (cases assume_yes) (simp_all add: run_interactive_fixes_def)
qed

text \<open>
  C6. The check for \<open>dd\<close> is a search in the text: the fix the doctor offers for a printer that cannot be written tells to
  ``add'' a user, so it counts as dangerous and is never run, confirmed or not.
\<close>

theorem dialout_fix_refused:
  assumes "dc_status (printer_check f p) = WARN" "dc_fix (printer_check f p) \<noteq> []"
  shows "dc_fix (printer_check f p) \<notin> set (run_interactive_fixes assume_yes False cs answers)"
proof -
  let ?fix = "dc_fix (printer_check f p)"
  from assms obtain dev where "?fix = (''sudo chmod 666 '' @ dev @ '' or a'') @ ''dd '' @ ''parking user to dialout group''"
    by (auto simp: printer_check_def Let_def split: if_splits)
  then have "contains ''dd '' (lower ?fix)"
    using contains_append[of "''dd ''" "lower (''sudo chmod 666 '' @ dev @ '' or a'')" "lower ''parking user to dialout group''"]
    by (simp add: lower_def)
  then have "is_dangerous ?fix"
    by (simp add: is_dangerous_def DANGEROUS_PATTERNS_def)
  then show ?thesis
    by (auto simp: run_interactive_fixes_def dest: walked_fix)
qed

text \<open>The modes of the printers model the doctor has no branch for: it warns, whatever their state.\<close>

lemma network_printer_unprobed:
  "pr_mode p \<in> {''NETWORK'', ''CONTROLLER_PASSTHROUGH''} \<Longrightarrow> printer_check f p = check_of (''printer '' @ pr_name p) ''Printers'' WARN []"
  by (auto simp: printer_check_def lower_def Let_def)

section \<open>When the doctor itself falls ill\<close>

lemma gate_checks_fail: "(\<exists>e. gate_checks f g = Inl e) \<longleftrightarrow> \<not> is_object (fc_row_json f (gate_hardware_config g))"
  by (auto simp: gate_checks_def)

lemma one_booth_check_fail:
  "(\<exists>e. one_booth_check f b = Inl e) \<longleftrightarrow> po_last_seen_at b \<noteq> None \<and> truthy (fc_row_json f (po_last_status b)) \<and>
     \<not> is_object (fc_row_json f (po_last_status b))"
  by (auto simp: one_booth_check_def Let_def split: option.splits)

lemma sequence_results_Inl: "(\<exists>e. sequence_results rs = Inl e) \<longleftrightarrow> (\<exists>r \<in> set rs. \<exists>e. r = Inl e)"
  by (induction rs) (auto split: sum.splits)

lemma acquirer_checks_fail:
  "(\<exists>e. acquirer_checks f seen acq = Inl e) \<longleftrightarrow> (\<exists>e k v. (k, v) \<in> set acq \<and> acquirer_target v = Inl e)"
proof (induction acq arbitrary: seen)
  case (Cons row acq)
  obtain key v where row: "row = (key, v)" by fastforce
  have rest: "(\<exists>e. acquirer_checks f s acq = Inl e) \<longleftrightarrow> (\<exists>e k v. (k, v) \<in> set acq \<and> acquirer_target v = Inl e)" for s
    by (rule Cons.IH)
  show ?case
  proof (cases "acquirer_target v")
    case (Inr target)
    have raises: "(\<exists>e. map_sum id h r = Inl e) \<longleftrightarrow> (\<exists>e. r = Inl e)" for h and r :: "py_exc + check list"
      by (cases r) simp_all
    from Inr have "(\<exists>e k' v'. (k', v') \<in> set (row # acq) \<and> acquirer_target v' = Inl e) \<longleftrightarrow>
        (\<exists>e k v. (k, v) \<in> set acq \<and> acquirer_target v = Inl e)"
      by (auto simp: row)
    with Inr show ?thesis
      by (cases target) (simp_all add: row rest raises split: prod.split)
  qed (auto simp: row)
qed simp

lemma check_gates_fail:
  "(\<exists>e. check_gates f only = Inl e) \<longleftrightarrow>
     fc_database f \<and> (\<exists>g \<in> set (load_gates f only). \<not> is_object (fc_row_json f (gate_hardware_config g)))"
proof -
  have "(\<exists>e. sequence_results (map (gate_checks f) (load_gates f only)) = Inl e) \<longleftrightarrow>
      (\<exists>g \<in> set (load_gates f only). \<not> is_object (fc_row_json f (gate_hardware_config g)))"
    by (simp add: sequence_results_Inl gate_checks_fail)
  then show ?thesis
    by (cases "load_gates f only = []") (auto simp: check_gates_def map_sum_def split: sum.splits)
qed

lemma check_acquirers_fail:
  "(\<exists>e. check_acquirers f = Inl e) \<longleftrightarrow>
     (\<exists>acq e k v. fc_acquirers f = Some acq \<and> (k, v) \<in> set acq \<and> acquirer_target v = Inl e)"
  using acquirer_checks_fail by (auto simp: check_acquirers_def split: option.splits)

lemma check_booths_fail:
  "(\<exists>e. check_booths f = Inl e) \<longleftrightarrow> fc_database f \<and> (\<exists>b \<in> set (tb_rows (rg_pos (fc_registry f))). po_is_active b \<and>
     po_last_seen_at b \<noteq> None \<and> truthy (fc_row_json f (po_last_status b)) \<and> \<not> is_object (fc_row_json f (po_last_status b)))"
proof -
  have "(\<exists>e. sequence_results (map (one_booth_check f) (active_booths f)) = Inl e) \<longleftrightarrow>
      (\<exists>b \<in> set (active_booths f). \<exists>e. one_booth_check f b = Inl e)"
    by (simp add: sequence_results_Inl)
  then show ?thesis
    by (auto simp: check_booths_def one_booth_check_fail active_booths_def)
qed

lemma run_doctor_fail:
  "(\<exists>e. run_doctor f only = Inl e) \<longleftrightarrow>
     (\<exists>e. check_gates f only = Inl e) \<or> (only = None \<and> ((\<exists>e. check_booths f = Inl e) \<or> (\<exists>e. check_acquirers f = Inl e)))"
  by (auto simp: run_doctor_def Let_def map_sum_def split: sum.splits)

text \<open>
  When the doctor crashes: exactly when the driver gives the hardware configuration of a gate it looks at, or the status
  of a booth that was seen, as something else than an object, or an acquirer setting has no usable target.
\<close>

theorem doctor_crashes_iff:
  "doctor_exit (run_doctor f only) = 2 \<longleftrightarrow>
     (fc_database f \<and> (\<exists>g \<in> set (load_gates f only). \<not> is_object (fc_row_json f (gate_hardware_config g)))) \<or>
     (only = None \<and>
       (fc_database f \<and> (\<exists>b \<in> set (tb_rows (rg_pos (fc_registry f))). po_is_active b \<and> po_last_seen_at b \<noteq> None \<and>
          truthy (fc_row_json f (po_last_status b)) \<and> \<not> is_object (fc_row_json f (po_last_status b))) \<or>
        (\<exists>acq e k v. fc_acquirers f = Some acq \<and> (k, v) \<in> set acq \<and> acquirer_target v = Inl e)))"
proof -
  have "doctor_exit (run_doctor f only) = 2 \<longleftrightarrow> (\<exists>e. run_doctor f only = Inl e)"
    by (cases "run_doctor f only") (simp_all add: doctor_exit_def)
  then show ?thesis
    by (simp only: run_doctor_fail check_gates_fail check_booths_fail check_acquirers_fail)
qed

section \<open>A site to try it on\<close>

definition example_entry :: "string \<Rightarrow> gate_row" where
  "example_entry protocol = (example_gate_row ''GIN1'' 7)\<lparr>gate_direction := ''IN'', gate_protocol := protocol,
     gate_controller_host := Some ''10.0.0.5'', gate_controller_port := Some 5000\<rparr>"

definition example_facts :: "gate_row list \<Rightarrow> facts" where
  "example_facts gs =
     \<lparr>fc_systemctl = (\<lambda>_. Some (0, ''active'')), fc_tcp = (\<lambda>_ _. True), fc_http = (\<lambda>_. Some 200),
      fc_exists = (\<lambda>_. True), fc_writable = (\<lambda>_. True), fc_links = [], fc_database = True, fc_redis = True,
      fc_ffprobe = None, fc_now = 0,
      fc_registry = \<lparr>rg_gates = \<lparr>tb_rows = gs, tb_next = 9\<rparr>, rg_pos = \<lparr>tb_rows = [], tb_next = 1\<rparr>,
        rg_heartbeats = [''GIN1'' \<mapsto> (Some (JObj []), 60)]\<rparr>,
      fc_row_json = id, fc_cameras = Some [], fc_printers = Some [], fc_acquirers = Some []\<rparr>"

lemma example_entry_sel [simp]:
  "gate_code (example_entry pr) = ''GIN1''" "gate_direction (example_entry pr) = ''IN''"
  "gate_protocol (example_entry pr) = pr" "gate_controller_host (example_entry pr) = Some ''10.0.0.5''"
  "gate_controller_port (example_entry pr) = Some 5000" "gate_controller_device (example_entry pr) = None"
  "gt_is_active (example_entry pr)"
  "gate_hardware_config (example_entry pr) = JObj [(''receipt_printer'', JObj [(''enabled'', JBool True)])]"
  by (simp_all add: example_entry_def example_gate_row_def gate.extend_def example_gate_def)

lemma example_exit_sel [simp]:
  "gate_code (example_gate_row c i) = c" "gate_direction (example_gate_row c i) = ''OUT''"
  "gt_is_active (example_gate_row c i)"
  by (simp_all add: example_gate_row_def gate.extend_def example_gate_def)

lemma example_launch:
  "\<exists>c cfg. build_config (fc_registry (example_facts [example_gate_row ''OUT1'' 8, example_entry pr])) ''GIN1'' = Inr c \<and>
     lc_gate c = example_entry pr \<and>
     run_daemon_cli (fc_registry (example_facts [example_gate_row ''OUT1'' 8, example_entry pr])) ''GIN1'' =
       Inr (Some (cfg, init_gate ''GIN1''))"
  by (simp add: example_facts_def build_config_def run_daemon_cli_def init_config_def jget2_def Let_def)

theorem healthy_site_witness:
  "server_up (example_facts [example_entry ''compass'']) \<and>
   systemd_active (example_facts [example_entry ''compass'']) ''parking-daemon-gate-in@GIN1.service''"
proof -
  let ?f = "example_facts [example_entry ''compass'']"
  have up: "server_up ?f"
    by (simp add: server_up_def example_facts_def systemd_active_def strip_def lstrip_def rstrip_def is_space_def
        list_all_iff)
  have gs: "\<exists>gs. check_gates ?f None = Inr gs \<and> list_all (\<lambda>c. dc_status c < FAIL) gs"
    by (simp add: check_gates_def load_gates_def example_facts_def gate_checks_def reach_check_def daemon_check_def
        heartbeat_status fresh_def systemd_active_def strip_def lstrip_def rstrip_def is_space_def tcp_probe_def
        lower_def Let_def below_fail)
  have rest: "list_all (\<lambda>c. dc_status c < FAIL) (check_cameras ?f @ check_printers ?f)"
      "check_booths ?f = Inr [check_of ''No active booths'' ''Booths'' SKIP []]"
      "check_acquirers ?f = Inr [check_of ''Acquirer config'' ''Acquirers'' SKIP []]"
    by (simp_all add: example_facts_def check_cameras_def check_printers_def check_booths_def active_booths_def
        check_acquirers_def Let_def below_fail)
  from up[folded server_below_fail] gs rest have "doctor_exit (run_doctor ?f None) = 0"
    by (auto simp: exit_ok run_doctor_def Let_def below_fail)
  then show ?thesis
    using healthy_site[of ?f "example_entry ''compass''"]
    by (simp add: example_facts_def daemon_unit_def gate_status_of_def in_status_def)
qed

theorem heartbeat_agrees_witness:
  "dc_status (heartbeat_check (example_facts []) (example_entry ''compass'')) = PASS"
  using heartbeat_agrees[of "example_facts []" "example_entry ''compass''"]
  by (simp add: example_facts_def gate_status_of_def in_status_def)

theorem exit_gate_never_healthy_witness:
  "doctor_exit (run_doctor (example_facts [example_gate_row ''OUT1'' 8, example_entry ''compass'']) None) \<noteq> 0"
proof (rule exit_gate_never_healthy[of _ "example_gate_row ''OUT1'' 8"])
  fix code hb
  assume "rg_heartbeats (fc_registry (example_facts [example_gate_row ''OUT1'' 8, example_entry ''compass''])) code = Some hb"
  then have "code = ''GIN1''" by (simp add: example_facts_def split: if_splits)
  with example_launch[of "''compass''"]
  show "\<exists>d. run_daemon_cli (fc_registry (example_facts [example_gate_row ''OUT1'' 8, example_entry ''compass''])) code = Inr (Some d)"
    by blast
qed (simp_all add: example_facts_def gate_constraints_def)

theorem enet_unprobed_witness:
  "\<exists>cfg. g_controller (snd (alone (connect_controller cfg) (\<lambda>_. example_env) (init_gate ''GIN1''))) \<noteq> None \<and>
     dc_status (reach_check (example_facts []) (example_entry ''enet'')) = WARN \<and>
     dc_status (reach_check (example_facts []) (example_entry ''compass'')) = PASS"
proof -
  let ?f = "\<lambda>pr. example_facts [example_gate_row ''OUT1'' 8, example_entry pr]"
  have link: "g_controller (snd (alone (connect_controller cfg) (\<lambda>_. example_env) (init_gate ''GIN1''))) \<noteq> None"
    if "run_daemon_cli (fc_registry (?f pr)) ''GIN1'' = Inr (Some (cfg, init_gate ''GIN1''))" "pr \<noteq> ''serial''" for pr cfg
    using that by (auto simp: example_facts_def run_daemon_cli_def build_config_def init_config_def jget2_def
        connect_controller_def compass_connect_def example_env_def Let_def)
  have "dc_status (reach_check (example_facts []) (example_entry pr)) =
      (if pr = ''enet'' then WARN else PASS)" if "pr \<in> {''compass'', ''enet''}" for pr
  proof -
    from example_launch[of pr] obtain c cfg where c: "build_config (fc_registry (?f pr)) ''GIN1'' = Inr c"
        "run_daemon_cli (fc_registry (?f pr)) ''GIN1'' = Inr (Some (cfg, init_gate ''GIN1''))" "lc_gate c = example_entry pr"
      by blast
    moreover from that have "pr \<noteq> ''serial''" by auto
    moreover have "fc_tcp (example_facts []) ''10.0.0.5'' 5000 = e_connect example_env"
      by (simp add: example_facts_def example_env_def)
    ultimately show ?thesis
      using enet_unprobed[OF c(1,2) c(3)[symmetric], of "''10.0.0.5''" 5000 "example_facts []" "\<lambda>_. example_env"] that link[OF c(2)]
      by auto
  qed
  with example_launch[of "''enet''"] link[of "''enet''"] show ?thesis by auto
qed

theorem fixes_safe_witness:
  "run_interactive_fixes True False [check_of ''A'' ''C'' FAIL ''sudo DD if=x''] [] = [] \<and>
   run_interactive_fixes False False [check_of ''B'' ''C'' WARN ''ls''] [''n'', ''q''] = []"
proof -
  have "is_dangerous ''sudo DD if=x''" "filter (\<lambda>a. lower (strip a) = ''y'') [''n'', ''q''] = []"
    by code_simp+
  then show ?thesis
    using fixes_safe[of True False "[check_of ''A'' ''C'' FAIL ''sudo DD if=x'']" "[]"]
      fixes_safe[of False False "[check_of ''B'' ''C'' WARN ''ls'']" "[''n'', ''q'']"]
    by (cases "run_interactive_fixes True False [check_of ''A'' ''C'' FAIL ''sudo DD if=x''] []") auto
qed

theorem dialout_fix_refused_witness:
  "\<exists>p f. dc_status (printer_check f p) = WARN \<and> dc_fix (printer_check f p) \<noteq> [] \<and>
     dc_fix (printer_check f p) \<notin> set (run_interactive_fixes False False [printer_check f p] [''y''])"
proof -
  let ?p = "example_printer\<lparr>pr_mode := ''serial'', pr_serial_device := Some ''/dev/ttyUSB0''\<rparr>"
  let ?f = "example_facts []\<lparr>fc_writable := (\<lambda>_. False)\<rparr>"
  have "dc_status (printer_check ?f ?p) = WARN" "dc_fix (printer_check ?f ?p) \<noteq> []"
    by (simp_all add: printer_check_def example_printer_def example_facts_def Let_def lower_def)
  with dialout_fix_refused[OF this] show ?thesis by blast
qed

theorem doctor_crashes_iff_witness:
  "doctor_exit (run_doctor (example_facts [] \<lparr>fc_acquirers := Some [(''acquirer'', Some (Some (JInt 5)))]\<rparr>) None) = 2"
  using doctor_crashes_iff[of "example_facts [] \<lparr>fc_acquirers := Some [(''acquirer'', Some (Some (JInt 5)))]\<rparr>" None]
  by auto

end
