(* ===== verification/Settings.thy ===== *)
theory Settings
  imports Prelude
begin

text \<open>
  The settings every process loads (\<open>shared/config.py\<close>): the check of a production environment, the addresses built from
  them. A value of \<open>raw\<close> is what pydantic made of environment and defaults.
\<close>

record settings =
  cs_app_env :: string
  cs_debug :: bool
  cs_db_host :: string
  cs_db_port :: int
  cs_db_name :: string
  cs_db_user :: string
  cs_db_password :: string
  cs_redis_host :: string
  cs_redis_port :: int
  cs_redis_db :: int
  cs_redis_password :: "string option"
  cs_jwt_secret :: string
  cs_cors_origins :: string
  cs_internal_api_key :: "string option"
  cs_settlement_sftp_host :: string
  cs_settlement_sftp_known_hosts :: string

definition validate_production_settings :: "settings \<Rightarrow> py_exc + settings" where
  "validate_production_settings raw =
     (if cs_app_env raw \<noteq> ''production'' then Inr raw
      else if \<not> truthy_str (cs_internal_api_key raw) then Inl (ValueError ''INTERNAL_API_KEY must be set in production'')
      else if cs_jwt_secret raw \<in> {''dev-secret'', []} then Inl (ValueError ''JWT_SECRET must be changed from default in production'')
      else if cs_db_password raw \<in> {''parking_secret'', []} then Inl (ValueError ''DB_PASSWORD must be changed from default in production'')
      else if cs_settlement_sftp_host raw \<noteq> [] \<and> cs_settlement_sftp_known_hosts raw = []
      then Inl (ValueError ''SETTLEMENT_SFTP_KNOWN_HOSTS must be set in production when SETTLEMENT_SFTP_HOST is configured'')
      else Inr (raw\<lparr>cs_debug := False\<rparr>))"

definition database_url :: "settings \<Rightarrow> string" where
  "database_url s = ''postgresql+asyncpg://'' @ cs_db_user s @ '':'' @ cs_db_password s @ ''@'' @ cs_db_host s @ '':'' @
     str_of_int (cs_db_port s) @ ''/'' @ cs_db_name s"

definition redis_url :: "settings \<Rightarrow> string" where
  "redis_url s =
     (let place = cs_redis_host s @ '':'' @ str_of_int (cs_redis_port s) @ ''/'' @ str_of_int (cs_redis_db s)
      in if truthy_str (cs_redis_password s) then ''redis://:'' @ the (cs_redis_password s) @ ''@'' @ place
         else ''redis://'' @ place)"

definition cors_origins_list :: "settings \<Rightarrow> string list" where
  "cors_origins_list s = filter (\<lambda>u. u \<noteq> []) (map strip (split_char (CHR '','') (cs_cors_origins s)))"

text \<open>
  What production guarantees: settings are accepted for a production environment exactly when the key of the booths,
  the secret of the tokens and the password of the database are set and not the defaults and a configured SFTP
  host comes with its known keys; then nothing is changed but that debugging is off.
\<close>

theorem production_hardened:
  assumes "cs_app_env raw = ''production''"
  shows "validate_production_settings raw = Inr s \<longleftrightarrow>
    truthy_str (cs_internal_api_key raw) \<and> cs_jwt_secret raw \<notin> {''dev-secret'', []} \<and>
    cs_db_password raw \<notin> {''parking_secret'', []} \<and>
    (cs_settlement_sftp_host raw = [] \<or> cs_settlement_sftp_known_hosts raw \<noteq> []) \<and> s = raw\<lparr>cs_debug := False\<rparr>"
  using assms by (auto simp: validate_production_settings_def)

section \<open>The address of the database\<close>

lemma cut_at:
  assumes "x @ c # y = x' @ c # y'" "c \<notin> set x" "c \<notin> set x'"
  shows "x = x' \<and> y = y'"
proof -
  have cut: "takeWhile (\<lambda>d. d \<noteq> c) (u @ c # v) = u" "dropWhile (\<lambda>d. d \<noteq> c) (u @ c # v) = c # v" if "c \<notin> set u" for u v
    using that by (induction u) auto
  from cut[OF assms(2), of y] cut[OF assms(3), of y'] show ?thesis by (simp add: assms(1))
qed

lemma str_of_int_inject: "str_of_int i = str_of_int j \<longleftrightarrow> i = j"
proof
  have minus: "\<not> is_digit (CHR ''-'')" by (simp add: is_digit_def)
  have "hd (str_of_nat n) \<noteq> CHR ''-''" for n
    using str_of_nat_digits[of n] minus by (cases "str_of_nat n") (auto simp: list_all_iff)
  then have sign: "CHR ''-'' # x \<noteq> str_of_nat n" for x n by (metis list.sel(1))
  have nat: "str_of_nat m = str_of_nat n \<Longrightarrow> m = n" for m n by (metis dec_val_str_of_nat)
  assume "str_of_int i = str_of_int j"
  with sign sign[symmetric] show "i = j"
    by (auto simp: str_of_int_def dest!: nat split: if_splits)
qed simp

lemma no_slash: "CHR ''/'' \<notin> set (str_of_int i)"
proof -
  have "\<not> is_digit (CHR ''/'')" by (simp add: is_digit_def)
  then have "CHR ''/'' \<notin> set (str_of_nat n)" for n
    using str_of_nat_digits[of n] by (auto simp: list_all_iff)
  then show ?thesis by (simp add: str_of_int_def)
qed

definition plain_parts :: "settings \<Rightarrow> bool" where
  "plain_parts s \<longleftrightarrow> CHR '':'' \<notin> set (cs_db_user s) \<and> CHR ''@'' \<notin> set (cs_db_password s) \<and>
     CHR '':'' \<notin> set (cs_db_host s)"

text \<open>
  C2. The address says what it was made of, user and host free of the separators and the password of \<open>@\<close>: two settings
  with one address have the same user, password, host, port and database.
\<close>

theorem database_url_injective:
  assumes "plain_parts s" "plain_parts s'" "database_url s = database_url s'"
  shows "(cs_db_user s, cs_db_password s, cs_db_host s, cs_db_port s, cs_db_name s) =
    (cs_db_user s', cs_db_password s', cs_db_host s', cs_db_port s', cs_db_name s')"
proof -
  from assms(3) have "cs_db_user s @ CHR '':'' # (cs_db_password s @ ''@'' @ cs_db_host s @ '':'' @ str_of_int (cs_db_port s) @ ''/'' @ cs_db_name s) =
      cs_db_user s' @ CHR '':'' # (cs_db_password s' @ ''@'' @ cs_db_host s' @ '':'' @ str_of_int (cs_db_port s') @ ''/'' @ cs_db_name s')"
    by (simp add: database_url_def)
  from cut_at[OF this] assms(1,2) have user: "cs_db_user s = cs_db_user s'"
    and "cs_db_password s @ CHR ''@'' # (cs_db_host s @ '':'' @ str_of_int (cs_db_port s) @ ''/'' @ cs_db_name s) =
      cs_db_password s' @ CHR ''@'' # (cs_db_host s' @ '':'' @ str_of_int (cs_db_port s') @ ''/'' @ cs_db_name s')"
    by (simp_all add: plain_parts_def)
  from cut_at[OF this(2)] assms(1,2) have pw: "cs_db_password s = cs_db_password s'"
    and "cs_db_host s @ CHR '':'' # (str_of_int (cs_db_port s) @ ''/'' @ cs_db_name s) =
      cs_db_host s' @ CHR '':'' # (str_of_int (cs_db_port s') @ ''/'' @ cs_db_name s')"
    by (simp_all add: plain_parts_def)
  from cut_at[OF this(2)] assms(1,2) have host: "cs_db_host s = cs_db_host s'"
    and "str_of_int (cs_db_port s) @ CHR ''/'' # cs_db_name s = str_of_int (cs_db_port s') @ CHR ''/'' # cs_db_name s'"
    by (simp_all add: plain_parts_def)
  from cut_at[OF this(2) no_slash no_slash] user pw host show ?thesis by (simp add: str_of_int_inject)
qed

text \<open>
  C3. The password is not quoted: one with an \<open>@\<close> moves the boundary to the host, so that different settings have the
  same address.
\<close>

theorem database_url_ambiguous:
  "database_url (s\<lparr>cs_db_password := p @ ''@'' @ h, cs_db_host := h'\<rparr>) =
   database_url (s\<lparr>cs_db_password := p, cs_db_host := h @ ''@'' @ h'\<rparr>)"
  by (simp add: database_url_def)

definition example_settings :: settings where
  "example_settings = \<lparr>cs_app_env = ''production'', cs_debug = True, cs_db_host = ''db'', cs_db_port = 5432,
     cs_db_name = ''parking'', cs_db_user = ''parking'', cs_db_password = ''pw'', cs_redis_host = ''redis'',
     cs_redis_port = 6379, cs_redis_db = 0, cs_redis_password = None, cs_jwt_secret = ''s3cret'', cs_cors_origins = [],
     cs_internal_api_key = Some ''key'', cs_settlement_sftp_host = [], cs_settlement_sftp_known_hosts = []\<rparr>"

theorem production_hardened_witness:
  "validate_production_settings example_settings = Inr (example_settings\<lparr>cs_debug := False\<rparr>) \<and>
   (\<forall>s. validate_production_settings (example_settings\<lparr>cs_settlement_sftp_host := ''bank''\<rparr>) \<noteq> Inr s)"
  using production_hardened[of example_settings "example_settings\<lparr>cs_debug := False\<rparr>"]
    production_hardened[of "example_settings\<lparr>cs_settlement_sftp_host := ''bank''\<rparr>"]
  by (simp add: example_settings_def)

theorem database_url_injective_witness:
  "database_url example_settings \<noteq> database_url (example_settings\<lparr>cs_db_port := 5433\<rparr>)"
  using database_url_injective[of example_settings "example_settings\<lparr>cs_db_port := 5433\<rparr>"]
  by (auto simp: plain_parts_def example_settings_def)

end
