(* ===== verification/Preflight.thy ===== *)
theory Preflight
  imports Diagnostics Settings
begin

text \<open>
  The checks before a deployment (\<open>scripts/preflight_check.py\<close>) and the endpoint of the setup wizard that runs them
  (\<open>preflight\<close> in \<open>routes/setup.py\<close>). The machine is the record \<open>host\<close>; a check is a name's verdict with its
  category. Messages and durations are left out.
\<close>

section \<open>The machine\<close>

text \<open>
  \<open>ho_settings\<close>: what loading the settings gives. \<open>None\<close>: \<open>ho_connect\<close>, \<open>ho_disk_free\<close>, \<open>ho_meminfo\<close> raise. \<open>ho_dirs\<close>: the directories of settlements and snapshots, from
  the environment.
\<close>

record host =
  ho_settings :: "py_exc + settings"
  ho_dirs :: "string \<times> string"
  ho_exists :: "string \<Rightarrow> bool"
  ho_writable :: "string \<Rightarrow> bool"
  ho_which :: "string \<Rightarrow> bool"
  ho_connect :: "int \<Rightarrow> int option"
  ho_disk_free :: "int option"
  ho_meminfo :: "string option"
  ho_database :: bool
  ho_redis :: bool

type_synonym precheck = "string \<times> string \<times> verdict"

section \<open>The checks\<close>

definition check_environment_variables :: "settings \<Rightarrow> precheck list" where
  "check_environment_variables s =
     [(''JWT_SECRET set'', ''Environment'',
         if cs_jwt_secret s \<in> {''dev-secret'', []} then FAIL
         else if length (cs_jwt_secret s) < 32 then WARN else PASS),
      (''DB_PASSWORD set'', ''Environment'',
         if cs_db_password s \<in> {''parking_secret'', ''parking'', []} then FAIL else PASS),
      (''INTERNAL_API_KEY set'', ''Environment'', if \<not> truthy_str (cs_internal_api_key s) then FAIL else PASS),
      (''APP_ENV is production'', ''Environment'',
         if cs_app_env s = ''production'' then PASS else if cs_app_env s = ''development'' then WARN else FAIL)]"

definition preflight_dirs :: "host \<Rightarrow> (string \<times> string) list" where
  "preflight_dirs h = [(''Settlement directory'', fst (ho_dirs h)), (''Snapshot directory'', snd (ho_dirs h)),
     (''Log directory'', ''/var/log/parking'')]"

definition preflight_directories :: "host \<Rightarrow> precheck list" where
  "preflight_directories h = map (\<lambda>(name, path). (name @ '' ('' @ path @ '')'', ''Directories'',
     if \<not> ho_exists h path then FAIL else if \<not> ho_writable h path then FAIL else PASS)) (preflight_dirs h)"

definition check_executables :: "host \<Rightarrow> precheck list" where
  "check_executables h = map (\<lambda>name. (name, ''Executables'', if ho_which h name then PASS else WARN))
     [''ffmpeg'', ''psql'', ''redis-cli'']"

text \<open>A port passes in use and free.\<close>

definition check_ports :: "host \<Rightarrow> precheck list" where
  "check_ports h = map (\<lambda>(name, port). (name, ''Ports'', case ho_connect h port of
       None \<Rightarrow> FAIL | Some result \<Rightarrow> if result = 0 then PASS else PASS))
     [(''API port (8000)'', 8000), (''PostgreSQL (5432)'', 5432), (''Redis (6379)'', 6379)]"

definition GB :: int where "GB = 1024 ^ 3"

definition check_disk_space :: "host \<Rightarrow> precheck list" where
  "check_disk_space h = [(''Disk space'', ''System'', case ho_disk_free h of
       None \<Rightarrow> FAIL
     | Some free \<Rightarrow> if free < 5 * GB then FAIL else if free < 10 * GB then WARN else PASS)]"

text \<open>\<open>line.split()\<close>: the words of a line.\<close>

fun words_from :: "string \<Rightarrow> string \<Rightarrow> string list" where
  "words_from word [] = (if word = [] then [] else [word])"
| "words_from word (c # cs) =
     (if is_space c then (if word = [] then [] else [word]) @ words_from [] cs else words_from (word @ [c]) cs)"

text \<open>
  The first line that starts with \<open>MemAvailable:\<close> counts, in kilobytes; a line without a number raises, which
  warns.
\<close>

definition memory_verdict :: "string option \<Rightarrow> verdict" where
  "memory_verdict meminfo =
     (case meminfo of
        None \<Rightarrow> WARN
      | Some text \<Rightarrow>
        (case find (starts_with ''MemAvailable:'') (split_char (CHR 0x0A) text) of
           None \<Rightarrow> WARN
         | Some line \<Rightarrow>
           (case words_from [] line of
              label # number # rest \<Rightarrow>
                (case py_int number of
                   None \<Rightarrow> WARN
                 | Some kb \<Rightarrow> if kb < 1024 ^ 2 then FAIL else if kb < 2 * 1024 ^ 2 then WARN else PASS)
            | _ \<Rightarrow> WARN)))"

definition check_memory :: "host \<Rightarrow> precheck list" where
  "check_memory h = [(''Memory'', ''System'', memory_verdict (ho_meminfo h))]"

definition preflight_database :: "host \<Rightarrow> precheck list" where
  "preflight_database h = [(''PostgreSQL connectivity'', ''Database'', if ho_database h then PASS else FAIL)]"

definition preflight_redis :: "host \<Rightarrow> precheck list" where
  "preflight_redis h = [(''Redis connectivity'', ''Cache'', if ho_redis h then PASS else FAIL)]"

definition run_all_checks :: "host \<Rightarrow> py_exc + precheck list" where
  "run_all_checks h =
     map_sum id (\<lambda>s. check_environment_variables s @ preflight_directories h @ check_executables h @ check_ports h @
       check_disk_space h @ check_memory h @ preflight_database h @ preflight_redis h) (ho_settings h)"

section \<open>The report\<close>

record pre_summary =
  ps_total :: nat
  ps_passed :: nat
  ps_warnings :: nat
  ps_failed :: nat
  ps_pending :: nat
  ps_ready :: bool

definition verdicts :: "verdict \<Rightarrow> precheck list \<Rightarrow> nat" where
  "verdicts v cs = length (filter (\<lambda>(name, category, status). status = v) cs)"

definition preflight_summary :: "precheck list \<Rightarrow> pre_summary" where
  "preflight_summary cs = \<lparr>ps_total = length cs, ps_passed = verdicts PASS cs, ps_warnings = verdicts WARN cs,
     ps_failed = verdicts FAIL cs, ps_pending = verdicts PENDING cs,
     ps_ready = (verdicts FAIL cs = 0 \<and> verdicts PENDING cs = 0)\<rparr>"

definition preflight_exit :: "host \<Rightarrow> int" where
  "preflight_exit h =
     (case run_all_checks h of Inl e \<Rightarrow> 1 | Inr cs \<Rightarrow> if ps_ready (preflight_summary cs) then 0 else 1)"

text \<open>
  The endpoint: \<open>None\<close> is a runner that cannot be imported. The result: the checks, passed, warnings, failed.
\<close>

definition preflight :: "(host \<Rightarrow> py_exc + precheck list) option \<Rightarrow> host \<Rightarrow> precheck list \<times> nat \<times> nat \<times> nat" where
  "preflight runner h =
     (case runner of
        None \<Rightarrow> ([], 0, 0, 0)
      | Some run \<Rightarrow>
        (case run h of
           Inl e \<Rightarrow> ([], 0, 0, 0)
         | Inr cs \<Rightarrow> (let s = preflight_summary cs in (cs, ps_passed s, ps_warnings s, ps_failed s))))"

section \<open>What ready means\<close>

text \<open>The demands, apart from the checks.\<close>

definition deployable :: "host \<Rightarrow> bool" where
  "deployable h \<longleftrightarrow>
     (\<exists>s. ho_settings h = Inr s \<and>
        cs_jwt_secret s \<notin> {''dev-secret'', []} \<and> cs_db_password s \<notin> {''parking_secret'', ''parking'', []} \<and>
        truthy_str (cs_internal_api_key s) \<and> cs_app_env s \<in> {''production'', ''development''}) \<and>
     (\<forall>path \<in> {fst (ho_dirs h), snd (ho_dirs h), ''/var/log/parking''}. ho_exists h path \<and> ho_writable h path) \<and>
     (\<forall>port \<in> {8000, 5432, 6379}. ho_connect h port \<noteq> None) \<and>
     (\<exists>free. ho_disk_free h = Some free \<and> 5 * GB \<le> free) \<and> memory_verdict (ho_meminfo h) \<noteq> FAIL \<and>
     ho_database h \<and> ho_redis h"

lemma verdicts_simps [simp]:
  "verdicts v [] = 0"
  "verdicts v ((n, c, w) # cs) = (if w = v then Suc (verdicts v cs) else verdicts v cs)"
  "verdicts v (cs @ ds) = verdicts v cs + verdicts v ds"
  by (simp_all add: verdicts_def)

lemma memory_not_pending: "memory_verdict m \<noteq> PENDING"
  by (auto simp: memory_verdict_def split: option.splits list.splits)

lemma pending_groups:
  "verdicts PENDING (check_environment_variables s) = 0"
  "verdicts PENDING (preflight_directories h) = 0"
  "verdicts PENDING (check_executables h) = 0"
  "verdicts PENDING (check_ports h) = 0"
  "verdicts PENDING (check_disk_space h) = 0"
  "verdicts PENDING (check_memory h) = 0"
  "verdicts PENDING (preflight_database h) = 0"
  "verdicts PENDING (preflight_redis h) = 0"
  by (simp_all add: check_environment_variables_def preflight_directories_def preflight_dirs_def check_executables_def
      check_ports_def check_disk_space_def check_memory_def memory_not_pending preflight_database_def
      preflight_redis_def split: option.split)

lemma none_pending: "run_all_checks h = Inr cs \<Longrightarrow> verdicts PENDING cs = 0"
  by (cases "ho_settings h") (auto simp: run_all_checks_def pending_groups)

lemma environment_ok:
  "verdicts FAIL (check_environment_variables s) = 0 \<longleftrightarrow>
     cs_jwt_secret s \<notin> {''dev-secret'', []} \<and> cs_db_password s \<notin> {''parking_secret'', ''parking'', []} \<and>
     truthy_str (cs_internal_api_key s) \<and> cs_app_env s \<in> {''production'', ''development''}"
  by (simp add: check_environment_variables_def)

lemma directories_ok:
  "verdicts FAIL (preflight_directories h) = 0 \<longleftrightarrow>
     (\<forall>path \<in> {fst (ho_dirs h), snd (ho_dirs h), ''/var/log/parking''}. ho_exists h path \<and> ho_writable h path)"
  by (simp add: preflight_directories_def preflight_dirs_def)

lemma ports_ok: "verdicts FAIL (check_ports h) = 0 \<longleftrightarrow> (\<forall>port \<in> {8000, 5432, 6379}. ho_connect h port \<noteq> None)"
  by (simp add: check_ports_def split: option.split)

lemma system_ok:
  "verdicts FAIL (check_disk_space h) = 0 \<longleftrightarrow> (\<exists>free. ho_disk_free h = Some free \<and> 5 * GB \<le> free)"
  "verdicts FAIL (check_memory h) = 0 \<longleftrightarrow> memory_verdict (ho_meminfo h) \<noteq> FAIL"
  "verdicts FAIL (check_executables h) = 0"
  by (auto simp: check_disk_space_def check_memory_def check_executables_def split: option.split)

lemma services_ok:
  "verdicts FAIL (preflight_database h) = 0 \<longleftrightarrow> ho_database h" "verdicts FAIL (preflight_redis h) = 0 \<longleftrightarrow> ho_redis h"
  by (simp_all add: preflight_database_def preflight_redis_def)

lemma failures: "(\<exists>cs. run_all_checks h = Inr cs \<and> verdicts FAIL cs = 0) \<longleftrightarrow> deployable h"
proof (cases "ho_settings h")
  case (Inr s)
  have "verdicts FAIL (check_environment_variables s @ preflight_directories h @ check_executables h @ check_ports h @
      check_disk_space h @ check_memory h @ preflight_database h @ preflight_redis h) = 0 \<longleftrightarrow> deployable h"
    unfolding deployable_def Inr
    by (simp only: verdicts_simps add_is_0 environment_ok directories_ok ports_ok system_ok services_ok sum.inject) blast
  with Inr show ?thesis by (simp add: run_all_checks_def)
qed (simp add: run_all_checks_def deployable_def)

text \<open>
  The machine is declared ready exactly when the secrets are set and not the defaults, the three directories can
  be written, five gigabytes are free, database and Redis answer and memory is not known to be short. What is
  only advised (a long secret, the executables, production mode) does not hold it back, nor do the ports.
\<close>

theorem ready_iff: "preflight_exit h = 0 \<longleftrightarrow> deployable h"
  using failures[of h] none_pending[of h]
  by (cases "run_all_checks h") (simp_all add: preflight_exit_def preflight_summary_def)

text \<open>
  The wizard's view: with the runner at hand no failures are reported if the machine is deployable, but also if its
  settings cannot be loaded; and without the runner none are reported whatever the machine.
\<close>

theorem wizard_preflight:
  assumes "runner \<in> {None, Some run_all_checks}"
  shows "snd (snd (snd (preflight runner h))) = 0 \<longleftrightarrow> runner = None \<or> (\<exists>e. ho_settings h = Inl e) \<or> deployable h"
  using assms failures[of h]
  by (cases "ho_settings h") (auto simp: preflight_def preflight_summary_def run_all_checks_def Let_def)

text \<open>
  In production the loading of the settings has made the checks of the environment already, but for one password:
  settings that were accepted fail them exactly when the database has the password \<open>parking\<close>.
\<close>

theorem production_environment:
  assumes "cs_app_env raw = ''production''" "validate_production_settings raw = Inr s"
  shows "verdicts FAIL (check_environment_variables s) = 0 \<longleftrightarrow> cs_db_password s \<noteq> ''parking''"
  using assms unfolding environment_ok by (auto simp: validate_production_settings_def split: if_splits)

definition example_host :: host where
  "example_host = \<lparr>ho_settings = Inr (example_settings\<lparr>cs_app_env := ''development''\<rparr>), ho_dirs = (''/s'', ''/n''),
     ho_exists = (\<lambda>_. True), ho_writable = (\<lambda>_. True), ho_which = (\<lambda>_. False), ho_connect = (\<lambda>_. Some 111),
     ho_disk_free = Some (6 * GB), ho_meminfo = Some ''MemTotal: 9 kB'', ho_database = True, ho_redis = True\<rparr>"

lemma example_memory: "memory_verdict (ho_meminfo example_host) = WARN"
  by (simp add: memory_verdict_def example_host_def starts_with_def)

lemma example_host_sel:
  "ho_settings example_host = Inr (example_settings\<lparr>cs_app_env := ''development''\<rparr>)"
  "ho_exists example_host = (\<lambda>_. True)" "ho_writable example_host = (\<lambda>_. True)"
  "ho_connect example_host = (\<lambda>_. Some 111)" "ho_disk_free example_host = Some (6 * GB)"
  "ho_database example_host" "ho_redis example_host"
  by (simp_all add: example_host_def)

lemma example_deployable: "deployable example_host" "\<not> deployable (example_host\<lparr>ho_disk_free := Some 0\<rparr>)"
  by (simp_all add: deployable_def example_host_sel example_memory example_settings_def) (simp_all add: GB_def)

theorem ready_iff_witness: "preflight_exit example_host = 0 \<and> preflight_exit (example_host\<lparr>ho_disk_free := Some 0\<rparr>) \<noteq> 0"
  using example_deployable by (simp add: ready_iff)

theorem wizard_preflight_witness:
  "snd (snd (snd (preflight None (example_host\<lparr>ho_disk_free := Some 0\<rparr>)))) = 0 \<and>
   snd (snd (snd (preflight (Some run_all_checks) (example_host\<lparr>ho_disk_free := Some 0\<rparr>)))) \<noteq> 0"
  using wizard_preflight[of None] wizard_preflight[of "Some run_all_checks"] example_deployable by (simp add: example_host_sel)

theorem production_environment_witness:
  "verdicts FAIL (check_environment_variables (example_settings\<lparr>cs_debug := False\<rparr>)) = 0 \<and>
   verdicts FAIL (check_environment_variables (example_settings\<lparr>cs_db_password := ''parking'', cs_debug := False\<rparr>)) \<noteq> 0"
  using production_environment[of example_settings "example_settings\<lparr>cs_debug := False\<rparr>"]
    production_environment[of "example_settings\<lparr>cs_db_password := ''parking''\<rparr>"
      "example_settings\<lparr>cs_db_password := ''parking'', cs_debug := False\<rparr>"]
  by (simp add: validate_production_settings_def example_settings_def)

end
