(* ===== verification/Administration.thy ===== *)
theory Administration
  imports Registry "HOL-Library.Product_Lexorder"
begin

text \<open>
  The tables of the back office: the shifts (\<open>routes/shifts.py\<close>), who works them (\<open>routes/shift_assignments.py\<close>), the
  settings (\<open>routes/settings.py\<close>) and the site's own data (\<open>routes/site_config.py\<close>). They are tables of \<open>Registry\<close>; a column
  that cannot be null is an option under a constraint, because an update may send null. The requests have
  passed their authentication and the patterns of their schemas.
\<close>

text \<open>What an update sends: the fields that were set.\<close>

type_synonym 'v changes = "(string \<times> 'v) list"

section \<open>Shifts\<close>

record shift_row = shift +
  sr_name :: "string option"
  sr_code :: "string option"
  sr_description :: "string option"

definition shift_constraints :: "shift_row list \<Rightarrow> bool" where
  "shift_constraints rs \<longleftrightarrow> list_all (\<lambda>r. sr_name r \<noteq> None \<and> sr_code r \<noteq> None) rs \<and> distinct (map sr_code rs)"

definition list_active_shifts :: "shift_row table \<Rightarrow> shift_row list" where
  "list_active_shifts t = sort_key sh_start_time (filter sh_is_active (tb_rows t))"

definition list_shifts :: "(shift_row \<Rightarrow> bool) \<Rightarrow> nat \<Rightarrow> nat \<Rightarrow> shift_row table \<Rightarrow> shift_row list" where
  "list_shifts matches skip limit t = list_items matches skip limit t"

definition get_shift :: "int \<Rightarrow> shift_row table \<Rightarrow> py_exc + shift_row" where
  "get_shift i t = get_item sh_id ''Shift not found'' i t"

definition create_shift :: "(int \<Rightarrow> shift_row) \<Rightarrow> shift_row table \<Rightarrow> (py_exc + shift_row) \<times> shift_row table" where
  "create_shift mk t = create_item shift_constraints mk t"

definition update_shift :: "int \<Rightarrow> (shift_row \<Rightarrow> shift_row) \<Rightarrow> shift_row table \<Rightarrow> (py_exc + shift_row) \<times> shift_row table" where
  "update_shift i f t = update_item sh_id ''Shift not found'' shift_constraints i f t"

text \<open>\<open>used\<close>: the shifts transactions, sessions and assignments refer to.\<close>

definition delete_shift :: "(int \<Rightarrow> bool) \<Rightarrow> int \<Rightarrow> shift_row table \<Rightarrow> (py_exc + unit) \<times> shift_row table" where
  "delete_shift used i t = delete_item sh_id ''Shift not found'' used i t"

interpretation shift_table: resource sh_id shift_constraints
  by unfold_locales (auto simp: shift_constraints_def list_all_iff distinct_map_filter)

section \<open>Assignments\<close>

record assignment =
  sa_id :: int
  sa_shift_id :: int
  sa_worker_id :: "int option"
  sa_gate_id :: int
  sa_date :: int
  sa_is_substitute :: "bool option"
  sa_original_worker_id :: "int option"
  sa_assigned_by :: "int option"
  sa_notes :: "string option"

definition slot :: "assignment \<Rightarrow> int \<times> int \<times> int" where
  "slot a = (sa_shift_id a, sa_gate_id a, sa_date a)"

text \<open>\<open>known\<close>: the rows the assignment refers to are there.\<close>

definition assignment_constraints :: "(assignment \<Rightarrow> bool) \<Rightarrow> assignment list \<Rightarrow> bool" where
  "assignment_constraints known rs \<longleftrightarrow>
     list_all (\<lambda>a. sa_worker_id a \<noteq> None \<and> sa_is_substitute a \<noteq> None \<and> known a) rs \<and> distinct (map slot rs)"

definition list_shift_assignments ::
  "int option \<Rightarrow> int option \<Rightarrow> int option \<Rightarrow> int option \<Rightarrow> assignment table \<Rightarrow> assignment list" where
  "list_shift_assignments date_filter shift_id gate worker t =
     sort_key (\<lambda>a. (sa_date a, sa_shift_id a))
       (filter (\<lambda>a. (date_filter = None \<or> Some (sa_date a) = date_filter) \<and>
            (shift_id = None \<or> Some (sa_shift_id a) = shift_id) \<and>
            (gate = None \<or> Some (sa_gate_id a) = gate) \<and> (worker = None \<or> sa_worker_id a = worker)) (tb_rows t))"

text \<open>The creation in the two parts between which another request may run.\<close>

definition slot_taken :: "assignment \<Rightarrow> assignment table \<Rightarrow> py_exc + bool" where
  "slot_taken a t = map_sum id (\<lambda>r. r \<noteq> None) (scalar_one_or_none (filter (\<lambda>b. slot b = slot a) (tb_rows t)))"

definition insert_assignment ::
  "(assignment \<Rightarrow> bool) \<Rightarrow> int \<Rightarrow> assignment \<Rightarrow> assignment table \<Rightarrow> (py_exc + assignment) \<times> assignment table" where
  "insert_assignment known user data t =
     create_item (assignment_constraints known) (\<lambda>i. data\<lparr>sa_id := i, sa_assigned_by := Some user\<rparr>) t"

definition create_shift_assignment ::
  "(assignment \<Rightarrow> bool) \<Rightarrow> int \<Rightarrow> assignment \<Rightarrow> assignment table \<Rightarrow> (py_exc + assignment) \<times> assignment table" where
  "create_shift_assignment known user data t =
     (case slot_taken data t of
        Inl e \<Rightarrow> (Inl e, t)
      | Inr True \<Rightarrow> (Inl (HTTPException 409 ''Shift already assigned for this gate on this date''), t)
      | Inr False \<Rightarrow> insert_assignment known user data t)"

datatype assignment_change =
    WorkerId "int option" | IsSubstitute "bool option" | OriginalWorkerId "int option" | Notes "string option"

fun set_assignment :: "assignment_change \<Rightarrow> assignment \<Rightarrow> assignment" where
  "set_assignment (WorkerId w) a = a\<lparr>sa_worker_id := w\<rparr>"
| "set_assignment (IsSubstitute b) a = a\<lparr>sa_is_substitute := b\<rparr>"
| "set_assignment (OriginalWorkerId w) a = a\<lparr>sa_original_worker_id := w\<rparr>"
| "set_assignment (Notes n) a = a\<lparr>sa_notes := n\<rparr>"

definition update_shift_assignment ::
  "(assignment \<Rightarrow> bool) \<Rightarrow> int \<Rightarrow> assignment_change list \<Rightarrow> assignment table \<Rightarrow> (py_exc + assignment) \<times> assignment table" where
  "update_shift_assignment known i changes t =
     update_item sa_id ''Assignment not found'' (assignment_constraints known) i (fold set_assignment changes) t"

definition delete_shift_assignment ::
  "(int \<Rightarrow> bool) \<Rightarrow> int \<Rightarrow> assignment table \<Rightarrow> (py_exc + unit) \<times> assignment table" where
  "delete_shift_assignment used i t = delete_item sa_id ''Assignment not found'' used i t"

interpretation assignment_table: resource sa_id "assignment_constraints known"
  by unfold_locales (auto simp: assignment_constraints_def list_all_iff distinct_map_filter)

section \<open>Settings\<close>

record setting =
  se_id :: int
  se_key :: string
  se_value :: "string option"
  se_value_type :: "string option"
  se_label :: "string option"
  se_description :: "string option"
  se_group :: "string option"
  se_is_system :: bool

definition setting_constraints :: "setting list \<Rightarrow> bool" where
  "setting_constraints rs \<longleftrightarrow> list_all (\<lambda>r. se_value_type r \<noteq> None) rs \<and> distinct (map se_key rs)"

definition list_settings :: "string option \<Rightarrow> setting table \<Rightarrow> setting list" where
  "list_settings grp t =
     (if truthy_str grp then filter (\<lambda>r. se_group r = grp) (tb_rows t) else tb_rows t)"

definition get_setting :: "string \<Rightarrow> setting table \<Rightarrow> py_exc + setting" where
  "get_setting key t =
     (case scalar_one_or_none (filter (\<lambda>r. se_key r = key) (tb_rows t)) of
        Inl e \<Rightarrow> Inl e
      | Inr None \<Rightarrow> Inl (HTTPException 404 ''Setting not found'')
      | Inr (Some r) \<Rightarrow> Inr r)"

fun set_setting :: "string \<times> string option \<Rightarrow> setting \<Rightarrow> setting" where
  "set_setting (k, v) r =
     (if k = ''value'' then r\<lparr>se_value := v\<rparr>
      else if k = ''value_type'' then r\<lparr>se_value_type := v\<rparr>
      else if k = ''label'' then r\<lparr>se_label := v\<rparr>
      else if k = ''description'' then r\<lparr>se_description := v\<rparr>
      else if k = ''group'' then r\<lparr>se_group := v\<rparr> else r)"

text \<open>A field that was not set reads as its default, null.\<close>

definition update_setting :: "string \<Rightarrow> string option changes \<Rightarrow> setting table \<Rightarrow> (py_exc + setting) \<times> setting table" where
  "update_setting key data t =
     (case get_setting key t of
        Inl e \<Rightarrow> (Inl e, t)
      | Inr r \<Rightarrow>
        if se_is_system r \<and> (case map_of data ''value'' of None \<Rightarrow> True | Some v \<Rightarrow> v = None)
        then (Inl (HTTPException 400 ''Cannot clear a system setting''), t)
        else update_item se_id [] setting_constraints (se_id r) (fold set_setting data) t)"

interpretation setting_table: resource se_id setting_constraints
  by unfold_locales (auto simp: setting_constraints_def list_all_iff distinct_map_filter)

section \<open>The site\<close>

record site_row =
  st_id :: int
  st_name :: "string option"
  st_address :: "string option"
  st_city :: "string option"
  st_phone :: "string option"
  st_email :: "string option"
  st_tax_id :: "string option"
  st_logo_url :: "string option"

definition site_constraints :: "site_row list \<Rightarrow> bool" where
  "site_constraints rs \<longleftrightarrow> list_all (\<lambda>r. st_name r \<noteq> None) rs"

fun set_site :: "string \<times> string option \<Rightarrow> site_row \<Rightarrow> site_row" where
  "set_site (k, v) r =
     (if k = ''name'' then r\<lparr>st_name := v\<rparr>
      else if k = ''address'' then r\<lparr>st_address := v\<rparr>
      else if k = ''city'' then r\<lparr>st_city := v\<rparr>
      else if k = ''phone'' then r\<lparr>st_phone := v\<rparr>
      else if k = ''email'' then r\<lparr>st_email := v\<rparr>
      else if k = ''tax_id'' then r\<lparr>st_tax_id := v\<rparr>
      else if k = ''logo_url'' then r\<lparr>st_logo_url := v\<rparr> else r)"

definition get_site_config :: "site_row table \<Rightarrow> py_exc + site_row" where
  "get_site_config t =
     (case scalar_one_or_none (tb_rows t) of
        Inl e \<Rightarrow> Inl e
      | Inr None \<Rightarrow> Inl (HTTPException 404 ''Site config not set'')
      | Inr (Some r) \<Rightarrow> Inr r)"

text \<open>The update after its query has found a row or none.\<close>

definition blank_site :: "int \<Rightarrow> site_row" where
  "blank_site i = \<lparr>st_id = i, st_name = None, st_address = None, st_city = None, st_phone = None, st_email = None,
     st_tax_id = None, st_logo_url = None\<rparr>"

definition write_site :: "string option changes \<Rightarrow> site_row option \<Rightarrow> site_row table \<Rightarrow> (py_exc + site_row) \<times> site_row table" where
  "write_site data found t =
     (case found of
        None \<Rightarrow> create_item site_constraints (\<lambda>i.
          let r = fold set_site data (blank_site i)
          in if st_name r = None then r\<lparr>st_name := Some ''E-Parking''\<rparr> else r) t
      | Some r \<Rightarrow> update_item st_id [] site_constraints (st_id r) (fold set_site data) t)"

definition update_site_config :: "string option changes \<Rightarrow> site_row table \<Rightarrow> (py_exc + site_row) \<times> site_row table" where
  "update_site_config data t =
     (case scalar_one_or_none (tb_rows t) of
        Inl e \<Rightarrow> (Inl e, t)
      | Inr found \<Rightarrow> write_site data found t)"

text \<open>The name on an exported report.\<close>

definition report_site_name :: "site_row table \<Rightarrow> py_exc + string option" where
  "report_site_name t =
     map_sum id (\<lambda>site. case site of None \<Rightarrow> Some ''E-Parking'' | Some r \<Rightarrow> st_name r) (scalar_one_or_none (tb_rows t))"

interpretation site_table: resource st_id site_constraints
  by unfold_locales (auto simp: site_constraints_def list_all_iff)

section \<open>The shift that is on\<close>

lemma insort_key_map: "insort_key f (g x) (map g xs) = map g (insort_key (f \<circ> g) x xs)"
  by (induction xs) simp_all

lemma sort_key_map: "sort_key f (map g xs) = map g (sort_key (f \<circ> g) xs)"
  by (induction xs) (simp_all add: insort_key_map comp_def)

lemma find_map: "find P (map g xs) = map_option g (find (P \<circ> g) xs)"
  by (induction xs) simp_all

lemma shift_truncate [simp]:
  "sh_start_time (shift.truncate r) = sh_start_time r" "sh_is_active (shift.truncate r) = sh_is_active r"
  "sh_id (shift.truncate r) = sh_id r"
  by (simp_all add: shift.truncate_def)

text \<open>
  The shift a payment is booked on is read off the list the dashboard shows: the first listed shift that covers the time
  of day, else the first listed, and none only when the list is empty.
\<close>

theorem booked_shift_listed:
  assumes "shifts s = map shift.truncate (tb_rows t)"
  shows "get_current_shift s now = map_option shift.truncate
    (case find (\<lambda>r. shift_covers (time_of_day now) (shift.truncate r)) (list_active_shifts t) of
       Some r \<Rightarrow> Some r
     | None \<Rightarrow> (case list_active_shifts t of [] \<Rightarrow> None | r # rs \<Rightarrow> Some r))"
proof -
  have "sort_key sh_start_time (filter sh_is_active (shifts s)) = map shift.truncate (list_active_shifts t)"
    by (simp add: assms list_active_shifts_def filter_map sort_key_map comp_def)
  then show ?thesis
    by (auto simp: get_current_shift_def Let_def find_map comp_def split: option.split list.split)
qed

section \<open>One worker a slot\<close>

text \<open>
  A slot is given once. The second request for a shift, gate and day is answered with a conflict; should it have looked
  before the first one wrote, the database refuses it. Either way the assignments stay as they are.
\<close>

theorem slot_given_once:
  assumes "table_ok sa_id (assignment_constraints known) t"
    and "create_shift_assignment known u a t = (Inr r, t')" "slot b = slot a"
  shows "create_shift_assignment known v b t' = (Inl (HTTPException 409 ''Shift already assigned for this gate on this date''), t') \<and>
    (\<exists>e. fst (insert_assignment known v b t') = Inl (IntegrityError e)) \<and> tb_rows (snd (insert_assignment known v b t')) = tb_rows t'"
proof -
  from assms(2) have ins: "insert_assignment known u a t = (Inr r, t')"
    by (auto simp: create_shift_assignment_def split: sum.splits bool.splits)
  then have t': "tb_rows t' = tb_rows t @ [r]" "slot r = slot b" "assignment_constraints known (tb_rows t')"
    using assms(3) by (auto simp: insert_assignment_def create_item_def Let_def slot_def split: if_splits)
  then have "filter (\<lambda>c. slot c = slot b) (tb_rows t') = [r]"
    using unique_row[of slot "tb_rows t'" r] by (simp add: assignment_constraints_def)
  then have "slot_taken b t' = Inr True" by (simp add: slot_taken_def)
  moreover have "\<not> assignment_constraints known (tb_rows t' @ [c])" if "slot c = slot b" for c
    using t'(1,2) that by (simp add: assignment_constraints_def)
  then have "\<not> assignment_constraints known (tb_rows t' @ [b\<lparr>sa_id := tb_next t', sa_assigned_by := Some v\<rparr>])"
    by (simp add: slot_def)
  ultimately show ?thesis
    by (simp add: create_shift_assignment_def insert_assignment_def create_item_def Let_def)
qed

section \<open>Settings of the system\<close>

definition updated :: "(string \<times> string option changes) list \<Rightarrow> setting table \<Rightarrow> setting table" where
  "updated = fold (\<lambda>(key, data) t. snd (update_setting key data t))"

lemma setting_found: "setting_constraints (tb_rows t) \<Longrightarrow>
   get_setting key t = Inr r \<longleftrightarrow> find (\<lambda>r. se_key r = key) (tb_rows t) = Some r"
  by (auto simp: get_setting_def setting_constraints_def unique_key split: option.splits)

lemma set_setting_sel:
  "se_id (set_setting u r) = se_id r" "se_key (set_setting u r) = se_key r"
  "se_is_system (set_setting u r) = se_is_system r"
  "se_value (set_setting u r) = (if fst u = ''value'' then snd u else se_value r)"
  by (cases u; simp)+

lemma set_settings:
  "se_id (fold set_setting data r) = se_id r" "se_key (fold set_setting data r) = se_key r"
  "se_is_system (fold set_setting data r) = se_is_system r"
  by (induction data arbitrary: r) (simp_all add: set_setting_sel del: set_setting.simps)

lemma set_settings_value:
  "distinct (map fst data) \<Longrightarrow>
     se_value (fold set_setting data r) = (case map_of data ''value'' of None \<Rightarrow> se_value r | Some v \<Rightarrow> v)"
proof (induction data arbitrary: r)
  case (Cons u data)
  then have "fst u = ''value'' \<Longrightarrow> map_of data ''value'' = None"
    by (simp add: map_of_eq_None_iff)
  with Cons show ?case
    by (cases u) (auto simp: set_setting_sel simp del: set_setting.simps split: option.split)
qed simp

lemma setting_step:
  assumes "table_ok se_id setting_constraints t" "get_setting key t = Inr r" "se_is_system r" "se_value r \<noteq> None"
    and "distinct (map fst data)"
  shows "table_ok se_id setting_constraints (snd (update_setting k data t)) \<and>
    (\<exists>r'. get_setting key (snd (update_setting k data t)) = Inr r' \<and> se_is_system r' \<and> se_value r' \<noteq> None)"
proof (cases "snd (update_setting k data t) = t")
  case False
  then obtain q where q: "get_setting k t = Inr q"
      "\<not> (se_is_system q \<and> (case map_of data ''value'' of None \<Rightarrow> True | Some v \<Rightarrow> v = None))"
      "snd (update_setting k data t) = edit_step se_id setting_constraints (\<lambda>_. False) (Update (se_id q) (fold set_setting data)) t"
    by (auto simp: update_setting_def split: sum.splits if_splits)
  define h where "h = (\<lambda>p. if se_id p = se_id q then fold set_setting data p else p)"
  have ok: "table_ok se_id setting_constraints (snd (update_setting k data t))"
    unfolding q(3) by (rule setting_table.edit_keeps) (simp_all add: assms(1) set_settings)
  have cons: "setting_constraints (tb_rows t)" "setting_constraints (tb_rows (snd (update_setting k data t)))"
    using assms(1) ok by (simp_all add: table_ok_def)
  have found: "find (\<lambda>r. se_key r = key) (tb_rows t) = Some r" "find (\<lambda>r. se_key r = k) (tb_rows t) = Some q"
    using assms(2) q(1) by (simp_all add: setting_found[OF cons(1)])
  have mapped: "tb_rows (snd (update_setting k data t)) = map h (tb_rows t)"
    using False unfolding q(3) by (auto simp: update_item_def h_def Let_def split: sum.splits if_splits)
  have "find (\<lambda>r. se_key r = key) (map h (tb_rows t)) = Some (h r)"
    using found(1) by (simp add: find_map comp_def h_def set_settings if_distrib cong: if_cong)
  moreover have "se_is_system (h r)" using assms(3) by (simp add: h_def set_settings)
  moreover have "se_value (h r) \<noteq> None"
  proof (cases "se_id r = se_id q")
    case True
    have "r \<in> set (tb_rows t)" "q \<in> set (tb_rows t)" using found by (auto simp: find_Some_iff)
    with True assms(1) have "r = q" by (auto simp: table_ok_def distinct_map dest: inj_onD)
    with q(2) assms(3) set_settings_value[OF assms(5), of q] show ?thesis
      by (cases "map_of data ''value''") (simp_all add: h_def)
  qed (simp add: h_def assms(4))
  ultimately show ?thesis using ok by (simp add: setting_found[OF cons(2)] mapped)
qed (use assms in auto)

text \<open>
  A system setting that has a value keeps one: no sequence of updates to any settings clears it, or makes it one that
  can be cleared.
\<close>

theorem system_value_kept:
  assumes "table_ok se_id setting_constraints t" "get_setting key t = Inr r" "se_is_system r" "se_value r \<noteq> None"
    and "list_all (\<lambda>(k, data). distinct (map fst data)) us"
  shows "\<exists>r'. get_setting key (updated us t) = Inr r' \<and> se_is_system r' \<and> se_value r' \<noteq> None"
proof -
  have "table_ok se_id setting_constraints (updated us t) \<and> ?thesis"
    using assms
  proof (induction us arbitrary: t r)
    case (Cons u us)
    obtain k data where u: "u = (k, data)" by fastforce
    with Cons.prems(5) have "distinct (map fst data)" "list_all (\<lambda>(k, data). distinct (map fst data)) us" by auto
    with setting_step[OF Cons.prems(1-4), of data k] Cons.IH show ?case
      by (auto simp: updated_def u)
  qed (auto simp: updated_def)
  then show ?thesis ..
qed

text \<open>
  But it cannot be described either: an update of a system setting that does not send the value again is refused as
  one that clears it.
\<close>

theorem system_label_refused:
  assumes "get_setting key t = Inr r" "se_is_system r" "''value'' \<notin> fst ` set data"
  shows "update_setting key data t = (Inl (HTTPException 400 ''Cannot clear a system setting''), t)"
proof -
  from assms(3) have "map_of data ''value'' = None" by (simp add: map_of_eq_None_iff)
  with assms(1,2) show ?thesis by (simp add: update_setting_def)
qed

section \<open>The site's row\<close>

text \<open>
  Requests that follow each other keep at most one row.
\<close>

theorem site_singleton:
  assumes "length (tb_rows t) \<le> 1"
  shows "length (tb_rows (fold (\<lambda>data t. snd (update_site_config data t)) reqs t)) \<le> 1"
  using assms
proof (induction reqs arbitrary: t)
  case (Cons data reqs)
  have "length (tb_rows (snd (update_site_config data t))) \<le> 1"
    using Cons.prems by (cases "tb_rows t" rule: scalar_one_or_none.cases)
      (auto simp: update_site_config_def write_site_def create_item_def update_item_def Let_def split: sum.split)
  with Cons.IH show ?case by simp
qed simp

text \<open>Requests that overlap: each reads, then writes.\<close>

record site_state =
  ss_table :: "site_row table"
  ss_reads :: "nat \<Rightarrow> (string option changes \<times> site_row option) option"

inductive site_step :: "site_state \<Rightarrow> site_state \<Rightarrow> bool" where
  reads: "ss_reads s k = None \<Longrightarrow> scalar_one_or_none (tb_rows (ss_table s)) = Inr found \<Longrightarrow>
    site_step s (s\<lparr>ss_reads := (ss_reads s)(k \<mapsto> (data, found))\<rparr>)"
| writes: "ss_reads s k = Some (data, found) \<Longrightarrow>
    site_step s (s\<lparr>ss_table := snd (write_site data found (ss_table s)), ss_reads := (ss_reads s)(k := None)\<rparr>)"

inductive_cases site_stepE: "site_step s s'"

definition new_site :: site_state where
  "new_site = \<lparr>ss_table = \<lparr>tb_rows = [], tb_next = 1\<rparr>, ss_reads = (\<lambda>_. None)\<rparr>"

lemma write_grows: "length (tb_rows t) \<le> length (tb_rows (snd (write_site data found t)))"
  by (auto simp: write_site_def create_item_def update_item_def Let_def split: option.splits sum.splits)

lemma two_rows: "2 \<le> length rs \<Longrightarrow> scalar_one_or_none rs = Inl MultipleResultsFound"
  by (cases rs rule: scalar_one_or_none.cases) auto

lemma two_rows_stay:
  assumes "site_step\<^sup>*\<^sup>* s s'" "2 \<le> length (tb_rows (ss_table s))"
  shows "get_site_config (ss_table s') = Inl MultipleResultsFound \<and>
    update_site_config data (ss_table s') = (Inl MultipleResultsFound, ss_table s') \<and>
    report_site_name (ss_table s') = Inl MultipleResultsFound"
proof -
  have "2 \<le> length (tb_rows (ss_table s'))"
    using assms
  proof (induction rule: rtranclp_induct)
    case (step s' s'')
    from step.hyps(2) have "length (tb_rows (ss_table s')) \<le> length (tb_rows (ss_table s''))"
      by cases (simp_all add: write_grows)
    with step show ?case by simp
  qed
  from two_rows[OF this] show ?thesis
    by (simp add: get_site_config_def update_site_config_def report_site_name_def)
qed

text \<open>
  C40. The first two updates can overlap so that each inserts a row; from then on, whatever requests follow, the site can be
  neither read nor updated and no report can be exported.
\<close>

theorem two_sites:
  "\<exists>s. site_step\<^sup>*\<^sup>* new_site s \<and> (\<forall>s' data. site_step\<^sup>*\<^sup>* s s' \<longrightarrow>
     get_site_config (ss_table s') = Inl MultipleResultsFound \<and>
     update_site_config data (ss_table s') = (Inl MultipleResultsFound, ss_table s') \<and>
     report_site_name (ss_table s') = Inl MultipleResultsFound)"
proof -
  define s0 :: site_state where "s0 = new_site\<lparr>ss_reads := [0 \<mapsto> ([], None), 1 \<mapsto> ([], None)]\<rparr>"
  define s1 where "s1 = s0\<lparr>ss_table := snd (write_site [] None (ss_table s0)), ss_reads := (ss_reads s0)(0 := None)\<rparr>"
  define s2 where "s2 = s1\<lparr>ss_table := snd (write_site [] None (ss_table s1)), ss_reads := (ss_reads s1)(1 := None)\<rparr>"
  define a where "a = new_site\<lparr>ss_reads := (ss_reads new_site)(0 \<mapsto> ([], None))\<rparr>"
  have "site_step new_site a"
    unfolding a_def by (rule reads) (simp_all add: new_site_def)
  moreover have "site_step a (a\<lparr>ss_reads := (ss_reads a)(1 \<mapsto> ([], None))\<rparr>)"
    by (rule reads) (simp_all add: a_def new_site_def)
  then have "site_step a s0"
    by (simp add: a_def s0_def new_site_def)
  moreover have "site_step s0 s1"
    unfolding s1_def by (rule writes) (simp add: s0_def)
  moreover have "site_step s1 s2"
    unfolding s2_def by (rule writes) (simp add: s1_def s0_def)
  ultimately have run: "site_step\<^sup>*\<^sup>* new_site s2"
    by (meson rtranclp.rtrancl_into_rtrancl rtranclp.rtrancl_refl)
  have two: "2 \<le> length (tb_rows (ss_table s2))"
    by (simp add: s2_def s1_def s0_def new_site_def write_site_def create_item_def blank_site_def site_constraints_def Let_def)
  from run two_rows_stay[OF _ two] show ?thesis by (intro exI[of _ s2]) simp
qed

section \<open>Examples\<close>

definition example_assignment :: assignment where
  "example_assignment = \<lparr>sa_id = 0, sa_shift_id = 1, sa_worker_id = Some 5, sa_gate_id = 7, sa_date = 20000,
     sa_is_substitute = Some False, sa_original_worker_id = None, sa_assigned_by = None, sa_notes = None\<rparr>"

definition example_setting :: setting where
  "example_setting = \<lparr>se_id = 1, se_key = ''settlement_schedule'', se_value = Some ''02:00'', se_value_type = Some ''string'',
     se_label = None, se_description = None, se_group = None, se_is_system = True\<rparr>"

definition example_shift_row :: "int \<Rightarrow> time \<Rightarrow> time \<Rightarrow> shift_row" where
  "example_shift_row i a b = \<lparr>sh_id = i, sh_start_time = a, sh_end_time = b, sh_is_active = True,
     sr_name = Some ''shift'', sr_code = Some [CHR ''S''], sr_description = None\<rparr>"

theorem booked_shift_listed_witness:
  "get_current_shift (example_store\<lparr>shifts := map shift.truncate [example_shift_row 1 0 5]\<rparr>) 7 =
     Some (shift.truncate (example_shift_row 1 0 5))"
  using booked_shift_listed[of "example_store\<lparr>shifts := map shift.truncate [example_shift_row 1 0 5]\<rparr>"
      "\<lparr>tb_rows = [example_shift_row 1 0 5], tb_next = 2\<rparr>" 7]
  by (simp add: list_active_shifts_def example_shift_row_def split: option.splits)

theorem slot_given_once_witness:
  "\<exists>r t'. create_shift_assignment (\<lambda>_. True) 1 example_assignment \<lparr>tb_rows = [], tb_next = 1\<rparr> = (Inr r, t') \<and>
     create_shift_assignment (\<lambda>_. True) 2 (example_assignment\<lparr>sa_worker_id := Some 6\<rparr>) t' =
       (Inl (HTTPException 409 ''Shift already assigned for this gate on this date''), t')"
proof -
  have ok: "table_ok sa_id (assignment_constraints (\<lambda>_. True)) \<lparr>tb_rows = [], tb_next = 1\<rparr>"
    by (simp add: table_ok_def assignment_constraints_def)
  have "\<exists>r t'. create_shift_assignment (\<lambda>_. True) 1 example_assignment \<lparr>tb_rows = [], tb_next = 1\<rparr> = (Inr r, t')"
    by (auto simp: create_shift_assignment_def slot_taken_def insert_assignment_def create_item_def Let_def
        assignment_constraints_def example_assignment_def)
  then obtain r t' where
    "create_shift_assignment (\<lambda>_. True) 1 example_assignment \<lparr>tb_rows = [], tb_next = 1\<rparr> = (Inr r, t')" by blast
  with slot_given_once[OF ok this, of "example_assignment\<lparr>sa_worker_id := Some 6\<rparr>" 2] show ?thesis
    by (simp add: slot_def)
qed

theorem system_value_kept_witness:
  "\<exists>r. get_setting ''settlement_schedule'' (updated [(''settlement_schedule'', [(''value'', None)])]
     \<lparr>tb_rows = [example_setting], tb_next = 2\<rparr>) = Inr r \<and> se_value r \<noteq> None"
  using system_value_kept[of "\<lparr>tb_rows = [example_setting], tb_next = 2\<rparr>" "''settlement_schedule''" example_setting
      "[(''settlement_schedule'', [(''value'', None)])]"]
  by (auto simp: table_ok_def setting_constraints_def example_setting_def get_setting_def)

theorem system_label_refused_witness:
  "update_setting ''settlement_schedule'' [(''label'', Some ''Jadwal'')] \<lparr>tb_rows = [example_setting], tb_next = 2\<rparr> =
     (Inl (HTTPException 400 ''Cannot clear a system setting''), \<lparr>tb_rows = [example_setting], tb_next = 2\<rparr>)"
  by (rule system_label_refused[of _ _ example_setting]) (simp_all add: get_setting_def example_setting_def)

theorem site_singleton_witness:
  "length (tb_rows (fold (\<lambda>data t. snd (update_site_config data t)) [[(''name'', None)], [(''city'', Some ''Bandung'')]]
     \<lparr>tb_rows = [], tb_next = 1\<rparr>)) \<le> 1"
  by (rule site_singleton) simp

theorem two_sites_witness:
  "\<exists>s :: site_state. get_site_config (ss_table s) = Inl MultipleResultsFound"
  using two_sites by (meson rtranclp.rtrancl_refl)

end
