(* ===== verification/Vision.thy ===== *)
theory Vision
  imports Prelude
begin

text \<open>
  The vision service (\<open>services/vision.py\<close>): the type of a vehicle from the detections of a model, the number plate from
  the text an OCR engine reads. Models and engines are packages outside the repository: what they find on a
  file is the argument \<open>lib\<close>. Confidences are rationals, text is ASCII.
\<close>

section \<open>The service\<close>

record detection =
  dt_class_name :: string
  dt_confidence :: rat

record vision_settings =
  vi_anpr_enabled :: bool
  vi_anpr_model :: string
  vi_anpr_confidence_threshold :: rat
  vi_vehicle_detection_enabled :: bool
  vi_vehicle_detection_confidence_threshold :: rat

text \<open>\<open>None\<close> is a package that is not installed; a reading is the lines of text with their confidence.\<close>

record vision_lib =
  vl_yolo :: "(string \<Rightarrow> detection list) option"
  vl_paddleocr :: "(string \<Rightarrow> (string \<times> rat) list) option"
  vl_easyocr :: "(string \<Rightarrow> (string \<times> rat) list) option"

record vision_result =
  vr_plate_number :: "string option"
  vr_plate_confidence :: rat
  vr_vehicle_type :: "string option"
  vr_vehicle_confidence :: rat
  vr_raw_detections :: "detection list"

record vision_service =
  vs_yolo_model :: "(string \<Rightarrow> detection list) option"
  vs_ocr_model :: "(string \<Rightarrow> (string \<times> rat) list) option"

definition COCO_TO_VEHICLE_TYPE :: "string \<Rightarrow> string option" where
  "COCO_TO_VEHICLE_TYPE = [''car'' \<mapsto> ''MOBIL'', ''motorcycle'' \<mapsto> ''MOTOR'', ''bus'' \<mapsto> ''BUS'', ''truck'' \<mapsto> ''TRUCK'']"

definition load_yolo :: "vision_lib \<Rightarrow> vision_service \<Rightarrow> (py_exc + (string \<Rightarrow> detection list)) \<times> vision_service" where
  "load_yolo lib s =
     (case vs_yolo_model s of
        Some m \<Rightarrow> (Inr m, s)
      | None \<Rightarrow>
        (case vl_yolo lib of
           None \<Rightarrow> (Inl (ImportError ''ultralytics is required for vision features''), s)
         | Some m \<Rightarrow> (Inr m, s\<lparr>vs_yolo_model := Some m\<rparr>)))"

definition load_ocr ::
  "vision_settings \<Rightarrow> vision_lib \<Rightarrow> vision_service \<Rightarrow> (py_exc + (string \<Rightarrow> (string \<times> rat) list)) \<times> vision_service" where
  "load_ocr cfg lib s =
     (case vs_ocr_model s of
        Some m \<Rightarrow> (Inr m, s)
      | None \<Rightarrow>
        if vi_anpr_model cfg = ''paddleocr'' then
          (case vl_paddleocr lib of
             None \<Rightarrow> (Inl (ImportError ''paddleocr is required for ANPR''), s)
           | Some m \<Rightarrow> (Inr m, s\<lparr>vs_ocr_model := Some m\<rparr>))
        else if vi_anpr_model cfg = ''easyocr'' then
          (case vl_easyocr lib of
             None \<Rightarrow> (Inl (ImportError ''easyocr is required for ANPR with easyocr engine''), s)
           | Some m \<Rightarrow> (Inr m, s\<lparr>vs_ocr_model := Some m\<rparr>))
        else (Inl (ValueError ''Unknown ANPR model''), s))"

definition extract_vehicle_type :: "detection list \<Rightarrow> string option \<times> rat" where
  "extract_vehicle_type ds =
     fold (\<lambda>d best. case COCO_TO_VEHICLE_TYPE (dt_class_name d) of
         None \<Rightarrow> best
       | Some v \<Rightarrow> if dt_confidence d > snd best then (Some v, dt_confidence d) else best) ds (None, 0)"

section \<open>Plates\<close>

definition is_upper :: "char \<Rightarrow> bool" where
  "is_upper c = (let n = (of_char c :: nat) in 65 \<le> n \<and> n \<le> 90)"

text \<open>
  \<open>[A-Z]{1,2}\s?\d{1,4}\s?[A-Z]{0,3}\<close> as Python tries it: each part as long as it can be, then shorter. \<open>part p lo hi s\<close> are
  the ways to take between \<open>lo\<close> and \<open>hi\<close> characters of \<open>p\<close> off \<open>s\<close>.
\<close>

definition part :: "(char \<Rightarrow> bool) \<Rightarrow> nat \<Rightarrow> nat \<Rightarrow> string \<Rightarrow> (string \<times> string) list" where
  "part p lo hi s = [(take n s, drop n s). n \<leftarrow> rev [lo..<Suc hi], n \<le> length s \<and> list_all p (take n s)]"

definition plate_matches :: "string \<Rightarrow> string list" where
  "plate_matches s =
     [l @ v @ d @ w @ t. (l, s) \<leftarrow> part is_upper 1 2 s, (v, s) \<leftarrow> part is_space 0 1 s, (d, s) \<leftarrow> part is_digit 1 4 s,
        (w, s) \<leftarrow> part is_space 0 1 s, (t, s) \<leftarrow> part is_upper 0 3 s]"

fun plate_search :: "string \<Rightarrow> string option" where
  "plate_search [] = (case plate_matches [] of [] \<Rightarrow> None | m # ms \<Rightarrow> Some m)"
| "plate_search (c # s) = (case plate_matches (c # s) of [] \<Rightarrow> plate_search s | m # ms \<Rightarrow> Some m)"

lemma spaced_shorter:
  "length (dropWhile is_upper (dropWhile is_digit (dropWhile is_upper s))) < Suc (length s)"
  by (rule le_imp_less_Suc[OF order_trans[OF length_dropWhile_le order_trans[OF length_dropWhile_le length_dropWhile_le]]])

text \<open>\<open>re.sub\<close> of \<open>([A-Z]+)(\d+)([A-Z]*)\<close> by its groups with blanks between.\<close>

function spaced :: "string \<Rightarrow> string" where
  "spaced [] = []"
| "spaced (c # s) =
     (let l = takeWhile is_upper (c # s); r = dropWhile is_upper (c # s);
          d = takeWhile is_digit r; q = dropWhile is_digit r
      in if l = [] \<or> d = [] then c # spaced s
         else l @ '' '' @ d @ '' '' @ takeWhile is_upper q @ spaced (dropWhile is_upper q))"
  by pat_completeness auto

termination
  by (relation "measure length") (auto simp: spaced_shorter split: if_splits)

declare spaced.simps(2) [simp del]

definition join_blank :: "string list \<Rightarrow> string" where
  "join_blank ts = concat (case ts of [] \<Rightarrow> [] | t # ts \<Rightarrow> t # map (\<lambda>u. CHR '' '' # u) ts)"

definition plate_of :: "string \<Rightarrow> string option" where
  "plate_of full_text = map_option (\<lambda>m. strip (spaced (strip m))) (plate_search full_text)"

definition extract_plate_number ::
  "vision_settings \<Rightarrow> vision_lib \<Rightarrow> string \<Rightarrow> detection list \<Rightarrow> vision_service \<Rightarrow>
   (py_exc + string option \<times> rat) \<times> vision_service" where
  "extract_plate_number cfg lib path detections s =
     (case load_ocr cfg lib s of
        (Inl e, s) \<Rightarrow> (Inl e, s)
      | (Inr ocr, s) \<Rightarrow>
        if vi_anpr_model cfg \<notin> {''paddleocr'', ''easyocr''} \<or> ocr path = [] then (Inr (None, 0), s)
        else let avg_conf = sum_list (map snd (ocr path)) / of_nat (length (ocr path))
             in case plate_of (upper (join_blank (map fst (ocr path)))) of
                  Some plate \<Rightarrow> (Inr (Some plate, avg_conf), s)
                | None \<Rightarrow> (Inr (None, 0), s))"

definition no_result :: vision_result where
  "no_result = \<lparr>vr_plate_number = None, vr_plate_confidence = 0, vr_vehicle_type = None, vr_vehicle_confidence = 0,
     vr_raw_detections = []\<rparr>"

definition with_vehicle :: "vision_settings \<Rightarrow> vision_result \<Rightarrow> vision_result" where
  "with_vehicle cfg r =
     (if vi_vehicle_detection_enabled cfg
      then (case extract_vehicle_type (vr_raw_detections r) of (vtype, vconf) \<Rightarrow>
              if vi_vehicle_detection_confidence_threshold cfg \<le> vconf
              then r\<lparr>vr_vehicle_type := vtype, vr_vehicle_confidence := vconf\<rparr> else r)
      else r)"

definition analyze_snapshot ::
  "vision_settings \<Rightarrow> vision_lib \<Rightarrow> bool \<Rightarrow> string \<Rightarrow> vision_service \<Rightarrow> (py_exc + vision_result) \<times> vision_service" where
  "analyze_snapshot cfg lib exists path s =
     (if \<not> exists \<or> (\<not> vi_anpr_enabled cfg \<and> \<not> vi_vehicle_detection_enabled cfg) then (Inr no_result, s)
      else case load_yolo lib s of
             (Inl e, s) \<Rightarrow> (Inl e, s)
           | (Inr yolo, s) \<Rightarrow>
             (let r = with_vehicle cfg (no_result\<lparr>vr_raw_detections := yolo path\<rparr>)
              in if \<not> vi_anpr_enabled cfg then (Inr r, s)
                 else case extract_plate_number cfg lib path (yolo path) s of
                        (Inl e, s) \<Rightarrow> (Inl e, s)
                      | (Inr (plate, conf), s) \<Rightarrow>
                          (Inr (if vi_anpr_confidence_threshold cfg \<le> conf
                                then r\<lparr>vr_plate_number := plate, vr_plate_confidence := conf\<rparr> else r), s)))"

section \<open>The vehicle\<close>

definition of_vehicle :: "detection \<Rightarrow> bool" where
  "of_vehicle d \<longleftrightarrow> COCO_TO_VEHICLE_TYPE (dt_class_name d) \<noteq> None"

text \<open>The detection that decides, between those before and after it.\<close>

definition surest :: "detection list \<Rightarrow> detection \<Rightarrow> bool" where
  "surest ds d \<longleftrightarrow> of_vehicle d \<and> 0 < dt_confidence d \<and> (\<exists>before after. ds = before @ d # after \<and>
     (\<forall>b \<in> set before. of_vehicle b \<longrightarrow> dt_confidence b < dt_confidence d) \<and>
     (\<forall>a \<in> set after. of_vehicle a \<longrightarrow> dt_confidence a \<le> dt_confidence d))"

lemma surest_bound: "surest ds d \<Longrightarrow> b \<in> set ds \<Longrightarrow> of_vehicle b \<Longrightarrow> dt_confidence b \<le> dt_confidence d"
  by (fastforce simp: surest_def intro: less_imp_le)

lemma surest_snoc:
  assumes "surest ds d" "of_vehicle b \<longrightarrow> dt_confidence b \<le> dt_confidence d"
  shows "surest (ds @ [b]) d"
proof -
  from assms(1) obtain before after where "ds @ [b] = before @ d # (after @ [b])"
      "\<forall>b \<in> set before. of_vehicle b \<longrightarrow> dt_confidence b < dt_confidence d"
      "\<forall>a \<in> set after. of_vehicle a \<longrightarrow> dt_confidence a \<le> dt_confidence d"
    by (auto simp: surest_def)
  with assms show ?thesis unfolding surest_def by (intro conjI exI[of _ before] exI[of _ "after @ [b]"]) auto
qed

lemma extract_snoc:
  "extract_vehicle_type (ds @ [d]) =
     (if of_vehicle d \<and> snd (extract_vehicle_type ds) < dt_confidence d
      then (COCO_TO_VEHICLE_TYPE (dt_class_name d), dt_confidence d) else extract_vehicle_type ds)"
  by (cases "COCO_TO_VEHICLE_TYPE (dt_class_name d)") (simp_all add: extract_vehicle_type_def of_vehicle_def)

lemma extract_surest:
  "(\<exists>d. surest ds d \<and> extract_vehicle_type ds = (COCO_TO_VEHICLE_TYPE (dt_class_name d), dt_confidence d)) \<or>
   ((\<forall>d \<in> set ds. of_vehicle d \<longrightarrow> dt_confidence d \<le> 0) \<and> extract_vehicle_type ds = (None, 0))"
proof (induction ds rule: rev_induct)
  case (snoc b ds)
  have wins: "surest (ds @ [b]) b" if "of_vehicle b" "c < dt_confidence b" "0 \<le> c"
      "\<forall>d \<in> set ds. of_vehicle d \<longrightarrow> dt_confidence d \<le> c" for c
    unfolding surest_def using that by (intro conjI exI[of _ ds] exI[of _ "[]"]) force+
  from snoc show ?case
  proof
    assume "\<exists>d. surest ds d \<and> extract_vehicle_type ds = (COCO_TO_VEHICLE_TYPE (dt_class_name d), dt_confidence d)"
    then obtain d where d: "surest ds d" "extract_vehicle_type ds = (COCO_TO_VEHICLE_TYPE (dt_class_name d), dt_confidence d)"
      by blast
    then have "0 \<le> dt_confidence d" by (simp add: surest_def)
    with d wins[of "dt_confidence d"] surest_bound[OF d(1)] surest_snoc[OF d(1), of b] show ?thesis
      by (cases "of_vehicle b \<and> dt_confidence d < dt_confidence b") (auto simp: extract_snoc not_less)
  next
    assume none: "(\<forall>d \<in> set ds. of_vehicle d \<longrightarrow> dt_confidence d \<le> 0) \<and> extract_vehicle_type ds = (None, 0)"
    with wins[of 0] show ?thesis
      by (cases "of_vehicle b \<and> 0 < dt_confidence b") (auto simp: extract_snoc)
  qed
qed (simp add: extract_vehicle_type_def)

text \<open>
  The detected type is that of the vehicle the model is surest of, the earlier one of equals; there is none exactly when
  no detection is of a vehicle with any confidence.
\<close>

theorem vehicle_type_best:
  "case extract_vehicle_type ds of
     (None, c) \<Rightarrow> c = 0 \<and> (\<nexists>d. surest ds d)
   | (Some v, c) \<Rightarrow> \<exists>d. surest ds d \<and> COCO_TO_VEHICLE_TYPE (dt_class_name d) = Some v \<and> dt_confidence d = c"
  using extract_surest[of ds]
proof
  assume "\<exists>d. surest ds d \<and> extract_vehicle_type ds = (COCO_TO_VEHICLE_TYPE (dt_class_name d), dt_confidence d)"
  then obtain d where d: "surest ds d" "extract_vehicle_type ds = (COCO_TO_VEHICLE_TYPE (dt_class_name d), dt_confidence d)"
    by blast
  then obtain v where "COCO_TO_VEHICLE_TYPE (dt_class_name d) = Some v" by (auto simp: surest_def of_vehicle_def)
  with d show ?thesis by auto
next
  assume "(\<forall>d \<in> set ds. of_vehicle d \<longrightarrow> dt_confidence d \<le> 0) \<and> extract_vehicle_type ds = (None, 0)"
  then show ?thesis by (fastforce simp: surest_def)
qed

section \<open>The plate\<close>

lemma classes [simp]:
  "is_upper c \<Longrightarrow> \<not> is_digit c" "is_upper c \<Longrightarrow> \<not> is_space c" "is_digit c \<Longrightarrow> \<not> is_upper c" "is_digit c \<Longrightarrow> \<not> is_space c"
  "is_space (CHR '' '')" "\<not> is_upper (CHR '' '')" "\<not> is_digit (CHR '' '')"
  by (auto simp: is_upper_def is_digit_def is_space_def Let_def)

text \<open>A part takes all it can.\<close>

lemma part_greedy:
  assumes "list_all p l" "lo \<le> length l" "length l \<le> hi" "length l = hi \<or> r = [] \<or> \<not> p (hd r)"
  shows "\<exists>ms. part p lo hi (l @ r) = (l, r) # ms"
proof -
  define g where "g = (\<lambda>n. if n \<le> length (l @ r) \<and> list_all p (take n (l @ r)) then [(take n (l @ r), drop n (l @ r))] else [])"
  have "[lo..<Suc hi] = [lo..<length l] @ length l # [Suc (length l)..<Suc hi]"
    using upt_add_eq_append[OF assms(2), of "Suc (hi - length l)"] assms(3)
    by (simp add: upt_conv_Cons del: upt_Suc)
  then have "part p lo hi (l @ r) =
      concat (map g (rev [Suc (length l)..<Suc hi])) @ g (length l) @ concat (map g (rev [lo..<length l]))"
    by (simp add: part_def g_def del: upt_Suc)
  moreover have "g n = []" if "n \<in> set [Suc (length l)..<Suc hi]" for n
  proof (cases r)
    case (Cons c r')
    with that assms(4) have "\<not> p c" "c \<in> set (take n (l @ r))" by (auto simp: take_Cons')
    then have "\<not> list_all p (take n (l @ r))" by (auto simp: list_all_iff)
    then show ?thesis by (simp add: g_def)
  qed (use that in \<open>auto simp: g_def\<close>)
  then have "concat (map g (rev [Suc (length l)..<Suc hi])) = []" by (simp del: upt_Suc)
  moreover have "g (length l) = [(l, r)]" using assms(1) by (simp add: g_def)
  ultimately show ?thesis by (simp del: upt_Suc)
qed

lemma while_all:
  "list_all p l \<Longrightarrow> takeWhile p (l @ r) = l @ takeWhile p r" "list_all p l \<Longrightarrow> dropWhile p (l @ r) = dropWhile p r"
  by (simp_all add: list_all_iff)

lemma spaced_none:
  "takeWhile is_upper (c # s) = [] \<or> takeWhile is_digit (dropWhile is_upper (c # s)) = [] \<Longrightarrow> spaced (c # s) = c # spaced s"
  by (simp only: spaced.simps Let_def if_True)

lemma spaced_some:
  assumes "takeWhile is_upper (c # s) = l" "dropWhile is_upper (c # s) = r"
    and "takeWhile is_digit r = d" "dropWhile is_digit r = q" "l \<noteq> []" "d \<noteq> []"
  shows "spaced (c # s) = l @ '' '' @ d @ '' '' @ takeWhile is_upper q @ spaced (dropWhile is_upper q)"
  by (subst spaced.simps(2)) (simp only: assms Let_def simp_thms if_False)

lemma spaced_upper: "list_all is_upper t \<Longrightarrow> spaced t = t"
proof (induction t)
  case (Cons c t)
  then have "dropWhile is_upper (c # t) = []" by (simp add: list_all_iff)
  then have "spaced (c # t) = c # spaced t"
    by (intro spaced_none disjI2) (simp only: takeWhile.simps)
  with Cons show ?case by simp
qed simp

lemma spaced_digits: "list_all is_digit d \<Longrightarrow> spaced (d @ q) = d @ spaced q"
  by (induction d) (simp_all add: spaced_none)

lemma spaced_blank: "spaced (CHR '' '' # q) = CHR '' '' # spaced q"
  by (simp add: spaced_none)

lemma spaced_skip: "list_all is_upper l \<Longrightarrow> spaced (l @ CHR '' '' # q) = l @ CHR '' '' # spaced q"
proof (induction l)
  case (Cons c l)
  then have "dropWhile is_upper (c # l @ CHR '' '' # q) = CHR '' '' # q"
    by (simp add: while_all)
  then have "spaced (c # l @ CHR '' '' # q) = c # spaced (l @ CHR '' '' # q)"
    by (intro spaced_none) simp
  with Cons show ?case by simp
qed (simp add: spaced_blank)

lemma spaced_match:
  assumes "l \<noteq> []" "list_all is_upper l" "d \<noteq> []" "list_all is_digit d" "q = [] \<or> \<not> is_digit (hd q)"
  shows "spaced (l @ d @ q) = l @ '' '' @ d @ '' '' @ takeWhile is_upper q @ spaced (dropWhile is_upper q)"
proof -
  have "takeWhile is_upper (d @ q) = []" "dropWhile is_upper (d @ q) = d @ q"
    using assms(3,4) by (cases d; simp)+
  then have l: "takeWhile is_upper (l @ d @ q) = l" "dropWhile is_upper (l @ d @ q) = d @ q"
    by (simp_all only: while_all[OF assms(2)] append_Nil2)
  have "takeWhile is_digit q = []" "dropWhile is_digit q = q"
    using assms(5) by (cases q; simp)+
  then have d: "takeWhile is_digit (d @ q) = d" "dropWhile is_digit (d @ q) = q"
    by (simp_all only: while_all[OF assms(4)] append_Nil2)
  obtain c s where cs: "l @ d @ q = c # s" using assms(1) by (cases l) auto
  show ?thesis
    unfolding cs by (rule spaced_some[OF l[unfolded cs] d assms(1,3)])
qed

definition plate_parts :: "string \<Rightarrow> string \<Rightarrow> string \<Rightarrow> bool" where
  "plate_parts l d t \<longleftrightarrow> length l \<in> {1, 2} \<and> list_all is_upper l \<and> length d \<in> {1, 2, 3, 4} \<and> list_all is_digit d \<and>
     t \<noteq> [] \<and> length t \<le> 3 \<and> list_all is_upper t"

lemma dropWhile_hd: "s \<noteq> [] \<Longrightarrow> \<not> p (hd s) \<Longrightarrow> dropWhile p s = s"
  by (cases s) simp_all

lemma strip_ends: "s \<noteq> [] \<Longrightarrow> \<not> is_space (hd s) \<Longrightarrow> \<not> is_space (last s) \<Longrightarrow> strip s = s"
  by (simp add: strip_def lstrip_def rstrip_def dropWhile_hd hd_rev)

lemma plate_whole:
  assumes "plate_parts l d t" "v \<in> {[], '' ''}" "w \<in> {[], '' ''}"
  shows "plate_search (l @ v @ d @ w @ t) = Some (l @ v @ d @ w @ t)"
proof -
  have parts: "l \<noteq> []" "list_all is_upper l" "d \<noteq> []" "list_all is_digit d" "t \<noteq> []" "list_all is_upper t"
      "1 \<le> length l" "length l \<le> 2" "1 \<le> length d" "length d \<le> 4" "length t \<le> 3"
    using assms(1) by (auto simp: plate_parts_def)
  obtain m1 where 1: "part is_upper 1 2 (l @ v @ d @ w @ t) = (l, v @ d @ w @ t) # m1"
    using part_greedy[of is_upper l 1 2 "v @ d @ w @ t"] parts assms(2) by (cases d) auto
  obtain m2 where 2: "part is_space 0 1 (v @ d @ w @ t) = (v, d @ w @ t) # m2"
    using part_greedy[of is_space v 0 1 "d @ w @ t"] parts assms(2) by (cases d) auto
  obtain m3 where 3: "part is_digit 1 4 (d @ w @ t) = (d, w @ t) # m3"
    using part_greedy[of is_digit d 1 4 "w @ t"] parts assms(3) by (cases t) auto
  obtain m4 where 4: "part is_space 0 1 (w @ t) = (w, t) # m4"
    using part_greedy[of is_space w 0 1 t] parts assms(3) by (cases t) auto
  obtain m5 where 5: "part is_upper 0 3 t = (t, []) # m5"
    using part_greedy[of is_upper t 0 3 "[]"] parts by auto
  have "\<exists>ms. plate_matches (l @ v @ d @ w @ t) = (l @ v @ d @ w @ t) # ms"
    by (simp add: plate_matches_def 1 2 3 4 5 del: One_nat_def)
  then obtain ms where "plate_matches (l @ v @ d @ w @ t) = (l @ v @ d @ w @ t) # ms" ..
  then show ?thesis
    by (cases "l @ v @ d @ w @ t") simp_all
qed

text \<open>
  A plate alone on the picture, its parts with or without a blank between: with no blank or the first blank missing the
  text is respaced, otherwise it is left. So the same plate comes out with one blank, two or none before its
  last letters, as the engine happened to read it.
\<close>

theorem plate_spacing:
  assumes "plate_parts l d t" "v \<in> {[], '' ''}" "w \<in> {[], '' ''}"
  shows "plate_of (l @ v @ d @ w @ t) = Some (if v = [] then l @ '' '' @ d @ '' '' @ w @ t else l @ '' '' @ d @ w @ t)"
proof -
  have parts: "l \<noteq> []" "list_all is_upper l" "d \<noteq> []" "list_all is_digit d" "t \<noteq> []" "list_all is_upper t"
    using assms(1) by (auto simp: plate_parts_def)
  have t: "\<not> is_digit (hd t)" "takeWhile is_upper t = t" "dropWhile is_upper t = []"
    using parts(5,6) by (cases t; simp add: list_all_iff)+
  have "spaced (l @ v @ d @ w @ t) = (if v = [] then l @ '' '' @ d @ '' '' @ w @ t else l @ '' '' @ d @ w @ t)"
    using assms(2,3) parts
    by (auto simp: t spaced_match spaced_skip spaced_digits spaced_blank spaced_upper)
  moreover have noop: "strip (l @ x @ t) = l @ x @ t" for x
    using parts by (intro strip_ends) (auto simp: list_all_iff)
  ultimately show ?thesis
    using plate_whole[OF assms] noop[of "v @ d @ w"] noop[of "'' '' @ d @ '' '' @ w"] noop[of "'' '' @ d @ w"]
    by (simp add: plate_of_def)
qed

text \<open>Any of the spaces can come from the engine: four readings of one plate, three texts.\<close>

theorem plate_spacing_witness:
  "plate_of ''B1234XYZ'' = Some ''B 1234 XYZ'' \<and> plate_of ''B 1234 XYZ'' = Some ''B 1234 XYZ'' \<and>
   plate_of ''B1234 XYZ'' = Some ''B 1234  XYZ'' \<and> plate_of ''B 1234XYZ'' = Some ''B 1234XYZ''"
proof -
  have "plate_parts ''B'' ''1234'' ''XYZ''" by code_simp
  from plate_spacing[OF this, of "[]" "[]"] plate_spacing[OF this, of "'' ''" "'' ''"]
    plate_spacing[OF this, of "[]" "'' ''"] plate_spacing[OF this, of "'' ''" "[]"]
  show ?thesis by simp
qed

text \<open>
  Nothing is reported below its threshold: a plate or a vehicle type in the result of an analysis comes with a
  confidence the settings accept, and only when its feature is switched on.
\<close>

theorem reported_confident:
  assumes "analyze_snapshot cfg lib exists path s = (Inr r, s')"
  shows "(vr_plate_number r = None \<or> vi_anpr_enabled cfg \<and> vi_anpr_confidence_threshold cfg \<le> vr_plate_confidence r) \<and>
    (vr_vehicle_type r = None \<or> vi_vehicle_detection_enabled cfg \<and>
       vi_vehicle_detection_confidence_threshold cfg \<le> vr_vehicle_confidence r)"
  using assms by (auto simp: analyze_snapshot_def with_vehicle_def no_result_def Let_def split: if_splits prod.splits sum.splits)

definition example_vision :: vision_settings where
  "example_vision = \<lparr>vi_anpr_enabled = False, vi_anpr_model = ''paddleocr'', vi_anpr_confidence_threshold = 8 / 10,
     vi_vehicle_detection_enabled = True, vi_vehicle_detection_confidence_threshold = 7 / 10\<rparr>"

theorem reported_confident_witness:
  "\<exists>r s. analyze_snapshot example_vision
      \<lparr>vl_yolo = Some (\<lambda>_. [\<lparr>dt_class_name = ''car'', dt_confidence = 9 / 10\<rparr>]), vl_paddleocr = None, vl_easyocr = None\<rparr> True ''a.jpg''
      \<lparr>vs_yolo_model = None, vs_ocr_model = None\<rparr> = (Inr r, s) \<and> vr_vehicle_type r = Some ''MOBIL'' \<and>
     7 / 10 \<le> vr_vehicle_confidence r"
proof -
  let ?lib = "\<lparr>vl_yolo = Some (\<lambda>_. [\<lparr>dt_class_name = ''car'', dt_confidence = 9 / 10\<rparr>]), vl_paddleocr = None, vl_easyocr = None\<rparr>"
  let ?run = "analyze_snapshot example_vision ?lib True ''a.jpg'' \<lparr>vs_yolo_model = None, vs_ocr_model = None\<rparr>"
  have "\<exists>r s. ?run = (Inr r, s) \<and> vr_vehicle_type r = Some ''MOBIL''"
    by (simp add: analyze_snapshot_def example_vision_def load_yolo_def with_vehicle_def no_result_def
        extract_vehicle_type_def COCO_TO_VEHICLE_TYPE_def Let_def)
  then obtain r s where r: "?run = (Inr r, s)" "vr_vehicle_type r = Some ''MOBIL''" by blast
  from reported_confident[OF r(1)] r show ?thesis by (auto simp: example_vision_def)
qed

end
