(* ===== verification/Booth_Boot.thy ===== *)
theory Booth_Boot
  imports Booth_Bridge "HOL-Library.Multiset"
begin

text \<open>
  The start of the booth bridge and the refresher that keeps it in step with the server (\<open>main\<close> in
  \<open>booth_bridge/main.py\<close>): which relay the websocket server and the card reader hold, and which supervised tasks
  run. The numbers of the configuration are numbers; the device a reader is found by is left out.
\<close>

section \<open>The process\<close>

text \<open>The keys of \<open>omnikey_reader\<close>, \<open>None\<close> where there is none. The cooldown is in microseconds.\<close>

record omnikey_config =
  oy_enabled :: bool
  oy_dedupe_cooldown :: "time option"
  oy_min_card_len :: "nat option"
  oy_min_invalid_feedback_len :: "nat option"

record gate_data = opener_config +
  gd_omnikey :: "omnikey_config option"

text \<open>The card reader's task with the relay it opens.\<close>

record reader =
  rd_poller :: poller
  rd_opener :: gate_opener

record booth_config =
  bc_code :: "string option"
  bc_api_base_url :: "string option"
  bc_api_key :: "string option"
  bc_default_gate_code :: "string option"

record booth_process =
  bo_live :: live_gate
  bo_ws_opener :: "gate_opener option"
  bo_reader :: "reader option"
  bo_supervisors :: "string list"

definition opener_of :: "gate_data \<Rightarrow> gate_opener" where
  "opener_of g = init_opener (opener_config.truncate g)"

definition signature_of :: "gate_data \<Rightarrow> string \<times> string \<times> int \<times> string \<times> string \<times> rat" where
  "signature_of g = gate_signature (opener_config.truncate g)"

definition or_default :: "'a option \<Rightarrow> 'a \<Rightarrow> 'a" where
  "or_default x d = (case x of None \<Rightarrow> d | Some y \<Rightarrow> y)"

definition init_poller :: "gate_data \<Rightarrow> omnikey_config \<Rightarrow> poller" where
  "init_poller g o' =
     \<lparr>pl_gate_id = oc_code g, pl_cooldown = or_default (oy_dedupe_cooldown o') (3 * us_per_second),
      pl_min_card_len = or_default (oy_min_card_len o') 6,
      pl_min_invalid_feedback_len = or_default (oy_min_invalid_feedback_len o') 3,
      pl_last_card = None, pl_last_card_at = 0, pl_connected = False, pl_buffer = [], pl_posts = [],
      pl_broadcasts = [], pl_opened = 0\<rparr>"

definition build_poller :: "gate_data \<Rightarrow> gate_opener \<Rightarrow> reader option" where
  "build_poller g opener =
     (case gd_omnikey g of
        None \<Rightarrow> None
      | Some o' \<Rightarrow> if \<not> oy_enabled o' then None else Some \<lparr>rd_poller = init_poller g o', rd_opener = opener\<rparr>)"

section \<open>Start and refresh\<close>

definition has_api :: "booth_config \<Rightarrow> bool" where
  "has_api c \<longleftrightarrow> truthy_str (bc_api_base_url c) \<and> truthy_str (bc_api_key c)"

text \<open>\<open>fetched\<close>: what \<open>fetch_gate\<close> gives, nothing when the API is down.\<close>

definition boot_gate :: "booth_config \<Rightarrow> gate_data option \<Rightarrow> live_gate \<times> reader option" where
  "boot_gate c fetched =
     (case (if has_api c \<and> truthy_str (bc_default_gate_code c) then fetched else None) of
        None \<Rightarrow> (\<lparr>lg_opener = None, lg_signature = None\<rparr>, None)
      | Some g \<Rightarrow> (\<lparr>lg_opener = Some (opener_of g), lg_signature = Some (signature_of g)\<rparr>, build_poller g (opener_of g)))"

definition boot_supervisors :: "booth_config \<Rightarrow> reader option \<Rightarrow> string list" where
  "boot_supervisors c reader =
     [''ws_server_lifetime'', ''health_server_lifetime'', ''hardware_status_heartbeat''] @
     (if reader \<noteq> None then [''omnikey_poller''] else []) @
     (if has_api c \<and> truthy_str (bc_default_gate_code c) then [''gate_config_refresher''] else []) @
     (if has_api c \<and> truthy_str (bc_code c) then [''api_heartbeat''] else [])"

definition boot_booth :: "booth_config \<Rightarrow> gate_data option \<Rightarrow> booth_process" where
  "boot_booth c fetched =
     (let (live, reader) = boot_gate c fetched
      in \<lparr>bo_live = live, bo_ws_opener = lg_opener live, bo_reader = reader,
          bo_supervisors = boot_supervisors c reader\<rparr>)"

text \<open>One turn of the refresher, which runs when the API and the gate are configured.\<close>

definition rewire :: "gate_data \<Rightarrow> booth_process \<Rightarrow> booth_process" where
  "rewire g b =
     (if lg_signature (bo_live b) \<noteq> Some (signature_of g) \<or> lg_opener (bo_live b) = None
      then b\<lparr>bo_live := \<lparr>lg_opener = Some (opener_of g), lg_signature = Some (signature_of g)\<rparr>,
             bo_ws_opener := Some (opener_of g),
             bo_reader := map_option (\<lambda>r. r\<lparr>rd_opener := opener_of g\<rparr>) (bo_reader b)\<rparr>
      else b)"

definition bring_up_reader :: "gate_data \<Rightarrow> booth_process \<Rightarrow> booth_process" where
  "bring_up_reader g b =
     (case (bo_reader b, lg_opener (bo_live b)) of
        (None, Some opener) \<Rightarrow>
          (case build_poller g opener of
             None \<Rightarrow> b
           | Some r \<Rightarrow> b\<lparr>bo_reader := Some r, bo_supervisors := bo_supervisors b @ [''omnikey_poller'']\<rparr>)
      | _ \<Rightarrow> b)"

definition refresh_turn :: "gate_data option \<Rightarrow> booth_process \<Rightarrow> booth_process" where
  "refresh_turn fetched b = (case fetched of None \<Rightarrow> b | Some g \<Rightarrow> bring_up_reader g (rewire g b))"

lemmas boot_defs = boot_booth_def boot_gate_def boot_supervisors_def
lemmas turn_defs = refresh_turn_def rewire_def bring_up_reader_def build_poller_def

section \<open>One relay\<close>

definition one_relay :: "booth_process \<Rightarrow> bool" where
  "one_relay b \<longleftrightarrow> bo_ws_opener b = lg_opener (bo_live b) \<and>
     (\<forall>r. bo_reader b = Some r \<longrightarrow> lg_opener (bo_live b) = Some (rd_opener r)) \<and>
     length (filter (\<lambda>t. t = ''omnikey_poller'') (bo_supervisors b)) = (if bo_reader b = None then 0 else 1)"

lemma boot_one_relay: "one_relay (boot_booth c fetched)"
  by (auto simp: one_relay_def boot_defs build_poller_def split: option.split)

lemma turn_one_relay: "one_relay b \<Longrightarrow> one_relay (refresh_turn fetched b)"
  by (auto simp: one_relay_def turn_defs split: option.splits)

text \<open>
  However the configuration changes while the booth runs, and whenever the API is down: the websocket commands, the
  card reader and what the health report calls the gate are one and the same relay, and the card reader runs
  under exactly one supervisor.
\<close>

theorem relay_shared: "one_relay (fold refresh_turn fs (boot_booth c fetched))"
proof -
  have "one_relay b \<Longrightarrow> one_relay (fold refresh_turn fs b)" for b
    by (induction fs arbitrary: b) (simp_all add: turn_one_relay)
  then show ?thesis using boot_one_relay by blast
qed

text \<open>
  A cold start catches up: a booth started while the API was down is, after any failed turns and the first that reaches
  it, what it would have been had the API answered at the start; only the order of its tasks differs.
\<close>

theorem cold_start:
  assumes "has_api c" "truthy_str (bc_default_gate_code c)" "list_all (\<lambda>f. f = None) fs"
    and "b = refresh_turn (Some g) (fold refresh_turn fs (boot_booth c None))"
  shows "b\<lparr>bo_supervisors := []\<rparr> = boot_booth c (Some g)\<lparr>bo_supervisors := []\<rparr> \<and>
    mset (bo_supervisors b) = mset (bo_supervisors (boot_booth c (Some g)))"
proof -
  have "fold refresh_turn fs x = x" for x
    using assms(3) by (induction fs arbitrary: x) (simp_all add: refresh_turn_def)
  with assms show ?thesis
    by (auto simp: boot_defs turn_defs split: option.split)
qed

text \<open>
  The reader's own settings are not refreshed: once a reader runs, neither its card lengths and cooldown nor its being
  switched off in the administration ever reach it.
\<close>

theorem reader_kept:
  assumes "bo_reader b = Some r"
  shows "\<exists>r'. bo_reader (fold refresh_turn fs b) = Some r' \<and> rd_poller r' = rd_poller r"
  using assms
proof (induction fs arbitrary: b r)
  case (Cons f fs)
  then have "\<exists>r'. bo_reader (refresh_turn f b) = Some r' \<and> rd_poller r' = rd_poller r"
    by (auto simp: turn_defs split: option.splits)
  with Cons.IH show ?case by fastforce
qed simp

definition example_gate_data :: gate_data where
  "example_gate_data = \<lparr>oc_code = ''OUT1'', oc_id = 7, oc_controller_device = Some ''/dev/ttyUSB0'', oc_hw_device = None,
     oc_controller_baudrate = Some 9600, oc_hw_baudrate = None, oc_hw_open = Some ''A0'', oc_open = None, oc_hw_close = None,
     oc_close = None, oc_close_delay = None,
     gd_omnikey = Some \<lparr>oy_enabled = True, oy_dedupe_cooldown = None, oy_min_card_len = Some 8, oy_min_invalid_feedback_len = None\<rparr>\<rparr>"

definition example_booth_config :: booth_config where
  "example_booth_config = \<lparr>bc_code = Some ''B1'', bc_api_base_url = Some ''http://10.0.0.1:8000'', bc_api_key = Some ''k'',
     bc_default_gate_code = Some ''OUT1''\<rparr>"

theorem cold_start_witness:
  "bo_ws_opener (refresh_turn (Some example_gate_data) (fold refresh_turn [None, None] (boot_booth example_booth_config None))) =
     Some (opener_of example_gate_data)"
proof -
  define b where "b = refresh_turn (Some example_gate_data) (fold refresh_turn [None, None] (boot_booth example_booth_config None))"
  have "b\<lparr>bo_supervisors := []\<rparr> = boot_booth example_booth_config (Some example_gate_data)\<lparr>bo_supervisors := []\<rparr>"
    using cold_start[of example_booth_config "[None, None]" b example_gate_data] b_def
    by (simp add: example_booth_config_def has_api_def)
  then have "bo_ws_opener (b\<lparr>bo_supervisors := []\<rparr>) =
      bo_ws_opener (boot_booth example_booth_config (Some example_gate_data)\<lparr>bo_supervisors := []\<rparr>)" by simp
  then have "bo_ws_opener b = Some (opener_of example_gate_data)"
    by (simp add: boot_defs example_booth_config_def has_api_def)
  then show ?thesis by (simp only: b_def)
qed

theorem reader_kept_witness:
  "\<exists>r. bo_reader (fold refresh_turn [Some (example_gate_data\<lparr>gd_omnikey := None\<rparr>)]
      (boot_booth example_booth_config (Some example_gate_data))) = Some r \<and> pl_min_card_len (rd_poller r) = 8"
proof -
  let ?b = "boot_booth example_booth_config (Some example_gate_data)"
  have "\<exists>r. bo_reader ?b = Some r \<and> pl_min_card_len (rd_poller r) = 8"
    by (simp add: boot_defs build_poller_def init_poller_def or_default_def example_booth_config_def example_gate_data_def
        has_api_def Let_def)
  then obtain r where r: "bo_reader ?b = Some r" "pl_min_card_len (rd_poller r) = 8" by blast
  from reader_kept[OF r(1), of "[Some (example_gate_data\<lparr>gd_omnikey := None\<rparr>)]"] r(2) show ?thesis by auto
qed

end
