(* ===== verification/Migrations.thy ===== *)
theory Migrations
  imports Diagnostics "HOL-Library.Multiset"
begin

text \<open>
  The data migrations of the gates: the tables \<open>gate_ins\<close> and \<open>gate_outs\<close> are copied into one table
  (\<open>2026_04_27_unified_gate_and_pos.py\<close>), the transactions and logs are pointed at it and the old tables are dropped
  (\<open>f0bd4bac1599\<close>), and every gate gets the defaults the daemons need (\<open>a3f4b1d2e5c6\<close>). All pending revisions
  run in one transaction, so an error leaves the database as it was: a migration gives an error or the new tables.

  A table is the list of its rows in the order a scan reads them. The order in which a join gives its rows is not fixed
  by the statement and is an argument, \<open>join\<close>. Columns keep their width when they are copied, so only the two columns
  built by concatenation can be too long. Tables without rows to move (cameras, printers) are left out.
\<close>

datatype migration_error = UniqueViolation | StringTooLong | ForeignKeyViolation | CannotSetPath

section \<open>The tables\<close>

record old_gate =
  og_id :: int
  og_name :: string
  og_code :: string
  og_area_parkir_id :: "int option"
  og_protocol :: string
  og_controller_host :: "string option"
  og_controller_port :: "int option"
  og_has_close_sensor :: bool
  og_gate_close_duration_ms :: int
  og_relay_mode :: string
  og_gate_open_timeout_s :: "int option"
  og_sensor_stuck_s :: "int option"
  og_open_command :: "string option"
  og_close_command :: "string option"
  og_pulse_duration_ms :: "int option"
  og_audio_module :: "string option"
  og_led_display :: "string option"
  og_printer_name :: "string option"
  og_printer_type :: "string option"
  og_printer_ip_address :: "string option"
  og_printer_device :: "string option"
  og_camera_url :: "string option"
  og_camera_name :: "string option"
  og_is_active :: bool
  og_is_online :: bool
  og_last_heartbeat :: "string option"
  og_created_at :: time
  og_updated_at :: time

record old_gate_in = old_gate +
  gi_gate_mode :: string
  gi_emoney_minimum_balance :: int
  gi_print_decision_timeout_seconds :: int

record old_gate_out = old_gate +
  go_emoney_reader_id :: "int option"
  go_payment_timeout_seconds :: int

record migrated_gate =
  mg_id :: int
  mg_name :: string
  mg_code :: string
  mg_direction :: string
  mg_area_parkir_id :: "int option"
  mg_pos_id :: "int option"
  mg_protocol :: string
  mg_controller_host :: "string option"
  mg_controller_port :: "int option"
  mg_controller_device :: "string option"
  mg_controller_baudrate :: "int option"
  mg_has_close_sensor :: bool
  mg_gate_close_duration_ms :: int
  mg_relay_mode :: string
  mg_gate_open_timeout_s :: "int option"
  mg_sensor_stuck_s :: "int option"
  mg_hardware_config :: json
  mg_is_active :: bool
  mg_is_online :: bool
  mg_last_heartbeat :: "string option"
  mg_created_at :: time
  mg_updated_at :: time

record migrated_pos =
  mp_id :: int
  mp_name :: string
  mp_code :: string
  mp_ip_address :: "string option"
  mp_is_active :: bool
  mp_created_at :: time
  mp_updated_at :: time

record abandoned_log =
  al_id :: int
  al_gate_out_id :: int

record legacy_db =
  ld_gate_ins :: "old_gate_in list"
  ld_gate_outs :: "old_gate_out list"
  ld_txs :: "ptx list"
  ld_logs :: "abandoned_log list"

record migrating_tx = ptx +
  mt_gate_id :: "int option"

record unified_db =
  ud_gate_ins :: "old_gate_in list"
  ud_gate_outs :: "old_gate_out list"
  ud_gates :: "migrated_gate table"
  ud_pos :: "migrated_pos table"
  ud_txs :: "migrating_tx list"
  ud_logs :: "abandoned_log list"

record site_db =
  sd_gates :: "migrated_gate table"
  sd_pos :: "migrated_pos table"
  sd_txs :: "ptx list"
  sd_logs :: "abandoned_log list"

text \<open>A foreign key: null or the number of a row.\<close>

definition refers :: "('r \<Rightarrow> int) \<Rightarrow> 'r list \<Rightarrow> int option \<Rightarrow> bool" where
  "refers rid rs r = (case r of None \<Rightarrow> True | Some i \<Rightarrow> list_ex (\<lambda>x. rid x = i) rs)"

text \<open>What the initial schema guarantees.\<close>

definition legacy_constraints :: "legacy_db \<Rightarrow> bool" where
  "legacy_constraints d \<longleftrightarrow>
     distinct (map og_id (ld_gate_ins d)) \<and> distinct (map og_code (ld_gate_ins d)) \<and>
     distinct (map og_id (ld_gate_outs d)) \<and> distinct (map og_code (ld_gate_outs d)) \<and>
     list_all (\<lambda>t. refers og_id (ld_gate_ins d) (tx_gate_in_id t) \<and> refers og_id (ld_gate_outs d) (tx_gate_out_id t)) (ld_txs d) \<and>
     list_all (\<lambda>l. refers og_id (ld_gate_outs d) (Some (al_gate_out_id l))) (ld_logs d)"

section \<open>Inserting rows\<close>

text \<open>
  Rows with the next numbers of the sequence. A number is taken for a row \<open>ON CONFLICT (code) DO NOTHING\<close> skips,
  too. \<open>fits\<close>: no column is too long.
\<close>

fun add_rows :: "('r \<Rightarrow> string) \<Rightarrow> ('r \<Rightarrow> bool) \<Rightarrow> bool \<Rightarrow> (int \<Rightarrow> 'r) list \<Rightarrow> 'r table \<Rightarrow> migration_error + 'r table" where
  "add_rows key fits on_conflict [] t = Inr t"
| "add_rows key fits on_conflict (mk # mks) t =
     (let r = mk (tb_next t); t' = t\<lparr>tb_next := tb_next t + 1\<rparr>
      in if \<not> fits r then Inl StringTooLong
         else if key r \<in> key ` set (tb_rows t)
         then (if on_conflict then add_rows key fits on_conflict mks t' else Inl UniqueViolation)
         else add_rows key fits on_conflict mks (t'\<lparr>tb_rows := tb_rows t @ [r]\<rparr>))"

definition insert_gates :: "bool \<Rightarrow> (int \<Rightarrow> migrated_gate) list \<Rightarrow> migrated_gate table \<Rightarrow> migration_error + migrated_gate table" where
  "insert_gates = add_rows mg_code (\<lambda>g. True)"

definition insert_pos :: "bool \<Rightarrow> (int \<Rightarrow> migrated_pos) list \<Rightarrow> migrated_pos table \<Rightarrow> migration_error + migrated_pos table" where
  "insert_pos = add_rows mp_code (\<lambda>p. length (mp_code p) \<le> 20 \<and> length (mp_name p) \<le> 100)"

section \<open>One row\<close>

definition printer_json :: "'a old_gate_scheme \<Rightarrow> json" where
  "printer_json o' =
     (case og_printer_name o' of
        None \<Rightarrow> JObj []
      | Some n \<Rightarrow> JObj [(''enabled'', JBool True), (''printer_name'', JStr n), (''printer_type'', jstr_opt (og_printer_type o')),
                       (''printer_ip_address'', jstr_opt (og_printer_ip_address o')),
                       (''printer_device'', jstr_opt (og_printer_device o'))])"

definition camera_json :: "'a old_gate_scheme \<Rightarrow> json" where
  "camera_json o' =
     (case og_camera_url o' of
        None \<Rightarrow> JObj []
      | Some u \<Rightarrow> JObj [(''enabled'', JBool True), (''camera_url'', JStr u), (''camera_name'', jstr_opt (og_camera_name o'))])"

definition module_json :: "string option \<Rightarrow> json" where
  "module_json m =
     (case m of None \<Rightarrow> JObj [] | Some x \<Rightarrow> JObj [(''enabled'', JBool True), (''module'', JStr x)])"

definition entry_hardware :: "old_gate_in \<Rightarrow> json" where
  "entry_hardware o' = JObj
     [(''gate_mode'', JStr (gi_gate_mode o')),
      (''emoney_minimum_balance'', JInt (gi_emoney_minimum_balance o')),
      (''print_decision_timeout_seconds'', JInt (gi_print_decision_timeout_seconds o')),
      (''open_command'', jstr_opt (og_open_command o')),
      (''close_command'', jstr_opt (og_close_command o')),
      (''pulse_duration_ms'', jint_opt (og_pulse_duration_ms o')),
      (''ticket_printer'', printer_json o'),
      (''camera'', camera_json o'),
      (''audio'', module_json (og_audio_module o')),
      (''led'', module_json (og_led_display o'))]"

definition exit_hardware :: "old_gate_out \<Rightarrow> json" where
  "exit_hardware o' = JObj
     [(''payment_timeout_seconds'', JInt (go_payment_timeout_seconds o')),
      (''open_command'', jstr_opt (og_open_command o')),
      (''close_command'', jstr_opt (og_close_command o')),
      (''pulse_duration_ms'', jint_opt (og_pulse_duration_ms o')),
      (''emoney_reader_id'', jint_opt (go_emoney_reader_id o')),
      (''receipt_printer'', printer_json o'),
      (''camera'', camera_json o'),
      (''audio'', module_json (og_audio_module o')),
      (''led'', module_json (og_led_display o'))]"

text \<open>The columns both statements copy.\<close>

definition copied_gate :: "string \<Rightarrow> int option \<Rightarrow> json \<Rightarrow> 'a old_gate_scheme \<Rightarrow> int \<Rightarrow> migrated_gate" where
  "copied_gate direction pos hardware o' i =
     \<lparr>mg_id = i, mg_name = og_name o', mg_code = og_code o', mg_direction = direction,
      mg_area_parkir_id = og_area_parkir_id o', mg_pos_id = pos, mg_protocol = og_protocol o',
      mg_controller_host = og_controller_host o', mg_controller_port = og_controller_port o',
      mg_controller_device = None, mg_controller_baudrate = None, mg_has_close_sensor = og_has_close_sensor o',
      mg_gate_close_duration_ms = og_gate_close_duration_ms o', mg_relay_mode = og_relay_mode o',
      mg_gate_open_timeout_s = og_gate_open_timeout_s o', mg_sensor_stuck_s = og_sensor_stuck_s o',
      mg_hardware_config = hardware, mg_is_active = og_is_active o', mg_is_online = og_is_online o',
      mg_last_heartbeat = og_last_heartbeat o', mg_created_at = og_created_at o', mg_updated_at = og_updated_at o'\<rparr>"

definition entry_gate :: "old_gate_in \<Rightarrow> int \<Rightarrow> migrated_gate" where
  "entry_gate o' = copied_gate ''IN'' None (entry_hardware o') o'"

definition exit_gate :: "old_gate_out \<times> int option \<Rightarrow> int \<Rightarrow> migrated_gate" where
  "exit_gate r = copied_gate ''OUT'' (snd r) (exit_hardware (fst r)) (fst r)"

definition booth_code :: "old_gate_out \<Rightarrow> string" where
  "booth_code o' = og_code o' @ ''_POS''"

definition booth_of :: "old_gate_out \<Rightarrow> int \<Rightarrow> migrated_pos" where
  "booth_of o' i =
     \<lparr>mp_id = i, mp_name = og_name o' @ '' Booth'', mp_code = booth_code o', mp_ip_address = None,
      mp_is_active = og_is_active o', mp_created_at = og_created_at o', mp_updated_at = og_updated_at o'\<rparr>"

section \<open>One table of gates\<close>

text \<open>\<open>gate_outs g JOIN pos p ON p.code = g.code || '_POS'\<close>, and the same as a \<open>LEFT JOIN\<close>.\<close>

type_synonym joined = "(old_gate_out \<times> int option) list"

definition booths_at :: "migrated_pos list \<Rightarrow> old_gate_out \<Rightarrow> int list" where
  "booths_at ps o' = map mp_id (filter (\<lambda>p. mp_code p = booth_code o') ps)"

definition join_pos :: "migrated_pos list \<Rightarrow> old_gate_out list \<Rightarrow> joined" where
  "join_pos ps os = concat (map (\<lambda>o'. map (\<lambda>i. (o', Some i)) (booths_at ps o')) os)"

definition left_join_pos :: "migrated_pos list \<Rightarrow> old_gate_out list \<Rightarrow> joined" where
  "left_join_pos ps os =
     concat (map (\<lambda>o'. if booths_at ps o' = [] then [(o', None)] else map (\<lambda>i. (o', Some i)) (booths_at ps o')) os)"

text \<open>The gate of \<open>direction\<close> whose code is that of row \<open>i\<close> of the old table.\<close>

definition gate_for :: "string \<Rightarrow> 'a old_gate_scheme list \<Rightarrow> migrated_gate list \<Rightarrow> int option \<Rightarrow> int option" where
  "gate_for direction olds gs r =
     (case r of
        None \<Rightarrow> None
      | Some i \<Rightarrow>
        (case find (\<lambda>o'. og_id o' = i) olds of
           None \<Rightarrow> None
         | Some o' \<Rightarrow> map_option mg_id (find (\<lambda>g. mg_direction g = direction \<and> mg_code g = og_code o') gs)))"

text \<open>The second update, for the exits, overwrites the first.\<close>

definition with_gate :: "legacy_db \<Rightarrow> migrated_gate list \<Rightarrow> ptx \<Rightarrow> migrating_tx" where
  "with_gate d gs t =
     ptx.extend t
       (migrating_tx.fields
          (case gate_for ''OUT'' (ld_gate_outs d) gs (tx_gate_out_id t) of
             Some i \<Rightarrow> Some i
           | None \<Rightarrow> gate_for ''IN'' (ld_gate_ins d) gs (tx_gate_in_id t)))"

definition unify_gates :: "(joined \<Rightarrow> joined) \<Rightarrow> legacy_db \<Rightarrow> migration_error + unified_db" where
  "unify_gates join d =
     (case insert_gates False (map entry_gate (ld_gate_ins d)) \<lparr>tb_rows = [], tb_next = 1\<rparr> of
        Inl e \<Rightarrow> Inl e
      | Inr ins \<Rightarrow>
        (case insert_pos False (map booth_of (ld_gate_outs d)) \<lparr>tb_rows = [], tb_next = 1\<rparr> of
           Inl e \<Rightarrow> Inl e
         | Inr ps \<Rightarrow>
           (case insert_gates False (map exit_gate (join (join_pos (tb_rows ps) (ld_gate_outs d)))) ins of
              Inl e \<Rightarrow> Inl e
            | Inr gs \<Rightarrow>
              Inr \<lparr>ud_gate_ins = ld_gate_ins d, ud_gate_outs = ld_gate_outs d, ud_gates = gs, ud_pos = ps,
                   ud_txs = map (with_gate d (tb_rows gs)) (ld_txs d), ud_logs = ld_logs d\<rparr>)))"

section \<open>Dropping the old tables\<close>

text \<open>
  The rows that are still missing are inserted, then the references are rewritten while the old foreign keys hold: each
  statement is checked against them at its end. Only then the keys are replaced and the tables dropped, which
  exist whenever this runs.
\<close>

definition moved :: "string \<Rightarrow> 'a old_gate_scheme list \<Rightarrow> migrated_gate list \<Rightarrow> int option \<Rightarrow> int option" where
  "moved direction olds gs r = (case gate_for direction olds gs r of None \<Rightarrow> r | Some i \<Rightarrow> Some i)"

definition missing_rows :: "(joined \<Rightarrow> joined) \<Rightarrow> unified_db \<Rightarrow> migration_error + unified_db" where
  "missing_rows join u =
     (case insert_gates True (map entry_gate (ud_gate_ins u)) (ud_gates u) of
        Inl e \<Rightarrow> Inl e
      | Inr ins \<Rightarrow>
        (case insert_pos True (map booth_of (filter (\<lambda>o'. booth_code o' \<notin> mp_code ` set (tb_rows (ud_pos u))) (ud_gate_outs u)))
                (ud_pos u) of
           Inl e \<Rightarrow> Inl e
         | Inr ps \<Rightarrow>
           (case insert_gates True (map exit_gate (join (left_join_pos (tb_rows ps) (ud_gate_outs u)))) ins of
              Inl e \<Rightarrow> Inl e
            | Inr gs \<Rightarrow> Inr (u\<lparr>ud_gates := gs, ud_pos := ps\<rparr>))))"

definition drop_old_tables :: "(joined \<Rightarrow> joined) \<Rightarrow> unified_db \<Rightarrow> migration_error + site_db" where
  "drop_old_tables join u0 =
     (case missing_rows join u0 of
        Inl e \<Rightarrow> Inl e
      | Inr u \<Rightarrow>
        (let ins = ud_gate_ins u; outs = ud_gate_outs u; gs = tb_rows (ud_gates u);
             to_in = moved ''IN'' ins gs; to_out = moved ''OUT'' outs gs;
             ts = map (\<lambda>t. t\<lparr>tx_gate_in_id := to_in (tx_gate_in_id t)\<rparr>) (ud_txs u);
             ts' = map (\<lambda>t. t\<lparr>tx_gate_out_id := to_out (tx_gate_out_id t)\<rparr>) ts;
             ls = map (\<lambda>l. l\<lparr>al_gate_out_id := the (to_out (Some (al_gate_out_id l)))\<rparr>) (ud_logs u)
         in if \<not> list_all (\<lambda>t. refers og_id ins (tx_gate_in_id t)) ts then Inl ForeignKeyViolation
            else if \<not> list_all (\<lambda>t. refers og_id outs (tx_gate_out_id t)) ts' then Inl ForeignKeyViolation
            else if \<not> list_all (\<lambda>l. refers og_id outs (Some (al_gate_out_id l))) ls then Inl ForeignKeyViolation
            else if \<not> list_all (\<lambda>t. refers mg_id gs (tx_gate_in_id t) \<and> refers mg_id gs (tx_gate_out_id t)) ts' \<or>
                    \<not> list_all (\<lambda>l. refers mg_id gs (Some (al_gate_out_id l))) ls
            then Inl ForeignKeyViolation
            else Inr \<lparr>sd_gates = ud_gates u, sd_pos = ud_pos u, sd_txs = map ptx.truncate ts', sd_logs = ls\<rparr>))"

definition upgrade_gates :: "(joined \<Rightarrow> joined) \<Rightarrow> legacy_db \<Rightarrow> migration_error + site_db" where
  "upgrade_gates join d = (case unify_gates join d of Inl e \<Rightarrow> Inl e | Inr u \<Rightarrow> drop_old_tables join u)"

section \<open>The defaults of a gate\<close>

text \<open>\<open>hardware_config ? key\<close>: a key of an object, an element of an array or the string itself.\<close>

fun has_key :: "json \<Rightarrow> string \<Rightarrow> bool" where
  "has_key (JObj kvs) k \<longleftrightarrow> map_of kvs k \<noteq> None"
| "has_key (JList xs) k \<longleftrightarrow> JStr k \<in> set xs"
| "has_key (JStr s) k \<longleftrightarrow> s = k"
| "has_key _ k \<longleftrightarrow> False"

definition with_default :: "string \<Rightarrow> (string \<times> json) list \<Rightarrow> (string \<times> json) list" where
  "with_default k kvs = (if map_of kvs k = None then kvs @ [(k, JObj [(''enabled'', JBool False)])] else kvs)"

definition sane_hardware :: "json \<Rightarrow> migration_error + json" where
  "sane_hardware hw =
     (if has_key hw ''display'' \<and> has_key hw ''audio'' then Inr hw
      else case hw of JObj kvs \<Rightarrow> Inr (JObj (with_default ''audio'' (with_default ''display'' kvs))) | _ \<Rightarrow> Inl CannotSetPath)"

text \<open>From here on the timeout is never null, and the row is the one the services read.\<close>

definition sane_gate :: "migrated_gate \<Rightarrow> migration_error + gate_row" where
  "sane_gate g =
     map_sum id
       (\<lambda>hw. \<lparr>gate_id = mg_id g, gate_name = mg_name g, gate_code = mg_code g, gate_direction = mg_direction g,
              gate_protocol = mg_protocol g, gate_controller_host = mg_controller_host g,
              gate_controller_port = mg_controller_port g, gate_controller_device = mg_controller_device g,
              gate_controller_baudrate = mg_controller_baudrate g, gate_relay_mode = mg_relay_mode g,
              gate_open_timeout_s = (case mg_gate_open_timeout_s g of None \<Rightarrow> 10 | Some s \<Rightarrow> s),
              gate_hardware_config = hw, gt_is_active = mg_is_active g, gt_pos_id = mg_pos_id g\<rparr>)
       (sane_hardware (mg_hardware_config g))"

fun sane_gates :: "migrated_gate list \<Rightarrow> migration_error + gate_row list" where
  "sane_gates [] = Inr []"
| "sane_gates (g # gs) =
     (case sane_gate g of
        Inl e \<Rightarrow> Inl e
      | Inr r \<Rightarrow> (case sane_gates gs of Inl e \<Rightarrow> Inl e | Inr rs \<Rightarrow> Inr (r # rs)))"

definition gate_defaults :: "migrated_gate table \<Rightarrow> migration_error + gate_row table" where
  "gate_defaults t = map_sum id (\<lambda>rs. \<lparr>tb_rows = rs, tb_next = tb_next t\<rparr>) (sane_gates (tb_rows t))"

section \<open>Numbering\<close>

fun numbered :: "int \<Rightarrow> (int \<Rightarrow> 'r) list \<Rightarrow> 'r list" where
  "numbered n [] = []"
| "numbered n (mk # mks) = mk n # numbered (n + 1) mks"

lemma map_numbered:
  assumes "\<And>x i. f (mk x i) = h x"
  shows "map f (numbered n (map mk xs)) = map h xs"
  by (induction xs arbitrary: n) (simp_all add: assms)

lemma numbered_ids:
  assumes "\<And>x i. rid (mk x i) = i"
  shows "map rid (numbered n (map mk xs)) = [n..n + int (length xs) - 1]"
  by (induction xs arbitrary: n) (simp_all add: assms upto_rec1 add.commute add.left_commute)

lemma numbered_set: "r \<in> set (numbered n (map mk xs)) \<Longrightarrow> \<exists>x \<in> set xs. \<exists>i \<ge> n. r = mk x i"
proof (induction xs arbitrary: n)
  case (Cons x xs)
  then consider "r = mk x n" | "r \<in> set (numbered (n + 1) (map mk xs))" by auto
  then show ?case
  proof cases
    case 2
    from Cons.IH[OF this] obtain y i where "y \<in> set xs" "n + 1 \<le> i" "r = mk y i" by blast
    then show ?thesis by (intro bexI[of _ y] exI[of _ i]) auto
  qed auto
qed simp

lemma numbered_covers: "x \<in> set xs \<Longrightarrow> \<exists>i \<ge> n. mk x i \<in> set (numbered n (map mk xs))"
proof (induction xs arbitrary: n)
  case (Cons a xs)
  show ?case
  proof (cases "x = a")
    case False
    with Cons obtain i where "n + 1 \<le> i" "mk x i \<in> set (numbered (n + 1) (map mk xs))" by fastforce
    then show ?thesis by (intro exI[of _ i]) auto
  qed auto
qed simp

text \<open>Without a conflict clause all rows are new; with one, known rows only use up numbers.\<close>

lemma add_rows_new:
  "add_rows key fits False mks t = Inr t' \<Longrightarrow>
     t' = \<lparr>tb_rows = tb_rows t @ numbered (tb_next t) mks, tb_next = tb_next t + int (length mks)\<rparr>"
proof (induction mks arbitrary: t)
  case (Cons mk mks)
  then have "add_rows key fits False mks (t\<lparr>tb_next := tb_next t + 1, tb_rows := tb_rows t @ [mk (tb_next t)]\<rparr>) = Inr t'"
    by (auto simp: Let_def split: if_splits)
  from Cons.IH[OF this] show ?case by simp
qed simp

lemma add_rows_distinct:
  "add_rows key fits False mks t = Inr t' \<Longrightarrow> distinct (map key (tb_rows t)) \<Longrightarrow> distinct (map key (tb_rows t'))"
  by (induction mks arbitrary: t) (auto simp: Let_def split: if_splits)

lemma add_rows_known:
  "(\<And>mk i. mk \<in> set mks \<Longrightarrow> fits (mk i) \<and> key (mk i) \<in> key ` set (tb_rows t)) \<Longrightarrow>
     \<exists>n. add_rows key fits True mks t = Inr (t\<lparr>tb_next := n\<rparr>)"
proof (induction mks arbitrary: t)
  case Nil
  show ?case by (auto intro: exI[of _ "tb_next t"])
next
  case (Cons mk mks)
  have "\<exists>n. add_rows key fits True mks (t\<lparr>tb_next := tb_next t + 1\<rparr>) = Inr (t\<lparr>tb_next := tb_next t + 1, tb_next := n\<rparr>)"
    using Cons.prems by (intro Cons.IH) simp
  with Cons.prems[of mk] show ?case by (simp add: Let_def)
qed

section \<open>What the unification leaves\<close>

lemmas copied_defs = entry_gate_def exit_gate_def copied_gate_def

lemma copied_sel [simp]:
  "mg_code (entry_gate o' i) = og_code o'" "mg_code (exit_gate r i) = og_code (fst r)"
  "mg_id (entry_gate o' i) = i" "mg_id (exit_gate r i) = i"
  "mg_direction (entry_gate o' i) = ''IN''" "mg_direction (exit_gate r i) = ''OUT''"
  "mg_hardware_config (entry_gate o' i) = entry_hardware o'"
  "mg_hardware_config (exit_gate r i) = exit_hardware (fst r)"
  by (simp_all add: copied_defs)

lemma booth_sel [simp]: "mp_code (booth_of o' i) = booth_code o'"
  by (simp add: booth_of_def)

lemma copied_codes:
  "map mg_code (numbered n (map entry_gate xs)) = map og_code xs"
  "map mg_code (numbered n (map exit_gate js)) = map og_code (map fst js)"
  "map mp_code (numbered n (map booth_of ys)) = map booth_code ys"
  by (simp_all only: map_map, (rule map_numbered, simp)+)

lemmas copied_code_sets = copied_codes[THEN arg_cong[where f = set], unfolded set_map]

definition gate_rows :: "legacy_db \<Rightarrow> joined \<Rightarrow> migrated_gate list" where
  "gate_rows d js = numbered 1 (map entry_gate (ld_gate_ins d)) @
     numbered (1 + int (length (ld_gate_ins d))) (map exit_gate js)"

definition one_table :: "legacy_db \<Rightarrow> joined \<Rightarrow> unified_db \<Rightarrow> bool" where
  "one_table d js u \<longleftrightarrow>
     ud_gate_ins u = ld_gate_ins d \<and> ud_gate_outs u = ld_gate_outs d \<and> ud_logs u = ld_logs d \<and>
     map ptx.truncate (ud_txs u) = ld_txs d \<and>
     mp_code ` set (tb_rows (ud_pos u)) = booth_code ` set (ld_gate_outs d) \<and>
     tb_rows (ud_gates u) = gate_rows d js \<and> distinct (map mg_code (gate_rows d js)) \<and>
     fst ` set js = set (ld_gate_outs d)"

lemma truncate_with_gate [simp]: "ptx.truncate (with_gate d gs t) = t"
  by (simp add: with_gate_def ptx.defs migrating_tx.defs)

lemma joined_gates:
  assumes "booth_code ` set os \<subseteq> mp_code ` set ps"
  shows "fst ` set (join_pos ps os) = set os"
proof -
  have "booths_at ps o' \<noteq> []" if "o' \<in> set os" for o'
    using assms that by (force simp: booths_at_def filter_empty_conv)
  then show ?thesis by (force simp: join_pos_def image_iff dest: hd_in_set)
qed

lemma left_joined_gates: "fst ` set (left_join_pos ps os) \<subseteq> set os"
  by (auto simp: left_join_pos_def split: if_splits)

lemma unify_one_table:
  assumes "unify_gates join d = Inr u" and perm: "\<And>xs. mset (join xs) = mset xs"
  shows "\<exists>js. one_table d js u"
proof -
  from assms(1) obtain ins ps gs where
    ins: "insert_gates False (map entry_gate (ld_gate_ins d)) \<lparr>tb_rows = [], tb_next = 1\<rparr> = Inr ins" and
    ps: "insert_pos False (map booth_of (ld_gate_outs d)) \<lparr>tb_rows = [], tb_next = 1\<rparr> = Inr ps" and
    gs: "insert_gates False (map exit_gate (join (join_pos (tb_rows ps) (ld_gate_outs d)))) ins = Inr gs" and
    u: "u = \<lparr>ud_gate_ins = ld_gate_ins d, ud_gate_outs = ld_gate_outs d, ud_gates = gs, ud_pos = ps,
             ud_txs = map (with_gate d (tb_rows gs)) (ld_txs d), ud_logs = ld_logs d\<rparr>"
    by (auto simp: unify_gates_def split: sum.splits)
  note new = ins[unfolded insert_gates_def, THEN add_rows_new] ps[unfolded insert_pos_def, THEN add_rows_new]
    gs[unfolded insert_gates_def, THEN add_rows_new]
  have codes: "distinct (map mg_code (tb_rows gs))"
    using ins gs unfolding insert_gates_def by (elim add_rows_distinct) simp
  have "mp_code ` set (tb_rows ps) = booth_code ` set (ld_gate_outs d)"
    using new(2) by (simp add: copied_code_sets)
  moreover from this joined_gates[of "ld_gate_outs d" "tb_rows ps"] mset_eq_setD[OF perm]
  have "fst ` set (join (join_pos (tb_rows ps) (ld_gate_outs d))) = set (ld_gate_outs d)" by simp
  moreover have "tb_rows gs = gate_rows d (join (join_pos (tb_rows ps) (ld_gate_outs d)))"
    using new(1,3) by (simp add: gate_rows_def)
  ultimately show ?thesis using codes u
    by (intro exI[of _ "join (join_pos (tb_rows ps) (ld_gate_outs d))"]) (simp add: one_table_def comp_def)
qed

lemma missing_none:
  assumes u: "one_table d js u" and perm: "\<And>xs. mset (join xs) = mset xs"
  shows "\<exists>n. missing_rows join u = Inr (u\<lparr>ud_gates := (ud_gates u)\<lparr>tb_next := n\<rparr>\<rparr>)"
proof -
  let ?codes = "mg_code ` set (tb_rows (ud_gates u))"
  have ins: "og_code ` set (ud_gate_ins u) \<subseteq> ?codes" and outs: "og_code ` set (ud_gate_outs u) \<subseteq> ?codes"
    using u by (simp_all add: one_table_def gate_rows_def image_Un copied_code_sets)
  have "\<exists>n. insert_gates True (map entry_gate (ud_gate_ins u)) t = Inr (t\<lparr>tb_next := n\<rparr>)" if "tb_rows t = tb_rows (ud_gates u)" for t
    unfolding insert_gates_def using ins that by (intro add_rows_known) auto
  then obtain n where n: "insert_gates True (map entry_gate (ud_gate_ins u)) (ud_gates u) = Inr ((ud_gates u)\<lparr>tb_next := n\<rparr>)"
    by blast
  let ?js = "join (left_join_pos (tb_rows (ud_pos u)) (ud_gate_outs u))"
  have "fst ` set ?js \<subseteq> set (ud_gate_outs u)"
    using left_joined_gates mset_eq_setD[OF perm] by simp
  with outs have "og_code (fst r) \<in> ?codes" if "r \<in> set ?js" for r using that by blast
  then have "\<exists>k. insert_gates True (map exit_gate ?js) ((ud_gates u)\<lparr>tb_next := n\<rparr>) = Inr ((ud_gates u)\<lparr>tb_next := n, tb_next := k\<rparr>)"
    unfolding insert_gates_def by (intro add_rows_known) fastforce
  then obtain k where k: "insert_gates True (map exit_gate ?js) ((ud_gates u)\<lparr>tb_next := n\<rparr>) = Inr ((ud_gates u)\<lparr>tb_next := k\<rparr>)"
    by auto
  have "filter (\<lambda>o'. booth_code o' \<notin> mp_code ` set (tb_rows (ud_pos u))) (ud_gate_outs u) = []"
    using u by (simp add: one_table_def filter_empty_conv)
  then have "missing_rows join u = Inr (u\<lparr>ud_gates := (ud_gates u)\<lparr>tb_next := k\<rparr>\<rparr>)"
    by (simp add: missing_rows_def insert_pos_def n k)
  then show ?thesis by blast
qed

lemma gate_for_SomeI:
  assumes "distinct (map og_id olds)" "o' \<in> set olds" "\<exists>g \<in> set gs. mg_direction g = direction \<and> mg_code g = og_code o'"
  shows "\<exists>g \<in> set gs. gate_for direction olds gs (Some (og_id o')) = Some (mg_id g) \<and>
    mg_direction g = direction \<and> mg_code g = og_code o'"
proof -
  from assms(3) have "find (\<lambda>g. mg_direction g = direction \<and> mg_code g = og_code o') gs \<noteq> None"
    by (auto simp: find_None_iff)
  then obtain g where g: "find (\<lambda>g. mg_direction g = direction \<and> mg_code g = og_code o') gs = Some g" by blast
  with assms(1,2) have "gate_for direction olds gs (Some (og_id o')) = Some (mg_id g)"
    by (simp add: gate_for_def unique_find)
  with g show ?thesis by (auto simp: find_Some_iff)
qed

lemma gate_row_ids: "distinct (map mg_id (gate_rows d js))"
proof -
  have "map mg_id (gate_rows d js) =
    [1..int (length (ld_gate_ins d))] @ [1 + int (length (ld_gate_ins d))..int (length (ld_gate_ins d)) + int (length js)]"
    by (simp add: gate_rows_def numbered_ids[where rid = mg_id])
  then show ?thesis by auto
qed

lemma entries_first: "\<lbrakk>g \<in> set (gate_rows d js); mg_direction g = ''OUT''\<rbrakk> \<Longrightarrow> int (length (ld_gate_ins d)) < mg_id g"
  by (auto simp: gate_rows_def dest!: numbered_set)

lemma gate_of_entry:
  assumes "o' \<in> set (ld_gate_ins d)"
  shows "\<exists>g \<in> set (gate_rows d js). mg_direction g = ''IN'' \<and> mg_code g = og_code o'"
  using numbered_covers[OF assms, of 1 entry_gate] by (force simp: gate_rows_def)

lemma gate_of_exit:
  assumes "r \<in> set js"
  shows "\<exists>g \<in> set (gate_rows d js). mg_direction g = ''OUT'' \<and> mg_code g = og_code (fst r)"
  using numbered_covers[OF assms, of "1 + int (length (ld_gate_ins d))" exit_gate] by (force simp: gate_rows_def)

section \<open>The history keeps its gates\<close>

text \<open>Direction and code of the gate a reference names, before and after.\<close>

definition old_gate_at :: "string \<Rightarrow> 'a old_gate_scheme list \<Rightarrow> int option \<Rightarrow> (string \<times> string) option" where
  "old_gate_at direction olds r =
     (case r of None \<Rightarrow> None | Some i \<Rightarrow> map_option (\<lambda>o'. (direction, og_code o')) (find (\<lambda>o'. og_id o' = i) olds))"

definition gate_at :: "migrated_gate list \<Rightarrow> int option \<Rightarrow> (string \<times> string) option" where
  "gate_at gs r =
     (case r of None \<Rightarrow> None | Some i \<Rightarrow> map_option (\<lambda>g. (mg_direction g, mg_code g)) (find (\<lambda>g. mg_id g = i) gs))"

type_synonym history = "(ptx \<times> (string \<times> string) option \<times> (string \<times> string) option) list \<times> (int \<times> (string \<times> string) option) list"

definition legacy_history :: "legacy_db \<Rightarrow> history" where
  "legacy_history d =
     (map (\<lambda>t. (t\<lparr>tx_gate_in_id := None, tx_gate_out_id := None\<rparr>, old_gate_at ''IN'' (ld_gate_ins d) (tx_gate_in_id t),
                old_gate_at ''OUT'' (ld_gate_outs d) (tx_gate_out_id t))) (ld_txs d),
      map (\<lambda>l. (al_id l, old_gate_at ''OUT'' (ld_gate_outs d) (Some (al_gate_out_id l)))) (ld_logs d))"

definition site_history :: "site_db \<Rightarrow> history" where
  "site_history s =
     (let gs = tb_rows (sd_gates s)
      in (map (\<lambda>t. (t\<lparr>tx_gate_in_id := None, tx_gate_out_id := None\<rparr>, gate_at gs (tx_gate_in_id t),
                    gate_at gs (tx_gate_out_id t))) (sd_txs s),
          map (\<lambda>l. (al_id l, gate_at gs (Some (al_gate_out_id l)))) (sd_logs s)))"

lemma moved_at:
  assumes "distinct (map og_id olds)" "distinct (map mg_id gs)" "refers og_id olds r"
    and gates: "\<And>o'. o' \<in> set olds \<Longrightarrow> \<exists>g \<in> set gs. mg_direction g = direction \<and> mg_code g = og_code o'"
  shows "gate_at gs (moved direction olds gs r) = old_gate_at direction olds r"
proof (cases r)
  case (Some i)
  with assms(3) obtain o' where o': "o' \<in> set olds" "i = og_id o'" by (auto simp: refers_def list_ex_iff)
  from gate_for_SomeI[OF assms(1) o'(1) gates[OF o'(1)]] obtain g where
    g: "g \<in> set gs" "gate_for direction olds gs r = Some (mg_id g)" "mg_direction g = direction" "mg_code g = og_code o'"
    using Some o'(2) by auto
  with assms(1,2) o' Some show ?thesis by (simp add: gate_at_def moved_def old_gate_at_def unique_find)
qed (simp add: gate_at_def moved_def old_gate_at_def gate_for_def)

text \<open>What an upgrade that succeeds has passed and written.\<close>

lemma upgrade_result:
  assumes "upgrade_gates join d = Inr s" and perm: "\<And>xs. mset (join xs) = mset xs"
  obtains js u where "one_table d js u" "tb_rows (sd_gates s) = gate_rows d js"
    "list_all (\<lambda>t. refers og_id (ld_gate_outs d) (moved ''OUT'' (ld_gate_outs d) (gate_rows d js) (tx_gate_out_id t))) (ld_txs d)"
    "sd_txs s = map (\<lambda>t. t\<lparr>tx_gate_in_id := moved ''IN'' (ld_gate_ins d) (gate_rows d js) (tx_gate_in_id t),
       tx_gate_out_id := moved ''OUT'' (ld_gate_outs d) (gate_rows d js) (tx_gate_out_id t)\<rparr>) (ld_txs d)"
    "sd_logs s = map (\<lambda>l. l\<lparr>al_gate_out_id :=
       the (moved ''OUT'' (ld_gate_outs d) (gate_rows d js) (Some (al_gate_out_id l)))\<rparr>) (ld_logs d)"
proof -
  from assms(1) obtain u where u: "unify_gates join d = Inr u" and s: "drop_old_tables join u = Inr s"
    by (auto simp: upgrade_gates_def split: sum.splits)
  from unify_one_table[OF u perm] obtain js where js: "one_table d js u" by blast
  from missing_none[OF js perm] obtain n where
    n: "missing_rows join u = Inr (u\<lparr>ud_gates := (ud_gates u)\<lparr>tb_next := n\<rparr>\<rparr>)" by blast
  have txs: "ld_txs d = map ptx.truncate (ud_txs u)" using js by (simp add: one_table_def)
  have drop: "ptx.truncate (t\<lparr>tx_gate_in_id := a, tx_gate_out_id := b\<rparr>) = (ptx.truncate t)\<lparr>tx_gate_in_id := a, tx_gate_out_id := b\<rparr>"
    "tx_gate_in_id (ptx.truncate t) = tx_gate_in_id t" "tx_gate_out_id (ptx.truncate t) = tx_gate_out_id t" for t :: migrating_tx and a b
    by (simp_all add: ptx.defs)
  from s js show thesis
    by (intro that[OF js]) (auto simp: drop_old_tables_def n Let_def one_table_def txs drop list.pred_map comp_def split: if_splits)
qed

lemma legacy_refs:
  assumes "legacy_constraints d"
  shows "t \<in> set (ld_txs d) \<Longrightarrow> refers og_id (ld_gate_ins d) (tx_gate_in_id t)"
    "t \<in> set (ld_txs d) \<Longrightarrow> refers og_id (ld_gate_outs d) (tx_gate_out_id t)"
    "l \<in> set (ld_logs d) \<Longrightarrow> refers og_id (ld_gate_outs d) (Some (al_gate_out_id l))"
    "distinct (map og_id (ld_gate_ins d))" "distinct (map og_id (ld_gate_outs d))"
  using assms by (auto simp: legacy_constraints_def list_all_iff)

lemma exit_found:
  assumes "one_table d js u" "o' \<in> set (ld_gate_outs d)"
  shows "\<exists>g \<in> set (gate_rows d js). mg_direction g = ''OUT'' \<and> mg_code g = og_code o'"
proof -
  from assms have "o' \<in> fst ` set js" by (simp add: one_table_def)
  then obtain r where "r \<in> set js" "o' = fst r" by auto
  then show ?thesis using gate_of_exit[of r js d] by simp
qed

lemma moved_out_at:
  assumes "legacy_constraints d" "one_table d js u" "refers og_id (ld_gate_outs d) r"
  shows "gate_at (gate_rows d js) (moved ''OUT'' (ld_gate_outs d) (gate_rows d js) r) = old_gate_at ''OUT'' (ld_gate_outs d) r"
  using legacy_refs(5)[OF assms(1)] gate_row_ids assms(3) exit_found[OF assms(2)] by (rule moved_at)

lemma moved_in_at:
  assumes "legacy_constraints d" "refers og_id (ld_gate_ins d) r"
  shows "gate_at (gate_rows d js) (moved ''IN'' (ld_gate_ins d) (gate_rows d js) r) = old_gate_at ''IN'' (ld_gate_ins d) r"
  using legacy_refs(4)[OF assms(1)] gate_row_ids assms(2) gate_of_entry by (rule moved_at)

text \<open>
  C37. An upgrade that succeeds keeps the history: each transaction has every column it had and names the entry gate and the
  exit gate it named, and each log its exit gate, by direction and code, whatever numbers the gates got.
\<close>

theorem upgrade_keeps_history:
  assumes "\<forall>xs. mset (join xs) = mset xs" and d: "legacy_constraints d" and s: "upgrade_gates join d = Inr s"
  shows "site_history s = legacy_history d"
proof -
  have perm: "mset (join xs) = mset xs" for xs using assms(1) by blast
  obtain js u where u: "one_table d js u" and gs: "tb_rows (sd_gates s) = gate_rows d js" and
    "list_all (\<lambda>t. refers og_id (ld_gate_outs d) (moved ''OUT'' (ld_gate_outs d) (gate_rows d js) (tx_gate_out_id t))) (ld_txs d)" and
    txs: "sd_txs s = map (\<lambda>t. t\<lparr>tx_gate_in_id := moved ''IN'' (ld_gate_ins d) (gate_rows d js) (tx_gate_in_id t),
       tx_gate_out_id := moved ''OUT'' (ld_gate_outs d) (gate_rows d js) (tx_gate_out_id t)\<rparr>) (ld_txs d)" and
    logs: "sd_logs s = map (\<lambda>l. l\<lparr>al_gate_out_id :=
       the (moved ''OUT'' (ld_gate_outs d) (gate_rows d js) (Some (al_gate_out_id l)))\<rparr>) (ld_logs d)"
    using upgrade_result[OF s perm] by blast
  have the_moved: "Some (the (moved dr olds gs (Some i))) = moved dr olds gs (Some i)" for dr i gs and olds :: "old_gate_out list"
    by (simp add: moved_def split: option.splits)
  show ?thesis
    using moved_in_at[OF d legacy_refs(1)[OF d]] moved_out_at[OF d u legacy_refs(2)[OF d]]
      moved_out_at[OF d u legacy_refs(3)[OF d]]
    by (simp add: site_history_def legacy_history_def gs txs logs the_moved Let_def)
qed

section \<open>Sites that cannot be upgraded\<close>

text \<open>
  C38. The entries take the first numbers of the new table, so an exit's new number is above the number of entries. As the
  references are rewritten under the old foreign keys, the upgrade of a site whose exits are numbered up to the number
  of its entries fails as soon as one vehicle has left: on such a site it never succeeds.
\<close>

theorem upgrade_refused:
  assumes "\<forall>xs. mset (join xs) = mset xs" and d: "legacy_constraints d"
    and few: "\<forall>o' \<in> set (ld_gate_outs d). og_id o' \<le> int (length (ld_gate_ins d))"
    and t: "t \<in> set (ld_txs d)" "tx_gate_out_id t \<noteq> None"
  shows "\<exists>e. upgrade_gates join d = Inl e"
proof (cases "upgrade_gates join d")
  case (Inr s)
  have perm: "mset (join xs) = mset xs" for xs using assms(1) by blast
  obtain js u where u: "one_table d js u" and
    ok: "list_all (\<lambda>t. refers og_id (ld_gate_outs d) (moved ''OUT'' (ld_gate_outs d) (gate_rows d js) (tx_gate_out_id t))) (ld_txs d)"
    using upgrade_result[OF Inr perm] by blast
  from t legacy_refs(2)[OF d t(1)] obtain o' where o': "o' \<in> set (ld_gate_outs d)" "tx_gate_out_id t = Some (og_id o')"
    by (auto simp: refers_def list_ex_iff)
  from gate_for_SomeI[OF legacy_refs(5)[OF d] o'(1) exit_found[OF u o'(1)]] obtain g where
    g: "g \<in> set (gate_rows d js)" "mg_direction g = ''OUT''"
    "gate_for ''OUT'' (ld_gate_outs d) (gate_rows d js) (tx_gate_out_id t) = Some (mg_id g)"
    using o'(2) by auto
  from ok t(1) have "refers og_id (ld_gate_outs d) (moved ''OUT'' (ld_gate_outs d) (gate_rows d js) (tx_gate_out_id t))"
    by (simp add: list_all_iff)
  with g(3) obtain x where "x \<in> set (ld_gate_outs d)" "og_id x = mg_id g"
    by (auto simp: moved_def refers_def list_ex_iff)
  with few entries_first[OF g(1,2)] show ?thesis by fastforce
qed simp

section \<open>Running a migrated site\<close>

lemma sane_gate_sel:
  assumes "sane_gate g = Inr r"
  shows "sane_hardware (mg_hardware_config g) = Inr (gate_hardware_config r)" "gate_code r = mg_code g"
    "gate_direction r = mg_direction g" "gate_protocol r = mg_protocol g" "gate_relay_mode r = mg_relay_mode g"
    "gate_controller_host r = mg_controller_host g" "gate_controller_port r = mg_controller_port g"
    "gate_controller_device r = mg_controller_device g" "gate_name r = mg_name g"
    "gate_open_timeout_s r = (case mg_gate_open_timeout_s g of None \<Rightarrow> 10 | Some s \<Rightarrow> s)"
  using assms by (cases "sane_hardware (mg_hardware_config g)"; auto simp: sane_gate_def)+

lemma sane_gates_rows: "sane_gates gs = Inr rs \<Longrightarrow> list_all2 (\<lambda>g r. sane_gate g = Inr r) gs rs"
  by (induction gs arbitrary: rs) (auto split: sum.splits)

lemma all2_source: "list_all2 P xs ys \<Longrightarrow> y \<in> set ys \<Longrightarrow> \<exists>x \<in> set xs. P x y"
  by (induction rule: list_all2_induct) auto

lemma all2_target: "list_all2 P xs ys \<Longrightarrow> x \<in> set xs \<Longrightarrow> \<exists>y \<in> set ys. P x y"
  by (induction rule: list_all2_induct) auto

lemma defaults_of:
  assumes "upgrade_gates join d = Inr s" "\<forall>xs. mset (join xs) = mset xs" "gate_defaults (sd_gates s) = Inr t"
  obtains js u where "one_table d js u" "list_all2 (\<lambda>g r. sane_gate g = Inr r) (gate_rows d js) (tb_rows t)"
proof -
  have perm: "mset (join xs) = mset xs" for xs using assms(2) by blast
  obtain js u where u: "one_table d js u" and gs: "tb_rows (sd_gates s) = gate_rows d js"
    using upgrade_result[OF assms(1) perm] by blast
  from assms(3) obtain rs where "sane_gates (gate_rows d js) = Inr rs" "tb_rows t = rs"
    by (cases "sane_gates (gate_rows d js)") (auto simp: gate_defaults_def gs)
  then show thesis using sane_gates_rows u that by blast
qed

lemma sane_entry:
  "sane_hardware (entry_hardware o') = Inr hw \<Longrightarrow> \<exists>kvs. entry_hardware o' = JObj kvs \<and> hw = JObj (with_default ''display'' kvs)"
  "sane_hardware (exit_hardware x) = Inr hw \<Longrightarrow> \<exists>kvs. exit_hardware x = JObj kvs \<and> hw = JObj (with_default ''display'' kvs)"
  by (auto simp: sane_hardware_def entry_hardware_def exit_hardware_def with_default_def)

lemma no_camera:
  assumes "gate_hardware_config r = JObj kvs" "map_of kvs ''cameras'' = None" "map_of kvs ''camera'' = Some (camera_json o')"
  shows "get_cameras r = Inr []"
  using assms by (auto simp: get_cameras_def camera_json_def split: option.splits)

lemma migrated_no_camera:
  assumes "g \<in> set (gate_rows d js)" "sane_gate g = Inr r"
  shows "get_cameras (gate.truncate r) = Inr []"
proof -
  have same: "gate_hardware_config (gate.truncate r) = gate_hardware_config r" by (simp add: gate.defs)
  note hw = sane_gate_sel(1)[OF assms(2)]
  from assms(1) consider x i where "g = entry_gate x i" | x i where "g = exit_gate x i"
    by (auto simp: gate_rows_def dest!: numbered_set)
  then show ?thesis
  proof cases
    case 1
    with sane_entry(1)[of x] hw show ?thesis
      by (auto simp: same entry_hardware_def with_default_def intro!: no_camera[where o' = x])
  next
    case 2
    with sane_entry(2)[of "fst x"] hw show ?thesis
      by (auto simp: same exit_hardware_def with_default_def intro!: no_camera[where o' = "fst x"])
  qed
qed

text \<open>
  A migrated gate has lost its camera: the migration stores the address under \<open>camera_url\<close>, the model reads \<open>url\<close>. So
  on a site whose gates are the migrated ones no entry or exit at any gate ever asks for a snapshot.
\<close>

theorem migrated_cameras_lost:
  assumes "\<forall>xs. mset (join xs) = mset xs" "upgrade_gates join d = Inr s" "gate_defaults (sd_gates s) = Inr t"
    and "gates st = map gate.truncate (tb_rows t)"
  shows "enqueue_snapshots_for_gate code i kind st = st"
proof -
  obtain js u where rows: "list_all2 (\<lambda>g r. sane_gate g = Inr r) (gate_rows d js) (tb_rows t)"
    using defaults_of[OF assms(2,1,3)] by blast
  have none: "get_cameras (gate.truncate r) = Inr []" if "r \<in> set (tb_rows t)" for r
  proof -
    from all2_source[OF rows that] obtain g where "g \<in> set (gate_rows d js)" "sane_gate g = Inr r" by blast
    from migrated_no_camera[OF this] show ?thesis .
  qed
  have "get_cameras g = Inr []" if "find_gate st code = Inr (Some g)" for g
  proof -
    from that have "filter (\<lambda>g. gate_code g = code) (gates st) = [g]"
      by (simp add: find_gate_def scalar_one_or_none_Some)
    from arg_cong[OF this, of set] have "g \<in> set (gates st)" by auto
    with none assms(4) show ?thesis by auto
  qed
  then show ?thesis by (auto simp: enqueue_snapshots_for_gate_def split: sum.splits option.splits)
qed

text \<open>What the daemon of a migrated entry gets.\<close>

definition runs_as_before :: "old_gate_in \<Rightarrow> gate_config \<Rightarrow> bool" where
  "runs_as_before o' cfg \<longleftrightarrow>
     c_protocol cfg = Some (og_protocol o') \<and> c_relay_mode cfg = Some (og_relay_mode o') \<and>
     c_host cfg = og_controller_host o' \<and> c_port cfg = og_controller_port o' \<and> c_device cfg = None \<and>
     c_name cfg = og_name o' \<and> (has_ticket_printer cfg \<longleftrightarrow> og_printer_name o' \<noteq> None)"

lemma launched_entry:
  assumes rows: "filter (\<lambda>g. gate_code g = code) (tb_rows (rg_gates reg)) = [r]" and r: "sane_gate (entry_gate o' i) = Inr r"
  shows "\<exists>cfg. run_daemon_cli reg code = Inr (Some (cfg, init_gate code)) \<and> runs_as_before o' cfg \<and>
    \<not> has_rfid cfg \<and> (\<forall>a b. display cfg a b = Ret True) \<and>
    audio_option cfg ''enabled'' (JBool True) = Inr (JBool True) \<and>
    (\<forall>k d. k \<notin> {''enabled'', ''module''} \<longrightarrow> audio_option cfg k d = Inr d)"
proof -
  note sel = sane_gate_sel[OF r, unfolded entry_gate_def copied_gate_def, simplified]
  define off where "off = JObj [(''enabled'', JBool False)]"
  obtain kvs where kvs: "entry_hardware o' = JObj kvs" "map_of kvs ''rfid'' = None" "map_of kvs ''display'' = None"
    "map_of kvs ''ticket_printer'' = Some (printer_json o')" "map_of kvs ''audio'' = Some (module_json (og_audio_module o'))"
    by (simp add: entry_hardware_def)
  with sane_entry(1)[of o'] sel(1) have hw: "gate_hardware_config r = JObj (kvs @ [(''display'', off)])"
    by (auto simp: with_default_def off_def)
  let ?hw = "JObj (kvs @ [(''display'', off)])"
  let ?cfg = "\<lparr>c_protocol = Some (og_protocol o'), c_relay_mode = Some (og_relay_mode o'), c_host = og_controller_host o',
    c_port = og_controller_port o', c_device = None, c_name = og_name o', c_hw = ?hw, has_rfid = False,
    has_ticket_printer = (og_printer_name o' \<noteq> None)\<rparr>"
  have get: "jget2 ?hw ''rfid'' ''enabled'' (JBool False) = Inr (JBool False)"
    "jget2 ?hw ''ticket_printer'' ''enabled'' (JBool False) = Inr (JBool (og_printer_name o' \<noteq> None))"
    "jget2 ?hw ''display'' ''enabled'' (JBool True) = Inr (JBool False)"
    using kvs(2-4) by (simp_all add: jget2_def map_add_def off_def printer_json_def split: option.split)
  have audio: "jget2 ?hw ''audio'' k d = jget (module_json (og_audio_module o')) k d" for k d
    using kvs(5) by (simp add: jget2_def map_add_def)
  have "build_config reg code = Inr c \<Longrightarrow> lc_gate c = r \<and> lc_hardware_config c = ?hw" for c
    by (auto simp: build_config_def rows hw)
  moreover have "\<exists>c. build_config reg code = Inr c" by (simp add: build_config_def rows hw)
  ultimately obtain c where c: "build_config reg code = Inr c" "lc_gate c = r" "lc_hardware_config c = ?hw" by blast
  have "run_daemon_cli reg code = Inr (Some (?cfg, init_gate code))"
    using sel by (simp add: run_daemon_cli_def c init_config_def get)
  moreover have "display ?cfg a b = Ret True" for a b by (simp add: display_def get try_value_def)
  moreover have "audio_option ?cfg ''enabled'' (JBool True) = Inr (JBool True)"
    "\<forall>k d. k \<notin> {''enabled'', ''module''} \<longrightarrow> audio_option ?cfg k d = Inr d"
    by (auto simp: audio_option_def audio module_json_def split: option.splits)
  ultimately show ?thesis by (intro exI[of _ ?cfg] conjI) (simp_all add: runs_as_before_def)
qed

lemma launched_row:
  assumes u: "one_table d js u" and rows: "list_all2 (\<lambda>g r. sane_gate g = Inr r) (gate_rows d js) rs"
    and o': "o' \<in> set (ld_gate_ins d)"
  shows "\<exists>r i. filter (\<lambda>g. gate_code g = og_code o') rs = [r] \<and> sane_gate (entry_gate o' i) = Inr r"
proof -
  from numbered_covers[OF o', of 1 entry_gate] obtain i where i: "entry_gate o' i \<in> set (gate_rows d js)"
    by (auto simp: gate_rows_def)
  from all2_target[OF rows i] obtain r where r: "r \<in> set rs" "sane_gate (entry_gate o' i) = Inr r" by blast
  have "map gate_code rs = map mg_code (gate_rows d js)"
    using rows by (induction rule: list_all2_induct) (auto simp: sane_gate_sel(2))
  with u have "distinct (map gate_code rs)" by (simp add: one_table_def)
  from unique_row[OF this r(1)] r(2) sane_gate_sel(2)[OF r(2)] show ?thesis by auto
qed

text \<open>
  C39. After the migrations the daemon started for an entry gate's code finds one row and runs on what it reads there as
  on the gate's old row: the protocol, the relay mode, the controller's address and the name, with tickets printed exactly
  where the old row names a printer, and the built-in tracks played. It reads no member cards and drives no display,
  whatever the old row says of one: the migrations write no section \<open>rfid\<close> and switch \<open>display\<close> off.
\<close>

theorem migrated_entry_settings:
  assumes "\<forall>xs. mset (join xs) = mset xs" "upgrade_gates join d = Inr s" "gate_defaults (sd_gates s) = Inr (rg_gates reg)"
    and "o' \<in> set (ld_gate_ins d)"
  shows "\<exists>cfg. run_daemon_cli reg (og_code o') = Inr (Some (cfg, init_gate (og_code o'))) \<and>
    c_protocol cfg = Some (og_protocol o') \<and> c_relay_mode cfg = Some (og_relay_mode o') \<and>
    c_host cfg = og_controller_host o' \<and> c_port cfg = og_controller_port o' \<and> c_device cfg = None \<and>
    c_name cfg = og_name o' \<and> (has_ticket_printer cfg \<longleftrightarrow> og_printer_name o' \<noteq> None) \<and>
    \<not> has_rfid cfg \<and> (\<forall>a b. display cfg a b = Ret True) \<and>
    audio_option cfg ''enabled'' (JBool True) = Inr (JBool True) \<and>
    (\<forall>k d. k \<notin> {''enabled'', ''module''} \<longrightarrow> audio_option cfg k d = Inr d)"
proof -
  obtain js u where u: "one_table d js u"
    and rows: "list_all2 (\<lambda>g r. sane_gate g = Inr r) (gate_rows d js) (tb_rows (rg_gates reg))"
    using defaults_of[OF assms(2,1,3)] by blast
  from launched_row[OF u rows assms(4)] obtain r i where
    r: "filter (\<lambda>g. gate_code g = og_code o') (tb_rows (rg_gates reg)) = [r]" "sane_gate (entry_gate o' i) = Inr r" by blast
  from launched_entry[OF r] show ?thesis by (simp only: runs_as_before_def conj_assoc)
qed

section \<open>Examples\<close>

definition example_old :: "int \<Rightarrow> string \<Rightarrow> old_gate" where
  "example_old i code =
     \<lparr>og_id = i, og_name = code, og_code = code, og_area_parkir_id = None, og_protocol = ''compass'',
      og_controller_host = Some ''10.0.0.5'', og_controller_port = Some 5000, og_has_close_sensor = False,
      og_gate_close_duration_ms = 5000, og_relay_mode = ''SINGLE'', og_gate_open_timeout_s = None, og_sensor_stuck_s = None,
      og_open_command = Some ''open1'', og_close_command = None, og_pulse_duration_ms = Some 500, og_audio_module = None,
      og_led_display = None, og_printer_name = None, og_printer_type = None, og_printer_ip_address = None,
      og_printer_device = None, og_camera_url = Some ''rtsp://10.0.0.9'', og_camera_name = None, og_is_active = True,
      og_is_online = True, og_last_heartbeat = None, og_created_at = 0, og_updated_at = 0\<rparr>"

definition example_in :: old_gate_in where
  "example_in = old_gate.extend (example_old 1 ''GIN1'') (old_gate_in.fields ''CASH'' 10000 10)"

definition example_out :: "int \<Rightarrow> old_gate_out" where
  "example_out i = old_gate.extend (example_old i ''GOUT1'') (old_gate_out.fields None 120)"

definition example_stay :: "int \<Rightarrow> ptx" where
  "example_stay i =
     \<lparr>tx_id = 1, tx_barcode = Some ''T1'', tx_card_number = None, tx_plate_number = None, tx_vehicle_type_id = Some 1,
      tx_gate_in_id = Some 1, tx_gate_out_id = Some i, tx_entry_time = 0, tx_exit_time = Some 1, tx_payment_method = None,
      tx_fee = Some 0, tx_paid_amount = None, tx_member_id = None, tx_emoney_transaction_id = None,
      tx_status = ''COMPLETED'', tx_shift_id = None, tx_operator_id = None, tx_is_lost_ticket = False\<rparr>"

text \<open>One entry, one exit with the given number and one stay: with the number one the upgrade fails, with two it works.\<close>

definition example_legacy :: "int \<Rightarrow> legacy_db" where
  "example_legacy i = \<lparr>ld_gate_ins = [example_in], ld_gate_outs = [example_out i], ld_txs = [example_stay i], ld_logs = []\<rparr>"

lemmas legacy_example_defs = example_legacy_def example_in_def example_out_def example_old_def example_stay_def
  old_gate.defs old_gate_in.defs old_gate_out.defs

lemma example_constraints: "legacy_constraints (example_legacy 1)" "legacy_constraints (example_legacy 2)"
  by (simp_all add: legacy_constraints_def refers_def legacy_example_defs)

definition example_migrated :: site_db where
  "example_migrated = projr (upgrade_gates (\<lambda>xs. xs) (example_legacy 2))"

lemma example_upgrade: "upgrade_gates (\<lambda>xs. xs) (example_legacy 2) = Inr example_migrated"
proof -
  have "\<not> isl (upgrade_gates (\<lambda>xs. xs) (example_legacy 2))" by code_simp
  then show ?thesis by (simp add: example_migrated_def sum.collapse)
qed

definition example_gates :: "gate_row table" where
  "example_gates = projr (gate_defaults (sd_gates example_migrated))"

lemma example_defaults: "gate_defaults (sd_gates example_migrated) = Inr example_gates"
proof -
  have "\<not> isl (gate_defaults (sd_gates example_migrated))" by code_simp
  then show ?thesis by (simp add: example_gates_def sum.collapse)
qed

lemma upgrade_keeps_history_witness: "site_history example_migrated = legacy_history (example_legacy 2)"
  by (rule upgrade_keeps_history[OF _ example_constraints(2) example_upgrade]) simp

lemma upgrade_refused_witness: "\<exists>e. upgrade_gates (\<lambda>xs. xs) (example_legacy 1) = Inl e"
  by (rule upgrade_refused[OF _ example_constraints(1), where t = "example_stay 1"]) (simp_all add: legacy_example_defs)

lemma migrated_cameras_lost_witness:
  "enqueue_snapshots_for_gate ''GIN1'' 1 ''entry'' (example_store\<lparr>gates := map gate.truncate (tb_rows example_gates)\<rparr>) =
     example_store\<lparr>gates := map gate.truncate (tb_rows example_gates)\<rparr>"
  by (rule migrated_cameras_lost[OF _ example_upgrade example_defaults]) simp_all

lemma migrated_entry_settings_witness:
  "\<exists>cfg. run_daemon_cli \<lparr>rg_gates = example_gates, rg_pos = \<lparr>tb_rows = [], tb_next = 1\<rparr>, rg_heartbeats = (\<lambda>k. None)\<rparr>
     ''GIN1'' = Inr (Some (cfg, init_gate ''GIN1'')) \<and> c_protocol cfg = Some ''compass'' \<and> \<not> has_ticket_printer cfg"
proof -
  let ?reg = "\<lparr>rg_gates = example_gates, rg_pos = \<lparr>tb_rows = [], tb_next = 1\<rparr>, rg_heartbeats = (\<lambda>k. None)\<rparr>"
  have o': "og_code example_in = ''GIN1''" "og_protocol example_in = ''compass''" "og_printer_name example_in = None"
    "example_in \<in> set (ld_gate_ins (example_legacy 2))" by (simp_all add: legacy_example_defs)
  have "gate_defaults (sd_gates example_migrated) = Inr (rg_gates ?reg)" by (simp add: example_defaults)
  note run = migrated_entry_settings[OF _ example_upgrade this o'(4), unfolded o'(1-3)]
  have perm: "\<forall>xs :: joined. mset xs = mset xs" by simp
  obtain cfg where cfg: "run_daemon_cli ?reg ''GIN1'' = Inr (Some (cfg, init_gate ''GIN1''))" "c_protocol cfg = Some ''compass''"
    "has_ticket_printer cfg \<longleftrightarrow> (None :: string option) \<noteq> None"
    using run[OF perm] by (elim exE conjE) (rule that)
  have "\<not> has_ticket_printer cfg" using cfg(3) by simp
  with cfg(1,2) show ?thesis by (intro exI[of _ cfg] conjI)
qed

end
