(* ===== verification/Spec2Isabelle.thy ===== *)
theory Spec2Isabelle
  imports Rate_Limit Sessions Composition Booth_Bridge Access Event_Hub
    Print_Jobs Maintenance Reports Registry Setup_Wizard Preflight Administration Vision
    Booth_Boot Migrations
begin

text \<open>
  A verification development for the parking system: the FastAPI backend (\<open>api/app\<close>), the gate
  daemons (\<open>daemons\<close>), the bridge on the booth PC (\<open>booth_bridge\<close>), the ARQ workers (\<open>workers\<close>) and the
  protocols of the devices (\<open>protocols\<close>).

  \<^bold>\<open>The program.\<close> A vehicle enters at an IN gate: the gate daemon drives the controller over TCP, prints
  or reads a card, and publishes events to Redis; the API's event consumer turns them into rows and
  commands. The vehicle leaves at an OUT gate: the POS frontend asks the API to price and settle the ticket
  in cash, by member card or by e-money, and the booth bridge talks to the card reader and the barrier.
  Workers print, take snapshots, generate the settlement files of the e-money payments, exchange them with
  the bank and clean up. The browsers follow over websockets. The administration edits users, gates and
  printers and reads reports.

  \<^bold>\<open>Conventions.\<close> A datetime is its microseconds since the epoch (\<open>time\<close>), a \<open>str\<close> a list of characters, a
  byte string a list of 8-bit words, a Python exception a value of \<open>py_exc\<close> and a fallible result the sum
  \<open>py_exc + 'a\<close>. Money is an integer, a float of the tariff a rational. State is passed explicitly. What is not
  in the repository (bcrypt, JWT, SHA-256, the ORM constructor, Redis, sockets, serial ports, clocks, SFTP,
  ffmpeg) is an argument: a function, or a record of the answers an operation gets (\<open>io_env\<close>, \<open>outside\<close>,
  \<open>device_io\<close>, \<open>snapshot_env\<close>, \<open>lib\<close>). Nothing is assumed of it but what a theorem's premises say. A request to the API, with its
  exchanges with Redis and the database, is one step: requests interleave whole, but for the pauses of the event consumer,
  the updates of the site configuration and the daemons' tasks, which are interleaved at each of their awaits.

  \<^bold>\<open>Shared ground.\<close>
  \<^item> \<open>Prelude\<close>: exceptions, JSON, the string operations, decimal and hexadecimal text, rows with a unique
    column, the theorem collections.
  \<^item> \<open>Framing\<close>: the contract (locale \<open>framing\<close>) of a frame at the head of a stream; both device protocols
    interpret it.
  \<^item> \<open>Schema\<close>: the rows of \<open>api/app/models\<close>, the store and the invariant \<open>store_ok\<close>: numbers are unique, and
    one ACTIVE row a barcode and a card, as the partial unique indexes have it.
  \<^item> \<open>Ledger\<close>: what any operation owes the transactions (\<open>evolves\<close>, \<open>no_new_active\<close>); the locales
    \<open>exit_service\<close> and \<open>exit_only\<close> derive from it that an open or finished transaction stays one.

  \<^bold>\<open>The API's services.\<close>
  \<^item> \<open>Tariff\<close> (\<open>services/tariff.py\<close>): the engine over rationals; it equals an integer reference price on every
    input, errors included, and is monotone in the stay.
  \<^item> \<open>Transactions\<close> (\<open>services/transaction.py\<close>, \<open>shift_utils.py\<close>, \<open>snapshot_utils.py\<close>): entry, lookup, pricing,
    completion. An entry is found by its ticket or refused.
  \<^item> \<open>Payments\<close> (\<open>services/payment.py\<close>): the four exits and the pending key in Redis; what each does on every
    branch.
  \<^item> \<open>Payment_Routes\<close> (\<open>routes/payments.py\<close>, \<open>database.py\<close>): every endpoint with validation, idempotency, commit
    and rollback. The locale \<open>service_relation\<close> lifts a relation all services respect to all requests; it is
    interpreted by \<open>evolves\<close>, by the opening of no transaction, by Redis staying as it is and by the growth of the tables.
  \<^item> \<open>Rate_Limit\<close>: the sliding windows of the middleware (Redis and its memory fallback) and of the booths,
    all interpretations of the locale \<open>sliding_window\<close>.
  \<^item> \<open>Sessions\<close> (\<open>services/worker_session.py\<close>): check-in, handover and force-leave at the booths, over the locale
    \<open>booth_service\<close>.
  \<^item> \<open>Accounts\<close> and \<open>Access\<close> (\<open>services/auth.py\<close>, \<open>services/user.py\<close>, \<open>middleware/auth.py\<close>, \<open>utils/jwt.py\<close>): login,
    rotation, revocation with its expiring deny-list (locale \<open>expiring\<close>), the guards, the administration of
    users. JWT's law is \<open>lib_ok\<close>: a signature is accepted only of a token this system minted.
  \<^item> \<open>Event_Consumer\<close> (\<open>services/event_consumer.py\<close>, \<open>gate_command.py\<close>, \<open>shared/events.py\<close>): the daemons' events and
    the commands sent back. Commands are shown to be understood by the model of the daemon itself.
  \<^item> \<open>Event_Hub\<close> (\<open>websocket/*.py\<close>): connections, the pub/sub listener, the replay of missed events.
  \<^item> \<open>Reports\<close> (\<open>routes/reports.py\<close>, the shift summary, the transaction list) and \<open>Registry\<close> (the CRUD factory,
    gates and booths, manual control, both sources of liveness), over the locale \<open>resource\<close>.
  \<^item> \<open>Administration\<close> (\<open>routes/shifts.py\<close>, \<open>shift_assignments.py\<close>, \<open>settings.py\<close>, \<open>site_config.py\<close>): the tables of the
    back office, interpretations of \<open>resource\<close>; overlapping updates of the site's single row are the step
    relation \<open>site_step\<close>.
  \<^item> \<open>Setup_Wizard\<close> (\<open>routes/setup.py\<close>, \<open>services/setup.py\<close>): the installer's token, sessions, the first administrator,
    the topology; its test of a gate is run against the model of the gate's daemon.
  \<^item> \<open>Vision\<close> (\<open>services/vision.py\<close>): the choice of the vehicle and the text of the plate.

  \<^bold>\<open>The gate daemon.\<close>
  \<^item> \<open>Tasks\<close>: coroutines as programs and the event loop as a step relation over a pool of them, with the
    reachable states; \<open>shared_invariant\<close> is an invariant every task keeps at each of its awaits.
  \<^item> \<open>Controller\<close> (\<open>protocols/compass\<close>, \<open>protocols/enet\<close>) and \<open>Passti\<close> (\<open>protocols/passti\<close>): command builders, parsers,
    transports.
  \<^item> \<open>Daemon_Base\<close> (\<open>daemons/base.py\<close>): Redis with its backoff (locale \<open>capped_backoff\<close>), the command stream.
  \<^item> \<open>Gate_In\<close> (\<open>daemons/gate_in.py\<close>): the state machine, the relay, the circuit breaker and every task, run
    interleaved; the locale \<open>gate_invariant\<close> carries the safety argument over the handlers. The turns of the listener are
    related to the frames of the pushed stream (\<open>turns\<close>, \<open>handled\<close>), and an opening read from the command stream to
    the write on the relay.

  \<^bold>\<open>The booth.\<close> \<open>Booth_Devices\<close> (serial ports, relay), \<open>Booth_Client\<close> (the HTTP client with its retries) and
  \<open>Booth_Bridge\<close> (websocket commands, card reader, supervision): a deduct is followed from the reader's bytes to
  the completed transaction of the API. \<open>Booth_Boot\<close>: the start of the process and the refresher, by which a booth that
  started without the API catches up, and all its parts drive one relay.

  \<^bold>\<open>The workers.\<close> \<open>Settlement_File\<close> and \<open>Settlement\<close> (generation in chunks, upload, reconciliation, over the locale
  \<open>settlement_job\<close>), \<open>Print_Jobs\<close> (both jobs with their retries, over the locale \<open>paper_job\<close>), \<open>Maintenance\<close> (cleaning,
  snapshots, alerts).

  \<^bold>\<open>Operations.\<close> \<open>Diagnostics\<close> (\<open>scripts/parking_doctor.py\<close>, \<open>daemons/cli.py\<close>): what a clean bill of the doctor means, where
  it agrees with the liveness map of \<open>Registry\<close> and the link of \<open>Gate_In\<close>, what its fixes may run; its verdicts are an
  instance of \<open>linorder\<close>. \<open>Settings\<close> (\<open>shared/config.py\<close>): what a production environment guarantees, the addresses. \<open>Preflight\<close>
  (\<open>scripts/preflight_check.py\<close>): what ready means. \<open>Migrations\<close> (three revisions under \<open>alembic/versions\<close>): the two old
  tables of gates become one, the transactions and logs are pointed at it, and each gate gets its defaults: an upgrade
  that succeeds keeps the history and what the daemon of each entry runs on, and on many sites it cannot succeed.

  \<^bold>\<open>Composition.\<close> \<open>Composition\<close> puts the endpoints, the event consumer and the settlement jobs on one state; the
  locale \<open>system_relation\<close> carries a relation each of them keeps through any of their sequences: the ledger, the
  methods and statuses of the rows, and that no new row of an e-money payment gets a reader or a settlement. \<open>Maintenance\<close> and \<open>Reports\<close> build on it:
  what a cleaning or a report sees is any state that system reaches.

  \<^bold>\<open>Bounds and fuel.\<close> No definition runs on fuel that a theorem has to trust: the relay's five attempts, the
  HTTP client's three, the three tries of a print job, files of 999 rows and a replay of 500 entries are the
  code's own constants. The endless loops of the daemons are programs of \<open>Tasks\<close>, run for any number of steps;
  the wait for Redis recurses on the list of answers it gets.

  \<^bold>\<open>Not modelled.\<close> Plain listings that only read a table; the cache of reference data, which nothing fills or reads,
  and the audit log, which only inserts; the exports of a report; the search for input devices and the
  cancellation of tasks at shutdown; the migrations that only change columns and indexes, seed data and one-off scripts that call other
  programs; logging and metrics; the vendored agent tooling. Models of images and OCR engines are arguments.
  Columns no modelled code reads are left out of the rows. Text outside ASCII is shortened in messages to
  people.
\<close>

end
